(* ===== verification/Mezon_Prelude.thy ===== *)
theory Mezon_Prelude
  imports Main "HOL-Library.Word" "HOL-Library.AList" "HOL-Library.Sublist"
begin

text \<open>
  Shared vocabulary of the development: the machine types of the Go source, errors as values
  with their messages and unwrapping, the reader that stands for a buffered network stream,
  big-endian decoding, and the generic list and association-list lemmas that the components use.

  A Go \<^verbatim>\<open>string\<close> is a sequence of bytes and is modelled by \<open>string\<close>, whose characters are
  bytes; a \<^verbatim>\<open>[]byte\<close> is a list of \<open>8 word\<close>. \<^verbatim>\<open>int\<close> and \<^verbatim>\<open>int64\<close> are \<open>64 word\<close> read with
  \<open>sint\<close>, \<^verbatim>\<open>int32\<close> is \<open>32 word\<close> read with \<open>sint\<close>, \<^verbatim>\<open>uint32\<close> and \<^verbatim>\<open>uint16\<close> are words read with
  \<open>unat\<close>; lengths of slices are \<open>nat\<close>.
\<close>

unbundle bit_operations_syntax

named_theorems frame_simps \<open>evaluation of wire frames\<close>
named_theorems cache_simps \<open>lookup and order laws of the cache\<close>

section \<open>Machine types\<close>

type_synonym byte = "8 word"
type_synonym bytes = "byte list"
type_synonym int64 = "64 word"
type_synonym int32 = "32 word"
type_synonym uint32 = "32 word"
type_synonym uint16 = "16 word"

definition bytes_of_string :: "string \<Rightarrow> bytes" where
  "bytes_of_string s = map of_char s"

definition string_of_bytes :: "bytes \<Rightarrow> string" where
  "string_of_bytes bs = map (\<lambda>b. char_of (unat b)) bs"

text \<open>Go's conversions between integer types: truncation to a narrower type keeps the low
  bits, conversion of a signed value to a wider one extends the sign.\<close>

definition to_int32 :: "int64 \<Rightarrow> int32" where
  "to_int32 v = ucast v"

definition of_int32 :: "int32 \<Rightarrow> int64" where
  "of_int32 v = scast v"

section \<open>Errors\<close>

text \<open>
  The sentinel errors of \<^verbatim>\<open>errors.go\<close>, the two end-of-stream errors of \<^verbatim>\<open>io\<close>, an error made by
  \<^verbatim>\<open>errors.New\<close> or \<^verbatim>\<open>fmt.Errorf\<close> from its message, and an error that wraps another one with
  \<^verbatim>\<open>%w\<close> between a prefix and a suffix.
\<close>

datatype go_error =
    ErrNotFound
  | ErrSocketClosed
  | ErrSendTimeout
  | EOF
  | ErrUnexpectedEOF
  | ErrNew string
  | ErrWrap string go_error string

type_synonym 'a result = "go_error + 'a"

fun error_string :: "go_error \<Rightarrow> string" where
  "error_string ErrNotFound = ''mezon: not found''"
| "error_string ErrSocketClosed = ''mezon: socket connection has not been established yet''"
| "error_string ErrSendTimeout = ''mezon: timed out while waiting for a response''"
| "error_string EOF = ''EOF''"
| "error_string ErrUnexpectedEOF = ''unexpected EOF''"
| "error_string (ErrNew msg) = msg"
| "error_string (ErrWrap pre e suf) = pre @ error_string e @ suf"

text \<open>\<^verbatim>\<open>errors.Is\<close> follows the chain of wrapped errors.\<close>

fun errors_is :: "go_error \<Rightarrow> go_error \<Rightarrow> bool" where
  "errors_is (ErrWrap pre e suf) target = (ErrWrap pre e suf = target \<or> errors_is e target)"
| "errors_is e target = (e = target)"

text \<open>\<^verbatim>\<open>strings.Contains\<close>.\<close>

definition str_contains :: "string \<Rightarrow> string \<Rightarrow> bool" where
  "str_contains s sub = sublist sub s"

lemma str_contains_append_left: "str_contains s sub \<Longrightarrow> str_contains (s @ t) sub"
  by (auto simp: str_contains_def sublist_def) (metis append_assoc)

section \<open>Reading a stream\<close>

text \<open>
  The bytes a connection still has to deliver form a list. \<^verbatim>\<open>ReadByte\<close> takes one byte and
  \<^verbatim>\<open>io.ReadFull\<close> a whole buffer, reporting \<open>EOF\<close> when nothing was read and
  \<open>ErrUnexpectedEOF\<close> when the stream ended inside the buffer.
\<close>

type_synonym 'a reader = "bytes \<Rightarrow> ('a \<times> bytes) result"

fun read_byte :: "byte reader" where
  "read_byte [] = Inl EOF"
| "read_byte (b # bs) = Inr (b, bs)"

definition read_full :: "nat \<Rightarrow> bytes reader" where
  "read_full n bs =
     (if n \<le> length bs then Inr (take n bs, drop n bs)
      else if bs = [] then Inl EOF else Inl ErrUnexpectedEOF)"

lemma read_full_append [frame_simps]: "length xs = n \<Longrightarrow> read_full n (xs @ ys) = Inr (xs, ys)"
  by (simp add: read_full_def)

lemma read_full_0 [frame_simps]: "read_full 0 bs = Inr ([], bs)"
  by (simp add: read_full_def)

lemma read_full_InrD:
  "read_full n bs = Inr (xs, ys) \<Longrightarrow> bs = xs @ ys \<and> length xs = n"
  by (auto simp: read_full_def split: if_splits)

lemma read_byte_InrD: "read_byte bs = Inr (b, ys) \<Longrightarrow> bs = b # ys"
  by (cases bs) auto

lemma read_full_short: "length bs < n \<Longrightarrow> \<exists>e. read_full n bs = Inl e"
  by (auto simp: read_full_def)

section \<open>Big-endian integers\<close>

text \<open>\<^verbatim>\<open>binary.BigEndian\<close>: the first byte is the most significant one. A slice of another length
  would panic in Go; every call of the source passes an exact slice.\<close>

definition be_nat :: "bytes \<Rightarrow> nat" where
  "be_nat bs = foldl (\<lambda>acc b. acc * 256 + unat b) 0 bs"

definition be_uint16 :: "bytes \<Rightarrow> uint16" where
  "be_uint16 bs = of_nat (be_nat bs)"

definition be_uint32 :: "bytes \<Rightarrow> uint32" where
  "be_uint32 bs = of_nat (be_nat bs)"

lemma be_nat_foldl: "foldl (\<lambda>acc b. acc * 256 + unat (b :: byte)) a bs = a * 256 ^ length bs + be_nat bs"
proof (induction bs arbitrary: a)
  case Nil
  show ?case by (simp add: be_nat_def)
next
  case (Cons b bs)
  have "be_nat (b # bs) = unat b * 256 ^ length bs + be_nat bs"
    using Cons.IH [of "unat b"] by (simp add: be_nat_def)
  with Cons.IH [of "a * 256 + unat b"] show ?case by (simp add: algebra_simps)
qed

lemma be_nat_Nil [simp]: "be_nat [] = 0"
  by (simp add: be_nat_def)

lemma be_nat_Cons: "be_nat (b # bs) = unat b * 256 ^ length bs + be_nat bs"
  using be_nat_foldl [of "unat b" bs] by (simp add: be_nat_def)

lemma unat_byte_less: "unat (b :: byte) < 256"
  using unsigned_less [of b] by simp

lemma be_nat_less: "be_nat bs < 256 ^ length bs"
proof (induction bs)
  case Nil
  show ?case by simp
next
  case (Cons b bs)
  have "Suc (unat b) * 256 ^ length bs \<le> 256 * 256 ^ length bs"
    using unat_byte_less [of b] by (intro mult_le_mono1) simp
  then have "unat b * 256 ^ length bs + 256 ^ length bs \<le> 256 ^ length (b # bs)" by simp
  with Cons show ?case by (simp only: be_nat_Cons)
qed

text \<open>The writing side: \<open>be_bytes k n\<close> are the \<open>k\<close> low bytes of \<open>n\<close>, most significant first.\<close>

fun be_bytes :: "nat \<Rightarrow> nat \<Rightarrow> bytes" where
  "be_bytes 0 n = []"
| "be_bytes (Suc k) n = of_nat (n div 256 ^ k) # be_bytes k n"

lemma length_be_bytes [simp]: "length (be_bytes k n) = k"
  by (induction k) auto

lemma unat_of_nat_byte: "unat (of_nat n :: byte) = n mod 256"
  by (simp add: unsigned_of_nat take_bit_eq_mod)

lemma be_nat_be_bytes: "be_nat (be_bytes k n) = n mod 256 ^ k"
proof (induction k)
  case 0
  show ?case by simp
next
  case (Suc k)
  have "n mod 256 ^ Suc k = 256 ^ k * (n div 256 ^ k mod 256) + n mod 256 ^ k"
    using mod_mult2_eq [of n "256 ^ k" 256] by (simp add: mult.commute)
  with Suc show ?case by (simp add: be_nat_Cons unat_of_nat_byte)
qed

lemma be_uint16_be_bytes [frame_simps]: "be_uint16 (be_bytes 2 (unat c)) = c"
proof -
  have "unat c < 65536" using unsigned_less [of c, where ?'a = nat] by simp
  then show ?thesis by (simp add: be_uint16_def be_nat_be_bytes)
qed

lemma be_uint32_be_bytes [frame_simps]: "be_uint32 (be_bytes 4 (unat c)) = c"
proof -
  have "unat c < 4294967296" using unsigned_less [of c, where ?'a = nat] by simp
  then show ?thesis by (simp add: be_uint32_def be_nat_be_bytes)
qed

lemma string_of_bytes_of_string [simp]: "string_of_bytes (bytes_of_string s) = s"
proof -
  have "(char_of (unat (of_char c :: byte)) :: char) = c" for c
  proof -
    have "(of_char c :: nat) < 256" using nat_of_char_less_256 [of c] .
    then have "unat (of_char c :: byte) = of_char c"
      by (metis of_nat_of_char unat_of_nat_byte mod_less)
    then show ?thesis by simp
  qed
  then show ?thesis by (simp add: string_of_bytes_def bytes_of_string_def comp_def)
qed

section \<open>Bits\<close>

lemma not_bit_nat_less:
  assumes "(a :: nat) < 2 ^ k" and "k \<le> n"
  shows "\<not> bit a n"
proof -
  have "a < 2 ^ n" using assms power_increasing [of k n "2 :: nat"] by linarith
  then show ?thesis by (simp add: bit_iff_odd)
qed

lemma or_push_bit_nat: "(a :: nat) < 2 ^ k \<Longrightarrow> a OR push_bit k b = a + 2 ^ k * b"
proof -
  assume "a < 2 ^ k"
  then have "a + push_bit k b = a OR push_bit k b"
    by (intro disjunctive_add) (auto simp: bit_push_bit_iff dest: not_bit_nat_less)
  then show ?thesis by (simp add: push_bit_eq_mult mult.commute)
qed

lemma or_three_bytes:
  assumes "(a :: nat) < 256" "b < 256"
  shows "a OR push_bit 8 b OR push_bit 16 c = a + 256 * b + 65536 * c"
proof -
  have "a OR push_bit 8 b = a + 256 * b" using or_push_bit_nat [of a 8 b] assms by simp
  moreover have "a + 256 * b < 2 ^ 16" using assms by simp
  ultimately show ?thesis using or_push_bit_nat [of "a + 256 * b" 16 c] by (simp add: or.assoc [symmetric])
qed

lemma byte_high_bit: "unat (b :: byte) < 128 \<Longrightarrow> b AND 0x80 = 0"
proof -
  assume "unat b < 128"
  then have "\<not> bit (unat b) 7" by (intro not_bit_nat_less [of _ 7]) simp_all
  then have "\<not> bit b 7" by (simp add: bit_unsigned_iff)
  moreover have "(0x80 :: byte) = 2 ^ 7" by simp
  ultimately show ?thesis by (intro bit_word_eqI) (auto simp only: bit_and_iff bit_exp_iff bit_0_eq)
qed

lemma byte_low_bits: "unat (b :: byte) < 128 \<Longrightarrow> b AND 0x7f = b"
proof -
  assume "unat b < 128"
  then have "\<not> bit b n" if "7 \<le> n" for n
    using not_bit_nat_less [of "unat b" 7 n] that by (auto simp: bit_unsigned_iff)
  then have "b AND mask 7 = b"
    by (intro bit_word_eqI) (auto simp: bit_and_iff bit_mask_iff not_le [symmetric])
  then show ?thesis by (simp add: mask_eq_exp_minus_1)
qed

lemma ucast_int32_uint16 [simp]: "ucast (ucast c :: int32) = (c :: uint16)"
  by (intro bit_word_eqI) (auto simp: bit_simps)

section \<open>Lists\<close>

lemma last_append_replicate [simp]:
  "0 < n \<Longrightarrow> last (xs @ replicate n z) = z"
  by (cases n) (simp_all add: last_replicate)

lemma distinct_remove1_set [simp]: "distinct xs \<Longrightarrow> set (remove1 x xs) = set xs - {x}"
  by simp

section \<open>Step relations\<close>

text \<open>States reachable by a labelled step relation, and the contract under which a predicate is an
  invariant of it.\<close>

inductive reachable :: "('s \<Rightarrow> bool) \<Rightarrow> ('s \<Rightarrow> 'l \<Rightarrow> 's \<Rightarrow> bool) \<Rightarrow> 's \<Rightarrow> bool"
  for init :: "'s \<Rightarrow> bool" and step :: "'s \<Rightarrow> 'l \<Rightarrow> 's \<Rightarrow> bool" where
  reachable_init: "init s \<Longrightarrow> reachable init step s"
| reachable_step: "reachable init step s \<Longrightarrow> step s l s' \<Longrightarrow> reachable init step s'"

locale step_invariant =
  fixes init :: "'s \<Rightarrow> bool" and step :: "'s \<Rightarrow> 'l \<Rightarrow> 's \<Rightarrow> bool" and inv :: "'s \<Rightarrow> bool"
  assumes inv_init: "init s \<Longrightarrow> inv s"
    and inv_step: "inv s \<Longrightarrow> step s l s' \<Longrightarrow> inv s'"
begin

lemma reachable_inv: "reachable init step s \<Longrightarrow> inv s"
  by (induction rule: reachable.induct) (auto intro: inv_init inv_step)

end

end
