(* ===== verification/Go_Ids.thy ===== *)
theory Go_Ids
  imports Mezon_Prelude
begin

text \<open>
  Identifiers. Every object of the server has a 64-bit snowflake id that crosses the wire as an
  \<^verbatim>\<open>int64\<close> and lives in the SDK as a decimal string. This theory models the two conversions of
  \<^verbatim>\<open>types.go\<close> (\<^verbatim>\<open>atoiID\<close>, \<^verbatim>\<open>itoaID\<close>) on top of \<^verbatim>\<open>strconv\<close>, whose saturation on overflow they inherit.
\<close>

section \<open>strconv\<close>

definition digit_char :: "nat \<Rightarrow> char" where
  "digit_char d = char_of (48 + d)"

fun nat_digits :: "nat \<Rightarrow> string" where
  "nat_digits n = (if n < 10 then [digit_char n] else nat_digits (n div 10) @ [digit_char (n mod 10)])"

declare nat_digits.simps [simp del]

definition FormatInt :: "int \<Rightarrow> string" where
  "FormatInt i = (if i < 0 then CHR ''-'' # nat_digits (nat (- i)) else nat_digits (nat i))"

definition is_digit :: "char \<Rightarrow> bool" where
  "is_digit c = (48 \<le> (of_char c :: nat) \<and> (of_char c :: nat) \<le> 57)"

definition digit_val :: "char \<Rightarrow> nat" where
  "digit_val c = of_char c - 48"

datatype num_error = ErrSyntax | ErrRange

text \<open>The loop of \<^verbatim>\<open>ParseUint(s, 10, 64)\<close>: the first invalid character is a syntax error, the
  first digit that leaves the 64-bit range a range error, whichever comes first.\<close>

fun parse_uint_loop :: "nat \<Rightarrow> string \<Rightarrow> num_error + nat" where
  "parse_uint_loop n [] = Inr n"
| "parse_uint_loop n (c # cs) =
     (if \<not> is_digit c then Inl ErrSyntax
      else if 2 ^ 64 \<le> n * 10 + digit_val c then Inl ErrRange
      else parse_uint_loop (n * 10 + digit_val c) cs)"

definition ParseUint :: "string \<Rightarrow> num_error + nat" where
  "ParseUint s = (if s = [] then Inl ErrSyntax else parse_uint_loop 0 s)"

text \<open>\<^verbatim>\<open>ParseInt(s, 10, 64)\<close> returns a value and an error; on a range error the value is the nearest
  representable one, on a syntax error it is zero.\<close>

definition parse_sign :: "string \<Rightarrow> bool \<times> string" where
  "parse_sign s = (case s of
       [] \<Rightarrow> (False, s)
     | c # cs \<Rightarrow> if c = CHR ''+'' then (False, cs) else if c = CHR ''-'' then (True, cs) else (False, s))"

definition ParseInt :: "string \<Rightarrow> int64 \<times> num_error option" where
  "ParseInt s =
     (if s = [] then (0, Some ErrSyntax)
      else case parse_sign s of (neg, ds) \<Rightarrow>
        (case ParseUint ds of
           Inl ErrSyntax \<Rightarrow> (0, Some ErrSyntax)
         | Inl ErrRange \<Rightarrow> (if neg then - (2 ^ 63) else 2 ^ 63 - 1, Some ErrRange)
         | Inr un \<Rightarrow>
             if \<not> neg \<and> 2 ^ 63 \<le> un then (2 ^ 63 - 1, Some ErrRange)
             else if neg \<and> 2 ^ 63 < un then (- (2 ^ 63), Some ErrRange)
             else (if neg then - of_nat un else of_nat un, None)))"

section \<open>types.go\<close>

definition atoiID :: "string \<Rightarrow> int64" where
  "atoiID s = (if s = [] then 0 else fst (ParseInt s))"

definition itoaID :: "int64 \<Rightarrow> string" where
  "itoaID v = (if v = 0 then ''0'' else FormatInt (sint v))"

section \<open>Decimal digits\<close>

lemma of_char_digit_char [simp]: "d < 10 \<Longrightarrow> (of_char (digit_char d) :: nat) = 48 + d"
  by (simp add: digit_char_def)

lemma is_digit_digit_char [simp]: "d < 10 \<Longrightarrow> is_digit (digit_char d)"
  by (simp add: is_digit_def)

lemma digit_val_digit_char [simp]: "d < 10 \<Longrightarrow> digit_val (digit_char d) = d"
  by (simp add: digit_val_def)

lemma digit_char_digit_val [simp]: "is_digit c \<Longrightarrow> digit_char (digit_val c) = c"
  by (simp add: is_digit_def digit_val_def digit_char_def)

lemma digit_val_less [simp]: "is_digit c \<Longrightarrow> digit_val c < 10"
  unfolding is_digit_def digit_val_def by linarith

lemma is_digit_not_sign [simp]: "is_digit c \<Longrightarrow> c \<noteq> CHR ''-''" "is_digit c \<Longrightarrow> c \<noteq> CHR ''+''"
  by (auto simp: is_digit_def)

lemma nat_digits_nonempty [simp]: "nat_digits n \<noteq> []"
  by (subst nat_digits.simps) simp

lemma nat_digits_are_digits: "c \<in> set (nat_digits n) \<Longrightarrow> is_digit c"
proof (induction n rule: nat_digits.induct)
  case (1 n)
  then show ?case by (cases "n < 10") (auto simp: nat_digits.simps [of n])
qed

lemma parse_sign_digits [simp]: "parse_sign (nat_digits n) = (False, nat_digits n)"
proof (cases "nat_digits n")
  case (Cons c cs)
  then have "is_digit c" using nat_digits_are_digits [of c n] by simp
  with Cons show ?thesis by (simp add: parse_sign_def)
qed simp

lemma parse_uint_loop_append:
  "parse_uint_loop n (xs @ ys) =
     (case parse_uint_loop n xs of Inl e \<Rightarrow> Inl e | Inr m \<Rightarrow> parse_uint_loop m ys)"
  by (induction n xs rule: parse_uint_loop.induct) auto

lemma parse_nat_digits: "n < 2 ^ 64 \<Longrightarrow> parse_uint_loop 0 (nat_digits n) = Inr n"
proof (induction n rule: nat_digits.induct)
  case (1 n)
  show ?case
  proof (cases "n < 10")
    case True
    then show ?thesis by (simp add: nat_digits.simps [of n])
  next
    case False
    with "1.prems" have "n div 10 < 2 ^ 64" by linarith
    with "1.IH" False have "parse_uint_loop 0 (nat_digits (n div 10)) = Inr (n div 10)" by simp
    moreover have "n div 10 * 10 + n mod 10 = n" by simp
    ultimately show ?thesis
      using False "1.prems" by (simp add: nat_digits.simps [of n] parse_uint_loop_append)
  qed
qed

lemma ParseUint_digits: "n < 2 ^ 64 \<Longrightarrow> ParseUint (nat_digits n) = Inr n"
  by (simp add: ParseUint_def parse_nat_digits)

lemma sint_int64_bounds: "- (2 ^ 63) \<le> sint (v :: int64)" "sint (v :: int64) < 2 ^ 63"
  using sint_greater_eq [of v] sint_less [of v] by simp_all

lemma ParseInt_FormatInt:
  assumes "- (2 ^ 63) \<le> i" and "i < 2 ^ 63"
  shows "ParseInt (FormatInt i) = (word_of_int i, None)"
proof (cases "i < 0")
  case True
  then have "nat (- i) \<le> 2 ^ 63" "nat (- i) < 2 ^ 64" using assms by auto
  with True show ?thesis
    by (simp add: FormatInt_def ParseInt_def parse_sign_def ParseUint_digits)
next
  case False
  then have "nat i < 2 ^ 63" "nat i < 2 ^ 64" using assms by auto
  with False show ?thesis
    by (simp add: FormatInt_def ParseInt_def ParseUint_digits)
qed

lemma atoi_itoa [simp]: "atoiID (itoaID v) = v"
proof (cases "v = 0")
  case True
  then show ?thesis
    by (simp add: itoaID_def atoiID_def ParseInt_def parse_sign_def ParseUint_def is_digit_def digit_val_def)
next
  case False
  have "FormatInt (sint v) \<noteq> []" by (simp add: FormatInt_def)
  with False show ?thesis
    using ParseInt_FormatInt [OF sint_int64_bounds [of v]] by (simp add: itoaID_def atoiID_def)
qed

lemma itoaID_inject [simp]: "itoaID v = itoaID w \<longleftrightarrow> v = w"
  by (metis atoi_itoa)

lemma FormatInt_sint_inject [simp]: "FormatInt (sint (v :: int64)) = FormatInt (sint w) \<longleftrightarrow> v = w"
proof
  assume "FormatInt (sint v) = FormatInt (sint w)"
  then have "ParseInt (FormatInt (sint v)) = ParseInt (FormatInt (sint w))" by simp
  then show "v = w"
    by (simp add: ParseInt_FormatInt [OF sint_int64_bounds])
qed simp

lemma itoaID_nonempty [simp]: "itoaID v \<noteq> []"
  by (simp add: itoaID_def FormatInt_def)

text \<open>
  Ids survive the round trip through their string form: parsing the decimal string of any
  64-bit id gives the id back, so no id is altered between the wire and the caches.
\<close>

theorem atoiID_itoaID: "atoiID (itoaID v) = v"
  by (rule atoi_itoa)

end
