(* ===== verification/Transport.thy ===== *)
theory Transport
  imports Go_Ids
begin

text \<open>
  The wire transports of \<^verbatim>\<open>transport.go\<close>: the abridged TCP framing (length header, zero padding,
  token handshake, native ping frames), the raw API-response chunks, and the WebSocket frames
  that the gateway mixes into the same stream. A connection is the list of bytes it still has
  to deliver; every reader returns the frame and the bytes left, or the error of the Go code.
\<close>

section \<open>Constants and frames\<close>

definition tcpHandshakePrefix :: byte where [simp]: "tcpHandshakePrefix = 0xef"
definition tcpPongPrefix :: byte where [simp]: "tcpPongPrefix = 0x00"
definition abridgedExtendedPrefix :: byte where [simp]: "abridgedExtendedPrefix = 0x7f"
definition maxTCPFrameSize :: nat where "maxTCPFrameSize = 64 * 2 ^ 20"
definition rawFramePrefix :: byte where [simp]: "rawFramePrefix = 0xff"
definition rawHeaderLength :: nat where [simp]: "rawHeaderLength = 7"
definition rawCodeFin :: uint32 where [simp]: "rawCodeFin = 0xff"

datatype TransportKind = TransportDefault | TransportTCP | TransportWebSocket

datatype frameKind = frameEnvelope | frameAPIChunk | framePong

record wireFrame =
  wf_kind :: frameKind
  wf_cid :: int32
  wf_code :: uint32
  wf_fin :: bool
  wf_payload :: bytes
  wf_padded :: bool

definition envelope_frame :: "bytes \<Rightarrow> bool \<Rightarrow> wireFrame" where
  "envelope_frame p pad = \<lparr>wf_kind = frameEnvelope, wf_cid = 0, wf_code = 0, wf_fin = False, wf_payload = p, wf_padded = pad\<rparr>"

definition pong_frame :: "int32 \<Rightarrow> wireFrame" where
  "pong_frame c = \<lparr>wf_kind = framePong, wf_cid = c, wf_code = 0, wf_fin = False, wf_payload = [], wf_padded = False\<rparr>"

text \<open>An API-response chunk: the high 16 bits of the code word are the response code, the low 16
  bits equal to \<open>0xff\<close> mark the last chunk.\<close>

definition api_chunk_frame :: "uint16 \<Rightarrow> uint32 \<Rightarrow> bytes \<Rightarrow> wireFrame" where
  "api_chunk_frame c w p =
     \<lparr>wf_kind = frameAPIChunk, wf_cid = ucast c, wf_code = drop_bit 16 w AND 0xffff,
      wf_fin = (w AND 0xffff = rawCodeFin), wf_payload = p, wf_padded = False\<rparr>"

section \<open>WebSocket messages\<close>

definition parseWSRawFrame :: "bytes \<Rightarrow> wireFrame option" where
  "parseWSRawFrame data =
     (if length data < rawHeaderLength then None
      else Some (api_chunk_frame (be_uint16 (take 2 (drop 1 data))) (be_uint32 (take 4 (drop 3 data)))
                   (drop rawHeaderLength data)))"

text \<open>\<^verbatim>\<open>wsConn.readFrame\<close>. The messages the WebSocket library still delivers are a list that ends
  with the error the library then reports; short raw frames are skipped.\<close>

fun ws_readFrame :: "go_error \<Rightarrow> bytes list \<Rightarrow> (wireFrame \<times> bytes list) result" where
  "ws_readFrame err [] = Inl err"
| "ws_readFrame err (data # ms) =
     (if data \<noteq> [] \<and> hd data = rawFramePrefix
      then (case parseWSRawFrame data of
              None \<Rightarrow> ws_readFrame err ms
            | Some f \<Rightarrow> Inr (f, ms))
      else Inr (envelope_frame data False, ms))"

definition ws_writePing :: "int32 \<Rightarrow> bytes result" where
  "ws_writePing c = Inl (ErrNew ''mezon: websocket transport has no native ping frame'')"

section \<open>Writing the abridged framing\<close>

definition abridged_padding :: "nat \<Rightarrow> nat" where
  "abridged_padding n = (4 - n mod 4) AND 3"

definition encodeAbridgedFrame :: "bytes \<Rightarrow> bytes" where
  "encodeAbridgedFrame p =
     (let padding = abridged_padding (length p);
          lenDiv4 = (length p + padding) div 4;
          header = (if lenDiv4 < 127 then [of_nat lenDiv4]
                    else [abridgedExtendedPrefix, of_nat lenDiv4,
                          of_nat (drop_bit 8 lenDiv4), of_nat (drop_bit 16 lenDiv4)])
      in header @ p @ replicate padding 0)"

definition tcpHandshakeFrame :: "string \<Rightarrow> bytes" where
  "tcpHandshakeFrame token = tcpHandshakePrefix # encodeAbridgedFrame (bytes_of_string token)"

text \<open>The loop counts at most three trailing zero bytes.\<close>

fun count_trailing_zeros :: "nat \<Rightarrow> bytes \<Rightarrow> nat" where
  "count_trailing_zeros 0 rb = 0"
| "count_trailing_zeros (Suc k) [] = 0"
| "count_trailing_zeros (Suc k) (b # rb) = (if b = 0 then Suc (count_trailing_zeros k rb) else 0)"

definition trimAbridgedPadding :: "bytes \<Rightarrow> bytes" where
  "trimAbridgedPadding b =
     (let maxPadding = (if length b < 3 then length b else 3);
          trimmed = count_trailing_zeros maxPadding (rev b)
      in take (length b - trimmed) b)"

text \<open>\<^verbatim>\<open>tcpConn.writeEnvelope\<close> and \<^verbatim>\<open>tcpConn.writePing\<close>: the bytes handed to the connection.\<close>

definition guard_trailing_zero :: "bytes \<Rightarrow> bytes" where
  "guard_trailing_zero data =
     (if data \<noteq> [] \<and> last data = 0 then data @ [0xf8, 0x7f, 0x01] else data)"

definition tcp_writeEnvelope :: "bytes \<Rightarrow> bytes" where
  "tcp_writeEnvelope data = encodeAbridgedFrame (guard_trailing_zero data)"

definition tcp_writePing :: "int32 \<Rightarrow> bytes" where
  "tcp_writePing c =
     [tcpPongPrefix, ucast (drop_bit 8 (ucast c :: uint16)), ucast (ucast c :: uint16)]"

section \<open>Reading the TCP stream\<close>

definition hex_digit :: "nat \<Rightarrow> char" where
  "hex_digit d = (if d < 10 then digit_char d else char_of (87 + d))"

definition hex_byte :: "byte \<Rightarrow> string" where
  "hex_byte b = [hex_digit (unat b div 16), hex_digit (unat b mod 16)]"

definition readAbridgedLength :: "byte \<Rightarrow> nat reader" where
  "readAbridgedLength pfx r =
     (if pfx < abridgedExtendedPrefix then Inr (unat pfx * 4, r)
      else if pfx \<noteq> abridgedExtendedPrefix
      then Inl (ErrNew (''mezon: unexpected abridged frame prefix 0x'' @ hex_byte pfx))
      else (case read_full 3 r of
              Inl e \<Rightarrow> Inl e
            | Inr (b, r') \<Rightarrow>
                let n = unat (b ! 0) OR push_bit 8 (unat (b ! 1)) OR push_bit 16 (unat (b ! 2))
                in if maxTCPFrameSize < n * 4
                   then Inl (ErrNew (''mezon: abridged frame length '' @ nat_digits (n * 4) @ '' exceeds limit''))
                   else Inr (n * 4, r')))"

text \<open>The length of a WebSocket frame: 7 bits, or a 16-bit or 64-bit extension.\<close>

definition ws_length :: "byte \<Rightarrow> nat reader" where
  "ws_length b2 r =
     (let l = unat (b2 AND 0x7f) in
      if l = 126 then (case read_full 2 r of Inl e \<Rightarrow> Inl e | Inr (ext, r') \<Rightarrow> Inr (be_nat ext, r'))
      else if l = 127 then (case read_full 8 r of Inl e \<Rightarrow> Inl e | Inr (ext, r') \<Rightarrow> Inr (be_nat ext, r'))
      else Inr (l, r))"

definition ws_unmask :: "bytes \<Rightarrow> bytes \<Rightarrow> bytes" where
  "ws_unmask key p = map (\<lambda>i. p ! i XOR key ! (i mod 4)) [0..<length p]"

definition readWebSocketFrame :: "byte \<Rightarrow> wireFrame option reader" where
  "readWebSocketFrame first r =
     (case read_byte r of
        Inl e \<Rightarrow> Inl e
      | Inr (b2, r1) \<Rightarrow>
          (case ws_length b2 r1 of
             Inl e \<Rightarrow> Inl e
           | Inr (len, r2) \<Rightarrow>
               if maxTCPFrameSize < len
               then Inl (ErrNew (''mezon: websocket frame length '' @ nat_digits len @ '' exceeds limit''))
               else
                 let masked = (b2 AND 0x80 \<noteq> 0) in
                 (case (if masked then read_full 4 r2 else Inr ([0, 0, 0, 0], r2)) of
                    Inl e \<Rightarrow> Inl e
                  | Inr (maskKey, r3) \<Rightarrow>
                      (case read_full len r3 of
                         Inl e \<Rightarrow> Inl e
                       | Inr (p, r4) \<Rightarrow>
                           let p' = (if masked then ws_unmask maskKey p else p);
                               opcode = first AND 0x0f
                           in if opcode = 0x2 \<or> opcode = 0x1
                              then Inr (Some (envelope_frame p' False), r4)
                              else if opcode = 0x8
                              then Inl (ErrNew ''mezon: server sent websocket close frame'')
                              else Inr (None, r4)))))"

definition read_api_chunk :: "wireFrame option reader" where
  "read_api_chunk r =
     (case read_full 10 r of
        Inl e \<Rightarrow> Inl e
      | Inr (hdr, r1) \<Rightarrow>
          let w = be_uint32 (take 4 (drop 2 hdr));
              payloadLen = unat (be_uint32 (take 4 (drop 6 hdr)))
          in if maxTCPFrameSize < payloadLen
             then Inl (ErrNew (''mezon: API frame length '' @ nat_digits payloadLen @ '' exceeds limit''))
             else (case read_full payloadLen r1 of
                     Inl e \<Rightarrow> Inl e
                   | Inr (p, r2) \<Rightarrow> Inr (Some (api_chunk_frame (be_uint16 (take 2 hdr)) w p), r2)))"

definition read_abridged_envelope :: "byte \<Rightarrow> wireFrame option reader" where
  "read_abridged_envelope pfx r =
     (case readAbridgedLength pfx r of
        Inl e \<Rightarrow> Inl e
      | Inr (n, r1) \<Rightarrow>
          (case read_full n r1 of
             Inl e \<Rightarrow> Inl e
           | Inr (p, r2) \<Rightarrow> Inr (Some (envelope_frame p True), r2)))"

text \<open>One wire frame; \<open>None\<close> stands for the Go result \<^verbatim>\<open>nil, nil\<close> of a consumed control frame.\<close>

definition readFrameOnce :: "wireFrame option reader" where
  "readFrameOnce r =
     (case read_byte r of
        Inl e \<Rightarrow> Inl e
      | Inr (pfx, r1) \<Rightarrow>
          if pfx = tcpPongPrefix
          then (case read_full 2 r1 of
                  Inl e \<Rightarrow> Inl e
                | Inr (b, r2) \<Rightarrow> Inr (Some (pong_frame (ucast (be_uint16 b))), r2))
          else if pfx = rawFramePrefix then read_api_chunk r1
          else if pfx AND 0x80 \<noteq> 0 then readWebSocketFrame pfx r1
          else read_abridged_envelope pfx r1)"

section \<open>Consumption\<close>

lemma ws_length_rest: "ws_length b r = Inr (n, r') \<Longrightarrow> \<exists>xs. r = xs @ r'"
  by (auto simp: ws_length_def Let_def split: if_splits sum.splits prod.splits dest!: read_full_InrD)

lemma readAbridgedLength_rest: "readAbridgedLength b r = Inr (n, r') \<Longrightarrow> \<exists>xs. r = xs @ r'"
  by (auto simp: readAbridgedLength_def Let_def split: if_splits sum.splits prod.splits
      dest!: read_full_InrD)

lemma readWebSocketFrame_rest: "readWebSocketFrame b r = Inr (f, r') \<Longrightarrow> \<exists>xs. r = xs @ r'"
  by (auto simp: readWebSocketFrame_def Let_def split: if_splits sum.splits prod.splits
      dest!: read_byte_InrD read_full_InrD ws_length_rest)

lemma read_api_chunk_rest: "read_api_chunk r = Inr (f, r') \<Longrightarrow> \<exists>xs. r = xs @ r'"
  by (auto simp: read_api_chunk_def Let_def split: if_splits sum.splits prod.splits
      dest!: read_full_InrD)

lemma read_abridged_envelope_rest: "read_abridged_envelope b r = Inr (f, r') \<Longrightarrow> \<exists>xs. r = xs @ r'"
  by (auto simp: read_abridged_envelope_def split: sum.splits prod.splits
      dest!: read_full_InrD readAbridgedLength_rest)

lemma readFrameOnce_rest:
  assumes "readFrameOnce r = Inr (f, r')"
  shows "\<exists>b xs. r = b # xs @ r'"
proof -
  obtain b r1 where r: "r = b # r1"
    using assms by (cases r) (auto simp: readFrameOnce_def)
  have "\<exists>xs. r1 = xs @ r'"
    using assms unfolding r
    by (auto simp: readFrameOnce_def split: if_splits sum.splits prod.splits
        dest!: read_full_InrD
        dest: read_api_chunk_rest readWebSocketFrame_rest read_abridged_envelope_rest)
  with r show ?thesis by blast
qed

text \<open>\<^verbatim>\<open>tcpConn.readFrame\<close> skips control frames. Each iteration consumes at least one byte of the
  stream, so the loop ends.\<close>

function readFrame :: "wireFrame reader" where
  "readFrame r =
     (case readFrameOnce r of
        Inl e \<Rightarrow> Inl e
      | Inr (None, r') \<Rightarrow> readFrame r'
      | Inr (Some f, r') \<Rightarrow> Inr (f, r'))"
  by pat_completeness auto
termination
  by (relation "measure length") (auto dest!: readFrameOnce_rest)

declare readFrame.simps [simp del]

section \<open>The server side\<close>

text \<open>How the gateway writes the frames the client reads, from the fixtures of
  \<^verbatim>\<open>transport_test.go\<close>: an API-response chunk and an unmasked WebSocket frame.\<close>

definition tcpAPIFrame :: "uint16 \<Rightarrow> uint16 \<Rightarrow> bool \<Rightarrow> bytes \<Rightarrow> bytes" where
  "tcpAPIFrame c respCode last_chunk p =
     (let codeWord = push_bit 16 (ucast respCode) OR (if last_chunk then rawCodeFin else 0)
      in rawFramePrefix # be_bytes 2 (unat c) @ be_bytes 4 (unat (codeWord :: uint32))
           @ be_bytes 4 (length p) @ p)"

definition wsServerFrame :: "byte \<Rightarrow> bytes \<Rightarrow> bytes" where
  "wsServerFrame opcode p =
     (0x80 OR opcode) #
     (if length p < 126 then [of_nat (length p)]
      else if length p \<le> 0xffff then [126, of_nat (drop_bit 8 (length p)), of_nat (length p)]
      else 127 # be_bytes 8 (length p)) @ p"

section \<open>Framing lemmas\<close>

lemma code_word_code [frame_simps]: "drop_bit 16 (push_bit 16 (ucast (r::uint16)) OR (if f then rawCodeFin else 0)) AND 0xffff = (ucast r :: uint32)"
proof -
  have m: "(0xffff :: uint32) = mask 16" "(0xff :: uint32) = mask 8" by (simp_all add: mask_eq_exp_minus_1)
  show ?thesis unfolding m rawCodeFin_def
    by (intro bit_word_eqI) (auto simp: bit_simps dest: bit_imp_le_length)
qed
lemma code_word_fin [frame_simps]: "(push_bit 16 (ucast (r::uint16)) OR (if f then rawCodeFin else 0)) AND 0xffff = (if f then 0xff else (0 :: uint32))"
proof -
  have m: "(0xffff :: uint32) = mask 16" "(0xff :: uint32) = mask 8" by (simp_all add: mask_eq_exp_minus_1)
  show ?thesis unfolding m rawCodeFin_def
    by (intro bit_word_eqI) (auto simp: bit_simps)
qed

lemma abridged_padding_eq: "abridged_padding n = (if n mod 4 = 0 then 0 else 4 - n mod 4)"
proof -
  have "n mod 4 = 0 \<or> n mod 4 = 1 \<or> n mod 4 = 2 \<or> n mod 4 = 3" by linarith
  then show ?thesis by (auto simp: abridged_padding_def)
qed

lemma abridged_padding_less: "abridged_padding n < 4"
  by (simp add: abridged_padding_eq)

lemma abridged_padding_dvd: "(n + abridged_padding n) div 4 * 4 = n + abridged_padding n"
proof -
  have "(n + abridged_padding n) mod 4 = 0"
    unfolding abridged_padding_eq by (cases "n mod 4 = 0") presburger+
  then show ?thesis by (simp add: mod_0_imp_dvd)
qed

definition abridged_header :: "nat \<Rightarrow> bytes" where
  "abridged_header L = (if L < 127 then [of_nat L]
     else [abridgedExtendedPrefix, of_nat L, of_nat (drop_bit 8 L), of_nat (drop_bit 16 L)])"

lemma readAbridgedLength_header:
  assumes "0 < L" "L < 2 ^ 24"
  obtains b bs where "abridged_header L = b # bs" "0 < unat b" "unat b < 128"
    "\<And>rest. readAbridgedLength b (bs @ rest) = Inr (L * 4, rest)"
proof (cases "L < 127")
  case True
  then have "unat (of_nat L :: byte) = L" by (simp add: unat_of_nat_byte)
  with True assms show ?thesis
    by (intro that [of "of_nat L" "[]"])
       (simp_all add: abridged_header_def readAbridgedLength_def word_less_nat_alt)
next
  case False
  have "L div 65536 = L div 256 div 256" by (simp add: div_mult2_eq [symmetric])
  moreover have "L div 65536 mod 256 = L div 65536" using assms(2) by simp
  ultimately have *: "L mod 256 + 256 * (L div 256 mod 256) + 65536 * (L div 65536 mod 256) = L"
    using div_mult_mod_eq [of L 256] div_mult_mod_eq [of "L div 256" 256] by linarith
  have "readAbridgedLength 0x7f ([of_nat L, of_nat (drop_bit 8 L), of_nat (drop_bit 16 L)] @ rest) = Inr (L * 4, rest)"
    for rest
    using assms(2) *
    by (simp add: readAbridgedLength_def read_full_def numeral_3_eq_3 or_three_bytes unat_of_nat_byte
        drop_bit_eq_div maxTCPFrameSize_def Let_def)
  with False show ?thesis
    by (intro that [of "0x7f" "[of_nat L, of_nat (drop_bit 8 L), of_nat (drop_bit 16 L)]"])
       (simp_all add: abridged_header_def)
qed

lemma encodeAbridgedFrame_eq:
  "encodeAbridgedFrame p =
     abridged_header ((length p + abridged_padding (length p)) div 4) @ p @
     replicate (abridged_padding (length p)) 0"
  by (simp add: encodeAbridgedFrame_def abridged_header_def Let_def)

lemma abridged_units_bounds:
  assumes "p \<noteq> []" "length p \<le> 4 * (2 ^ 24 - 1)"
  shows "0 < (length p + abridged_padding (length p)) div 4"
    and "(length p + abridged_padding (length p)) div 4 < 2 ^ 24"
proof -
  have "0 < length p + abridged_padding (length p)" using assms(1) by simp
  then show "0 < (length p + abridged_padding (length p)) div 4"
    using abridged_padding_dvd [of "length p"] by (metis div_greater_zero_iff gr_zeroI mult_0 less_irrefl)
  show "(length p + abridged_padding (length p)) div 4 < 2 ^ 24"
    using assms(2) abridged_padding_less [of "length p"] by simp
qed

lemma readFrameOnce_abridged:
  assumes "p \<noteq> []" "length p \<le> 4 * (2 ^ 24 - 1)"
  shows "readFrameOnce (encodeAbridgedFrame p @ rest) =
           Inr (Some (envelope_frame (p @ replicate (abridged_padding (length p)) 0) True), rest)"
proof -
  let ?pad = "abridged_padding (length p)"
  let ?L = "(length p + ?pad) div 4"
  obtain b bs where h: "abridged_header ?L = b # bs" "0 < unat b" "unat b < 128"
    and len: "\<And>rest. readAbridgedLength b (bs @ rest) = Inr (?L * 4, rest)"
    using readAbridgedLength_header [OF abridged_units_bounds [OF assms]] by blast
  have "b \<noteq> 0" "b \<noteq> 0xff" using h(2,3) by auto
  moreover have "read_full (?L * 4) ((p @ replicate ?pad 0) @ rest) = Inr (p @ replicate ?pad 0, rest)"
    by (rule read_full_append) (simp add: abridged_padding_dvd)
  ultimately show ?thesis
    using len [of "(p @ replicate ?pad 0) @ rest"] h(3)
    by (simp add: encodeAbridgedFrame_eq h(1) readFrameOnce_def read_abridged_envelope_def byte_high_bit)
qed

section \<open>Padding\<close>

lemma count_trailing_zeros_replicate:
  "x \<noteq> 0 \<Longrightarrow> n \<le> m \<Longrightarrow> count_trailing_zeros m (replicate n 0 @ x # xs) = n"
proof (induction n arbitrary: m)
  case 0
  then show ?case by (cases m) auto
next
  case (Suc n)
  then show ?case by (cases m) auto
qed

lemma trimAbridgedPadding_append_zeros:
  assumes "data \<noteq> []" "last data \<noteq> 0" "n \<le> 3"
  shows "trimAbridgedPadding (data @ replicate n 0) = data"
proof -
  obtain xs x where d: "data = xs @ [x]" and x: "x \<noteq> 0"
    using assms(1,2) by (cases data rule: rev_cases) auto
  have "count_trailing_zeros m (rev (data @ replicate n 0)) = n" if "n \<le> m" for m
    using count_trailing_zeros_replicate [OF x that, of "rev xs"] by (simp add: d)
  then show ?thesis using assms(3) by (simp add: trimAbridgedPadding_def Let_def d)
qed

lemma guard_trailing_zero_last: "data \<noteq> [] \<Longrightarrow> last (guard_trailing_zero data) \<noteq> 0"
  by (simp add: guard_trailing_zero_def)

lemma guard_trailing_zero_nonempty: "data \<noteq> [] \<Longrightarrow> guard_trailing_zero data \<noteq> []"
  by (simp add: guard_trailing_zero_def)

lemma length_guard_trailing_zero: "length (guard_trailing_zero data) \<le> length data + 3"
  by (simp add: guard_trailing_zero_def)

section \<open>The other frames\<close>

lemma be_bytes_2: "be_bytes 2 n = [of_nat (n div 256), of_nat n]"
  by (simp add: numeral_2_eq_2)

lemma pong_bytes: "tcp_writePing (ucast c) = 0 # be_bytes 2 (unat c)" for c :: uint16
proof -
  have "(of_nat (unat c div 256) :: byte) = ucast (drop_bit 8 c)"
    by (simp add: unat_drop_bit_eq [symmetric, of 8 c, simplified drop_bit_eq_div, simplified] drop_bit_eq_div)
  then show ?thesis by (simp add: tcp_writePing_def be_bytes_2)
qed

lemma readFrameOnce_pong:
  "readFrameOnce (tcp_writePing (ucast c) @ rest) = Inr (Some (pong_frame (ucast (c :: uint16))), rest)"
  by (simp add: pong_bytes readFrameOnce_def read_full_append be_uint16_be_bytes)

lemma readFrameOnce_api:
  assumes "length p \<le> maxTCPFrameSize"
  shows "readFrameOnce (tcpAPIFrame c respCode last_chunk p @ rest) =
           Inr (Some \<lparr>wf_kind = frameAPIChunk, wf_cid = ucast c, wf_code = ucast respCode,
                      wf_fin = last_chunk, wf_payload = p, wf_padded = False\<rparr>, rest)"
proof -
  let ?w = "push_bit 16 (ucast respCode) OR (if last_chunk then rawCodeFin else 0) :: uint32"
  let ?hdr = "be_bytes 2 (unat c) @ be_bytes 4 (unat ?w) @ be_bytes 4 (length p)"
  have "unat (be_uint32 (be_bytes 4 (length p))) = length p"
    using assms by (simp add: be_uint32_def be_nat_be_bytes maxTCPFrameSize_def unsigned_of_nat take_bit_eq_mod)
  moreover have "read_full 10 (?hdr @ p @ rest) = Inr (?hdr, p @ rest)"
    by (rule read_full_append) simp
  ultimately have "read_api_chunk (?hdr @ p @ rest) = Inr (Some (api_chunk_frame c ?w p), rest)"
    using assms
    by (simp add: read_api_chunk_def frame_simps del: rawCodeFin_def)
  moreover have "api_chunk_frame c ?w p =
    \<lparr>wf_kind = frameAPIChunk, wf_cid = ucast c, wf_code = ucast respCode,
     wf_fin = last_chunk, wf_payload = p, wf_padded = False\<rparr>"
    unfolding api_chunk_frame_def code_word_code code_word_fin by simp
  ultimately show ?thesis
    by (simp add: tcpAPIFrame_def readFrameOnce_def Let_def del: rawCodeFin_def)
qed

lemma ws_length_server:
  assumes "length p \<le> maxTCPFrameSize"
  obtains b2 bs where "wsServerFrame opcode p = (0x80 OR opcode) # b2 # bs @ p"
    "unat b2 < 128" "\<And>rest. ws_length b2 (bs @ rest) = Inr (length p, rest)"
proof -
  consider "length p < 126" | "126 \<le> length p" "length p \<le> 0xffff" | "0xffff < length p" by linarith
  then show ?thesis
  proof cases
    case 1
    then have u: "unat (of_nat (length p) :: byte) = length p" by (simp add: unat_of_nat_byte)
    with 1 show ?thesis
      by (intro that [of "of_nat (length p)" "[]"])
         (simp_all add: wsServerFrame_def ws_length_def byte_low_bits)
  next
    case 2
    have "ws_length 126 (be_bytes 2 (length p) @ rest) = Inr (length p, rest)" for rest
      using 2 by (simp add: ws_length_def read_full_append be_nat_be_bytes)
    with 2 show ?thesis
      by (intro that [of 126 "be_bytes 2 (length p)"])
         (simp_all add: wsServerFrame_def be_bytes_2 drop_bit_eq_div)
  next
    case 3
    have "ws_length 127 (be_bytes 8 (length p) @ rest) = Inr (length p, rest)" for rest
      using assms by (simp add: ws_length_def read_full_append be_nat_be_bytes maxTCPFrameSize_def)
    with 3 show ?thesis
      by (intro that [of 127 "be_bytes 8 (length p)"]) (simp_all add: wsServerFrame_def)
  qed
qed

lemma readWebSocketFrame_server:
  assumes "length p \<le> maxTCPFrameSize"
  obtains bs where "wsServerFrame opcode p = (0x80 OR opcode) # bs"
    "\<And>first rest. readWebSocketFrame first (bs @ rest) =
       (let op = first AND 0x0f in
        if op = 0x2 \<or> op = 0x1 then Inr (Some (envelope_frame p False), rest)
        else if op = 0x8 then Inl (ErrNew ''mezon: server sent websocket close frame'')
        else Inr (None, rest))"
proof -
  obtain b2 bs where ws: "wsServerFrame opcode p = (0x80 OR opcode) # b2 # bs @ p"
    and b2: "unat b2 < 128" and len: "\<And>rest. ws_length b2 (bs @ rest) = Inr (length p, rest)"
    using ws_length_server [OF assms] by blast
  show ?thesis
    using assms b2 len
    by (intro that [of "b2 # bs @ p"])
       (simp_all add: ws readWebSocketFrame_def byte_high_bit read_full_append Let_def)
qed

lemma readFrameOnce_ws_opcode:
  assumes "length p \<le> maxTCPFrameSize" "opcode \<in> {0x0, 0x1, 0x2, 0x8, 0x9, 0xa}"
  shows "readFrameOnce (wsServerFrame opcode p @ rest) =
           (if opcode = 0x1 \<or> opcode = 0x2 then Inr (Some (envelope_frame p False), rest)
            else if opcode = 0x8 then Inl (ErrNew ''mezon: server sent websocket close frame'')
            else Inr (None, rest))"
proof -
  obtain bs where "wsServerFrame opcode p = (0x80 OR opcode) # bs"
    "\<And>first rest. readWebSocketFrame first (bs @ rest) =
       (let op = first AND 0x0f in
        if op = 0x2 \<or> op = 0x1 then Inr (Some (envelope_frame p False), rest)
        else if op = 0x8 then Inl (ErrNew ''mezon: server sent websocket close frame'')
        else Inr (None, rest))"
    using readWebSocketFrame_server [OF assms(1)] by blast
  then show ?thesis using assms(2) by (auto simp: readFrameOnce_def Let_def)
qed

section \<open>Streams of frames\<close>

text \<open>Reading \<open>n\<close> frames one after the other.\<close>

fun read_n :: "nat \<Rightarrow> 'a reader \<Rightarrow> 'a list reader" where
  "read_n 0 dec r = Inr ([], r)"
| "read_n (Suc n) dec r =
     (case dec r of
        Inl e \<Rightarrow> Inl e
      | Inr (x, r') \<Rightarrow> (case read_n n dec r' of Inl e \<Rightarrow> Inl e | Inr (xs, r'') \<Rightarrow> Inr (x # xs, r'')))"

text \<open>
  The contract between the two ends of a connection: what one end writes for a message, the
  other end reads back as its view of that message, leaving exactly the bytes that follow.
\<close>

locale frame_codec =
  fixes enc :: "'a \<Rightarrow> bytes"
    and dec :: "'b reader"
    and ok :: "'a \<Rightarrow> bool"
    and view :: "'a \<Rightarrow> 'b"
  assumes dec_enc: "ok x \<Longrightarrow> dec (enc x @ rest) = Inr (view x, rest)"
begin

lemma read_stream:
  "list_all ok xs \<Longrightarrow> read_n (length xs) dec (concat (map enc xs) @ rest) = Inr (map view xs, rest)"
  by (induction xs) (simp_all add: dec_enc)

lemma unambiguous:
  assumes "ok x" "ok y" "enc x @ r = enc y @ s"
  shows "view x = view y \<and> r = s"
  using dec_enc [OF assms(1), of r] dec_enc [OF assms(2), of s] assms(3) by simp

end

text \<open>Everything the gateway may put on the stream: abridged envelopes, pongs, API-response chunks
  and WebSocket pushes, each after any number of control frames that are to be skipped.\<close>

datatype server_frame =
    SrvEnvelope bytes
  | SrvPong uint16
  | SrvApi uint16 uint16 bool bytes
  | SrvPush byte bytes

fun server_bytes :: "server_frame \<Rightarrow> bytes" where
  "server_bytes (SrvEnvelope p) = encodeAbridgedFrame p"
| "server_bytes (SrvPong c) = tcp_writePing (ucast c)"
| "server_bytes (SrvApi c respCode last_chunk p) = tcpAPIFrame c respCode last_chunk p"
| "server_bytes (SrvPush opcode p) = wsServerFrame opcode p"

fun server_view :: "server_frame \<Rightarrow> wireFrame" where
  "server_view (SrvEnvelope p) = envelope_frame (p @ replicate (abridged_padding (length p)) 0) True"
| "server_view (SrvPong c) = pong_frame (ucast c)"
| "server_view (SrvApi c respCode last_chunk p) =
     \<lparr>wf_kind = frameAPIChunk, wf_cid = ucast c, wf_code = ucast respCode,
      wf_fin = last_chunk, wf_payload = p, wf_padded = False\<rparr>"
| "server_view (SrvPush opcode p) = envelope_frame p False"

fun server_ok :: "server_frame \<Rightarrow> bool" where
  "server_ok (SrvEnvelope p) = (p \<noteq> [] \<and> length p \<le> 4 * (2 ^ 24 - 1))"
| "server_ok (SrvPong c) = True"
| "server_ok (SrvApi c respCode last_chunk p) = (length p \<le> maxTCPFrameSize)"
| "server_ok (SrvPush opcode p) = ((opcode = 0x1 \<or> opcode = 0x2) \<and> length p \<le> maxTCPFrameSize)"

definition control_ok :: "byte \<times> bytes \<Rightarrow> bool" where
  "control_ok = (\<lambda>(opcode, p). (opcode = 0x0 \<or> opcode = 0x9 \<or> opcode = 0xa) \<and> length p \<le> maxTCPFrameSize)"

definition stream_item_bytes :: "(byte \<times> bytes) list \<times> server_frame \<Rightarrow> bytes" where
  "stream_item_bytes = (\<lambda>(cs, f). concat (map (\<lambda>(opcode, p). wsServerFrame opcode p) cs) @ server_bytes f)"

definition stream_item_ok :: "(byte \<times> bytes) list \<times> server_frame \<Rightarrow> bool" where
  "stream_item_ok = (\<lambda>(cs, f). list_all control_ok cs \<and> server_ok f)"

lemma readFrameOnce_server: "server_ok f \<Longrightarrow> readFrameOnce (server_bytes f @ rest) = Inr (Some (server_view f), rest)"
  by (cases f) (auto simp: readFrameOnce_abridged readFrameOnce_pong readFrameOnce_api readFrameOnce_ws_opcode)

lemma readFrame_controls:
  "list_all control_ok cs \<Longrightarrow>
     readFrame (concat (map (\<lambda>(opcode, p). wsServerFrame opcode p) cs) @ r) = readFrame r"
proof (induction cs)
  case (Cons c cs)
  then show ?case
    by (cases c) (subst readFrame.simps, auto simp: control_ok_def readFrameOnce_ws_opcode)
qed simp

lemma readFrame_item:
  "stream_item_ok x \<Longrightarrow> readFrame (stream_item_bytes x @ rest) = Inr (server_view (snd x), rest)"
  by (cases x) (simp add: stream_item_ok_def stream_item_bytes_def readFrame_controls
      readFrame.simps [of "server_bytes _ @ _"] readFrameOnce_server)

interpretation gateway: frame_codec stream_item_bytes readFrame stream_item_ok "server_view \<circ> snd"
  by unfold_locales (simp add: readFrame_item)

interpretation handshake: frame_codec encodeAbridgedFrame readFrameOnce
  "\<lambda>p. p \<noteq> [] \<and> length p \<le> 4 * (2 ^ 24 - 1)"
  "\<lambda>p. Some (envelope_frame (p @ replicate (abridged_padding (length p)) 0) True)"
  by unfold_locales (simp add: readFrameOnce_abridged)

section \<open>Bounds\<close>

lemma readAbridgedLength_le:
  "readAbridgedLength b r = Inr (n, r') \<Longrightarrow> (\<exists>xs. r = xs @ r') \<and> n \<le> maxTCPFrameSize"
proof -
  assume *: "readAbridgedLength b r = Inr (n, r')"
  have "unat b * 4 \<le> maxTCPFrameSize"
    using unat_byte_less [of b] by (simp add: maxTCPFrameSize_def)
  with * have "n \<le> maxTCPFrameSize"
    by (auto simp: readAbridgedLength_def Let_def split: if_splits sum.splits prod.splits)
  with readAbridgedLength_rest [OF *] show ?thesis by simp
qed

lemma length_ws_unmask [simp]: "length (ws_unmask key p) = length p"
  by (simp add: ws_unmask_def)

lemma ws_unmask_involutive: "length p = n \<Longrightarrow> ws_unmask key (ws_unmask key p) = p"
  by (intro nth_equalityI) (simp_all add: ws_unmask_def xor.assoc)

text \<open>How the bytes of a frame, a header and a body, make the frame: the header has the size of its kind, and the payload is the
  body as it came, or XORed with the key in the header when the frame is a WebSocket frame whose mask bit is set.\<close>

definition made_of :: "wireFrame \<Rightarrow> bytes \<Rightarrow> bytes \<Rightarrow> bool" where
  "made_of f h body \<longleftrightarrow> length (wf_payload f) = length body \<and> (case wf_kind f of
      framePong \<Rightarrow> length h = 3 \<and> body = []
    | frameAPIChunk \<Rightarrow> length h = 11 \<and> wf_payload f = body
    | frameEnvelope \<Rightarrow>
        (if wf_padded f then (length h = 1 \<or> length h = 4) \<and> wf_payload f = body
         else \<exists>b1 b2 ext key. h = [b1, b2] @ ext @ key \<and> length ext \<in> {0, 2, 8} \<and>
           (if b2 AND 0x80 = 0 then key = [] \<and> wf_payload f = body
            else length key = 4 \<and> (\<forall>i < length body. wf_payload f ! i = body ! i XOR key ! (i mod 4)))))"

lemma ws_length_ext: "ws_length b r = Inr (n, r') \<Longrightarrow> \<exists>ext. r = ext @ r' \<and> length ext \<in> {0, 2, 8}"
  by (auto simp: ws_length_def Let_def split: if_splits sum.splits prod.splits dest!: read_full_InrD)

lemma readAbridgedLength_ext: "readAbridgedLength b r = Inr (n, r') \<Longrightarrow> \<exists>ext. r = ext @ r' \<and> (length ext = 0 \<or> length ext = 3)"
  by (auto simp: readAbridgedLength_def Let_def split: if_splits sum.splits prod.splits dest!: read_full_InrD)

lemma readWebSocketFrame_made:
  assumes "readWebSocketFrame b r = Inr (Some f, r')"
  shows "\<exists>h body. r = h @ body @ r' \<and> made_of f (b # h) body \<and> length body \<le> maxTCPFrameSize"
proof -
  obtain b2 r1 n r2 where 1: "r = b2 # r1" "ws_length b2 r1 = Inr (n, r2)" "n \<le> maxTCPFrameSize"
    using assms by (auto simp: readWebSocketFrame_def split: sum.splits prod.splits if_splits dest!: read_byte_InrD)
  obtain ext where ext: "r1 = ext @ r2" "length ext \<in> {0, 2, 8}" using ws_length_ext [OF 1(2)] by blast
  show ?thesis
  proof (cases "b2 AND 0x80 = 0")
    case True
    with assms 1 obtain p where p: "read_full n r2 = Inr (p, r')" "f = envelope_frame p False"
      by (auto simp: readWebSocketFrame_def Let_def split: sum.splits prod.splits if_splits)
    from read_full_InrD [OF p(1)] 1 ext True show ?thesis
      by (intro exI [of _ "b2 # ext"] exI [of _ p]) (auto simp: p(2) made_of_def envelope_frame_def)
  next
    case False
    with assms 1 obtain key r3 p where p: "read_full 4 r2 = Inr (key, r3)" "read_full n r3 = Inr (p, r')" "f = envelope_frame (ws_unmask key p) False"
      by (auto simp: readWebSocketFrame_def Let_def split: sum.splits prod.splits if_splits)
    from read_full_InrD [OF p(1)] read_full_InrD [OF p(2)] 1 ext False show ?thesis
      by (intro exI [of _ "b2 # ext @ key"] exI [of _ p]) (auto simp: p(3) made_of_def envelope_frame_def ws_unmask_def)
  qed
qed

lemma readFrameOnce_made:
  assumes "readFrameOnce r = Inr (Some f, r')"
  shows "\<exists>h body. r = h @ body @ r' \<and> h \<noteq> [] \<and> made_of f h body \<and> length body \<le> maxTCPFrameSize"
proof -
  obtain b r1 where r: "r = b # r1"
    using assms by (cases r) (auto simp: readFrameOnce_def)
  consider (pong) "b = 0" | (api) "b = 0xff" | (ws) "b \<noteq> 0" "b \<noteq> 0xff" "b AND 0x80 \<noteq> 0"
    | (abridged) "b \<noteq> 0" "b \<noteq> 0xff" "b AND 0x80 = 0" by blast
  then show ?thesis
  proof cases
    case pong
    with assms obtain c p where "read_full 2 r1 = Inr (c, r')" "f = pong_frame p"
      by (auto simp: r readFrameOnce_def split: sum.splits)
    then show ?thesis
      by (intro exI [of _ "b # c"] exI [of _ "[]"]) (auto simp: r made_of_def pong_frame_def dest!: read_full_InrD)
  next
    case api
    with assms have "read_api_chunk r1 = Inr (Some f, r')" by (simp add: r readFrameOnce_def)
    then obtain hdr r2 p n where p: "read_full 10 r1 = Inr (hdr, r2)" "read_full n r2 = Inr (p, r')" "n \<le> maxTCPFrameSize"
        "wf_kind f = frameAPIChunk" "wf_payload f = p"
      by (auto simp: read_api_chunk_def api_chunk_frame_def Let_def split: if_splits sum.splits prod.splits)
    from read_full_InrD [OF p(1)] read_full_InrD [OF p(2)] show ?thesis
      by (intro exI [of _ "b # hdr"] exI [of _ p]) (use p(3-5) in \<open>simp add: r made_of_def\<close>)
  next
    case ws
    with assms have "readWebSocketFrame b r1 = Inr (Some f, r')" by (simp add: r readFrameOnce_def)
    from readWebSocketFrame_made [OF this] show ?thesis unfolding r by (metis append_Cons list.distinct(1))
  next
    case abridged
    with assms have "read_abridged_envelope b r1 = Inr (Some f, r')" by (simp add: r readFrameOnce_def)
    then obtain n r2 p where p: "readAbridgedLength b r1 = Inr (n, r2)" "read_full n r2 = Inr (p, r')" "f = envelope_frame p True"
      by (auto simp: read_abridged_envelope_def split: sum.splits prod.splits)
    obtain ext where "r1 = ext @ r2" "length ext = 0 \<or> length ext = 3" using readAbridgedLength_ext [OF p(1)] by blast
    with read_full_InrD [OF p(2)] readAbridgedLength_le [OF p(1)] show ?thesis
      by (intro exI [of _ "b # ext"] exI [of _ p]) (auto simp: r p(3) made_of_def envelope_frame_def)
  qed
qed

text \<open>Control frames are skipped before a frame.\<close>

inductive skips :: "bytes \<Rightarrow> bytes \<Rightarrow> bool" where
  skips_none: "skips r r"
| skips_control: "readFrameOnce r = Inr (None, r1) \<Longrightarrow> skips r1 r2 \<Longrightarrow> skips r r2"

lemma skips_rest: "skips r r1 \<Longrightarrow> \<exists>xs. r = xs @ r1"
  by (induction rule: skips.induct) (auto dest!: readFrameOnce_rest)

lemma readFrame_made:
  "readFrame r = Inr (f, r') \<Longrightarrow> \<exists>r1 h body. skips r r1 \<and> r1 = h @ body @ r' \<and> h \<noteq> [] \<and> made_of f h body \<and> length body \<le> maxTCPFrameSize"
proof (induction r rule: readFrame.induct)
  case (1 r)
  show ?case
  proof (cases "readFrameOnce r")
    case (Inl e)
    with "1.prems" show ?thesis by (simp add: readFrame.simps [of r])
  next
    case (Inr p)
    obtain fo r1 where p: "p = (fo, r1)" by (cases p)
    show ?thesis
    proof (cases fo)
      case None
      with Inr p "1.prems" "1.IH" have "\<exists>r2 h body. skips r1 r2 \<and> r2 = h @ body @ r' \<and> h \<noteq> [] \<and> made_of f h body \<and> length body \<le> maxTCPFrameSize"
        by (simp add: readFrame.simps [of r])
      with Inr p None show ?thesis by (metis skips_control)
    next
      case (Some g)
      with Inr p "1.prems" have "readFrameOnce r = Inr (Some f, r')" by (simp add: readFrame.simps [of r])
      from readFrameOnce_made [OF this] show ?thesis by (metis skips_none)
    qed
  qed
qed

section \<open>Properties\<close>

text \<open>
  C3. The stream never loses synchronisation: whatever mix of abridged envelopes, pongs,
  API-response chunks and WebSocket pushes the gateway writes, with skipped control frames
  anywhere between them, reading frame by frame yields exactly those frames, in order, and
  leaves exactly the bytes that follow them.
\<close>

theorem readFrame_stream_in_sync:
  "list_all stream_item_ok xs \<Longrightarrow>
     read_n (length xs) readFrame (concat (map stream_item_bytes xs) @ rest) =
       Inr (map (server_view \<circ> snd) xs, rest)"
  by (rule gateway.read_stream)

theorem readFrame_stream_in_sync_witness:
  "read_n 4 readFrame
     (concat (map stream_item_bytes
        [([(0x9, [1, 2])], SrvEnvelope [5, 6, 7, 8, 9]), ([], SrvPong 0x1234),
         ([], SrvApi 9 7 True [1]), ([(0x0, []), (0xa, [])], SrvPush 0x2 [3])]) @ [0x42]) =
   Inr ([envelope_frame [5, 6, 7, 8, 9, 0, 0, 0] True, pong_frame 0x1234,
         \<lparr>wf_kind = frameAPIChunk, wf_cid = 9, wf_code = 7, wf_fin = True, wf_payload = [1],
          wf_padded = False\<rparr>, envelope_frame [3] False], [0x42])"
proof -
  let ?xs = "[([(0x9, [1, 2])], SrvEnvelope [5, 6, 7, 8, 9]), ([], SrvPong 0x1234),
    ([], SrvApi 9 7 True [1]), ([(0x0, []), (0xa, [])], SrvPush 0x2 [3])]"
  have "list_all stream_item_ok ?xs"
    by (simp add: stream_item_ok_def control_ok_def maxTCPFrameSize_def)
  note in_sync = readFrame_stream_in_sync [OF this, of "[0x42]"]
  have four: "length ?xs = 4" by simp
  have "replicate 3 (0 :: byte) = [0, 0, 0]" by (simp add: numeral_eq_Suc)
  then have view: "map (server_view \<circ> snd) ?xs =
    [envelope_frame [5, 6, 7, 8, 9, 0, 0, 0] True, pong_frame 0x1234,
     \<lparr>wf_kind = frameAPIChunk, wf_cid = 9, wf_code = 7, wf_fin = True, wf_payload = [1],
      wf_padded = False\<rparr>, envelope_frame [3] False]"
    by (simp add: abridged_padding_def)
  show ?thesis using in_sync unfolding four view .
qed

text \<open>
  C4. An outgoing envelope survives the gateway, which strips trailing zero bytes as padding: the
  payload the gateway reads and trims is the marshaled envelope, followed by the unknown field
  \<open>f8 7f 01\<close> exactly when the envelope ended with a zero byte.
\<close>

theorem writeEnvelope_survives_trim:
  assumes "data \<noteq> []" "length data \<le> 4 * (2 ^ 24 - 1) - 3"
  shows "\<exists>f. readFrameOnce (tcp_writeEnvelope data @ rest) = Inr (Some f, rest) \<and>
             wf_kind f = frameEnvelope \<and>
             trimAbridgedPadding (wf_payload f) =
               (if last data = 0 then data @ [0xf8, 0x7f, 0x01] else data)"
proof -
  let ?d = "guard_trailing_zero data"
  have "?d \<noteq> []" "last ?d \<noteq> 0" "length ?d \<le> 4 * (2 ^ 24 - 1)"
    using assms guard_trailing_zero_nonempty guard_trailing_zero_last length_guard_trailing_zero [of data]
    by auto
  moreover have "abridged_padding (length ?d) \<le> 3"
    using abridged_padding_less [of "length ?d"] by simp
  moreover have "?d = (if last data = 0 then data @ [0xf8, 0x7f, 0x01] else data)"
    using assms(1) by (simp add: guard_trailing_zero_def)
  ultimately show ?thesis
    using readFrameOnce_abridged [of ?d rest] trimAbridgedPadding_append_zeros [of ?d]
    by (auto simp: tcp_writeEnvelope_def envelope_frame_def)
qed

theorem writeEnvelope_survives_trim_witness:
  "\<exists>f. readFrameOnce (tcp_writeEnvelope [0x08, 0x01, 0x1a, 0x00] @ [7]) = Inr (Some f, [7]) \<and>
       wf_kind f = frameEnvelope \<and>
       trimAbridgedPadding (wf_payload f) = [0x08, 0x01, 0x1a, 0x00, 0xf8, 0x7f, 0x01]"
  using writeEnvelope_survives_trim [of "[0x08, 0x01, 0x1a, 0x00]" "[7]"] by simp

text \<open>
  C5. Whatever the stream holds, a frame that is read was taken from the bytes that were consumed: after some
  skipped control frames these are a header of the size of the frame's kind and a body, and the payload is that body (unmasked with
  the key of the header, for a masked WebSocket frame). What follows on the stream is left as it was, every read
  consumes something, and no payload exceeds 64 MiB.
\<close>

theorem readFrame_takes_consumed_bytes:
  assumes "readFrame r = Inr (f, r')"
  shows "\<exists>r1 h body. skips r r1 \<and> r1 = h @ body @ r' \<and> made_of f h body \<and>
    length (wf_payload f) \<le> 64 * 1024 * 1024 \<and> length (wf_payload f) + length r' < length r"
proof -
  obtain r1 h body where r1: "skips r r1" "r1 = h @ body @ r'" "h \<noteq> []" "made_of f h body" "length body \<le> maxTCPFrameSize"
    using readFrame_made [OF assms] by blast
  obtain xs where "r = xs @ r1" using skips_rest [OF r1(1)] by blast
  moreover have "length (wf_payload f) = length body" using r1(4) by (simp add: made_of_def)
  ultimately show ?thesis
    using r1 by (intro exI [of _ r1] exI [of _ h] exI [of _ body]) (simp add: maxTCPFrameSize_def)
qed

text \<open>A masked WebSocket frame behind a control frame.\<close>

theorem readFrame_takes_consumed_bytes_witness:
  "\<exists>r1 h body. skips [0x89, 0, 0x82, 0x82, 1, 2, 3, 4, 7, 8, 9] r1 \<and> r1 = h @ body @ [9] \<and>
     made_of (envelope_frame [6, 10] False) h body"
proof -
  have "[0..<2] = [0, Suc 0]" by (simp add: upt_rec)
  then have "readFrameOnce [0x82, 0x82, 1, 2, 3, 4, 7, 8, 9] = Inr (Some (envelope_frame [6, 10] False), [9])"
    by (simp add: readFrameOnce_def readWebSocketFrame_def ws_length_def read_full_def ws_unmask_def maxTCPFrameSize_def)
  moreover have "readFrameOnce [0x89, 0, 0x82, 0x82, 1, 2, 3, 4, 7, 8, 9] = Inr (None, [0x82, 0x82, 1, 2, 3, 4, 7, 8, 9])"
    by (simp add: readFrameOnce_def readWebSocketFrame_def ws_length_def read_full_def)
  ultimately have "readFrame [0x89, 0, 0x82, 0x82, 1, 2, 3, 4, 7, 8, 9] = Inr (envelope_frame [6, 10] False, [9])"
    by (subst readFrame.simps, simp, subst readFrame.simps, simp)
  from readFrame_takes_consumed_bytes [OF this] show ?thesis by blast
qed

text \<open>
  A first byte with the high bit set and an opcode other than text, binary and close is a
  WebSocket control frame, not a desynchronised stream: with an empty body it is skipped.
\<close>

theorem readFrame_skips_control:
  assumes "b AND 0x80 \<noteq> 0" "b \<noteq> 0xff" "b AND 0x0f \<notin> {0x1, 0x2, 0x8}"
  shows "readFrame (b # 0 # r) = readFrame r"
proof -
  have "b \<noteq> 0" using assms(1) by auto
  with assms have "readFrameOnce (b # 0 # r) = Inr (None, r)"
    by (simp add: readFrameOnce_def readWebSocketFrame_def ws_length_def read_full_0 Let_def)
  then show ?thesis by (simp add: readFrame.simps [of "b # 0 # r"])
qed

theorem readFrame_skips_control_witness:
  "readFrame [0x80, 0, 0, 0x12, 0x34] = readFrame [0, 0x12, 0x34]"
  using readFrame_skips_control [of "0x80" "[0, 0x12, 0x34]"] by simp

end
