(* ===== verification/UTF16.thy ===== *)
theory UTF16
  imports Mezon_Prelude
begin

text \<open>
  Offsets in UTF-16 code units (\<^verbatim>\<open>utf16.go\<close>). Message lengths and mention spans are counted the way
  the JavaScript clients count them. A Go string is a byte sequence; ranging over it decodes
  UTF-8, with U+FFFD for every invalid byte, as \<^verbatim>\<open>unicode/utf8\<close> does.
\<close>

section \<open>Decoding UTF-8\<close>

type_synonym rune = nat

definition RuneError :: rune where "RuneError = 0xFFFD"

definition is_cont :: "nat \<Rightarrow> bool" where
  "is_cont b \<longleftrightarrow> 0x80 \<le> b \<and> b \<le> 0xBF"

text \<open>The second byte's range depends on the first one, which excludes overlong forms,
  surrogates and values past U+10FFFF.\<close>

definition second_ok :: "nat \<Rightarrow> nat \<Rightarrow> bool" where
  "second_ok b0 b1 \<longleftrightarrow>
     (if b0 = 0xE0 then 0xA0 else if b0 = 0xF0 then 0x90 else 0x80) \<le> b1 \<and>
     b1 \<le> (if b0 = 0xED then 0x9F else if b0 = 0xF4 then 0x8F else 0xBF)"

definition decode_rune :: "nat list \<Rightarrow> rune \<times> nat" where
  "decode_rune s =
     (case s of
        [] \<Rightarrow> (RuneError, 0)
      | b0 # bs \<Rightarrow>
          if b0 < 0x80 then (b0, 1)
          else if 0xC2 \<le> b0 \<and> b0 \<le> 0xDF then
            (case bs of
               b1 # _ \<Rightarrow> if is_cont b1 then ((b0 - 0xC0) * 64 + (b1 - 0x80), 2) else (RuneError, 1)
             | _ \<Rightarrow> (RuneError, 1))
          else if 0xE0 \<le> b0 \<and> b0 \<le> 0xEF then
            (case bs of
               b1 # b2 # _ \<Rightarrow>
                 if second_ok b0 b1 \<and> is_cont b2
                 then ((b0 - 0xE0) * 4096 + (b1 - 0x80) * 64 + (b2 - 0x80), 3) else (RuneError, 1)
             | _ \<Rightarrow> (RuneError, 1))
          else if 0xF0 \<le> b0 \<and> b0 \<le> 0xF4 then
            (case bs of
               b1 # b2 # b3 # _ \<Rightarrow>
                 if second_ok b0 b1 \<and> is_cont b2 \<and> is_cont b3
                 then ((b0 - 0xF0) * 262144 + (b1 - 0x80) * 4096 + (b2 - 0x80) * 64 + (b3 - 0x80), 4)
                 else (RuneError, 1)
             | _ \<Rightarrow> (RuneError, 1))
          else (RuneError, 1))"

lemma decode_rune_width: "s \<noteq> [] \<Longrightarrow> 0 < snd (decode_rune s)"
  by (simp add: decode_rune_def split: list.splits)

function decode_runes :: "nat list \<Rightarrow> rune list" where
  "decode_runes s =
     (if s = [] then [] else fst (decode_rune s) # decode_runes (drop (snd (decode_rune s)) s))"
  by pat_completeness auto
termination
proof (relation "measure length")
  fix s :: "nat list"
  assume "s \<noteq> []"
  then show "(drop (snd (decode_rune s)) s, s) \<in> measure length"
    using decode_rune_width [of s] by (cases s) auto
qed simp

declare decode_runes.simps [simp del]

text \<open>The runes of a Go string, \<^verbatim>\<open>[]rune(s)\<close> and \<^verbatim>\<open>for _, r := range s\<close>.\<close>

definition runes :: "string \<Rightarrow> rune list" where
  "runes s = decode_runes (map of_char s)"

section \<open>utf16.go\<close>

definition UTF16Len :: "string \<Rightarrow> nat" where
  "UTF16Len s = foldl (\<lambda>n r. if 0xFFFF < r then n + 2 else n + 1) 0 (runes s)"

text \<open>\<^verbatim>\<open>utf16.Encode\<close> from the standard library.\<close>

definition utf16_encode_rune :: "rune \<Rightarrow> uint16 list" where
  "utf16_encode_rune r =
     (if r < 0xD800 \<or> 0xE000 \<le> r \<and> r < 0x10000 then [of_nat r]
      else if 0x10000 \<le> r \<and> r \<le> 0x10FFFF
      then [of_nat (0xD800 + (r - 0x10000) div 0x400), of_nat (0xDC00 + (r - 0x10000) mod 0x400)]
      else [0xFFFD])"

definition UTF16Encode :: "string \<Rightarrow> uint16 list" where
  "UTF16Encode s = concat (map utf16_encode_rune (runes s))"

fun rune_index_loop :: "int \<Rightarrow> int \<Rightarrow> nat \<Rightarrow> rune list \<Rightarrow> nat" where
  "rune_index_loop runeIdx i off [] = off"
| "rune_index_loop runeIdx i off (r # rs) =
     (if runeIdx \<le> i then off
      else rune_index_loop runeIdx (i + 1) (if 0xFFFF < r then off + 2 else off + 1) rs)"

definition RuneIndexToUTF16 :: "string \<Rightarrow> int \<Rightarrow> nat" where
  "RuneIndexToUTF16 s runeIdx = rune_index_loop runeIdx 0 0 (runes s)"

fun units_match :: "uint16 list \<Rightarrow> nat \<Rightarrow> uint16 list \<Rightarrow> bool" where
  "units_match units i [] = True"
| "units_match units i (u # us) = (units ! i = u \<and> units_match units (Suc i) us)"

function span_loop :: "uint16 list \<Rightarrow> uint16 list \<Rightarrow> nat \<Rightarrow> nat option" where
  "span_loop units subUnits i =
     (if i + length subUnits \<le> length units
      then if units_match units i subUnits then Some i else span_loop units subUnits (Suc i)
      else None)"
  by pat_completeness auto
termination
  by (relation "measure (\<lambda>(units, subUnits, i). Suc (length units) - i)") auto

declare span_loop.simps [simp del]

definition MentionSpan :: "string \<Rightarrow> string \<Rightarrow> nat \<times> nat \<times> bool" where
  "MentionSpan text sub =
     (let units = UTF16Encode text; subUnits = UTF16Encode sub in
      if subUnits = [] then (0, 0, False)
      else case span_loop units subUnits 0 of
             Some i \<Rightarrow> (i, i + length subUnits, True)
           | None \<Rightarrow> (0, 0, False))"

section \<open>Runes are scalar values\<close>

definition valid_rune :: "rune \<Rightarrow> bool" where
  "valid_rune r \<longleftrightarrow> r < 0xD800 \<or> 0xE000 \<le> r \<and> r \<le> 0x10FFFF"

lemma two_byte_valid: "0xC2 \<le> b0 \<Longrightarrow> b0 \<le> 0xDF \<Longrightarrow> is_cont b1 \<Longrightarrow> valid_rune ((b0 - 0xC0) * 64 + (b1 - 0x80))"
  unfolding valid_rune_def is_cont_def by linarith

lemma three_byte_valid:
  assumes "0xE0 \<le> b0" "b0 \<le> 0xEF" "second_ok b0 b1" "is_cont b2"
  shows "valid_rune ((b0 - 0xE0) * 4096 + (b1 - 0x80) * 64 + (b2 - 0x80))"
proof -
  have b1: "b1 \<le> 0xBF" and b2: "b2 \<le> 0xBF"
    using assms(3,4) by (auto simp: second_ok_def is_cont_def split: if_splits)
  consider "b0 \<le> 0xEC" | "b0 = 0xED" "b1 \<le> 0x9F" | "0xEE \<le> b0"
    using assms(3) by (fastforce simp: second_ok_def)
  then show ?thesis
    using b1 b2 assms(2) unfolding valid_rune_def by cases linarith+
qed

lemma four_byte_valid:
  assumes "0xF0 \<le> b0" "b0 \<le> 0xF4" "second_ok b0 b1" "is_cont b2" "is_cont b3"
  shows "valid_rune ((b0 - 0xF0) * 262144 + (b1 - 0x80) * 4096 + (b2 - 0x80) * 64 + (b3 - 0x80))"
proof -
  have b1: "0x80 \<le> b1" "b1 \<le> 0xBF" and b2: "b2 \<le> 0xBF" and b3: "b3 \<le> 0xBF"
    using assms(3,4,5) by (auto simp: second_ok_def is_cont_def split: if_splits)
  consider "b0 = 0xF0" "0x90 \<le> b1" | "0xF1 \<le> b0" "b0 \<le> 0xF3" | "b0 = 0xF4" "b1 \<le> 0x8F"
    using assms(1,2,3) by (fastforce simp: second_ok_def)
  then show ?thesis
    using b1 b2 b3 unfolding valid_rune_def by cases linarith+
qed

lemma RuneError_valid: "valid_rune RuneError"
  by (simp add: valid_rune_def RuneError_def)

lemma decode_rune_valid: "valid_rune (fst (decode_rune s))"
proof (cases s)
  case Nil
  then show ?thesis by (simp add: decode_rune_def RuneError_valid)
next
  case (Cons b0 bs)
  have "valid_rune b0" if "b0 < 0x80" using that by (simp add: valid_rune_def)
  with Cons show ?thesis
    by (simp add: decode_rune_def RuneError_valid two_byte_valid three_byte_valid four_byte_valid
        split: list.split)
qed

lemma decode_runes_valid: "r \<in> set (decode_runes s) \<Longrightarrow> valid_rune r"
proof (induction s rule: decode_runes.induct)
  case (1 s)
  show ?case
  proof (cases "s = []")
    case True
    with "1.prems" show ?thesis by (simp add: decode_runes.simps)
  next
    case False
    with 1 show ?thesis by (auto simp: decode_runes.simps [of s] decode_rune_valid)
  qed
qed

lemma runes_valid: "r \<in> set (runes s) \<Longrightarrow> valid_rune r"
  unfolding runes_def by (rule decode_runes_valid)

section \<open>Counting code units\<close>

definition rune_units :: "rune \<Rightarrow> nat" where
  "rune_units r = (if 0xFFFF < r then 2 else 1)"

lemma length_utf16_encode_rune: "valid_rune r \<Longrightarrow> length (utf16_encode_rune r) = rune_units r"
  by (auto simp: utf16_encode_rune_def rune_units_def valid_rune_def)

lemma length_utf16_encode_runes:
  "list_all valid_rune rs \<Longrightarrow>
     length (concat (map utf16_encode_rune rs)) = sum_list (map rune_units rs)"
  by (induction rs) (simp_all add: length_utf16_encode_rune)

lemma runes_all_valid: "list_all valid_rune (runes s)"
  by (simp add: list_all_iff runes_valid)

lemma utf16_len_loop:
  "foldl (\<lambda>n r. if 0xFFFF < r then n + 2 else n + 1) n rs = n + sum_list (map rune_units rs)"
  by (induction rs arbitrary: n) (simp_all add: rune_units_def)

lemma rune_index_loop_eq:
  "rune_index_loop runeIdx i off rs = off + sum_list (map rune_units (take (nat (runeIdx - i)) rs))"
proof (induction rs arbitrary: i off)
  case (Cons r rs)
  show ?case
  proof (cases "runeIdx \<le> i")
    case False
    then have "nat (runeIdx - i) = Suc (nat (runeIdx - (i + 1)))" by linarith
    with False Cons show ?thesis by (simp add: rune_units_def)
  qed simp
qed simp

lemma UTF16Len_eq: "UTF16Len s = length (UTF16Encode s)"
  by (simp add: UTF16Len_def UTF16Encode_def utf16_len_loop length_utf16_encode_runes runes_all_valid)

lemma RuneIndexToUTF16_eq:
  "RuneIndexToUTF16 s k = length (concat (map utf16_encode_rune (take (nat k) (runes s))))"
proof -
  have "list_all valid_rune (take (nat k) (runes s))"
    using runes_all_valid [of s] by (auto simp: list_all_iff dest: in_set_takeD)
  then show ?thesis by (simp add: RuneIndexToUTF16_def rune_index_loop_eq length_utf16_encode_runes)
qed

section \<open>Searching code units\<close>

definition occurs_at :: "uint16 list \<Rightarrow> uint16 list \<Rightarrow> nat \<Rightarrow> bool" where
  "occurs_at units sub i \<longleftrightarrow> i + length sub \<le> length units \<and> take (length sub) (drop i units) = sub"

lemma units_match_iff:
  "i + length sub \<le> length units \<Longrightarrow> units_match units i sub \<longleftrightarrow> take (length sub) (drop i units) = sub"
proof (induction sub arbitrary: i)
  case (Cons u us)
  then have "drop i units = units ! i # drop (Suc i) units" by (simp add: Cons_nth_drop_Suc)
  with Cons show ?case by auto
qed simp

lemma span_loop_Some:
  "span_loop units sub i = Some j \<longleftrightarrow>
     i \<le> j \<and> occurs_at units sub j \<and> (\<forall>k. i \<le> k \<and> k < j \<longrightarrow> \<not> occurs_at units sub k)"
proof (induction units sub i rule: span_loop.induct)
  case (1 units sub i)
  show ?case
  proof (cases "i + length sub \<le> length units")
    case False
    then show ?thesis
      by (auto simp: span_loop.simps [of units sub i] occurs_at_def)
  next
    case inside: True
    show ?thesis
    proof (cases "units_match units i sub")
      case True
      with inside have "occurs_at units sub i" by (simp add: occurs_at_def units_match_iff)
      with inside True show ?thesis
        by (auto simp: span_loop.simps [of units sub i])
    next
      case False
      with inside have "\<not> occurs_at units sub i" by (simp add: occurs_at_def units_match_iff)
      moreover have "span_loop units sub i = span_loop units sub (Suc i)"
        using inside False by (simp add: span_loop.simps [of units sub i])
      ultimately show ?thesis
        using 1 [OF inside False]
        by (metis Suc_le_eq Suc_leD le_neq_implies_less)
    qed
  qed
qed

lemma span_loop_None: "span_loop units sub 0 = None \<longleftrightarrow> (\<forall>k. \<not> occurs_at units sub k)"
proof
  assume none: "span_loop units sub 0 = None"
  show "\<forall>k. \<not> occurs_at units sub k"
  proof (rule ccontr)
    assume "\<not> (\<forall>k. \<not> occurs_at units sub k)"
    then obtain k where "occurs_at units sub k" "\<forall>i. i < k \<longrightarrow> \<not> occurs_at units sub i"
      by (metis exists_least_iff)
    with none show False using span_loop_Some [of units sub 0 k] by simp
  qed
next
  assume "\<forall>k. \<not> occurs_at units sub k"
  then show "span_loop units sub 0 = None"
    using span_loop_Some [of units sub 0] by (cases "span_loop units sub 0") auto
qed

section \<open>Surrogates\<close>

definition is_high :: "uint16 \<Rightarrow> bool" where "is_high u \<longleftrightarrow> 0xD800 \<le> unat u \<and> unat u < 0xDC00"
definition is_low :: "uint16 \<Rightarrow> bool" where "is_low u \<longleftrightarrow> 0xDC00 \<le> unat u \<and> unat u < 0xE000"

lemma unat_of_nat_uint16: "n < 0x10000 \<Longrightarrow> unat (of_nat n :: uint16) = n"
  by (simp add: unsigned_of_nat take_bit_eq_mod)

lemma utf16_encode_rune_shape:
  assumes "valid_rune r"
  obtains (single) u where "utf16_encode_rune r = [u]" "\<not> is_high u" "\<not> is_low u"
  | (pair) h l where "utf16_encode_rune r = [h, l]" "is_high h" "is_low l"
proof (cases "r < 0x10000")
  case True
  with assms show ?thesis
    by (intro single [of "of_nat r"])
       (auto simp: utf16_encode_rune_def valid_rune_def is_high_def is_low_def unat_of_nat_uint16)
next
  case False
  with assms have r: "0x10000 \<le> r" "r \<le> 0x10FFFF" by (auto simp: valid_rune_def)
  then have "(r - 0x10000) div 0x400 < 0x400" "(r - 0x10000) mod 0x400 < 0x400" by auto
  then show ?thesis
    using r unat_of_nat_uint16 [of "0xD800 + (r - 0x10000) div 0x400"]
      unat_of_nat_uint16 [of "0xDC00 + (r - 0x10000) mod 0x400"]
    by (intro pair) (auto simp: utf16_encode_rune_def is_high_def is_low_def)
qed

definition rune_boundary :: "rune list \<Rightarrow> nat \<Rightarrow> bool" where
  "rune_boundary rs i \<longleftrightarrow> (\<exists>k. i = length (concat (map utf16_encode_rune (take k rs))))"

lemma rune_boundary_0: "rune_boundary rs 0"
  unfolding rune_boundary_def by (rule exI [of _ 0]) simp

lemma rune_boundary_Cons: "rune_boundary rs i \<Longrightarrow> rune_boundary (r # rs) (length (utf16_encode_rune r) + i)"
  unfolding rune_boundary_def by (metis (no_types, opaque_lifting) concat.simps(2) length_append list.simps(9) take_Suc_Cons)

lemma not_boundary_splits_pair:
  "list_all valid_rune rs \<Longrightarrow> i \<le> length (concat (map utf16_encode_rune rs)) \<Longrightarrow> \<not> rune_boundary rs i \<Longrightarrow>
     0 < i \<and> i < length (concat (map utf16_encode_rune rs)) \<and>
     is_high (concat (map utf16_encode_rune rs) ! (i - 1)) \<and> is_low (concat (map utf16_encode_rune rs) ! i)"
proof (induction rs arbitrary: i)
  case Nil
  then show ?case using rune_boundary_0 [of "[]"] by simp
next
  case (Cons r rs)
  let ?n = "length (utf16_encode_rune r)"
  have i0: "i \<noteq> 0" using Cons.prems(3) rune_boundary_0 by metis
  show ?case
  proof (cases "?n \<le> i")
    case True
    then obtain j where j: "i = ?n + j" by (metis le_Suc_ex)
    with Cons.prems rune_boundary_Cons have "\<not> rune_boundary rs j" by blast
    with Cons.IH [of j] Cons.prems j have "0 < j" "j < length (concat (map utf16_encode_rune rs))"
      "is_high (concat (map utf16_encode_rune rs) ! (j - 1))" "is_low (concat (map utf16_encode_rune rs) ! j)"
      by auto
    with j show ?thesis by (auto simp: nth_append)
  next
    case False
    have "valid_rune r" using Cons.prems(1) by simp
    then show ?thesis
      by (cases rule: utf16_encode_rune_shape) (use i0 False in \<open>auto simp: less_Suc_eq\<close>)
  qed
qed

lemma utf16_units_ends:
  assumes "list_all valid_rune rs" "concat (map utf16_encode_rune rs) \<noteq> []"
  shows "\<not> is_low (hd (concat (map utf16_encode_rune rs)))"
    and "\<not> is_high (last (concat (map utf16_encode_rune rs)))"
proof -
  have disj: "\<not> (is_high u \<and> is_low u)" for u by (auto simp: is_high_def is_low_def)
  obtain r rs' where rs: "rs = r # rs'" and "valid_rune r" using assms by (cases rs) auto
  from this(2) show "\<not> is_low (hd (concat (map utf16_encode_rune rs)))"
    by (cases rule: utf16_encode_rune_shape) (use disj rs in auto)
  obtain r rs' where rs: "rs = rs' @ [r]" and "valid_rune r" using assms by (cases rs rule: rev_cases) auto
  from this(2) show "\<not> is_high (last (concat (map utf16_encode_rune rs)))"
    by (cases rule: utf16_encode_rune_shape) (use disj rs in auto)
qed

lemma occurs_at_boundaries:
  assumes runes: "list_all valid_rune rs" and sub: "list_all valid_rune ss"
    and ne: "concat (map utf16_encode_rune ss) \<noteq> []"
    and occ: "occurs_at (concat (map utf16_encode_rune rs)) (concat (map utf16_encode_rune ss)) i"
  shows "rune_boundary rs i"
    and "rune_boundary rs (i + length (concat (map utf16_encode_rune ss)))"
proof -
  let ?us = "concat (map utf16_encode_rune rs)" and ?ss = "concat (map utf16_encode_rune ss)"
  have len: "i + length ?ss \<le> length ?us" and sl: "take (length ?ss) (drop i ?us) = ?ss"
    using occ by (auto simp: occurs_at_def)
  have nth: "?us ! (i + k) = ?ss ! k" if "k < length ?ss" for k
    using that len by (subst sl [symmetric]) simp
  have "?us ! i = hd ?ss" using nth [of 0] ne by (simp add: hd_conv_nth)
  then show "rune_boundary rs i"
    using not_boundary_splits_pair [OF runes, of i] utf16_units_ends(1) [OF sub ne] len by auto
  have "?us ! (i + length ?ss - 1) = last ?ss"
    using nth [of "length ?ss - 1"] ne by (simp add: last_conv_nth)
  then show "rune_boundary rs (i + length ?ss)"
    using not_boundary_splits_pair [OF runes len] utf16_units_ends(2) [OF sub ne] by auto
qed

section \<open>Properties\<close>

text \<open>
  The length the SDK validates is the JavaScript length: counting one unit per rune up to
  U+FFFF and two above gives exactly the number of UTF-16 code units of the string, for every
  byte sequence, valid UTF-8 or not.
\<close>

theorem UTF16Len_is_encoded_length: "UTF16Len s = length (UTF16Encode s)"
  by (rule UTF16Len_eq)

text \<open>
  A rune index translates to the number of code units of the runes before it (zero for a
  negative index, the whole length past the end).
\<close>

theorem RuneIndexToUTF16_is_prefix_length:
  "RuneIndexToUTF16 s k = length (concat (map utf16_encode_rune (take (nat k) (runes s))))"
  by (rule RuneIndexToUTF16_eq)

text \<open>
  C12. \<^verbatim>\<open>MentionSpan\<close> is exact: it reports a span precisely when the mention is non-empty and occurs,
  the span is the first occurrence of the mention's code units, and its end is one past the
  last unit of the mention.
\<close>

theorem MentionSpan_first_occurrence:
  "MentionSpan text sub =
     (if UTF16Encode sub \<noteq> [] \<and> (\<exists>i. occurs_at (UTF16Encode text) (UTF16Encode sub) i)
      then let s = (LEAST i. occurs_at (UTF16Encode text) (UTF16Encode sub) i)
           in (s, s + UTF16Len sub, True)
      else (0, 0, False))"
proof (cases "span_loop (UTF16Encode text) (UTF16Encode sub) 0")
  case None
  then have "\<not> (\<exists>i. occurs_at (UTF16Encode text) (UTF16Encode sub) i)" by (simp add: span_loop_None)
  with None show ?thesis by (simp add: MentionSpan_def Let_def)
next
  case (Some i)
  then have occ: "occurs_at (UTF16Encode text) (UTF16Encode sub) i"
    and first: "\<forall>k. k < i \<longrightarrow> \<not> occurs_at (UTF16Encode text) (UTF16Encode sub) k"
    by (auto simp: span_loop_Some)
  then have "(LEAST i. occurs_at (UTF16Encode text) (UTF16Encode sub) i) = i"
    by (metis (mono_tags, lifting) LeastI_ex linorder_neqE_nat not_less_Least)
  with Some occ show ?thesis
    by (auto simp: MentionSpan_def Let_def UTF16Len_eq)
qed

text \<open>
  A mention span never splits a character: both of its offsets are offsets of runes of the
  text, so no highlight starts or ends inside a surrogate pair.
\<close>

theorem MentionSpan_rune_aligned:
  assumes "MentionSpan text sub = (s, e, True)"
  shows "\<exists>j k. s = RuneIndexToUTF16 text (int j) \<and> e = RuneIndexToUTF16 text (int k)"
proof -
  have ne: "UTF16Encode sub \<noteq> []" and s: "span_loop (UTF16Encode text) (UTF16Encode sub) 0 = Some s"
    and e: "e = s + length (UTF16Encode sub)"
    using assms by (auto simp: MentionSpan_def Let_def split: if_splits option.splits)
  then have "occurs_at (UTF16Encode text) (UTF16Encode sub) s" by (simp add: span_loop_Some)
  then have "rune_boundary (runes text) s" "rune_boundary (runes text) e"
    using occurs_at_boundaries [OF runes_all_valid runes_all_valid, of sub "text" s] ne e
    by (simp_all add: UTF16Encode_def)
  then show ?thesis
    by (auto simp: rune_boundary_def RuneIndexToUTF16_eq)
qed

theorem MentionSpan_rune_aligned_witness:
  "\<exists>j k. 3 = RuneIndexToUTF16 ([CHR 0xF0, CHR 0x9F, CHR 0x98, CHR 0x80] @ '' @bob'') (int j) \<and>
         7 = RuneIndexToUTF16 ([CHR 0xF0, CHR 0x9F, CHR 0x98, CHR 0x80] @ '' @bob'') (int k)"
proof (rule MentionSpan_rune_aligned)
  show "MentionSpan ([CHR 0xF0, CHR 0x9F, CHR 0x98, CHR 0x80] @ '' @bob'') ''@bob'' = (3, 7, True)"
  proof -
    have "runes ([CHR 0xF0, CHR 0x9F, CHR 0x98, CHR 0x80] @ '' @bob'') = [0x1F600, 32, 64, 98, 111, 98]"
      "runes ''@bob'' = [64, 98, 111, 98]"
      by (simp_all add: runes_def decode_runes.simps decode_rune_def is_cont_def second_ok_def)
    then have "UTF16Encode ([CHR 0xF0, CHR 0x9F, CHR 0x98, CHR 0x80] @ '' @bob'') =
        [0xD83D, 0xDE00, 32, 64, 98, 111, 98]"
      "UTF16Encode ''@bob'' = [64, 98, 111, 98]"
      by (simp_all add: UTF16Encode_def utf16_encode_rune_def)
    then show ?thesis by (simp add: MentionSpan_def span_loop.simps)
  qed
qed

end
