(* ===== verification/Cache.thy ===== *)
theory Cache
  imports Mezon_Prelude
begin

text \<open>
  The insertion-ordered cache of \<^verbatim>\<open>cache.go\<close> that holds clans, channels, users and messages. The Go
  map is an association list with distinct keys; the mutex makes every operation atomic, so each
  is one function on the cache. \<^verbatim>\<open>Fetch\<close> runs a fetcher that may change the whole client, this
  cache included, and is therefore a function on the world that holds the cache.
\<close>

section \<open>The cache\<close>

record ('k, 'v) CacheManager =
  items :: "('k \<times> 'v) list"
  order :: "'k list"
  maxSize :: int

definition NewCacheManager :: "int \<Rightarrow> ('k, 'v) CacheManager" where
  "NewCacheManager n = \<lparr>items = [], order = [], maxSize = n\<rparr>"

definition cache_Get :: "('k, 'v) CacheManager \<Rightarrow> 'k \<Rightarrow> 'v option" where
  "cache_Get c k = map_of (items c) k"

definition evict_oldest :: "('k, 'v) CacheManager \<Rightarrow> ('k, 'v) CacheManager" where
  "evict_oldest c =
     (if 0 < maxSize c \<and> maxSize c \<le> int (length (items c)) \<and> order c \<noteq> []
      then c\<lparr>order := tl (order c), items := AList.delete (hd (order c)) (items c)\<rparr>
      else c)"

definition cache_Set :: "('k, 'v) CacheManager \<Rightarrow> 'k \<Rightarrow> 'v \<Rightarrow> ('k, 'v) CacheManager" where
  "cache_Set c k v =
     (let c' = (if map_of (items c) k = None
                then (let e = evict_oldest c in e\<lparr>order := order e @ [k]\<rparr>)
                else c)
      in c'\<lparr>items := AList.update k v (items c')\<rparr>)"

text \<open>The loop over the order removes the first occurrence of the key and stops.\<close>

definition cache_Delete :: "('k, 'v) CacheManager \<Rightarrow> 'k \<Rightarrow> bool \<times> ('k, 'v) CacheManager" where
  "cache_Delete c k =
     (if map_of (items c) k = None then (False, c)
      else (True, c\<lparr>items := AList.delete k (items c), order := remove1 k (order c)\<rparr>))"

text \<open>Reading a missing key of a Go map gives the zero value of the type.\<close>

definition cache_Values :: "'v \<Rightarrow> ('k, 'v) CacheManager \<Rightarrow> 'v list" where
  "cache_Values zero c = map (\<lambda>k. case map_of (items c) k of Some v \<Rightarrow> v | None \<Rightarrow> zero) (order c)"

definition cache_Size :: "('k, 'v) CacheManager \<Rightarrow> nat" where
  "cache_Size c = length (items c)"

definition cache_Fetch ::
  "('w \<Rightarrow> ('k, 'v) CacheManager) \<Rightarrow> (('k, 'v) CacheManager \<Rightarrow> 'w \<Rightarrow> 'w) \<Rightarrow>
   ('k \<Rightarrow> 'w \<Rightarrow> 'v result \<times> 'w) option \<Rightarrow> 'k \<Rightarrow> 'w \<Rightarrow> 'v result \<times> 'w" where
  "cache_Fetch get upd fetcher k w =
     (case cache_Get (get w) k of
        Some v \<Rightarrow> (Inr v, w)
      | None \<Rightarrow>
          (case fetcher of
             None \<Rightarrow> (Inl ErrNotFound, w)
           | Some f \<Rightarrow>
               (case f k w of
                  (Inl e, w') \<Rightarrow> (Inl e, w')
                | (Inr v, w') \<Rightarrow> (Inr v, upd (cache_Set (get w') k v) w'))))"

section \<open>The invariant\<close>

definition cache_inv :: "('k, 'v) CacheManager \<Rightarrow> bool" where
  "cache_inv c \<longleftrightarrow>
     distinct (map fst (items c)) \<and> distinct (order c) \<and> set (order c) = fst ` set (items c) \<and>
     (0 < maxSize c \<longrightarrow> int (length (items c)) \<le> maxSize c)"

lemma cache_inv_new: "cache_inv (NewCacheManager n)"
  by (simp add: cache_inv_def NewCacheManager_def)

lemma cache_inv_length: "cache_inv c \<Longrightarrow> length (order c) = length (items c)"
  unfolding cache_inv_def by (metis distinct_card length_map set_map)

lemma map_of_None_order: "cache_inv c \<Longrightarrow> map_of (items c) k = None \<longleftrightarrow> k \<notin> set (order c)"
  by (simp add: cache_inv_def map_of_eq_None_iff)

lemma length_update_new: "k \<notin> fst ` set xs \<Longrightarrow> length (AList.update k v xs) = Suc (length xs)"
  by (induction xs) auto

lemma length_update_old: "k \<in> fst ` set xs \<Longrightarrow> length (AList.update k v xs) = length xs"
  by (induction xs) auto

lemma delete_absent: "k \<notin> fst ` set xs \<Longrightarrow> AList.delete k xs = xs"
  by (induction xs) auto

lemma keys_delete: "fst ` set (AList.delete k xs) = fst ` set xs - {k}"
  by (induction xs) auto

lemma distinct_keys_delete: "distinct (map fst xs) \<Longrightarrow> distinct (map fst (AList.delete k xs))"
  by (induction xs) (auto simp: keys_delete)

lemma length_delete_old:
  "distinct (map fst xs) \<Longrightarrow> k \<in> fst ` set xs \<Longrightarrow> Suc (length (AList.delete k xs)) = length xs"
proof (induction xs)
  case (Cons x xs)
  then show ?case
    by (cases x, cases "fst x = k") (auto simp: delete_absent rev_image_eqI)
qed simp

definition cache_full :: "('k, 'v) CacheManager \<Rightarrow> bool" where
  "cache_full c \<longleftrightarrow> 0 < maxSize c \<and> maxSize c \<le> int (length (items c))"

lemma evict_oldest_inv:
  assumes "cache_inv c"
  shows "cache_inv (evict_oldest c)"
    and "order (evict_oldest c) = (if cache_full c then tl (order c) else order c)"
    and "0 < maxSize c \<Longrightarrow> int (length (items (evict_oldest c))) < maxSize c"
    and "maxSize (evict_oldest c) = maxSize c"
proof -
  have len: "length (order c) = length (items c)" using assms by (rule cache_inv_length)
  have ne: "cache_full c \<Longrightarrow> order c \<noteq> []" using len by (auto simp: cache_full_def)
  have full: "evict_oldest c = (if cache_full c
      then c\<lparr>order := tl (order c), items := AList.delete (hd (order c)) (items c)\<rparr> else c)"
    using ne by (auto simp: evict_oldest_def cache_full_def)
  have hd: "cache_full c \<Longrightarrow> hd (order c) \<in> fst ` set (items c)"
    using assms ne by (metis cache_inv_def hd_in_set)
  have dl: "Suc (length (AList.delete (hd (order c)) (items c))) = length (items c)" if "cache_full c"
    using assms hd [OF that] by (intro length_delete_old) (auto simp: cache_inv_def)
  have "set (tl (order c)) = set (order c) - {hd (order c)}" if "cache_full c"
    using ne [OF that] assms by (cases "order c") (auto simp: cache_inv_def)
  then show "cache_inv (evict_oldest c)"
    using assms ne dl by (auto simp: full cache_inv_def distinct_tl distinct_keys_delete keys_delete)
  show "order (evict_oldest c) = (if cache_full c then tl (order c) else order c)"
    by (simp add: full)
  show "0 < maxSize c \<Longrightarrow> int (length (items (evict_oldest c))) < maxSize c"
    using assms dl hd by (auto simp: full cache_inv_def cache_full_def)
  show "maxSize (evict_oldest c) = maxSize c"
    by (simp add: full)
qed

lemma cache_Set_maxSize [simp]: "maxSize (cache_Set c k v) = maxSize c"
  by (simp add: cache_Set_def evict_oldest_def Let_def)

lemma cache_inv_Set:
  assumes "cache_inv c"
  shows "cache_inv (cache_Set c k v)"
proof (cases "map_of (items c) k")
  case None
  define e where "e = evict_oldest c"
  have fresh: "k \<notin> set (order c)" using None map_of_None_order [OF assms] by blast
  have e: "cache_inv e" "0 < maxSize c \<Longrightarrow> int (length (items e)) < maxSize c" "maxSize e = maxSize c"
    using evict_oldest_inv [OF assms] by (simp_all add: e_def)
  have "set (order e) \<subseteq> set (order c)"
    using evict_oldest_inv(2) [OF assms] by (cases "order c") (auto simp: e_def)
  then have "k \<notin> fst ` set (items e)" "k \<notin> set (order e)"
    using fresh e(1) by (auto simp: cache_inv_def)
  then show ?thesis
    using None e by (auto simp: cache_Set_def Let_def cache_inv_def distinct_update length_update_new
        update_keys simp flip: e_def set_map)
next
  case (Some x)
  then have "k \<in> fst ` set (items c)" by (metis map_of_eq_None_iff option.distinct(1))
  then show ?thesis
    using Some assms by (auto simp: cache_Set_def cache_inv_def distinct_update length_update_old
        update_keys simp flip: set_map)
qed

lemma cache_inv_Delete:
  assumes "cache_inv c"
  shows "cache_inv (snd (cache_Delete c k))"
proof (cases "map_of (items c) k")
  case (Some x)
  then have mem: "k \<in> fst ` set (items c)" by (metis map_of_eq_None_iff option.distinct(1))
  moreover have "Suc (length (AList.delete k (items c))) = length (items c)"
    using assms mem by (intro length_delete_old) (auto simp: cache_inv_def)
  ultimately show ?thesis
    using assms Some by (auto simp: cache_Delete_def cache_inv_def distinct_keys_delete keys_delete
        distinct_remove1_set)
qed (use assms in \<open>simp add: cache_Delete_def\<close>)

section \<open>The abstract cache: a bounded list of entries, oldest first\<close>

definition entries :: "('k, 'v) CacheManager \<Rightarrow> ('k \<times> 'v) list" where
  "entries c = map (\<lambda>k. (k, the (map_of (items c) k))) (order c)"

definition recent :: "int \<Rightarrow> 'a list \<Rightarrow> 'a list" where
  "recent cap xs = (if 0 < cap then drop (length xs - nat cap) xs else xs)"

definition upsert :: "int \<Rightarrow> 'k \<Rightarrow> 'v \<Rightarrow> ('k \<times> 'v) list \<Rightarrow> ('k \<times> 'v) list" where
  "upsert cap k v es =
     (if k \<in> fst ` set es then map (\<lambda>(k', v'). (k', if k' = k then v else v')) es
      else recent cap (es @ [(k, v)]))"

lemma recent_recent: "recent cap (recent cap xs @ ys) = recent cap (xs @ ys)"
  by (cases "length xs \<le> nat cap") (auto simp: recent_def add.commute)

lemma set_recent: "set (recent cap xs) \<subseteq> set xs"
  by (auto simp: recent_def dest: in_set_dropD)

lemma length_recent: "0 < cap \<Longrightarrow> int (length (recent cap xs)) \<le> cap"
  by (simp add: recent_def)

lemma recent_short: "int (length xs) \<le> cap \<Longrightarrow> recent cap xs = xs"
  by (simp add: recent_def)

lemma map_recent: "map f (recent cap xs) = recent cap (map f xs)"
  by (simp add: recent_def drop_map)

lemma keys_entries [simp]: "map fst (entries c) = order c"
  by (simp add: entries_def comp_def)

lemma length_entries: "length (entries c) = length (order c)"
  by (simp add: entries_def)

lemma map_of_map_key: "map_of (map (\<lambda>k. (k, f k)) ks) k = (if k \<in> set ks then Some (f k) else None)"
  by (induction ks) auto

lemma map_of_filter_key:
  "map_of (filter (\<lambda>e. fst e \<noteq> k) es) k' = (if k' = k then None else map_of es k')"
  by (induction es) auto

lemma Get_entries:
  assumes "cache_inv c"
  shows "cache_Get c k = map_of (entries c) k"
  using map_of_None_order [OF assms, of k]
  by (cases "map_of (items c) k") (auto simp: entries_def cache_Get_def map_of_map_key)

lemma Get_Set: "cache_Get (cache_Set c k v) k = Some v"
  by (simp add: cache_Get_def cache_Set_def Let_def AList.update_conv')

lemma entries_Set_old:
  assumes "map_of (items c) k = Some x"
  shows "entries (cache_Set c k v) = map (\<lambda>(k', v'). (k', if k' = k then v else v')) (entries c)"
  using assms by (auto simp: entries_def cache_Set_def AList.update_conv')

lemma order_Set_new:
  assumes "cache_inv c" "map_of (items c) k = None"
  shows "order (cache_Set c k v) = recent (maxSize c) (order c @ [k])"
proof -
  have len: "length (order c) = length (items c)" using assms(1) by (rule cache_inv_length)
  have "(if cache_full c then tl (order c) else order c) @ [k] = recent (maxSize c) (order c @ [k])"
  proof (cases "cache_full c")
    case True
    then have "int (length (order c)) = maxSize c" "0 < maxSize c"
      using assms(1) len by (auto simp: cache_full_def cache_inv_def)
    then have "length (order c @ [k]) - nat (maxSize c) = 1" "order c \<noteq> []" by auto
    then show ?thesis using True \<open>0 < maxSize c\<close> by (simp add: recent_def drop_Suc)
  next
    case False
    then show ?thesis using len by (auto simp: recent_def cache_full_def)
  qed
  then show ?thesis
    using assms evict_oldest_inv(2) [OF assms(1)] by (simp add: cache_Set_def Let_def)
qed

lemma items_Set_new:
  assumes "cache_inv c" "map_of (items c) k = None" "k' \<in> set (order (cache_Set c k v))" "k' \<noteq> k"
  shows "map_of (items (cache_Set c k v)) k' = map_of (items c) k'"
proof -
  have "distinct (order c)" using assms(1) by (simp add: cache_inv_def)
  then have "hd (order c) \<notin> set (tl (order c))" if "order c \<noteq> []"
    using that by (cases "order c") auto
  then show ?thesis
    using assms(2-4) by (auto simp: cache_Set_def Let_def evict_oldest_def AList.update_conv'
        AList.delete_conv' split: if_splits)
qed

lemma entries_Set:
  assumes "cache_inv c"
  shows "entries (cache_Set c k v) = upsert (maxSize c) k v (entries c)"
proof (cases "map_of (items c) k")
  case None
  then have fresh: "k \<notin> set (order c)" using map_of_None_order [OF assms] by blast
  have keys: "fst ` set (entries c) = set (order c)" by (metis keys_entries set_map)
  let ?f = "\<lambda>k'. (k', if k' = k then v else the (map_of (items c) k'))"
  have at_k: "map_of (items (cache_Set c k v)) k = Some v"
    using Get_Set [of c k v] by (simp add: cache_Get_def)
  have "entries (cache_Set c k v) = map ?f (recent (maxSize c) (order c @ [k]))"
    using items_Set_new [OF assms None] at_k
    by (auto simp: entries_def simp flip: order_Set_new [OF assms None, of v])
  also have "\<dots> = recent (maxSize c) (map ?f (order c @ [k]))" by (rule map_recent)
  also have "map ?f (order c @ [k]) = entries c @ [(k, v)]"
    using fresh by (auto simp: entries_def)
  finally show ?thesis using fresh keys by (simp add: upsert_def)
next
  case (Some x)
  then have "k \<in> fst ` set (entries c)"
    using map_of_None_order [OF assms, of k] keys_entries [of c] by (metis option.distinct(1) set_map)
  then show ?thesis using Some by (simp add: upsert_def entries_Set_old)
qed

lemma entries_Delete:
  assumes "cache_inv c"
  shows "entries (snd (cache_Delete c k)) = filter (\<lambda>e. fst e \<noteq> k) (entries c)"
proof (cases "map_of (items c) k")
  case None
  then have "k \<notin> set (order c)" using map_of_None_order [OF assms] by blast
  then show ?thesis using None by (auto simp: cache_Delete_def entries_def intro!: filter_True [symmetric])
next
  case (Some x)
  have "remove1 k (order c) = filter (\<lambda>k'. k' \<noteq> k) (order c)"
    using assms by (simp add: cache_inv_def distinct_remove1_removeAll removeAll_filter_not_eq)
      (rule filter_cong; auto)
  then show ?thesis
    using Some by (auto simp: cache_Delete_def entries_def filter_map comp_def AList.delete_conv')
qed

section \<open>The contract the cache's clients rely on\<close>

locale ordered_cache =
  fixes inv :: "'c \<Rightarrow> bool"
    and ents :: "'c \<Rightarrow> ('k \<times> 'v) list"
    and cap :: "'c \<Rightarrow> int"
    and get :: "'c \<Rightarrow> 'k \<Rightarrow> 'v option"
    and put :: "'c \<Rightarrow> 'k \<Rightarrow> 'v \<Rightarrow> 'c"
    and del :: "'c \<Rightarrow> 'k \<Rightarrow> 'c"
  assumes inv_put: "inv c \<Longrightarrow> inv (put c k v)"
    and inv_del: "inv c \<Longrightarrow> inv (del c k)"
    and cap_put: "cap (put c k v) = cap c"
    and ents_put: "inv c \<Longrightarrow> ents (put c k v) = upsert (cap c) k v (ents c)"
    and ents_del: "inv c \<Longrightarrow> ents (del c k) = filter (\<lambda>e. fst e \<noteq> k) (ents c)"
    and get_ents: "inv c \<Longrightarrow> get c k = map_of (ents c) k"
    and keys_distinct: "inv c \<Longrightarrow> distinct (map fst (ents c))"
    and ents_bounded: "inv c \<Longrightarrow> 0 < cap c \<Longrightarrow> int (length (ents c)) \<le> cap c"
begin

definition put_all :: "('k \<times> 'v) list \<Rightarrow> 'c \<Rightarrow> 'c" where
  "put_all kvs c = fold (\<lambda>(k, v) c. put c k v) kvs c"

lemma put_all_Cons [simp]: "put_all ((k, v) # kvs) c = put_all kvs (put c k v)"
  by (simp add: put_all_def)

lemma put_all_Nil [simp]: "put_all [] c = c"
  by (simp add: put_all_def)

lemma inv_put_all: "inv c \<Longrightarrow> inv (put_all kvs c)"
  by (induction kvs arbitrary: c) (auto simp: inv_put)

lemma cap_put_all: "cap (put_all kvs c) = cap c"
  by (induction kvs arbitrary: c) (auto simp: cap_put)

lemma put_all_fresh:
  assumes "inv c" "distinct (map fst (ents c) @ map fst kvs)"
  shows "ents (put_all kvs c) = recent (cap c) (ents c @ kvs)"
  using assms
proof (induction kvs arbitrary: c)
  case Nil
  then show ?case using ents_bounded [of c] by (auto simp: recent_def)
next
  case (Cons e kvs)
  obtain k v where e: "e = (k, v)" by (cases e)
  have put: "ents (put c k v) = recent (cap c) (ents c @ [(k, v)])"
    using Cons.prems by (auto simp: ents_put upsert_def e)
  have "set (map fst (ents (put c k v))) \<subseteq> insert k (set (map fst (ents c)))"
    using set_recent [of "cap c" "ents c @ [(k, v)]"] by (auto simp: put)
  then have "distinct (map fst (ents (put c k v)) @ map fst kvs)"
    using Cons.prems keys_distinct [OF inv_put, of c k v] unfolding e by (simp del: set_map) (simp; blast)
  then have "ents (put_all kvs (put c k v)) = recent (cap c) (ents (put c k v) @ kvs)"
    using Cons.IH [of "put c k v"] Cons.prems(1) by (simp add: inv_put cap_put)
  then show ?case by (simp add: e put recent_recent)
qed

lemma put_all_retained:
  assumes "inv c" "distinct (map fst (ents c) @ map fst kvs)"
    and "cap c \<le> 0 \<or> int (length kvs) \<le> cap c" and "(k, v) \<in> set kvs"
  shows "get (put_all kvs c) k = Some v"
proof -
  have "(k, v) \<in> set (ents (put_all kvs c))"
    using assms by (auto simp: put_all_fresh recent_def)
  then show ?thesis
    using inv_put_all [OF assms(1)] by (simp add: get_ents keys_distinct)
qed

lemma get_put:
  assumes "inv c"
  shows "get (put c k v) k = Some v"
proof -
  have "(k, v) \<in> set (ents (put c k v))"
    using assms by (force simp: ents_put upsert_def recent_def)
  then show ?thesis using inv_put [OF assms] by (simp add: get_ents keys_distinct)
qed

lemma get_del: "inv c \<Longrightarrow> get (del c k) k' = (if k' = k then None else get c k')"
  by (simp add: get_ents inv_del ents_del map_of_filter_key)

end

interpretation cm: ordered_cache cache_inv entries maxSize cache_Get cache_Set "\<lambda>c k. snd (cache_Delete c k)"
proof unfold_locales
  fix c :: "('k, 'v) CacheManager" and k :: 'k and v :: 'v
  assume inv: "cache_inv c"
  show "cache_inv (cache_Set c k v)" "cache_inv (snd (cache_Delete c k))"
    "entries (cache_Set c k v) = upsert (maxSize c) k v (entries c)"
    "entries (snd (cache_Delete c k)) = filter (\<lambda>e. fst e \<noteq> k) (entries c)"
    "cache_Get c k = map_of (entries c) k"
    using inv by (simp_all add: cache_inv_Set cache_inv_Delete entries_Set entries_Delete Get_entries)
  show "distinct (map fst (entries c))" using inv by (simp add: cache_inv_def)
  show "0 < maxSize c \<Longrightarrow> int (length (entries c)) \<le> maxSize c"
    using inv cache_inv_length [OF inv] by (simp add: cache_inv_def entries_def)
qed simp

section \<open>Properties\<close>

text \<open>
  C6. The cache refines a bounded list of entries kept oldest first. Every operation keeps the
  invariant (one slot of the order per map entry, never more than \<^verbatim>\<open>maxSize\<close> of them); \<^verbatim>\<open>Set\<close>
  of a cached key replaces the value in place, \<^verbatim>\<open>Set\<close> of a new key appends it and drops the oldest
  entries beyond the capacity, \<^verbatim>\<open>Delete\<close> removes the key's entry only and says whether it was
  there, and \<^verbatim>\<open>Get\<close>, \<^verbatim>\<open>Values\<close> and \<^verbatim>\<open>Size\<close> read that list.
\<close>

theorem cache_refines_bounded_list:
  assumes "cache_inv c"
  shows "cache_inv (cache_Set c k v) \<and> cache_inv (snd (cache_Delete c k)) \<and>
    entries (cache_Set c k v) = upsert (maxSize c) k v (entries c) \<and>
    entries (snd (cache_Delete c k)) = filter (\<lambda>e. fst e \<noteq> k) (entries c) \<and>
    (fst (cache_Delete c k) \<longleftrightarrow> k \<in> fst ` set (entries c)) \<and>
    cache_Get c k = map_of (entries c) k \<and>
    cache_Values z c = map snd (entries c) \<and>
    cache_Size c = length (entries c)"
proof -
  have "map_of (items c) x \<noteq> None" if "x \<in> set (order c)" for x
    using that map_of_None_order [OF assms, of x] by blast
  then have vals: "cache_Values z c = map snd (entries c)"
    by (fastforce simp: cache_Values_def entries_def split: option.splits)
  have "fst (cache_Delete c k) \<longleftrightarrow> k \<in> fst ` set (entries c)"
    using map_of_None_order [OF assms, of k] keys_entries [of c]
    by (auto simp: cache_Delete_def simp flip: set_map)
  then show ?thesis
    using assms vals cache_inv_length [OF assms]
    by (simp add: cm.inv_put cm.inv_del cm.ents_put cm.ents_del cm.get_ents cache_Size_def length_entries)
qed

theorem cache_refines_bounded_list_witness:
  "entries (cache_Set \<lparr>items = [(1::nat, ''a''), (2, ''b'')], order = [2, 1], maxSize = 2\<rparr> 3 ''c'') = [(1, ''a''), (3, ''c'')]"
  using cache_refines_bounded_list [of "\<lparr>items = [(1::nat, ''a''), (2, ''b'')], order = [2, 1], maxSize = 2\<rparr>" 3 "''c''" "[]"]
  by (simp add: cache_inv_def insert_commute) (simp add: upsert_def recent_def entries_def)

text \<open>
  First in, first out: inserting any sequence of new distinct keys leaves exactly the most
  recent \<^verbatim>\<open>maxSize\<close> entries of the old contents followed by the inserted ones, in insertion order;
  with a non-positive \<^verbatim>\<open>maxSize\<close> nothing is ever evicted.
\<close>

theorem cache_keeps_most_recent:
  assumes "cache_inv c" "distinct (order c @ map fst kvs)"
  shows "entries (fold (\<lambda>(k, v) c. cache_Set c k v) kvs c) = recent (maxSize c) (entries c @ kvs)"
  using cm.put_all_fresh [OF assms(1), of kvs] assms(2) by (simp add: cm.put_all_def)

theorem cache_keeps_most_recent_witness:
  "entries (fold (\<lambda>(k, v) c. cache_Set c k v) [(1::nat, ''a''), (2, ''b''), (3, ''c'')] (NewCacheManager 2)) =
     [(2, ''b''), (3, ''c'')]"
  using cache_keeps_most_recent [of "NewCacheManager 2" "[(1::nat, ''a''), (2, ''b''), (3, ''c'')]"]
  by (simp add: cache_inv_new) (simp add: NewCacheManager_def recent_def entries_def)

text \<open>
  \<^verbatim>\<open>Fetch\<close> memoizes: a cached key is returned without calling the fetcher and without changing
  anything, and once \<^verbatim>\<open>Fetch\<close> has returned a value, whatever the fetcher did to the rest of the
  client, fetching the key again returns the same value with any fetcher and changes nothing. A
  failing fetcher's error is passed on and nothing is cached on top of what the fetcher did.
\<close>

theorem cache_Fetch_memoizes:
  assumes lens: "\<And>c w. get (upd c w) = c"
  shows "(cache_Get (get w) k = Some v \<longrightarrow> cache_Fetch get upd f k w = (Inr v, w)) \<and>
    (cache_Fetch get upd f k w = (Inr v, w') \<longrightarrow> cache_Fetch get upd g k w' = (Inr v, w')) \<and>
    (cache_Get (get w) k = None \<and> h k w = (Inl e, w') \<longrightarrow>
       cache_Fetch get upd (Some h) k w = (Inl e, w')) \<and>
    (cache_Get (get w) k = None \<longrightarrow> cache_Fetch get upd None k w = (Inl ErrNotFound, w))"
proof -
  have "cache_Fetch get upd g k w' = (Inr v, w')" if "cache_Fetch get upd f k w = (Inr v, w')"
    using that by (auto simp: cache_Fetch_def Get_Set lens split: option.splits prod.splits sum.splits)
  then show ?thesis by (simp add: cache_Fetch_def)
qed

theorem cache_Fetch_memoizes_witness:
  "cache_Fetch id (\<lambda>c _. c) None 7 (cache_Set (NewCacheManager 0) (7::nat) ''x'') =
     (Inr ''x'', cache_Set (NewCacheManager 0) 7 ''x'')"
  using cache_Fetch_memoizes [of id "\<lambda>c _. c" "NewCacheManager 0" "7::nat" "''x''"
      "Some (\<lambda>k w. (Inr ''x'', w))" "cache_Set (NewCacheManager 0) (7::nat) ''x''" None]
  by (simp add: cache_Fetch_def cache_Get_def NewCacheManager_def)

end
