(* ===== verification/Queue.thy ===== *)
theory Queue
  imports Mezon_Prelude "HOL-Library.Multiset"
begin

text \<open>
  The throttled queue of \<^verbatim>\<open>queue.go\<close>. Its goroutine takes one job after the other from a channel,
  waits until fewer than \<^verbatim>\<open>maxPerSecond\<close> jobs were started within the last second, and starts the
  job. Time is in nanoseconds. What the program does not control, the time that passes before
  each reading of the clock and the overshoot of each sleep, is a stream \<open>d\<close> of delays, so that
  every theorem holds for all timings.
\<close>

section \<open>The throttling loop\<close>

definition second :: int where "second = 1000000000"
definition poll_interval :: int where "poll_interval = 10000000"
definition defaultMaxPerSecond :: int where "defaultMaxPerSecond = 80"

text \<open>The limit \<^verbatim>\<open>NewAsyncThrottleQueue\<close> stores in the queue.\<close>

definition NewAsyncThrottleQueue :: "int \<Rightarrow> int" where
  "NewAsyncThrottleQueue maxPerSecond = (if maxPerSecond \<le> 0 then defaultMaxPerSecond else maxPerSecond)"

definition prune :: "int \<Rightarrow> int list \<Rightarrow> int list" where
  "prune now ts = filter (\<lambda>t. now - t < second) ts"

text \<open>The waiting loop sleeps, reads the clock and prunes. The result is the remaining timestamps,
  the last clock reading and the position in the stream of delays; a loop that never ends is
  \<^const>\<open>None\<close>.\<close>

partial_function (option) throttle_wait ::
  "(nat \<Rightarrow> nat) \<Rightarrow> int \<Rightarrow> int list \<Rightarrow> int \<Rightarrow> nat \<Rightarrow> (int list \<times> int \<times> nat) option" where
  "throttle_wait d cap ts now i =
     (if cap \<le> int (length ts)
      then (let now' = now + poll_interval + int (d i)
            in throttle_wait d cap (prune now' ts) now' (Suc i))
      else Some (ts, now, i))"

text \<open>The goroutine: for each job of the channel the time at which it was started.\<close>

fun queue_loop :: "(nat \<Rightarrow> nat) \<Rightarrow> int \<Rightarrow> int list \<Rightarrow> int \<Rightarrow> nat \<Rightarrow> 'job list \<Rightarrow> ('job \<times> int) list option" where
  "queue_loop d cap timestamps t i [] = Some []"
| "queue_loop d cap timestamps t i (job # jobs) =
     (let now = t + int (d i)
      in case throttle_wait d cap (prune now timestamps) now (Suc i) of
           None \<Rightarrow> None
         | Some (ts, now', i') \<Rightarrow>
             let started = now' + int (d i')
             in map_option (\<lambda>log. (job, started) # log)
                  (queue_loop d cap (ts @ [started]) started (Suc i') jobs))"

definition queue_start :: "(nat \<Rightarrow> nat) \<Rightarrow> int \<Rightarrow> int \<Rightarrow> 'job list \<Rightarrow> ('job \<times> int) list option" where
  "queue_start d maxPerSecond t jobs = queue_loop d (NewAsyncThrottleQueue maxPerSecond) [] t 0 jobs"

section \<open>The loop ends and limits the rate\<close>

lemma cap_positive: "1 \<le> NewAsyncThrottleQueue n"
  by (simp add: NewAsyncThrottleQueue_def defaultMaxPerSecond_def)

text \<open>\<open>recent_starts\<close> relates the timestamps kept to all earlier starts: they are the last ones, and every
  start that was dropped is at least a second old.\<close>

definition recent_starts :: "int list \<Rightarrow> int list \<Rightarrow> int \<Rightarrow> bool" where
  "recent_starts hist ts now \<longleftrightarrow>
     sorted (hist @ [now]) \<and> (\<exists>old. hist = old @ ts \<and> (\<forall>t\<in>set old. t + second \<le> now))"

lemma prune_sorted: "sorted ts \<Longrightarrow> \<exists>old. ts = old @ prune now ts \<and> (\<forall>t\<in>set old. t + second \<le> now)"
proof (induction ts)
  case (Cons t ts)
  show ?case
  proof (cases "now - t < second")
    case True
    then have "\<forall>u\<in>set ts. now - u < second" using Cons.prems by auto
    then have "prune now (t # ts) = t # ts" using True by (simp add: prune_def filter_id_conv)
    then show ?thesis by (intro exI [of _ "[]"]) simp
  next
    case False
    obtain old where "ts = old @ prune now ts" "\<forall>u\<in>set old. u + second \<le> now"
      using Cons by auto
    then have "t # ts = (t # old) @ prune now (t # ts)" "\<forall>u\<in>set (t # old). u + second \<le> now"
      using False by (auto simp: prune_def)
    then show ?thesis by blast
  qed
qed (simp add: prune_def)

lemma recent_starts_prune:
  assumes "recent_starts hist ts now" "now \<le> now'"
  shows "recent_starts hist (prune now' ts) now'"
proof -
  obtain old where old: "hist = old @ ts" "\<forall>t\<in>set old. t + second \<le> now" and srt: "sorted (hist @ [now])"
    using assms(1) by (auto simp: recent_starts_def)
  have "sorted ts" using srt old(1) by (simp add: sorted_append)
  then obtain old' where old': "ts = old' @ prune now' ts" "\<forall>t\<in>set old'. t + second \<le> now'"
    using prune_sorted by blast
  have "hist = (old @ old') @ prune now' ts" using old(1) old'(1) by simp
  moreover have "\<forall>t\<in>set (old @ old'). t + second \<le> now'" using old(2) old'(2) assms(2) by fastforce
  moreover have "sorted (hist @ [now'])" using srt assms(2) by (fastforce simp: sorted_append)
  ultimately show ?thesis unfolding recent_starts_def by blast
qed

text \<open>The waiting loop returns after at most \<open>m + 1\<close> sleeps when every timestamp leaves the window
  within \<open>m\<close> polling intervals.\<close>

lemma throttle_wait_returns:
  assumes "1 \<le> cap" "recent_starts hist ts now" "\<forall>t\<in>set ts. t + second \<le> now + int m * poll_interval"
  shows "\<exists>ts' now' i'. throttle_wait d cap ts now i = Some (ts', now', i') \<and>
           recent_starts hist ts' now' \<and> int (length ts') < cap \<and> now \<le> now'"
  using assms(2,3)
proof (induction m arbitrary: ts now i)
  case 0
  define now' where "now' = now + poll_interval + int (d i)"
  have le: "now \<le> now'" by (simp add: now'_def poll_interval_def)
  have "prune now' ts = []" using 0 le by (force simp: prune_def filter_empty_conv)
  then have "throttle_wait d cap ts now i = (if cap \<le> int (length ts) then Some ([], now', Suc i) else Some (ts, now, i))"
    using assms(1) by (subst throttle_wait.simps, subst throttle_wait.simps) (simp add: now'_def [symmetric])
  then show ?case
    using 0 recent_starts_prune [OF 0(1) le] \<open>prune now' ts = []\<close> le assms(1) by auto
next
  case (Suc m)
  define now' where "now' = now + poll_interval + int (d i)"
  have le: "now \<le> now'" by (simp add: now'_def poll_interval_def)
  have "\<forall>t\<in>set (prune now' ts). t + second \<le> now' + int m * poll_interval"
    using Suc.prems(2) by (force simp: prune_def now'_def algebra_simps)
  then obtain ts2 now2 i2 where "throttle_wait d cap (prune now' ts) now' (Suc i) = Some (ts2, now2, i2)"
      "recent_starts hist ts2 now2" "int (length ts2) < cap" "now' \<le> now2"
    using Suc.IH [OF recent_starts_prune [OF Suc.prems(1) le]] by blast
  then show ?case
    using Suc.prems(1) le by (subst throttle_wait.simps) (auto simp: now'_def [symmetric] Let_def)
qed

lemma throttle_wait_pruned:
  assumes "1 \<le> cap" "recent_starts hist ts now"
  obtains ts' now' i' where "throttle_wait d cap ts now i = Some (ts', now', i')"
    "recent_starts hist ts' now'" "int (length ts') < cap" "now \<le> now'"
proof -
  have "\<forall>t\<in>set ts. t \<le> now" using assms(2) by (auto simp: recent_starts_def sorted_append)
  then have "\<forall>t\<in>set ts. t + second \<le> now + int 100 * poll_interval"
    by (auto simp: second_def poll_interval_def)
  then show ?thesis using throttle_wait_returns [OF assms] that by blast
qed

definition rate_limited :: "int \<Rightarrow> int list \<Rightarrow> bool" where
  "rate_limited cap starts \<longleftrightarrow>
     (\<forall>k. int k + cap < int (length starts) \<longrightarrow> starts ! k + second \<le> starts ! (k + nat cap))"

lemma rate_limited_snoc:
  assumes "1 \<le> cap" "rate_limited cap hist" "recent_starts hist ts now" "int (length ts) < cap" "now \<le> s"
  shows "rate_limited cap (hist @ [s])"
  unfolding rate_limited_def
proof (intro allI impI)
  fix k
  assume k: "int k + cap < int (length (hist @ [s]))"
  obtain old where old: "hist = old @ ts" "\<forall>t\<in>set old. t + second \<le> now"
    using assms(3) by (auto simp: recent_starts_def)
  show "(hist @ [s]) ! k + second \<le> (hist @ [s]) ! (k + nat cap)"
  proof (cases "k + nat cap < length hist")
    case True
    then have "hist ! k + second \<le> hist ! (k + nat cap)"
      using assms(1,2) by (auto simp: rate_limited_def)
    then show ?thesis using True by (simp add: nth_append)
  next
    case False
    then have eq: "k + nat cap = length hist" using k assms(1) by auto
    then have "k < length old" using assms(1,4) old(1) by auto
    then show ?thesis using old assms(1,5) eq nth_mem [of k old] by (fastforce simp: nth_append)
  qed
qed

lemma queue_loop_correct:
  assumes "1 \<le> cap" "recent_starts hist ts t" "rate_limited cap hist"
  shows "\<exists>log. queue_loop d cap ts t i jobs = Some log \<and> map fst log = jobs \<and>
           sorted (hist @ map snd log) \<and> rate_limited cap (hist @ map snd log)"
  using assms(2,3)
proof (induction jobs arbitrary: hist ts t i)
  case Nil
  then show ?case by (simp add: recent_starts_def sorted_append)
next
  case (Cons job jobs)
  define now where "now = t + int (d i)"
  have "recent_starts hist (prune now ts) now"
    using recent_starts_prune [OF Cons.prems(1)] by (simp add: now_def)
  then obtain ts' now' i' where wait: "throttle_wait d cap (prune now ts) now (Suc i) = Some (ts', now', i')"
      "recent_starts hist ts' now'" "int (length ts') < cap" "now \<le> now'"
    using throttle_wait_pruned [OF assms(1)] by metis
  define s where "s = now' + int (d i')"
  have s: "now' \<le> s" by (simp add: s_def)
  have "recent_starts (hist @ [s]) (ts' @ [s]) s"
    using wait(2) s by (fastforce simp: recent_starts_def sorted_append)
  moreover have "rate_limited cap (hist @ [s])"
    using rate_limited_snoc [OF assms(1) Cons.prems(2) wait(2,3) s] .
  ultimately obtain log where "queue_loop d cap (ts' @ [s]) s (Suc i') jobs = Some log" "map fst log = jobs"
      "sorted (hist @ s # map snd log)" "rate_limited cap (hist @ s # map snd log)"
    using Cons.IH [of "hist @ [s]" "ts' @ [s]" s "Suc i'"] by auto
  then show ?case
    using wait(1) by (simp add: now_def [symmetric] s_def [symmetric] Let_def)
qed

section \<open>Callers of the queue\<close>

text \<open>
  \<^verbatim>\<open>Enqueue\<close> allocates a done channel with room for one result, puts a closure over its task and that
  channel into \<^verbatim>\<open>q.jobs\<close> (and blocks while 1024 closures wait there) and receives from its channel. The
  goroutine of the queue takes a closure out, holds it while it waits for its turn (\<^const>\<open>throttle_wait\<close>, which
  ends), and starts it in a goroutine of its own; that goroutine runs the task and sends its result to
  the channel of the closure. A call is its position in \<open>q_calls\<close>, a channel its position in \<open>q_chans\<close>.
  The last three fields record the calls whose closures were sent, the calls whose closures were started, and
  the results the tasks returned.
\<close>

datatype 'r enqueue_pc = Sending nat | Waiting nat | Returned 'r

record queue_closure =
  cl_call :: nat
  cl_done :: nat

datatype 'r job_pc = InTask queue_closure | InSend queue_closure 'r

record 'r queue_state =
  q_calls :: "'r enqueue_pc list"
  q_chans :: "'r option list"
  q_jobs :: "queue_closure list"
  q_held :: "queue_closure option"
  q_running :: "'r job_pc list"
  q_sent :: "nat list"
  q_started :: "nat list"
  q_ran :: "(nat \<times> 'r) list"

definition jobs_capacity :: nat where "jobs_capacity = 1024"

definition queue_init :: "'r queue_state \<Rightarrow> bool" where
  "queue_init s \<longleftrightarrow> s = \<lparr>q_calls = [], q_chans = [], q_jobs = [], q_held = None, q_running = [],
     q_sent = [], q_started = [], q_ran = []\<rparr>"

text \<open>\<open>FinishTask k r\<close> is the return of the task of the running job number \<open>k\<close> with the result \<open>r\<close>, and
  \<open>SendResult k\<close> its send to the done channel.\<close>

datatype 'r queue_label =
    NewCall | SendJob nat | Receive nat
  | TakeJob | StartJob
  | FinishTask nat 'r | SendResult nat

fun queue_exec :: "'r queue_label \<Rightarrow> 'r queue_state \<Rightarrow> 'r queue_state option" where
  "queue_exec NewCall s =
     Some (s\<lparr>q_chans := q_chans s @ [None], q_calls := q_calls s @ [Sending (length (q_chans s))]\<rparr>)"
| "queue_exec (SendJob n) s =
     (if n < length (q_calls s) \<and> length (q_jobs s) < jobs_capacity
      then (case q_calls s ! n of
              Sending c \<Rightarrow> Some (s\<lparr>q_jobs := q_jobs s @ [\<lparr>cl_call = n, cl_done = c\<rparr>],
                q_calls := (q_calls s)[n := Waiting c], q_sent := q_sent s @ [n]\<rparr>)
            | _ \<Rightarrow> None)
      else None)"
| "queue_exec (Receive n) s =
     (if n < length (q_calls s)
      then (case q_calls s ! n of
              Waiting c \<Rightarrow> (if c < length (q_chans s)
                then (case q_chans s ! c of
                        Some r \<Rightarrow> Some (s\<lparr>q_chans := (q_chans s)[c := None], q_calls := (q_calls s)[n := Returned r]\<rparr>)
                      | None \<Rightarrow> None)
                else None)
            | _ \<Rightarrow> None)
      else None)"
| "queue_exec TakeJob s =
     (case (q_held s, q_jobs s) of
        (None, j # js) \<Rightarrow> Some (s\<lparr>q_held := Some j, q_jobs := js\<rparr>)
      | _ \<Rightarrow> None)"
| "queue_exec StartJob s =
     (case q_held s of
        Some j \<Rightarrow> Some (s\<lparr>q_held := None, q_running := q_running s @ [InTask j], q_started := q_started s @ [cl_call j]\<rparr>)
      | None \<Rightarrow> None)"
| "queue_exec (FinishTask k r) s =
     (if k < length (q_running s)
      then (case q_running s ! k of
              InTask j \<Rightarrow> Some (s\<lparr>q_running := (q_running s)[k := InSend j r], q_ran := q_ran s @ [(cl_call j, r)]\<rparr>)
            | _ \<Rightarrow> None)
      else None)"
| "queue_exec (SendResult k) s =
     (if k < length (q_running s)
      then (case q_running s ! k of
              InSend j r \<Rightarrow> (if cl_done j < length (q_chans s) \<and> q_chans s ! cl_done j = None
                then Some (s\<lparr>q_chans := (q_chans s)[cl_done j := Some r],
                  q_running := take k (q_running s) @ drop (Suc k) (q_running s)\<rparr>)
                else None)
            | _ \<Rightarrow> None)
      else None)"

definition queue_step :: "'r queue_state \<Rightarrow> 'r queue_label \<Rightarrow> 'r queue_state \<Rightarrow> bool" where
  "queue_step s l s' \<longleftrightarrow> queue_exec l s = Some s'"

fun queue_run :: "'r queue_label list \<Rightarrow> 'r queue_state \<Rightarrow> 'r queue_state option" where
  "queue_run [] s = Some s"
| "queue_run (l # ls) s = (case queue_exec l s of None \<Rightarrow> None | Some s' \<Rightarrow> queue_run ls s')"

lemma queue_run_reachable:
  "reachable queue_init queue_step s \<Longrightarrow> queue_run ls s = Some s' \<Longrightarrow> reachable queue_init queue_step s'"
proof (induction ls arbitrary: s)
  case (Cons l ls)
  then obtain s1 where "queue_exec l s = Some s1" "queue_run ls s1 = Some s'" by (auto split: option.splits)
  moreover have "queue_step s l s1" unfolding queue_step_def by fact
  ultimately show ?case using Cons.IH reachable_step [OF Cons.prems(1)] by blast
qed simp

section \<open>Every call is served\<close>

fun job_closure :: "'r job_pc \<Rightarrow> queue_closure" where
  "job_closure (InTask j) = j"
| "job_closure (InSend j r) = j"

definition running_calls :: "'r queue_state \<Rightarrow> nat list" where
  "running_calls s = map (cl_call \<circ> job_closure) (q_running s)"

definition held_calls :: "'r queue_state \<Rightarrow> nat list" where
  "held_calls s = (case q_held s of None \<Rightarrow> [] | Some j \<Rightarrow> [cl_call j])"

text \<open>The work left: each step of a caller, of the goroutine or of a job does one unit of it.\<close>

fun call_work :: "'r enqueue_pc \<Rightarrow> nat" where
  "call_work (Sending c) = 6"
| "call_work _ = 0"

fun job_work :: "'r job_pc \<Rightarrow> nat" where
  "job_work (InTask j) = 3"
| "job_work (InSend j r) = 2"

definition queue_work :: "'r queue_state \<Rightarrow> nat" where
  "queue_work s = sum_list (map call_work (q_calls s)) + 5 * length (q_jobs s) +
     (if q_held s = None then 0 else 4) + sum_list (map job_work (q_running s)) +
     sum_list (map (\<lambda>c. if c = None then 0 else 1) (q_chans s))"

lemma sum_list_map_update:
  "k < length xs \<Longrightarrow> sum_list (map f (xs[k := y])) + f (xs ! k) = sum_list (map f xs) + (f y :: nat)"
  by (induction xs arbitrary: k) (auto split: nat.split)

lemma sum_list_map_remove:
  "k < length xs \<Longrightarrow> sum_list (map f (take k xs)) + sum_list (map f (drop (Suc k) xs)) + f (xs ! k) = (sum_list (map f xs) :: nat)"
  by (subst (3) id_take_nth_drop [of k xs]) simp_all

lemma queue_work_step: "queue_exec l s = Some s' \<Longrightarrow> l \<noteq> NewCall \<Longrightarrow> Suc (queue_work s') = queue_work s"
proof (induction l s rule: queue_exec.induct)
  case (2 n s)
  then obtain c where "n < length (q_calls s)" "q_calls s ! n = Sending c"
    "s' = s\<lparr>q_jobs := q_jobs s @ [\<lparr>cl_call = n, cl_done = c\<rparr>], q_calls := (q_calls s)[n := Waiting c], q_sent := q_sent s @ [n]\<rparr>"
    by (auto split: if_splits enqueue_pc.splits)
  then show ?case using sum_list_map_update [of n "q_calls s" call_work "Waiting c"] by (simp add: queue_work_def)
next
  case (3 n s)
  then obtain c r where "n < length (q_calls s)" "q_calls s ! n = Waiting c" "c < length (q_chans s)" "q_chans s ! c = Some r"
    "s' = s\<lparr>q_chans := (q_chans s)[c := None], q_calls := (q_calls s)[n := Returned r]\<rparr>"
    by (auto split: if_splits enqueue_pc.splits option.splits)
  then show ?case using sum_list_map_update [of n "q_calls s" call_work "Returned r"]
      sum_list_map_update [of c "q_chans s" "\<lambda>c. if c = None then 0 else 1" None]
    by (simp add: queue_work_def)
next
  case (6 k r s)
  then obtain j where "k < length (q_running s)" "q_running s ! k = InTask j"
    "s' = s\<lparr>q_running := (q_running s)[k := InSend j r], q_ran := q_ran s @ [(cl_call j, r)]\<rparr>"
    by (auto split: if_splits job_pc.splits)
  then show ?case using sum_list_map_update [of k "q_running s" job_work "InSend j r"] by (simp add: queue_work_def)
next
  case (7 k s)
  then obtain j r where "k < length (q_running s)" "q_running s ! k = InSend j r" "cl_done j < length (q_chans s)"
    "q_chans s ! cl_done j = None"
    "s' = s\<lparr>q_chans := (q_chans s)[cl_done j := Some r], q_running := take k (q_running s) @ drop (Suc k) (q_running s)\<rparr>"
    by (auto split: if_splits job_pc.splits)
  then show ?case using sum_list_map_remove [of k "q_running s" job_work]
      sum_list_map_update [of "cl_done j" "q_chans s" "\<lambda>c. if c = None then 0 else 1" "Some r"]
    by (simp add: queue_work_def)
qed (auto simp: queue_work_def split: option.splits list.splits)

lemma queue_work_run:
  "queue_run ls s = Some s' \<Longrightarrow> NewCall \<notin> set ls \<Longrightarrow> length ls + queue_work s' = queue_work s"
proof (induction ls arbitrary: s)
  case (Cons l ls)
  then obtain s1 where "queue_exec l s = Some s1" "queue_run ls s1 = Some s'" by (auto split: option.splits)
  then show ?case using Cons queue_work_step [of l s s1] by force
qed simp

text \<open>The invariant: the channel of a call has the number of the call; a closure is in one place; what lies in a
  channel is the result of the task of its call, and a call that waits has its closure or its result somewhere.\<close>

definition own_channel :: "queue_closure \<Rightarrow> bool" where "own_channel j \<longleftrightarrow> cl_done j = cl_call j"

definition queue_shape :: "'r queue_state \<Rightarrow> bool" where
  "queue_shape s \<longleftrightarrow>
     length (q_chans s) = length (q_calls s) \<and> length (q_jobs s) \<le> jobs_capacity \<and>
     q_started s @ held_calls s @ map cl_call (q_jobs s) = q_sent s \<and> distinct (q_sent s) \<and>
     set (q_sent s) \<subseteq> {..<length (q_calls s)} \<and>
     (\<forall>j\<in>set (q_jobs s) \<union> set_option (q_held s) \<union> job_closure ` set (q_running s). own_channel j)"

definition queue_runs :: "'r queue_state \<Rightarrow> bool" where
  "queue_runs s \<longleftrightarrow>
     distinct (running_calls s) \<and> set (running_calls s) \<subseteq> set (q_started s) \<and>
     distinct (map fst (q_ran s)) \<and> fst ` set (q_ran s) \<subseteq> set (q_started s) \<and>
     (\<forall>j. InTask j \<in> set (q_running s) \<longrightarrow> cl_call j \<notin> fst ` set (q_ran s)) \<and>
     (\<forall>j r. InSend j r \<in> set (q_running s) \<longrightarrow> (cl_call j, r) \<in> set (q_ran s))"

definition chan_ok :: "'r queue_state \<Rightarrow> nat \<Rightarrow> 'r option \<Rightarrow> bool" where
  "chan_ok s n v \<longleftrightarrow> (\<forall>r. v = Some r \<longrightarrow> (n, r) \<in> set (q_ran s) \<and> n \<notin> set (running_calls s))"

fun call_ok :: "'r queue_state \<Rightarrow> nat \<Rightarrow> 'r enqueue_pc \<Rightarrow> bool" where
  "call_ok s n (Sending c) \<longleftrightarrow> c = n \<and> n \<notin> set (q_sent s)"
| "call_ok s n (Waiting c) \<longleftrightarrow> c = n \<and> n \<in> set (q_sent s) \<and>
     (n \<in> set (q_started s) \<longrightarrow> n \<in> set (running_calls s) \<or> q_chans s ! n \<noteq> None)"
| "call_ok s n (Returned r) \<longleftrightarrow> (n, r) \<in> set (q_ran s)"

definition queue_inv :: "'r queue_state \<Rightarrow> bool" where
  "queue_inv s \<longleftrightarrow> queue_shape s \<and> queue_runs s \<and>
     (\<forall>n<length (q_chans s). chan_ok s n (q_chans s ! n)) \<and> (\<forall>n<length (q_calls s). call_ok s n (q_calls s ! n))"

lemmas queue_inv_simps = queue_shape_def queue_runs_def chan_ok_def held_calls_def running_calls_def own_channel_def

lemma queue_invD:
  assumes "queue_inv s"
  shows "queue_shape s" "queue_runs s" "n < length (q_chans s) \<Longrightarrow> chan_ok s n (q_chans s ! n)"
    "n < length (q_calls s) \<Longrightarrow> call_ok s n (q_calls s ! n)"
  using assms by (simp_all add: queue_inv_def)

lemma queue_invI:
  assumes "queue_shape s" "queue_runs s" "\<And>n. n < length (q_chans s) \<Longrightarrow> chan_ok s n (q_chans s ! n)"
    "\<And>n. n < length (q_calls s) \<Longrightarrow> call_ok s n (q_calls s ! n)"
  shows "queue_inv s"
  using assms by (simp add: queue_inv_def)

lemma queue_shape_sent: "queue_shape s \<Longrightarrow> set (q_started s) \<subseteq> set (q_sent s)"
  by (metis queue_shape_def set_append Un_upper1)


lemma queue_inv_new:
  assumes inv: "queue_inv s"
  shows "queue_inv (s\<lparr>q_chans := q_chans s @ [None], q_calls := q_calls s @ [Sending (length (q_chans s))]\<rparr>)"
    (is "queue_inv ?s")
proof (rule queue_invI)
  note D = queue_invD [OF inv]
  show "queue_shape ?s" using D(1) by (auto simp: queue_inv_simps)
  show "queue_runs ?s" using D(2) by (simp add: queue_inv_simps)
  show "chan_ok ?s n (q_chans ?s ! n)" if "n < length (q_chans ?s)" for n
    using D(3) [of n] that by (auto simp: queue_inv_simps nth_append less_Suc_eq)
  show "call_ok ?s n (q_calls ?s ! n)" if "n < length (q_calls ?s)" for n
  proof (cases "n < length (q_calls s)")
    case True
    then show ?thesis using D(4) [OF True] D(1)
      by (cases "q_calls s ! n") (auto simp: queue_inv_simps nth_append)
  next
    case False
    then show ?thesis using D(1) that by (auto simp: queue_shape_def nth_append less_Suc_eq)
  qed
qed

lemma queue_inv_send:
  assumes inv: "queue_inv s" and n: "n < length (q_calls s)" "q_calls s ! n = Sending c" and cap: "length (q_jobs s) < jobs_capacity"
  shows "queue_inv (s\<lparr>q_jobs := q_jobs s @ [\<lparr>cl_call = n, cl_done = c\<rparr>], q_calls := (q_calls s)[n := Waiting c], q_sent := q_sent s @ [n]\<rparr>)"
    (is "queue_inv ?s")
proof (rule queue_invI)
  note D = queue_invD [OF inv]
  have c: "c = n" "n \<notin> set (q_sent s)" using D(4) [OF n(1)] n(2) by simp_all
  then have st: "n \<notin> set (q_started s)" using queue_shape_sent [OF D(1)] by blast
  show "queue_shape ?s" using D(1) n c cap by (auto simp: queue_inv_simps)
  show "queue_runs ?s" using D(2) by (simp add: queue_inv_simps)
  show "chan_ok ?s m (q_chans ?s ! m)" if "m < length (q_chans ?s)" for m
    using D(3) [of m] that by (simp add: queue_inv_simps)
  show "call_ok ?s m (q_calls ?s ! m)" if "m < length (q_calls ?s)" for m
    using D(4) [of m] that c st by (cases "m = n"; cases "q_calls s ! m") (auto simp: running_calls_def nth_list_update)
qed

lemma queue_inv_receive:
  assumes inv: "queue_inv s" and n: "n < length (q_calls s)" "q_calls s ! n = Waiting c" and r: "c < length (q_chans s)" "q_chans s ! c = Some r"
  shows "queue_inv (s\<lparr>q_chans := (q_chans s)[c := None], q_calls := (q_calls s)[n := Returned r]\<rparr>)"
    (is "queue_inv ?s")
proof (rule queue_invI)
  note D = queue_invD [OF inv]
  have c: "c = n" using D(4) [OF n(1)] n(2) by simp
  then have ran: "(n, r) \<in> set (q_ran s)" using D(3) [OF r(1)] r(2) by (simp add: chan_ok_def)
  show "queue_shape ?s" using D(1) by (simp add: queue_inv_simps)
  show "queue_runs ?s" using D(2) by (simp add: queue_inv_simps)
  show "chan_ok ?s m (q_chans ?s ! m)" if "m < length (q_chans ?s)" for m
    using D(3) [of m] that by (cases "m = c") (auto simp: queue_inv_simps)
  show "call_ok ?s m (q_calls ?s ! m)" if "m < length (q_calls ?s)" for m
    using D(4) [of m] that c ran n
    by (cases "m = n"; cases "q_calls s ! m") (auto simp: running_calls_def nth_list_update)
qed

lemma queue_inv_take:
  assumes inv: "queue_inv s" and j: "q_held s = None" "q_jobs s = j # js"
  shows "queue_inv (s\<lparr>q_held := Some j, q_jobs := js\<rparr>)"
    (is "queue_inv ?s")
proof (rule queue_invI)
  note D = queue_invD [OF inv]
  show "queue_shape ?s" using D(1) j by (auto simp: queue_inv_simps)
  show "queue_runs ?s" using D(2) by (simp add: queue_inv_simps)
  show "chan_ok ?s m (q_chans ?s ! m)" if "m < length (q_chans ?s)" for m
    using D(3) [of m] that by (simp add: queue_inv_simps)
  show "call_ok ?s m (q_calls ?s ! m)" if "m < length (q_calls ?s)" for m
    using D(4) [of m] that by (cases "q_calls s ! m") (auto simp: running_calls_def)
qed

lemma queue_inv_start:
  assumes inv: "queue_inv s" and j: "q_held s = Some j"
  shows "queue_inv (s\<lparr>q_held := None, q_running := q_running s @ [InTask j], q_started := q_started s @ [cl_call j]\<rparr>)"
    (is "queue_inv ?s")
proof (rule queue_invI)
  note D = queue_invD [OF inv]
  have "distinct (q_started s @ held_calls s @ map cl_call (q_jobs s))" using D(1) by (simp add: queue_shape_def)
  then have st: "cl_call j \<notin> set (q_started s)" using j by (simp add: held_calls_def)
  then have ran: "cl_call j \<notin> fst ` set (q_ran s)" "cl_call j \<notin> set (running_calls s)" using D(2) by (auto simp: queue_runs_def)
  show "queue_shape ?s" using D(1) j by (auto simp: queue_inv_simps)
  show "queue_runs ?s" using D(2) st ran by (auto simp: queue_inv_simps)
  show "chan_ok ?s m (q_chans ?s ! m)" if "m < length (q_chans ?s)" for m
    using D(3) [of m] that ran(1) by (force simp: queue_inv_simps)
  show "call_ok ?s m (q_calls ?s ! m)" if "m < length (q_calls ?s)" for m
    using D(4) [of m] that by (cases "q_calls s ! m") (auto simp: running_calls_def)
qed

lemma queue_inv_finish:
  assumes inv: "queue_inv s" and k: "q_running s = xs @ InTask j # ys"
  shows "queue_inv (s\<lparr>q_running := xs @ InSend j r # ys, q_ran := q_ran s @ [(cl_call j, r)]\<rparr>)"
    (is "queue_inv ?s")
proof (rule queue_invI)
  note D = queue_invD [OF inv]
  have run: "running_calls ?s = running_calls s" using k by (simp add: running_calls_def)
  show "queue_shape ?s" using D(1) k by (auto simp: queue_shape_def held_calls_def)
  have new: "cl_call j \<notin> fst ` set (q_ran s)" using D(2) k by (simp add: queue_runs_def)
  have "distinct (running_calls s)" using D(2) by (simp add: queue_runs_def)
  then have other: "cl_call i \<noteq> cl_call j" if "InTask i \<in> set xs \<or> InTask i \<in> set ys" for i
    using k that by (force simp: running_calls_def)
  have started: "cl_call j \<in> set (q_started s)" using D(2) k by (simp add: queue_runs_def running_calls_def)
  show "queue_runs ?s" unfolding queue_runs_def run
  proof (intro conjI allI impI)
    show "cl_call i \<notin> fst ` set (q_ran ?s)" if "InTask i \<in> set (q_running ?s)" for i
      using D(2) k that other [of i] by (auto simp: queue_runs_def)
    show "(cl_call i, v) \<in> set (q_ran ?s)" if "InSend i v \<in> set (q_running ?s)" for i v
      using D(2) k that by (auto simp: queue_runs_def)
  qed (use D(2) new started in \<open>simp_all add: queue_runs_def\<close>)
  show "chan_ok ?s m (q_chans ?s ! m)" if "m < length (q_chans ?s)" for m
    using D(3) [of m] that by (simp add: chan_ok_def run)
  show "call_ok ?s m (q_calls ?s ! m)" if "m < length (q_calls ?s)" for m
    using D(4) [of m] that by (cases "q_calls s ! m") (simp_all add: run)
qed

lemma queue_inv_result:
  assumes inv: "queue_inv s" and k: "q_running s = xs @ InSend j r # ys" and c: "cl_done j < length (q_chans s)"
  shows "queue_inv (s\<lparr>q_chans := (q_chans s)[cl_done j := Some r], q_running := xs @ ys\<rparr>)"
    (is "queue_inv ?s")
proof (rule queue_invI)
  note D = queue_invD [OF inv]
  have own: "cl_done j = cl_call j" using D(1) k by (simp add: queue_shape_def own_channel_def)
  have run: "set (running_calls ?s) = set (running_calls s) - {cl_call j}"
    using D(2) k by (auto simp: queue_runs_def running_calls_def)
  have ran: "(cl_call j, r) \<in> set (q_ran s)" using D(2) k by (simp add: queue_runs_def)
  show "queue_shape ?s" using D(1) k by (auto simp: queue_shape_def held_calls_def)
  show "queue_runs ?s" using D(2) k by (auto simp: queue_runs_def running_calls_def)
  show "chan_ok ?s m (q_chans ?s ! m)" if "m < length (q_chans ?s)" for m
    using D(3) [of m] that ran own run by (cases "m = cl_call j") (auto simp: chan_ok_def)
  show "call_ok ?s m (q_calls ?s ! m)" if "m < length (q_calls ?s)" for m
    using D(4) [of m] that own c run by (cases "q_calls s ! m"; cases "m = cl_call j") auto
qed

lemma queue_inv_step: "queue_exec l s = Some s' \<Longrightarrow> queue_inv s \<Longrightarrow> queue_inv s'"
proof (induction l s rule: queue_exec.induct)
  case (6 k r s)
  then obtain j where k: "k < length (q_running s)" "q_running s ! k = InTask j"
    and s': "s' = s\<lparr>q_running := (q_running s)[k := InSend j r], q_ran := q_ran s @ [(cl_call j, r)]\<rparr>"
    by (auto split: if_splits job_pc.splits)
  from queue_inv_finish [OF 6(2), of "take k (q_running s)" j "drop (Suc k) (q_running s)" r] show ?case
    using k id_take_nth_drop [OF k(1)] by (simp add: s' upd_conv_take_nth_drop)
next
  case (7 k s)
  then obtain j r where k: "k < length (q_running s)" "q_running s ! k = InSend j r" "cl_done j < length (q_chans s)"
    and s': "s' = s\<lparr>q_chans := (q_chans s)[cl_done j := Some r], q_running := take k (q_running s) @ drop (Suc k) (q_running s)\<rparr>"
    by (auto split: if_splits job_pc.splits)
  from queue_inv_result [OF 7(2), of "take k (q_running s)" j r "drop (Suc k) (q_running s)"] show ?case
    using k id_take_nth_drop [OF k(1)] by (simp add: s')
qed (auto intro: queue_inv_new queue_inv_send queue_inv_receive queue_inv_take queue_inv_start
      split: if_splits enqueue_pc.splits option.splits list.splits)

lemma queue_inv_init: "queue_init s \<Longrightarrow> queue_inv s"
  by (simp add: queue_init_def queue_inv_def queue_inv_simps)

interpretation queue: step_invariant queue_init queue_step queue_inv
  by unfold_locales (auto simp: queue_step_def intro: queue_inv_init queue_inv_step)

text \<open>When no caller, job or the goroutine can do a step, every call has returned.\<close>

lemma queue_idle_returned:
  assumes inv: "queue_inv s" and idle: "\<And>l. l \<noteq> NewCall \<Longrightarrow> queue_exec l s = None" and n: "n < length (q_calls s)"
  shows "\<exists>r. q_calls s ! n = Returned r"
proof -
  note D = queue_invD [OF inv]
  have held: "q_held s = None" using idle [of StartJob] by (simp split: option.splits)
  then have jobs: "q_jobs s = []" using idle [of TakeJob] by (simp split: list.splits)
  have run: "q_running s = []"
  proof (cases "q_running s")
    case (Cons p ps)
    show ?thesis
    proof (cases p)
      case (InTask j)
      then show ?thesis using idle [of "FinishTask 0 undefined"] Cons by simp
    next
      case (InSend j r)
      then have c: "cl_call j \<in> set (running_calls s)" "cl_done j = cl_call j" using D(1) Cons
        by (simp_all add: queue_inv_simps)
      then have "cl_call j \<in> set (q_sent s)" using queue_shape_sent [OF D(1)] D(2) by (auto simp: queue_runs_def)
      then have "cl_done j < length (q_chans s)" using D(1) c(2) by (auto simp: queue_shape_def)
      moreover from D(3) [OF this] c have "q_chans s ! cl_done j = None" by (cases "q_chans s ! cl_done j") (auto simp: chan_ok_def)
      ultimately show ?thesis using idle [of "SendResult 0"] Cons InSend by simp
    qed
  qed
  show ?thesis
  proof (cases "q_calls s ! n")
    case (Sending c)
    then show ?thesis using idle [of "SendJob n"] n jobs by (simp add: jobs_capacity_def)
  next
    case (Waiting c)
    then have "c = n" "n \<in> set (q_sent s)" "n \<in> set (q_started s) \<Longrightarrow> q_chans s ! n \<noteq> None"
      using D(4) [OF n] run by (simp_all add: running_calls_def)
    moreover have "q_started s = q_sent s" "n < length (q_chans s)" using D(1) held jobs n by (simp_all add: queue_shape_def held_calls_def)
    ultimately show ?thesis using idle [of "Receive n"] n Waiting by (auto split: option.splits)
  qed blast
qed

lemma queue_run_calls:
  "queue_run ls s = Some s' \<Longrightarrow> NewCall \<notin> set ls \<Longrightarrow> length (q_calls s') = length (q_calls s)"
proof (induction ls arbitrary: s)
  case (Cons l ls)
  then obtain s1 where l: "queue_exec l s = Some s1" "queue_run ls s1 = Some s'" by (auto split: option.splits)
  moreover from l(1) Cons.prems(2) have "length (q_calls s1) = length (q_calls s)"
    by (cases l) (auto split: if_splits enqueue_pc.splits job_pc.splits option.splits list.splits)
  ultimately show ?case using Cons by simp
qed simp

text \<open>Two jobs can be in flight at the same time: the queue limits how fast jobs are started and does
  not run them one at a time.\<close>

definition overlap_labels :: "'r queue_label list" where
  "overlap_labels = [NewCall, NewCall, SendJob 1, SendJob 0, TakeJob, StartJob, TakeJob, StartJob]"

lemma queue_jobs_overlap:
  "\<exists>s. reachable queue_init queue_step s \<and> q_running s = [InTask \<lparr>cl_call = 1, cl_done = 1\<rparr>, InTask \<lparr>cl_call = 0, cl_done = 0\<rparr>] \<and>
     q_calls s = [Waiting 0, Waiting 1] \<and> q_chans s = [None, None] \<and> q_ran s = [] \<and> q_jobs s = [] \<and> q_held s = None"
proof -
  let ?s = "\<lparr>q_calls = [], q_chans = [], q_jobs = [], q_held = None, q_running = [], q_sent = [], q_started = [], q_ran = []\<rparr>
    :: 'a queue_state"
  have "reachable queue_init queue_step ?s" by (rule reachable_init) (simp add: queue_init_def)
  moreover have "\<exists>s. queue_run overlap_labels ?s = Some s \<and>
     q_running s = [InTask \<lparr>cl_call = 1, cl_done = 1\<rparr>, InTask \<lparr>cl_call = 0, cl_done = 0\<rparr>] \<and>
     q_calls s = [Waiting 0, Waiting 1] \<and> q_chans s = [None, None] \<and> q_ran s = [] \<and> q_jobs s = [] \<and> q_held s = None"
    by (simp add: overlap_labels_def jobs_capacity_def)
  ultimately show ?thesis using queue_run_reachable by blast
qed

section \<open>Properties\<close>

text \<open>
  C20. Whatever the timing, the queue starts every job, in the order of the channel, and never more
  than \<^verbatim>\<open>maxPerSecond\<close> of them (80 when the argument is not positive) in one second: the start
  number \<open>k + maxPerSecond\<close> comes at least a second after start \<open>k\<close>. In particular the waiting loop
  always ends.
\<close>

theorem queue_starts_all_at_limited_rate:
  "\<exists>log. queue_start d maxPerSecond t jobs = Some log \<and> map fst log = jobs \<and> sorted (map snd log) \<and>
     (\<forall>k. int k + NewAsyncThrottleQueue maxPerSecond < int (length log) \<longrightarrow>
        snd (log ! k) + second \<le> snd (log ! (k + nat (NewAsyncThrottleQueue maxPerSecond))))"
proof -
  let ?cap = "NewAsyncThrottleQueue maxPerSecond"
  obtain log where log: "queue_start d maxPerSecond t jobs = Some log" "map fst log = jobs"
      "sorted (map snd log)" and rate: "rate_limited ?cap (map snd log)"
    using queue_loop_correct [of ?cap "[]" "[]" t d 0 jobs] cap_positive [of maxPerSecond]
    by (auto simp: queue_start_def recent_starts_def rate_limited_def)
  have "snd (log ! k) + second \<le> snd (log ! (k + nat ?cap))" if "int k + ?cap < int (length log)" for k
    using rate that cap_positive [of maxPerSecond] by (auto simp: rate_limited_def)
  with log show ?thesis by blast
qed

theorem queue_starts_all_at_limited_rate_witness:
  "\<exists>log. queue_start (\<lambda>_. 0) 2 0 [''a'', ''b'', ''c''] = Some log \<and>
     snd (log ! 0) + second \<le> snd (log ! 2)"
proof -
  obtain log where "queue_start (\<lambda>_. 0) 2 0 [''a'', ''b'', ''c''] = Some log" "map fst log = [''a'', ''b'', ''c'']"
      "\<forall>k. int k + 2 < int (length log) \<longrightarrow> snd (log ! k) + second \<le> snd (log ! (k + 2))"
    using queue_starts_all_at_limited_rate [of "\<lambda>_. 0" 2 0 "[''a'', ''b'', ''c'']"]
    by (auto simp: NewAsyncThrottleQueue_def)
  moreover from this(2) have "length log = 3" by (metis length_map length_Cons list.size(3) numeral_3_eq_3)
  ultimately have "snd (log ! 0) + second \<le> snd (log ! (0 + 2))" by (elim allE [of _ 0]) simp
  with \<open>queue_start _ _ _ _ = Some log\<close> show ?thesis by (auto simp: numeral_2_eq_2)
qed

text \<open>
  C21. In every interleaving of callers, the queue's goroutine and the started jobs: closures are started in the
  order in which they were sent, none is lost or started twice (what was sent is what was started, then the one held in the throttle
  wait, then the waiting ones), no task runs twice, and what \<^verbatim>\<open>Enqueue\<close> returned is what the task of that very call returned.
  And every caller is served: without new calls a run has at most \<^const>\<open>queue_work\<close> steps, each one unit of it, and when nothing
  more can be done every call has returned with the result of its own task.
\<close>

theorem queue_serves_every_call:
  assumes "reachable queue_init queue_step s"
  shows "q_started s @ held_calls s @ map cl_call (q_jobs s) = q_sent s \<and> distinct (q_sent s) \<and>
    distinct (map fst (q_ran s)) \<and>
    (\<forall>n r. n < length (q_calls s) \<longrightarrow> q_calls s ! n = Returned r \<longrightarrow> (n, r) \<in> set (q_ran s)) \<and>
    (\<forall>ls s'. queue_run ls s = Some s' \<longrightarrow> NewCall \<notin> set ls \<longrightarrow>
      length ls + queue_work s' = queue_work s \<and> length (q_calls s') = length (q_calls s) \<and>
      ((\<forall>l. l \<noteq> NewCall \<longrightarrow> queue_exec l s' = None) \<longrightarrow>
        (\<forall>n<length (q_calls s'). \<exists>r. q_calls s' ! n = Returned r \<and> (n, r) \<in> set (q_ran s'))))"
proof -
  have inv: "queue_inv s" using assms by (rule queue.reachable_inv)
  have ret: "(n, r) \<in> set (q_ran s)" if "queue_inv s" "n < length (q_calls s)" "q_calls s ! n = Returned r" for s n and r :: 'a
    using queue_invD(4) [OF that(1,2)] that(3) by simp
  have "length ls + queue_work s' = queue_work s \<and> length (q_calls s') = length (q_calls s) \<and>
      ((\<forall>l. l \<noteq> NewCall \<longrightarrow> queue_exec l s' = None) \<longrightarrow>
        (\<forall>n<length (q_calls s'). \<exists>r. q_calls s' ! n = Returned r \<and> (n, r) \<in> set (q_ran s')))"
    if run: "queue_run ls s = Some s'" "NewCall \<notin> set ls" for ls s'
  proof -
    have "queue_inv s'" using queue_run_reachable [OF assms run(1)] by (rule queue.reachable_inv)
    then show ?thesis
      using queue_work_run [OF run] queue_run_calls [OF run] queue_idle_returned [of s'] ret [of s'] by metis
  qed
  then show ?thesis using queue_invD(1,2) [OF inv] ret [OF inv] by (simp add: queue_shape_def queue_runs_def)
qed

theorem queue_serves_every_call_witness:
  "\<exists>s s'. reachable queue_init queue_step s \<and>
     queue_run [FinishTask 1 ''b'', FinishTask 0 ''a'', SendResult 1, SendResult 0, Receive 1, Receive 0] s = Some s' \<and>
     6 + queue_work s' = queue_work s \<and> q_calls s' = [Returned ''b'', Returned ''a''] \<and>
     (1, ''a'') \<in> set (q_ran s') \<and> distinct (map fst (q_ran s')) \<and> distinct (q_sent s)"
proof -
  let ?ls = "[FinishTask 1 ''b'', FinishTask 0 ''a'', SendResult 1, SendResult 0, Receive 1, Receive 0]"
  obtain s :: "string queue_state" where r: "reachable queue_init queue_step s" and s:
      "q_running s = [InTask \<lparr>cl_call = 1, cl_done = 1\<rparr>, InTask \<lparr>cl_call = 0, cl_done = 0\<rparr>]"
      "q_calls s = [Waiting 0, Waiting 1]" "q_chans s = [None, None]" "q_ran s = []"
    using queue_jobs_overlap by blast
  from s have "\<exists>s'. queue_run ?ls s = Some s' \<and> q_calls s' = [Returned ''b'', Returned ''a'']" by simp
  then obtain s' where run: "queue_run ?ls s = Some s'" and s': "q_calls s' = [Returned ''b'', Returned ''a'']" by blast
  have r': "reachable queue_init queue_step s'" by (rule queue_run_reachable [OF r run])
  have "(\<forall>n r. n < length (q_calls s') \<longrightarrow> q_calls s' ! n = Returned r \<longrightarrow> (n, r) \<in> set (q_ran s')) \<and> distinct (map fst (q_ran s'))"
    using queue_serves_every_call [OF r'] by (elim conjE) (intro conjI)
  then have "(1, ''a'') \<in> set (q_ran s')" "distinct (map fst (q_ran s'))" using s' by simp_all
  moreover have "\<forall>ls s'. queue_run ls s = Some s' \<longrightarrow> NewCall \<notin> set ls \<longrightarrow> length ls + queue_work s' = queue_work s"
    "distinct (q_sent s)" using queue_serves_every_call [OF r] by simp_all
  then have "6 + queue_work s' = queue_work s" "distinct (q_sent s)" using run by fastforce+
  ultimately show ?thesis using r run s' by blast
qed

end
