(* ===== verification/Proto.thy ===== *)
theory Proto
  imports Mezon_Prelude
begin

text \<open>
  The protobuf messages the SDK reads and writes, from the generated packages \<^verbatim>\<open>api\<close> and
  \<^verbatim>\<open>rtapi\<close>: one record per message with the fields of the generated struct in its order (the
  protobuf bookkeeping fields are left out). A pointer to a message is an option, a repeated field
  a list. Messages that the SDK only passes on to the handlers of the application are opaque.
  \<open>zero_\<dots>\<close> is the empty message. Of the envelope, the fields that the SDK sets or inspects are
  kept.
\<close>

type_synonym opaque = bytes

record pb_MessageMention =
  mm_Id :: int64
  mm_UserId :: int64
  mm_Username :: string
  mm_RoleId :: int64
  mm_Rolename :: string
  mm_CreateTimeSeconds :: uint32
  mm_S :: int32
  mm_E :: int32

definition zero_MessageMention :: pb_MessageMention where
  "zero_MessageMention = \<lparr>mm_Id = 0, mm_UserId = 0, mm_Username = [], mm_RoleId = 0,
     mm_Rolename = [], mm_CreateTimeSeconds = 0, mm_S = 0, mm_E = 0\<rparr>"

record pb_MessageAttachment =
  ma_Filename :: string
  ma_Size :: int32
  ma_Url :: string
  ma_Filetype :: string
  ma_Width :: int32
  ma_Height :: int32
  ma_Thumbnail :: string
  ma_Duration :: int32

definition zero_MessageAttachment :: pb_MessageAttachment where
  "zero_MessageAttachment = \<lparr>ma_Filename = [], ma_Size = 0, ma_Url = [], ma_Filetype = [],
     ma_Width = 0, ma_Height = 0, ma_Thumbnail = [], ma_Duration = 0\<rparr>"

record pb_MessageRef =
  mr_MessageId :: int64
  mr_MessageRefId :: int64
  mr_Content :: string
  mr_HasAttachment :: bool
  mr_RefType :: int32
  mr_MessageSenderId :: int64
  mr_MessageSenderUsername :: string
  mr_MessageSenderAvatar :: string
  mr_MessageSenderClanNick :: string
  mr_MessageSenderDisplayName :: string

definition zero_MessageRef :: pb_MessageRef where
  "zero_MessageRef = \<lparr>mr_MessageId = 0, mr_MessageRefId = 0, mr_Content = [],
     mr_HasAttachment = False, mr_RefType = 0, mr_MessageSenderId = 0,
     mr_MessageSenderUsername = [], mr_MessageSenderAvatar = [], mr_MessageSenderClanNick = [],
     mr_MessageSenderDisplayName = []\<rparr>"

record pb_MessageReaction =
  mre_Id :: int64
  mre_EmojiId :: int64
  mre_Emoji :: string
  mre_SenderId :: int64
  mre_SenderName :: string
  mre_SenderAvatar :: string
  mre_Action :: bool
  mre_Count :: int32
  mre_ChannelId :: int64
  mre_MessageId :: int64
  mre_ClanId :: int64
  mre_Mode :: int32
  mre_MessageSenderId :: int64
  mre_IsPublic :: bool
  mre_TopicId :: int64
  mre_EmojiRecentId :: int64

definition zero_MessageReaction :: pb_MessageReaction where
  "zero_MessageReaction = \<lparr>mre_Id = 0, mre_EmojiId = 0, mre_Emoji = [], mre_SenderId = 0,
     mre_SenderName = [], mre_SenderAvatar = [], mre_Action = False, mre_Count = 0,
     mre_ChannelId = 0, mre_MessageId = 0, mre_ClanId = 0, mre_Mode = 0, mre_MessageSenderId = 0,
     mre_IsPublic = False, mre_TopicId = 0, mre_EmojiRecentId = 0\<rparr>"

record pb_MessageMentionList =
  mml_Mentions :: "pb_MessageMention list"

definition zero_MessageMentionList :: pb_MessageMentionList where
  "zero_MessageMentionList = \<lparr>mml_Mentions = []\<rparr>"

record pb_MessageAttachmentList =
  mal_Attachments :: "pb_MessageAttachment list"

definition zero_MessageAttachmentList :: pb_MessageAttachmentList where
  "zero_MessageAttachmentList = \<lparr>mal_Attachments = []\<rparr>"

record pb_MessageRefList =
  mrl_Refs :: "pb_MessageRef list"

definition zero_MessageRefList :: pb_MessageRefList where
  "zero_MessageRefList = \<lparr>mrl_Refs = []\<rparr>"

record pb_MessageReactionList =
  mrel_Reactions :: "pb_MessageReaction list"

definition zero_MessageReactionList :: pb_MessageReactionList where
  "zero_MessageReactionList = \<lparr>mrel_Reactions = []\<rparr>"

record pb_ChannelMessage =
  cm_ClanId :: int64
  cm_ChannelId :: int64
  cm_MessageId :: int64
  cm_Code :: int32
  cm_SenderId :: int64
  cm_Username :: string
  cm_Avatar :: string
  cm_Content :: string
  cm_ChannelLabel :: string
  cm_ClanLogo :: string
  cm_CategoryName :: string
  cm_DisplayName :: string
  cm_ClanNick :: string
  cm_ClanAvatar :: string
  cm_Reactions :: bytes
  cm_Mentions :: bytes
  cm_Attachments :: bytes
  cm_References :: bytes
  cm_ReferencedMessage :: bytes
  cm_CreateTimeSeconds :: uint32
  cm_UpdateTimeSeconds :: uint32
  cm_Mode :: int32
  cm_HideEditted :: bool
  cm_IsPublic :: bool
  cm_TopicId :: int64

definition zero_ChannelMessage :: pb_ChannelMessage where
  "zero_ChannelMessage = \<lparr>cm_ClanId = 0, cm_ChannelId = 0, cm_MessageId = 0, cm_Code = 0,
     cm_SenderId = 0, cm_Username = [], cm_Avatar = [], cm_Content = [], cm_ChannelLabel = [],
     cm_ClanLogo = [], cm_CategoryName = [], cm_DisplayName = [], cm_ClanNick = [],
     cm_ClanAvatar = [], cm_Reactions = [], cm_Mentions = [], cm_Attachments = [],
     cm_References = [], cm_ReferencedMessage = [], cm_CreateTimeSeconds = 0,
     cm_UpdateTimeSeconds = 0, cm_Mode = 0, cm_HideEditted = False, cm_IsPublic = False,
     cm_TopicId = 0\<rparr>"

record pb_ChannelDescription =
  cd_ClanId :: int64
  cd_ParentId :: int64
  cd_ChannelId :: int64
  cd_CategoryId :: int64
  cd_CategoryName :: string
  cd_Type :: int32
  cd_CreatorId :: int64
  cd_ChannelLabel :: string
  cd_ChannelPrivate :: int32
  cd_Avatars :: "string list"
  cd_UserIds :: "int64 list"
  cd_LastSentMessage :: "opaque option"
  cd_LastSeenMessage :: "opaque option"
  cd_Onlines :: "bool list"
  cd_MeetingCode :: string
  cd_CountMessUnread :: int32
  cd_Active :: int32
  cd_LastPinMessage :: string
  cd_Usernames :: "string list"
  cd_CreatorName :: string
  cd_CreateTimeSeconds :: uint32
  cd_UpdateTimeSeconds :: uint32
  cd_DisplayNames :: "string list"
  cd_ChannelAvatar :: string
  cd_ClanName :: string
  cd_AppId :: int64
  cd_IsMute :: bool
  cd_AgeRestricted :: int32
  cd_Topic :: string
  cd_E2Ee :: int32
  cd_MemberCount :: int32

definition zero_ChannelDescription :: pb_ChannelDescription where
  "zero_ChannelDescription = \<lparr>cd_ClanId = 0, cd_ParentId = 0, cd_ChannelId = 0,
     cd_CategoryId = 0, cd_CategoryName = [], cd_Type = 0, cd_CreatorId = 0, cd_ChannelLabel = [],
     cd_ChannelPrivate = 0, cd_Avatars = [], cd_UserIds = [], cd_LastSentMessage = None,
     cd_LastSeenMessage = None, cd_Onlines = [], cd_MeetingCode = [], cd_CountMessUnread = 0,
     cd_Active = 0, cd_LastPinMessage = [], cd_Usernames = [], cd_CreatorName = [],
     cd_CreateTimeSeconds = 0, cd_UpdateTimeSeconds = 0, cd_DisplayNames = [],
     cd_ChannelAvatar = [], cd_ClanName = [], cd_AppId = 0, cd_IsMute = False,
     cd_AgeRestricted = 0, cd_Topic = [], cd_E2Ee = 0, cd_MemberCount = 0\<rparr>"

record pb_ChannelDescList =
  cdl_Channeldesc :: "pb_ChannelDescription list"

definition zero_ChannelDescList :: pb_ChannelDescList where
  "zero_ChannelDescList = \<lparr>cdl_Channeldesc = []\<rparr>"

record pb_ClanDesc =
  cld_CreatorId :: int64
  cld_ClanName :: string
  cld_Logo :: string
  cld_Banner :: string
  cld_ClanId :: int64
  cld_Status :: int32
  cld_BadgeCount :: int32
  cld_IsOnboarding :: bool
  cld_WelcomeChannelId :: int64
  cld_OnboardingBanner :: string
  cld_ClanOrder :: int32
  cld_IsCommunity :: bool
  cld_CommunityBanner :: string
  cld_Description :: string
  cld_About :: string
  cld_ShortUrl :: string
  cld_PreventAnonymous :: bool
  cld_HasUnreadMessage :: bool

definition zero_ClanDesc :: pb_ClanDesc where
  "zero_ClanDesc = \<lparr>cld_CreatorId = 0, cld_ClanName = [], cld_Logo = [], cld_Banner = [],
     cld_ClanId = 0, cld_Status = 0, cld_BadgeCount = 0, cld_IsOnboarding = False,
     cld_WelcomeChannelId = 0, cld_OnboardingBanner = [], cld_ClanOrder = 0,
     cld_IsCommunity = False, cld_CommunityBanner = [], cld_Description = [], cld_About = [],
     cld_ShortUrl = [], cld_PreventAnonymous = False, cld_HasUnreadMessage = False\<rparr>"

record pb_ClanDescList =
  cldl_Clandesc :: "pb_ClanDesc list"

definition zero_ClanDescList :: pb_ClanDescList where
  "zero_ClanDescList = \<lparr>cldl_Clandesc = []\<rparr>"

record pb_Session =
  ps_Created :: bool
  ps_Token :: string
  ps_RefreshToken :: string
  ps_UserId :: int64
  ps_IsRemember :: bool
  ps_ApiUrl :: string
  ps_IdToken :: string
  ps_WsUrl :: string
  ps_SessionId :: string
  ps_TcpUrl :: string

definition zero_Session :: pb_Session where
  "zero_Session = \<lparr>ps_Created = False, ps_Token = [], ps_RefreshToken = [], ps_UserId = 0,
     ps_IsRemember = False, ps_ApiUrl = [], ps_IdToken = [], ps_WsUrl = [], ps_SessionId = [],
     ps_TcpUrl = []\<rparr>"

record pb_CreateChannelDescRequest =
  ccd_ClanId :: int64
  ccd_ParentId :: int64
  ccd_ChannelId :: int64
  ccd_CategoryId :: int64
  ccd_Type :: int32
  ccd_ChannelLabel :: string
  ccd_ChannelPrivate :: int32
  ccd_UserIds :: "int64 list"
  ccd_AppId :: int64

definition zero_CreateChannelDescRequest :: pb_CreateChannelDescRequest where
  "zero_CreateChannelDescRequest = \<lparr>ccd_ClanId = 0, ccd_ParentId = 0, ccd_ChannelId = 0,
     ccd_CategoryId = 0, ccd_Type = 0, ccd_ChannelLabel = [], ccd_ChannelPrivate = 0,
     ccd_UserIds = [], ccd_AppId = 0\<rparr>"

record pb_DeleteChannelDescRequest =
  dcd_ClanId :: int64
  dcd_ChannelId :: int64

definition zero_DeleteChannelDescRequest :: pb_DeleteChannelDescRequest where
  "zero_DeleteChannelDescRequest = \<lparr>dcd_ClanId = 0, dcd_ChannelId = 0\<rparr>"

record pb_ListChannelDescsRequest =
  lcd_Limit :: int32
  lcd_State :: int32
  lcd_Cursor :: string
  lcd_ClanId :: int64
  lcd_ChannelType :: int32
  lcd_IsMobile :: bool
  lcd_Page :: int32

definition zero_ListChannelDescsRequest :: pb_ListChannelDescsRequest where
  "zero_ListChannelDescsRequest = \<lparr>lcd_Limit = 0, lcd_State = 0, lcd_Cursor = [],
     lcd_ClanId = 0, lcd_ChannelType = 0, lcd_IsMobile = False, lcd_Page = 0\<rparr>"

record pb_ListClanDescRequest =
  lcl_Limit :: int32
  lcl_State :: int32
  lcl_Cursor :: string

definition zero_ListClanDescRequest :: pb_ListClanDescRequest where
  "zero_ListClanDescRequest = \<lparr>lcl_Limit = 0, lcl_State = 0, lcl_Cursor = []\<rparr>"

record pb_ListChannelDetailRequest =
  lde_ChannelId :: int64

definition zero_ListChannelDetailRequest :: pb_ListChannelDetailRequest where
  "zero_ListChannelDetailRequest = \<lparr>lde_ChannelId = 0\<rparr>"

record pb_ChangeChannelPrivateRequest =
  ccp_ClanId :: int64
  ccp_ChannelId :: int64
  ccp_ChannelPrivate :: int32
  ccp_UserIds :: "int64 list"
  ccp_RoleIds :: "int64 list"

definition zero_ChangeChannelPrivateRequest :: pb_ChangeChannelPrivateRequest where
  "zero_ChangeChannelPrivateRequest = \<lparr>ccp_ClanId = 0, ccp_ChannelId = 0,
     ccp_ChannelPrivate = 0, ccp_UserIds = [], ccp_RoleIds = []\<rparr>"

record pb_AddRoleChannelDescRequest =
  arc_RoleIds :: "int64 list"
  arc_ChannelId :: int64

definition zero_AddRoleChannelDescRequest :: pb_AddRoleChannelDescRequest where
  "zero_AddRoleChannelDescRequest = \<lparr>arc_RoleIds = [], arc_ChannelId = 0\<rparr>"

record pb_CreateRoleRequest =
  crr_Title :: string
  crr_Color :: string
  crr_RoleIcon :: string
  crr_Description :: string
  crr_ClanId :: int64
  crr_DisplayOnline :: int32
  crr_AllowMention :: int32
  crr_MaxPermissionId :: int64
  crr_AddUserIds :: "int64 list"
  crr_ActivePermissionIds :: "int64 list"
  crr_OrderRole :: int32

definition zero_CreateRoleRequest :: pb_CreateRoleRequest where
  "zero_CreateRoleRequest = \<lparr>crr_Title = [], crr_Color = [], crr_RoleIcon = [],
     crr_Description = [], crr_ClanId = 0, crr_DisplayOnline = 0, crr_AllowMention = 0,
     crr_MaxPermissionId = 0, crr_AddUserIds = [], crr_ActivePermissionIds = [],
     crr_OrderRole = 0\<rparr>"

record pb_DeleteRoleRequest =
  drr_RoleId :: int64
  drr_ChannelId :: int64
  drr_ClanId :: int64
  drr_RoleLabel :: string

definition zero_DeleteRoleRequest :: pb_DeleteRoleRequest where
  "zero_DeleteRoleRequest = \<lparr>drr_RoleId = 0, drr_ChannelId = 0, drr_ClanId = 0,
     drr_RoleLabel = []\<rparr>"

record pb_PermissionList =
  pml_Permissions :: "opaque list"
  pml_MaxLevelPermission :: int32

definition zero_PermissionList :: pb_PermissionList where
  "zero_PermissionList = \<lparr>pml_Permissions = [], pml_MaxLevelPermission = 0\<rparr>"

record pb_Role =
  rol_Id :: int64
  rol_Title :: string
  rol_Color :: string
  rol_RoleIcon :: string
  rol_Slug :: string
  rol_Description :: string
  rol_CreatorId :: int64
  rol_ClanId :: int64
  rol_Active :: int32
  rol_DisplayOnline :: int32
  rol_AllowMention :: int32
  rol_RoleUserList :: "opaque option"
  rol_PermissionList :: "pb_PermissionList option"
  rol_RoleChannelActive :: int32
  rol_ChannelIds :: "int64 list"
  rol_MaxLevelPermission :: int32
  rol_OrderRole :: int32

definition zero_Role :: pb_Role where
  "zero_Role = \<lparr>rol_Id = 0, rol_Title = [], rol_Color = [], rol_RoleIcon = [],
     rol_Slug = [], rol_Description = [], rol_CreatorId = 0, rol_ClanId = 0, rol_Active = 0,
     rol_DisplayOnline = 0, rol_AllowMention = 0, rol_RoleUserList = None,
     rol_PermissionList = None, rol_RoleChannelActive = 0, rol_ChannelIds = [],
     rol_MaxLevelPermission = 0, rol_OrderRole = 0\<rparr>"

record pb_QuickMenuAccess =
  qma_Id :: int64
  qma_BotId :: int64
  qma_ClanId :: int64
  qma_ChannelId :: int64
  qma_MenuName :: string
  qma_Background :: string
  qma_ActionMsg :: string
  qma_MenuType :: int32

definition zero_QuickMenuAccess :: pb_QuickMenuAccess where
  "zero_QuickMenuAccess = \<lparr>qma_Id = 0, qma_BotId = 0, qma_ClanId = 0, qma_ChannelId = 0,
     qma_MenuName = [], qma_Background = [], qma_ActionMsg = [], qma_MenuType = 0\<rparr>"

record pb_ListChannelUsersRequest =
  lcu_ClanId :: int64
  lcu_ChannelId :: int64
  lcu_ChannelType :: int32
  lcu_Limit :: int32
  lcu_State :: int32
  lcu_Cursor :: string

definition zero_ListChannelUsersRequest :: pb_ListChannelUsersRequest where
  "zero_ListChannelUsersRequest = \<lparr>lcu_ClanId = 0, lcu_ChannelId = 0, lcu_ChannelType = 0,
     lcu_Limit = 0, lcu_State = 0, lcu_Cursor = []\<rparr>"

record pb_VoiceChannelUserList =
  vcl_VoiceChannelUsers :: "opaque list"

definition zero_VoiceChannelUserList :: pb_VoiceChannelUserList where
  "zero_VoiceChannelUserList = \<lparr>vcl_VoiceChannelUsers = []\<rparr>"

record pb_RoleListEventRequest =
  rlq_ClanId :: int64
  rlq_Limit :: int32
  rlq_State :: int32
  rlq_Cursor :: string

definition zero_RoleListEventRequest :: pb_RoleListEventRequest where
  "zero_RoleListEventRequest = \<lparr>rlq_ClanId = 0, rlq_Limit = 0, rlq_State = 0,
     rlq_Cursor = []\<rparr>"

record pb_RoleListEventResponse =
  rlp_Limit :: int32
  rlp_State :: int32
  rlp_Cursor :: string
  rlp_ClanId :: int64
  rlp_Roles :: "opaque option"

definition zero_RoleListEventResponse :: pb_RoleListEventResponse where
  "zero_RoleListEventResponse = \<lparr>rlp_Limit = 0, rlp_State = 0, rlp_Cursor = [],
     rlp_ClanId = 0, rlp_Roles = None\<rparr>"

record pb_UpdateRoleRequest =
  urr_RoleId :: int64
  urr_Title :: "string option"
  urr_Color :: "string option"
  urr_RoleIcon :: "string option"
  urr_Description :: "string option"
  urr_DisplayOnline :: int32
  urr_AllowMention :: int32
  urr_AddUserIds :: "int64 list"
  urr_ActivePermissionIds :: "int64 list"
  urr_RemoveUserIds :: "int64 list"
  urr_RemovePermissionIds :: "int64 list"
  urr_ClanId :: int64
  urr_MaxPermissionId :: int64

definition zero_UpdateRoleRequest :: pb_UpdateRoleRequest where
  "zero_UpdateRoleRequest = \<lparr>urr_RoleId = 0, urr_Title = None, urr_Color = None,
     urr_RoleIcon = None, urr_Description = None, urr_DisplayOnline = 0, urr_AllowMention = 0,
     urr_AddUserIds = [], urr_ActivePermissionIds = [], urr_RemoveUserIds = [],
     urr_RemovePermissionIds = [], urr_ClanId = 0, urr_MaxPermissionId = 0\<rparr>"

record pb_UpdateRoleChannelRequest =
  urc_RoleId :: int64
  urc_PermissionUpdate :: "opaque list"
  urc_MaxPermissionId :: int64
  urc_ChannelId :: int64
  urc_UserId :: int64
  urc_RoleLabel :: string

definition zero_UpdateRoleChannelRequest :: pb_UpdateRoleChannelRequest where
  "zero_UpdateRoleChannelRequest = \<lparr>urc_RoleId = 0, urc_PermissionUpdate = [],
     urc_MaxPermissionId = 0, urc_ChannelId = 0, urc_UserId = 0, urc_RoleLabel = []\<rparr>"

record pb_ListQuickMenuAccessRequest =
  lqm_BotId :: int64
  lqm_ChannelId :: int64
  lqm_MenuType :: int32

definition zero_ListQuickMenuAccessRequest :: pb_ListQuickMenuAccessRequest where
  "zero_ListQuickMenuAccessRequest = \<lparr>lqm_BotId = 0, lqm_ChannelId = 0,
     lqm_MenuType = 0\<rparr>"

record pb_QuickMenuAccessList =
  qml_ListMenus :: "pb_QuickMenuAccess list"

definition zero_QuickMenuAccessList :: pb_QuickMenuAccessList where
  "zero_QuickMenuAccessList = \<lparr>qml_ListMenus = []\<rparr>"

record pb_Channel =
  ch_Id :: int64
  ch_Presences :: "opaque list"
  ch_Self :: "opaque option"
  ch_ChanelLabel :: string
  ch_ClanLogo :: string
  ch_CategoryName :: string

definition zero_Channel :: pb_Channel where
  "zero_Channel = \<lparr>ch_Id = 0, ch_Presences = [], ch_Self = None, ch_ChanelLabel = [],
     ch_ClanLogo = [], ch_CategoryName = []\<rparr>"

record pb_ClanJoin =
  cj_ClanId :: int64
  cj_IsLastField :: bool

definition zero_ClanJoin :: pb_ClanJoin where
  "zero_ClanJoin = \<lparr>cj_ClanId = 0, cj_IsLastField = False\<rparr>"

record pb_ChannelJoin =
  chj_ClanId :: int64
  chj_ChannelId :: int64
  chj_ChannelType :: int32
  chj_IsPublic :: bool

definition zero_ChannelJoin :: pb_ChannelJoin where
  "zero_ChannelJoin = \<lparr>chj_ClanId = 0, chj_ChannelId = 0, chj_ChannelType = 0,
     chj_IsPublic = False\<rparr>"

record pb_ChannelLeave =
  chl_ClanId :: int64
  chl_ChannelId :: int64
  chl_ChannelType :: int32
  chl_IsPublic :: bool

definition zero_ChannelLeave :: pb_ChannelLeave where
  "zero_ChannelLeave = \<lparr>chl_ClanId = 0, chl_ChannelId = 0, chl_ChannelType = 0,
     chl_IsPublic = False\<rparr>"

record pb_ChannelMessageAck =
  ack_ChannelId :: int64
  ack_MessageId :: int64
  ack_Code :: int32
  ack_Username :: string
  ack_CreateTimeSeconds :: uint32
  ack_UpdateTimeSeconds :: uint32
  ack_Persistent :: "bool option"
  ack_ClanLogo :: string
  ack_CategoryName :: string

definition zero_ChannelMessageAck :: pb_ChannelMessageAck where
  "zero_ChannelMessageAck = \<lparr>ack_ChannelId = 0, ack_MessageId = 0, ack_Code = 0,
     ack_Username = [], ack_CreateTimeSeconds = 0, ack_UpdateTimeSeconds = 0,
     ack_Persistent = None, ack_ClanLogo = [], ack_CategoryName = []\<rparr>"

record pb_ChannelMessageSend =
  cms_ClanId :: int64
  cms_ChannelId :: int64
  cms_Content :: string
  cms_Mentions :: "pb_MessageMention list"
  cms_Attachments :: "pb_MessageAttachment list"
  cms_References :: "pb_MessageRef list"
  cms_Mode :: int32
  cms_AnonymousMessage :: bool
  cms_MentionEveryone :: bool
  cms_Avatar :: string
  cms_IsPublic :: bool
  cms_Code :: int32
  cms_TopicId :: int64
  cms_Id :: int64

definition zero_ChannelMessageSend :: pb_ChannelMessageSend where
  "zero_ChannelMessageSend = \<lparr>cms_ClanId = 0, cms_ChannelId = 0, cms_Content = [],
     cms_Mentions = [], cms_Attachments = [], cms_References = [], cms_Mode = 0,
     cms_AnonymousMessage = False, cms_MentionEveryone = False, cms_Avatar = [],
     cms_IsPublic = False, cms_Code = 0, cms_TopicId = 0, cms_Id = 0\<rparr>"

record pb_EphemeralMessageSend =
  ems_Message :: "pb_ChannelMessageSend option"
  ems_ReceiverIds :: "int64 list"

definition zero_EphemeralMessageSend :: pb_EphemeralMessageSend where
  "zero_EphemeralMessageSend = \<lparr>ems_Message = None, ems_ReceiverIds = []\<rparr>"

record pb_ChannelMessageUpdate =
  cmu_ClanId :: int64
  cmu_ChannelId :: int64
  cmu_MessageId :: int64
  cmu_Content :: string
  cmu_Mentions :: "pb_MessageMention list"
  cmu_Attachments :: "pb_MessageAttachment list"
  cmu_Mode :: int32
  cmu_IsPublic :: bool
  cmu_HideEditted :: bool
  cmu_TopicId :: int64
  cmu_IsUpdateMsgTopic :: bool
  cmu_CreateTimeSeconds :: uint32

definition zero_ChannelMessageUpdate :: pb_ChannelMessageUpdate where
  "zero_ChannelMessageUpdate = \<lparr>cmu_ClanId = 0, cmu_ChannelId = 0, cmu_MessageId = 0,
     cmu_Content = [], cmu_Mentions = [], cmu_Attachments = [], cmu_Mode = 0, cmu_IsPublic = False,
     cmu_HideEditted = False, cmu_TopicId = 0, cmu_IsUpdateMsgTopic = False,
     cmu_CreateTimeSeconds = 0\<rparr>"

record pb_ChannelMessageRemove =
  cmr_ClanId :: int64
  cmr_ChannelId :: int64
  cmr_MessageId :: int64
  cmr_Mode :: int32
  cmr_IsPublic :: bool
  cmr_HasAttachment :: bool
  cmr_TopicId :: int64
  cmr_Mentions :: bytes
  cmr_References :: bytes

definition zero_ChannelMessageRemove :: pb_ChannelMessageRemove where
  "zero_ChannelMessageRemove = \<lparr>cmr_ClanId = 0, cmr_ChannelId = 0, cmr_MessageId = 0,
     cmr_Mode = 0, cmr_IsPublic = False, cmr_HasAttachment = False, cmr_TopicId = 0,
     cmr_Mentions = [], cmr_References = []\<rparr>"

record pb_Error =
  err_Code :: int32
  err_Message :: string
  err_Context :: "(string \<times> string) list"

definition zero_Error :: pb_Error where
  "zero_Error = \<lparr>err_Code = 0, err_Message = [], err_Context = []\<rparr>"

record pb_ApiRequestEvent =
  are_ApiIndex :: int32
  are_ApiName :: string
  are_Body :: bytes

definition zero_ApiRequestEvent :: pb_ApiRequestEvent where
  "zero_ApiRequestEvent = \<lparr>are_ApiIndex = 0, are_ApiName = [], are_Body = []\<rparr>"

record pb_ChannelDeletedEvent =
  cde_ClanId :: int64
  cde_CategoryId :: int64
  cde_ParentId :: int64
  cde_ChannelId :: int64
  cde_Deletor :: string

definition zero_ChannelDeletedEvent :: pb_ChannelDeletedEvent where
  "zero_ChannelDeletedEvent = \<lparr>cde_ClanId = 0, cde_CategoryId = 0, cde_ParentId = 0,
     cde_ChannelId = 0, cde_Deletor = []\<rparr>"

record pb_ChannelUpdatedEvent =
  cue_ClanId :: int64
  cue_CategoryId :: int64
  cue_CreatorId :: int64
  cue_ParentId :: int64
  cue_ChannelId :: int64
  cue_ChannelLabel :: string
  cue_ChannelType :: int32
  cue_Status :: int32
  cue_MeetingCode :: string
  cue_IsError :: bool
  cue_ChannelPrivate :: bool
  cue_AppId :: int64
  cue_E2Ee :: int32
  cue_Topic :: string
  cue_AgeRestricted :: int32
  cue_Active :: int32
  cue_CountMessUnread :: int32
  cue_UserIds :: "int64 list"
  cue_RoleIds :: "int64 list"
  cue_ChannelAvatar :: string

definition zero_ChannelUpdatedEvent :: pb_ChannelUpdatedEvent where
  "zero_ChannelUpdatedEvent = \<lparr>cue_ClanId = 0, cue_CategoryId = 0, cue_CreatorId = 0,
     cue_ParentId = 0, cue_ChannelId = 0, cue_ChannelLabel = [], cue_ChannelType = 0,
     cue_Status = 0, cue_MeetingCode = [], cue_IsError = False, cue_ChannelPrivate = False,
     cue_AppId = 0, cue_E2Ee = 0, cue_Topic = [], cue_AgeRestricted = 0, cue_Active = 0,
     cue_CountMessUnread = 0, cue_UserIds = [], cue_RoleIds = [], cue_ChannelAvatar = []\<rparr>"

record pb_Envelope =
  env_Cid :: int32
  env_Channel :: "pb_Channel option"
  env_ClanJoin :: "pb_ClanJoin option"
  env_ChannelJoin :: "pb_ChannelJoin option"
  env_ChannelLeave :: "pb_ChannelLeave option"
  env_ChannelMessage :: "pb_ChannelMessage option"
  env_ChannelMessageAck :: "pb_ChannelMessageAck option"
  env_ChannelMessageSend :: "pb_ChannelMessageSend option"
  env_ChannelMessageUpdate :: "pb_ChannelMessageUpdate option"
  env_ChannelMessageRemove :: "pb_ChannelMessageRemove option"
  env_Error :: "pb_Error option"
  env_Notifications :: "opaque option"
  env_Ping :: "unit option"
  env_Pong :: "unit option"
  env_MessageReactionEvent :: "pb_MessageReaction option"
  env_VoiceJoinedEvent :: "opaque option"
  env_VoiceLeavedEvent :: "opaque option"
  env_VoiceStartedEvent :: "opaque option"
  env_VoiceEndedEvent :: "opaque option"
  env_ChannelCreatedEvent :: "opaque option"
  env_ChannelDeletedEvent :: "pb_ChannelDeletedEvent option"
  env_ChannelUpdatedEvent :: "pb_ChannelUpdatedEvent option"
  env_UserChannelAddedEvent :: "opaque option"
  env_UserChannelRemovedEvent :: "opaque option"
  env_UserClanRemovedEvent :: "opaque option"
  env_ClanUpdatedEvent :: "opaque option"
  env_ClanProfileUpdatedEvent :: "opaque option"
  env_UserProfileUpdatedEvent :: "opaque option"
  env_AddClanUserEvent :: "opaque option"
  env_ClanEventCreated :: "opaque option"
  env_RoleAssignEvent :: "opaque option"
  env_ClanDeletedEvent :: "opaque option"
  env_GiveCoffeeEvent :: "opaque option"
  env_RoleEvent :: "opaque option"
  env_StreamingJoinedEvent :: "opaque option"
  env_StreamingLeavedEvent :: "opaque option"
  env_TokenSentEvent :: "opaque option"
  env_MessageButtonClicked :: "opaque option"
  env_WebrtcSignalingFwd :: "opaque option"
  env_DropdownBoxSelected :: "opaque option"
  env_EphemeralMessageSend :: "pb_EphemeralMessageSend option"
  env_QuickMenuEvent :: "opaque option"
  env_ApiRequestEvent :: "pb_ApiRequestEvent option"
  env_AiagentEnabledEvent :: "opaque option"
  env_ChannelArchiveEvent :: "opaque option"

definition zero_Envelope :: pb_Envelope where
  "zero_Envelope = \<lparr>env_Cid = 0, env_Channel = None, env_ClanJoin = None,
     env_ChannelJoin = None, env_ChannelLeave = None, env_ChannelMessage = None,
     env_ChannelMessageAck = None, env_ChannelMessageSend = None, env_ChannelMessageUpdate = None,
     env_ChannelMessageRemove = None, env_Error = None, env_Notifications = None, env_Ping = None,
     env_Pong = None, env_MessageReactionEvent = None, env_VoiceJoinedEvent = None,
     env_VoiceLeavedEvent = None, env_VoiceStartedEvent = None, env_VoiceEndedEvent = None,
     env_ChannelCreatedEvent = None, env_ChannelDeletedEvent = None,
     env_ChannelUpdatedEvent = None, env_UserChannelAddedEvent = None,
     env_UserChannelRemovedEvent = None, env_UserClanRemovedEvent = None,
     env_ClanUpdatedEvent = None, env_ClanProfileUpdatedEvent = None,
     env_UserProfileUpdatedEvent = None, env_AddClanUserEvent = None, env_ClanEventCreated = None,
     env_RoleAssignEvent = None, env_ClanDeletedEvent = None, env_GiveCoffeeEvent = None,
     env_RoleEvent = None, env_StreamingJoinedEvent = None, env_StreamingLeavedEvent = None,
     env_TokenSentEvent = None, env_MessageButtonClicked = None, env_WebrtcSignalingFwd = None,
     env_DropdownBoxSelected = None, env_EphemeralMessageSend = None, env_QuickMenuEvent = None,
     env_ApiRequestEvent = None, env_AiagentEnabledEvent = None,
     env_ChannelArchiveEvent = None\<rparr>"

end
