(* ===== verification/Api_Names.thy ===== *)
theory Api_Names
  imports Mezon_Prelude
begin

text \<open>
  The list of API names of \<^verbatim>\<open>apiname.go\<close>. The server identifies an API request over the socket by
  the index of its name in this list.
\<close>

definition apiNames :: "string list" where
  "apiNames = [
    ''ListChannelDescs'', ''GetAccount'', ''ListClanDescs'', ''ListClanUsers'', ''ListRoles'',
    ''ListEvents'', ''GetRoleOfUserInTheClan'', ''GetListPermission'',
    ''ListUserPermissionInChannel'', ''GetNotificationClan'', ''ListMutedChannel'',
    ''ListStreamingChannelUsers'', ''ListQuickMenuAccess'', ''GetNotificationChannel'',
    ''ListFriends'', ''EmojiRecentList'', ''GetListEmojisByUserId'', ''ListClanBadgeCount'',
    ''ListChannelBadgeCount'', ''ListLogedDevice'', ''ListClanUsersStatus'', ''ListChannelApps'',
    ''GetListFavoriteChannel'', ''ListCategoryDescs'', ''ListOnboarding'',
    ''GetListStickersByUserId'', ''GetSystemMessageByClanId'', ''GetPinMessagesList'',
    ''GetChannelCanvasList'', ''ListChannelTimeline'', ''ListChannelMessages'', ''ListActivity'',
    ''ListChannelByUserId'', ''ListUserClansByUserId'', ''GetUserProfileOnClan'',
    ''RegistFCMDeviceToken'', ''IsBanned'', ''ListThreadDescs'', ''ListArchivedChannelDescs'',
    ''ListChannelDetail'', ''GetChannelCategoryNotiSettingsList'', ''ListRoleUsers'',
    ''ListChannelUsers'', ''ListChannelAttachment'', ''ListChannelVoiceUsers'', ''ListUserOnline'',
    ''ListNotifications'', ''ListChannelUsersUC'', ''ListWebhookByChannelId'',
    ''GetPermissionByRoleIdChannelId'', ''ListChannelSetting'', ''ListApps'', ''GetApp'',
    ''ListForSaleItems'', ''ListClanWebhook'', ''GetUserStatus'', ''ListSdTopic'', ''AddFriends'',
    ''AddChannelUsers'', ''RegistrationEmail'', ''BlockFriends'', ''UnblockFriends'',
    ''UploadAttachmentFile'', ''UploadOauthFile'', ''AddRolesChannelDesc'', ''CreateCategoryDesc'',
    ''CreateChannelDesc'', ''CreateRole'', ''CreateEvent'', ''DeleteRole'', ''DeleteEvent'',
    ''DeleteRoleChannelDesc'', ''DeleteChannelDesc'', ''CloseDMByChannelId'',
    ''OpenDMByChannelId'', ''DeleteAccount'', ''DeleteFriends'', ''DeleteCategoryDesc'',
    ''DeleteNotifications'', ''DeleteClanDesc'', ''UpdateUser'', ''UpdateUserProfileByClan'',
    ''UpdateClanOrder'', ''RemoveChannelUsers'', ''LeaveThread'', ''ArchiveChannel'', ''LinkSMS'',
    ''ConfirmLinkMezonOTP'', ''LinkEmail'', ''CreateClanDesc'', ''RemoveClanUsers'',
    ''BanClanUsers'', ''CreateLinkInviteUser'', ''InviteUser'', ''SetRoleChannelPermission'',
    ''SetNotificationChannelSetting'', ''SetMuteChannel'', ''SetMuteCategory'',
    ''SetNotificationClanSetting'', ''SetNotificationCategorySetting'',
    ''DeleteNotificationCategorySetting'', ''DeleteNotificationChannel'', ''CreatePinMessage'',
    ''CreateMessage2Inbox'', ''UnlinkMezon'', ''UnlinkEmail'', ''UpdateAccount'',
    ''UpdateUsername'', ''UpdateCategory'', ''UpdateCategoryOrder'', ''UpdateRoleOrder'',
    ''UpdateClanDesc'', ''UpdateChannelDesc'', ''UpdateChannelPrivate'', ''UpdateRole'',
    ''UpdateEvent'', ''SearchMessage'', ''CreateClanEmoji'', ''DeleteByIdClanEmoji'',
    ''UpdateClanEmojiById'', ''GenerateWebhook'', ''HandleWebhook'', ''UpdateWebhookById'',
    ''DeleteWebhookById'', ''AddClanSticker'', ''UpdateClanStickerById'',
    ''DeleteClanStickerById'', ''ChangeChannelCategory'', ''CheckDuplicateName'', ''AddApp'',
    ''DeleteApp'', ''UpdateApp'', ''AddAppToClan'', ''CreateSystemMessage'',
    ''UpdateSystemMessage'', ''DeleteSystemMessage'', ''StreamingServerCallback'',
    ''EditChannelCanvases'', ''GetChannelCanvasDetail'', ''DeleteChannelCanvas'',
    ''AddChannelFavorite'', ''RemoveChannelFavorite'', ''CreateActiviy'', ''GetPubKeys'',
    ''PushPubKey'', ''GetChanEncryptionMethod'', ''SetChanEncryptionMethod'', ''GetKeyServer'',
    ''ListAuditLog'', ''GetOnboardingDetail'', ''CreateOnboarding'', ''UpdateOnboarding'',
    ''DeleteOnboarding'', ''ListOnboardingStep'', ''UpdateOnboardingStep'',
    ''GenerateClanWebhook'', ''UpdateClanWebhookById'', ''DeleteClanWebhookById'',
    ''HandleClanWebhook'', ''UpdateUserStatus'', ''UpdateUserCustomStatus'', ''GetTopicDetail'',
    ''CreateSdTopic'', ''DeleteSdTopic'', ''CreateExternalMezonMeet'', ''GenerateMeetToken'',
    ''RemoveParticipantMezonMeet'', ''MuteParticipantMezonMeet'', ''CreateRoomChannelApps'',
    ''GetMezonOauthClient'', ''DeleteMezonOauthClient'', ''UpdateMezonOauthClient'',
    ''SearchThread'', ''GenerateHashChannelApps'', ''DeleteUserEvent'', ''AddUserEvent'',
    ''DeleteQuickMenuAccess'', ''AddQuickMenuAccess'', ''UpdateQuickMenuAccess'',
    ''TransferOwnership'', ''SendChannelMessage'', ''UpdateChannelMessage'',
    ''DeleteChannelMessage'', ''ReportMessageAbuse'', ''MessageButtonClick'',
    ''DropdownBoxSelected'', ''ActiveArchivedThread'', ''UpdateChannelTimeline'',
    ''AddAgentToChannel'', ''DisconnectAgent'', ''CreateChannelTimeline'',
    ''DetailChannelTimeline'', ''CreatePoll'', ''VotePoll'', ''ClosePoll'', ''GetPoll'',
    ''ReactChannelMessage'', ''MultipartUploadAttachmentFileStart'',
    ''MultipartUploadAttachmentFileFinish'', ''SessionRefresh'', ''SessionLogout'',
    ''Healthcheck'', ''UnbanClanUsers'', ''ListBannedUsers'', ''GetNotificationCategory'',
    ''ListRolePermissions'', ''IsFollower'', ''DeletePinMessage'', ''MarkAsRead'',
    ''UploadBatchAttachmentFile'']"

text \<open>\<^verbatim>\<open>apiNameIndex\<close> is filled in the order of the list, so that a later entry of the same name
  would win.\<close>

fun fill_index :: "nat \<Rightarrow> string list \<Rightarrow> (string \<times> int32) list \<Rightarrow> (string \<times> int32) list" where
  "fill_index i [] m = m"
| "fill_index i (name # names) m = fill_index (Suc i) names (AList.update name (of_nat i) m)"

definition apiNameIndex :: "(string \<times> int32) list" where
  "apiNameIndex = fill_index 0 apiNames []"

definition apiIndexFromName :: "string \<Rightarrow> int32 option" where
  "apiIndexFromName name = map_of apiNameIndex name"

section \<open>The names are distinct\<close>

text \<open>Comparing literals stops at the first character that differs.\<close>

lemma cons_eq_lazy: "(c # s = c' # s') = (if c = c' then s = s' else False)"
  by simp

lemma distinct_apiNames: "distinct apiNames"
  unfolding apiNames_def
  by (simp only: distinct.simps list.set(1) list.set(2) cons_eq_lazy insert_iff empty_iff char.inject
      simp_thms if_True if_False list.distinct de_Morgan_disj cong: if_weak_cong)

lemma length_apiNames: "length apiNames = 210"
  by (simp add: apiNames_def)

lemma fill_index_absent: "name \<notin> set names \<Longrightarrow> map_of (fill_index i names m) name = map_of m name"
  by (induction i names m rule: fill_index.induct) (auto simp: AList.update_conv')

lemma fill_index_nth:
  "distinct names \<Longrightarrow> j < length names \<Longrightarrow> map_of (fill_index i names m) (names ! j) = Some (of_nat (i + j))"
proof (induction i names m arbitrary: j rule: fill_index.induct)
  case (2 i name names m)
  then show ?case
    by (cases j) (auto simp: fill_index_absent AList.update_conv')
qed simp

lemma apiIndexFromName_nth: "j < 210 \<Longrightarrow> apiIndexFromName (apiNames ! j) = Some (of_nat j)"
  using fill_index_nth [OF distinct_apiNames, of j 0 "[]"]
  by (simp add: apiIndexFromName_def apiNameIndex_def length_apiNames)

lemma apiIndexFromName_known: "name \<in> set apiNames \<Longrightarrow> apiIndexFromName name \<noteq> None"
  using apiIndexFromName_nth by (metis in_set_conv_nth length_apiNames option.distinct(1))

lemma apiIndexFromName_absent: "name \<notin> set apiNames \<Longrightarrow> apiIndexFromName name = None"
  by (simp add: apiIndexFromName_def apiNameIndex_def fill_index_absent)

text \<open>
  The index lookup is exact: a name has index \<open>i\<close> exactly when it stands at position \<open>i\<close> of the
  table, so that no two names share an index, no name has two, and a name that is not in the table
  has none.
\<close>

theorem apiIndexFromName_exact:
  "apiIndexFromName name = Some i \<longleftrightarrow> unat i < length apiNames \<and> apiNames ! unat i = name"
proof
  assume some: "apiIndexFromName name = Some i"
  then have "name \<in> set apiNames" using apiIndexFromName_absent by fastforce
  then obtain j where j: "j < 210" "name = apiNames ! j"
    by (metis in_set_conv_nth length_apiNames)
  then have "i = of_nat j" using some apiIndexFromName_nth by simp
  then have "unat i = j" using j(1) by (simp add: unat_of_nat)
  then show "unat i < length apiNames \<and> apiNames ! unat i = name" using j by (simp add: length_apiNames)
next
  assume "unat i < length apiNames \<and> apiNames ! unat i = name"
  then show "apiIndexFromName name = Some i"
    using apiIndexFromName_nth [of "unat i"] by (simp add: length_apiNames)
qed

end
