(* ===== verification/Socket.thy ===== *)
theory Socket
  imports Transport Proto Api_Names
begin

text \<open>
  The request/response layer of \<^verbatim>\<open>socket.go\<close>: correlation ids, the table of waiting senders, the
  reassembly of raw API responses, the decoding of padded envelopes and the read loop. A response
  channel is an address; \<open>delivered\<close> lists what the read loop has sent into the channels. The
  protobuf codec is not part of the sources: \<open>marshal\<close> and \<open>unmarshal\<close> are arguments.
\<close>

section \<open>State\<close>

type_synonym chan_id = nat

record socketResponse =
  sr_env :: "pb_Envelope option"
  sr_apiResponse :: bool
  sr_code :: uint32
  sr_body :: bytes

definition env_response :: "pb_Envelope \<Rightarrow> socketResponse" where
  "env_response env = \<lparr>sr_env = Some env, sr_apiResponse = False, sr_code = 0, sr_body = []\<rparr>"

definition api_response :: "uint32 \<Rightarrow> bytes \<Rightarrow> socketResponse" where
  "api_response code body = \<lparr>sr_env = None, sr_apiResponse = True, sr_code = code, sr_body = body\<rparr>"

text \<open>The map \<^verbatim>\<open>cids\<close> is an association list with distinct keys.\<close>

type_synonym cid_table = "(int32 \<times> chan_id) list"

record socket_state =
  cids :: cid_table
  nextCid :: int32
  connected :: bool
  next_chan :: chan_id
  delivered :: "(chan_id \<times> socketResponse) list"
  written :: "bytes list"

definition new_socket_state :: socket_state where
  "new_socket_state = \<lparr>cids = [], nextCid = 1, connected = False, next_chan = 0, delivered = [], written = []\<rparr>"

definition IsOpen :: "socket_state \<Rightarrow> bool" where
  "IsOpen s = connected s"

section \<open>Correlation ids\<close>

definition generateCid :: "socket_state \<Rightarrow> int32 \<times> socket_state" where
  "generateCid s = (nextCid s, s\<lparr>nextCid := nextCid s + 1\<rparr>)"

definition clearCid :: "int32 \<Rightarrow> socket_state \<Rightarrow> socket_state" where
  "clearCid cid s = s\<lparr>cids := AList.delete cid (cids s)\<rparr>"

definition takeCid :: "int32 \<Rightarrow> cid_table \<Rightarrow> chan_id option \<times> cid_table" where
  "takeCid cid m = (case map_of m cid of
      Some ch \<Rightarrow> (Some ch, AList.delete cid m)
    | None \<Rightarrow> (None, m))"

text \<open>\<^verbatim>\<open>int32(uint16(k))\<close>: the part of a cid that raw frames carry.\<close>

definition wire_cid :: "int32 \<Rightarrow> int32" where
  "wire_cid k = ucast (ucast k :: uint16)"

text \<open>The fallback of \<^verbatim>\<open>takeRawCid\<close> ranges over the map; Go leaves the order open, so \<open>iter\<close> gives the
  order in which the entries are visited.\<close>

definition takeRawCid ::
  "(cid_table \<Rightarrow> cid_table) \<Rightarrow> int32 \<Rightarrow> cid_table \<Rightarrow> chan_id option \<times> cid_table" where
  "takeRawCid iter cid m = (case map_of m cid of
      Some ch \<Rightarrow> (Some ch, AList.delete cid m)
    | None \<Rightarrow> (case find (\<lambda>(k, ch). wire_cid k = cid) (iter m) of
        Some (k, ch) \<Rightarrow> (Some ch, AList.delete k m)
      | None \<Rightarrow> (None, m)))"

definition deliver :: "chan_id option \<Rightarrow> socketResponse \<Rightarrow> socket_state \<Rightarrow> socket_state" where
  "deliver ch r s = (case ch of
      Some c \<Rightarrow> s\<lparr>delivered := delivered s @ [(c, r)]\<rparr>
    | None \<Rightarrow> s)"

section \<open>Reading\<close>

text \<open>\<^verbatim>\<open>unmarshalEnvelope\<close>: the loop retries with one trailing zero byte fewer, at most three times.\<close>

fun unpad_retry :: "(bytes \<Rightarrow> pb_Envelope result) \<Rightarrow> nat \<Rightarrow> bytes \<Rightarrow> pb_Envelope result" where
  "unpad_retry unmarshal 0 data = unmarshal data"
| "unpad_retry unmarshal (Suc n) data =
     (case unmarshal data of
        Inr env \<Rightarrow> Inr env
      | Inl e \<Rightarrow> if data \<noteq> [] \<and> last data = 0 then unpad_retry unmarshal n (butlast data) else Inl e)"

definition unmarshalEnvelope :: "(bytes \<Rightarrow> pb_Envelope result) \<Rightarrow> wireFrame \<Rightarrow> pb_Envelope result" where
  "unmarshalEnvelope unmarshal f =
     (if wf_padded f then unpad_retry unmarshal 3 (wf_payload f) else unmarshal (wf_payload f))"

type_synonym streams = "(int32 \<times> bytes list) list"

definition stream_of :: "streams \<Rightarrow> int32 \<Rightarrow> bytes list" where
  "stream_of st c = (case map_of st c of Some chunks \<Rightarrow> chunks | None \<Rightarrow> [])"

definition deliverAPIChunk ::
  "(cid_table \<Rightarrow> cid_table) \<Rightarrow> wireFrame \<Rightarrow> streams \<times> socket_state \<Rightarrow> streams \<times> socket_state" where
  "deliverAPIChunk iter f x = (let (st, s) = x in
     if \<not> wf_fin f
     then (AList.update (wf_cid f) (stream_of st (wf_cid f) @ [wf_payload f]) st, s)
     else (let chunks = stream_of st (wf_cid f) @ (if 0 < length (wf_payload f) then [wf_payload f] else []);
               (ch, m) = takeRawCid iter (wf_cid f) (cids s)
           in (AList.delete (wf_cid f) st, deliver ch (api_response (wf_code f) (concat chunks)) (s\<lparr>cids := m\<rparr>))))"

text \<open>One turn of \<^verbatim>\<open>readLoop\<close> for a frame; a pushed envelope is returned for the event queue.\<close>

definition readLoop_frame ::
  "(bytes \<Rightarrow> pb_Envelope result) \<Rightarrow> (cid_table \<Rightarrow> cid_table) \<Rightarrow> wireFrame \<Rightarrow> streams \<times> socket_state \<Rightarrow>
   (streams \<times> socket_state) \<times> pb_Envelope option" where
  "readLoop_frame unmarshal iter f x = (case wf_kind f of
      frameAPIChunk \<Rightarrow> (deliverAPIChunk iter f x, None)
    | framePong \<Rightarrow>
        (let (st, s) = x; (ch, m) = takeRawCid iter (wf_cid f) (cids s)
         in ((st, deliver ch (env_response (zero_Envelope\<lparr>env_Cid := wf_cid f, env_Pong := Some ()\<rparr>)) (s\<lparr>cids := m\<rparr>)), None))
    | frameEnvelope \<Rightarrow>
        (case unmarshalEnvelope unmarshal f of
           Inl e \<Rightarrow> (x, None)
         | Inr env \<Rightarrow>
             if env_Cid env \<noteq> 0
             then (let (st, s) = x; (ch, m) = takeCid (env_Cid env) (cids s)
                   in ((st, deliver ch (env_response env) (s\<lparr>cids := m\<rparr>)), None))
             else (x, Some env)))"

text \<open>The loop over the frames of a connection; the events it pushes, in order.\<close>

fun readLoop ::
  "(bytes \<Rightarrow> pb_Envelope result) \<Rightarrow> (cid_table \<Rightarrow> cid_table) \<Rightarrow> wireFrame list \<Rightarrow> streams \<times> socket_state \<Rightarrow>
   (streams \<times> socket_state) \<times> pb_Envelope list" where
  "readLoop unmarshal iter [] x = (x, [])"
| "readLoop unmarshal iter (f # fs) x =
     (let (x', ev) = readLoop_frame unmarshal iter f x;
          (x'', evs) = readLoop unmarshal iter fs x'
      in (x'', (case ev of Some e \<Rightarrow> e # evs | None \<Rightarrow> evs)))"

section \<open>Sending\<close>

text \<open>How the wait of \<^verbatim>\<open>sendResponse\<close> ends.\<close>

datatype wait_outcome = GotResponse socketResponse | TimedOut | ConnDone

definition socket_error :: "pb_Error \<Rightarrow> go_error" where
  "socket_error e =
     ErrNew (''mezon socket error '' @ FormatInt (sint (err_Code e)) @ '': '' @ err_Message e)"

text \<open>Writing on the connection: what goes on the wire, or the error of the connection. \<open>io\<close> is the
  connection's answer to a write.\<close>

definition write_request ::
  "(bytes \<Rightarrow> go_error option) \<Rightarrow> TransportKind \<Rightarrow> pb_Envelope \<Rightarrow> bytes \<Rightarrow> bytes result" where
  "write_request io kind env data =
     (let frame = (if kind = TransportWebSocket then data
                   else if env_Ping env \<noteq> None then tcp_writePing (env_Cid env)
                   else tcp_writeEnvelope data)
      in case io frame of None \<Rightarrow> Inr frame | Some e \<Rightarrow> Inl e)"

text \<open>The first half of \<^verbatim>\<open>sendResponse\<close>: register the sender and write. The result is the cid and the
  channel to wait on.\<close>

definition send_request ::
  "(pb_Envelope \<Rightarrow> bytes result) \<Rightarrow> (bytes \<Rightarrow> go_error option) \<Rightarrow> TransportKind \<Rightarrow> pb_Envelope \<Rightarrow>
   socket_state \<Rightarrow> (int32 \<times> chan_id) result \<times> socket_state" where
  "send_request marshal io kind env s =
     (if \<not> IsOpen s then (Inl ErrSocketClosed, s)
      else (let (cid, s1) = generateCid s;
                env1 = env\<lparr>env_Cid := cid\<rparr>;
                ch = next_chan s1;
                s2 = s1\<lparr>next_chan := Suc ch, cids := AList.update cid ch (cids s1)\<rparr>
            in case marshal env1 of
                 Inl e \<Rightarrow> (Inl e, clearCid cid s2)
               | Inr data \<Rightarrow>
                   (case write_request io kind env1 data of
                      Inl e \<Rightarrow> (Inl e, clearCid cid s2)
                    | Inr frame \<Rightarrow> (Inr (cid, ch), s2\<lparr>written := written s2 @ [frame]\<rparr>))))"

text \<open>The second half: the select. Only the timeout clears the cid.\<close>

definition await_response :: "int32 \<Rightarrow> wait_outcome \<Rightarrow> socket_state \<Rightarrow> socketResponse result \<times> socket_state" where
  "await_response cid w s = (case w of
      GotResponse r \<Rightarrow>
        (case sr_env r of
           Some env \<Rightarrow> (case env_Error env of
                          Some e \<Rightarrow> (Inl (socket_error e), s)
                        | None \<Rightarrow> (Inr r, s))
         | None \<Rightarrow> (Inr r, s))
    | TimedOut \<Rightarrow> (Inl ErrSendTimeout, clearCid cid s)
    | ConnDone \<Rightarrow> (Inl ErrSocketClosed, s))"

text \<open>While a sender is parked the other goroutines run: \<open>park\<close> gives the state in which it wakes up
  and what woke it.\<close>

definition sendResponse ::
  "(pb_Envelope \<Rightarrow> bytes result) \<Rightarrow> (bytes \<Rightarrow> go_error option) \<Rightarrow> TransportKind \<Rightarrow>
   (int32 \<Rightarrow> chan_id \<Rightarrow> socket_state \<Rightarrow> wait_outcome \<times> socket_state) \<Rightarrow> pb_Envelope \<Rightarrow>
   socket_state \<Rightarrow> socketResponse result \<times> socket_state" where
  "sendResponse marshal io kind park env s =
     (case send_request marshal io kind env s of
        (Inl e, s1) \<Rightarrow> (Inl e, s1)
      | (Inr (cid, ch), s1) \<Rightarrow> (let (w, s2) = park cid ch s1 in await_response cid w s2))"

definition send ::
  "(pb_Envelope \<Rightarrow> bytes result) \<Rightarrow> (bytes \<Rightarrow> go_error option) \<Rightarrow> TransportKind \<Rightarrow>
   (int32 \<Rightarrow> chan_id \<Rightarrow> socket_state \<Rightarrow> wait_outcome \<times> socket_state) \<Rightarrow> pb_Envelope \<Rightarrow>
   socket_state \<Rightarrow> pb_Envelope option result \<times> socket_state" where
  "send marshal io kind park env s =
     (case sendResponse marshal io kind park env s of
        (Inl e, s') \<Rightarrow> (Inl e, s')
      | (Inr resp, s') \<Rightarrow>
          if sr_apiResponse resp
          then (Inl (ErrNew (''mezon: unexpected raw API response for cid '' @ FormatInt (sint (nextCid s)))), s')
          else (Inr (sr_env resp), s'))"

text \<open>The verb \<^verbatim>\<open>%q\<close> of the unknown-API error is left to \<open>quote\<close>.\<close>

definition sendApiRequest ::
  "(string \<Rightarrow> string) \<Rightarrow> (pb_Envelope \<Rightarrow> bytes result) \<Rightarrow> (bytes \<Rightarrow> go_error option) \<Rightarrow> TransportKind \<Rightarrow>
   (int32 \<Rightarrow> chan_id \<Rightarrow> socket_state \<Rightarrow> wait_outcome \<times> socket_state) \<Rightarrow> string \<Rightarrow> bytes \<Rightarrow>
   socket_state \<Rightarrow> bytes result \<times> socket_state" where
  "sendApiRequest quote marshal io kind park apiName body s =
     (case apiIndexFromName apiName of
        None \<Rightarrow> (Inl (ErrNew (''mezon: unknown API '' @ quote apiName)), s)
      | Some apiIndex \<Rightarrow>
          (case sendResponse marshal io kind park
                  (zero_Envelope\<lparr>env_ApiRequestEvent :=
                     Some \<lparr>are_ApiIndex = apiIndex, are_ApiName = apiName, are_Body = body\<rparr>\<rparr>) s of
             (Inl e, s') \<Rightarrow> (Inl e, s')
           | (Inr resp, s') \<Rightarrow>
               if \<not> sr_apiResponse resp
               then (Inl (ErrNew (''mezon: expected raw API response for '' @ apiName @ '', got envelope'')), s')
               else if sr_code resp \<noteq> 0
               then (Inl (ErrNew (''mezon: API '' @ apiName @ '' failed with code '' @ FormatInt (uint (sr_code resp)))), s')
               else (Inr (sr_body resp), s')))"

end
