(* ===== verification/Socket_Correlation.thy ===== *)
theory Socket_Correlation
  imports Socket
begin

text \<open>
  Correctness of the request/response layer of \<^verbatim>\<open>socket.go\<close> under every interleaving of senders, the
  read loop, timeouts and reconnects: each response reaches a sender that waits for it, no sender
  is answered twice, chunked API responses are reassembled per cid, and padded envelopes decode to
  what was sent. It also shows where the 16-bit cids of raw frames go wrong.
\<close>

section \<open>The table of waiting senders\<close>

definition iter_ok :: "(cid_table \<Rightarrow> cid_table) \<Rightarrow> bool" where
  "iter_ok iter \<longleftrightarrow> (\<forall>m. set (iter m) = set m)"

text \<open>The channels of the waiting senders and the channels that got a response.\<close>

definition waiting :: "cid_table \<Rightarrow> chan_id set" where
  "waiting m = snd ` set m"

definition answered :: "socket_state \<Rightarrow> chan_id set" where
  "answered s = fst ` set (delivered s)"

definition table_inv :: "socket_state \<Rightarrow> bool" where
  "table_inv s \<longleftrightarrow>
     distinct (map fst (cids s)) \<and> distinct (map snd (cids s)) \<and> distinct (map fst (delivered s)) \<and>
     waiting (cids s) \<inter> answered s = {} \<and> (\<forall>ch \<in> waiting (cids s) \<union> answered s. ch < next_chan s)"

lemma table_inv_new: "table_inv new_socket_state"
  by (simp add: table_inv_def new_socket_state_def waiting_def answered_def)

lemma waiting_update: "waiting (AList.update k v m) \<subseteq> insert v (waiting m)"
  by (induction m) (auto simp: waiting_def)

lemma waiting_delete: "waiting (AList.delete k m) \<subseteq> waiting m"
  by (induction m) (auto simp: waiting_def)

lemma distinct_snd_update:
  "distinct (map snd m) \<Longrightarrow> v \<notin> waiting m \<Longrightarrow> distinct (map snd (AList.update k v m))"
proof (induction m)
  case (Cons a m)
  then show ?case using waiting_update [of k v m] by (auto simp: waiting_def)
qed simp

lemma distinct_snd_delete:
  fixes m :: cid_table
  shows "distinct (map snd m) \<Longrightarrow> distinct (map snd (AList.delete k m))"
proof (induction m)
  case (Cons a m)
  then show ?case using waiting_delete [of k m] by (auto simp: waiting_def)
qed simp

lemma delete_removes_value:
  "distinct (map fst m) \<Longrightarrow> distinct (map snd m) \<Longrightarrow> map_of m k = Some v \<Longrightarrow> v \<notin> waiting (AList.delete k m)"
proof (induction m)
  case (Cons a m)
  then show ?case
    using waiting_delete [of k m]
    by (auto split: if_splits dest: map_of_SomeD simp: rev_image_eqI waiting_def)
qed (simp add: waiting_def)

lemma answered_simps [simp]:
  "answered (s\<lparr>cids := m\<rparr>) = answered s" "answered (s\<lparr>next_chan := n\<rparr>) = answered s"
  "answered (s\<lparr>nextCid := c\<rparr>) = answered s" "answered (s\<lparr>written := w\<rparr>) = answered s"
  "answered (s\<lparr>connected := b\<rparr>) = answered s" "answered (deliver (Some ch) r s) = insert ch (answered s)"
  by (auto simp: answered_def deliver_def)

lemma table_invI:
  assumes "table_inv s" "distinct (map fst m)" "distinct (map snd m)" "waiting m \<subseteq> insert ch (waiting (cids s))"
    and "ch \<notin> answered s" "ch < n" "next_chan s \<le> n"
  shows "table_inv (s\<lparr>next_chan := n, cids := m\<rparr>)"
  using assms unfolding table_inv_def by simp (blast intro: less_le_trans)

lemma table_inv_ghost [simp]:
  "table_inv (s\<lparr>written := w\<rparr>) = table_inv s" "table_inv (s\<lparr>nextCid := c\<rparr>) = table_inv s"
  "table_inv (s\<lparr>connected := b\<rparr>) = table_inv s"
  by (simp_all add: table_inv_def)

lemma table_inv_delete: "table_inv s \<Longrightarrow> table_inv (s\<lparr>cids := AList.delete k (cids s)\<rparr>)"
  using waiting_delete [of k "cids s"] unfolding table_inv_def
  by (simp add: distinct_delete distinct_snd_delete) blast

lemma table_inv_clearCid: "table_inv s \<Longrightarrow> table_inv (clearCid cid s)"
  by (simp add: clearCid_def table_inv_delete)

lemma table_inv_take:
  assumes "table_inv s" "map_of (cids s) k = Some ch"
  shows "table_inv (deliver (Some ch) r (s\<lparr>cids := AList.delete k (cids s)\<rparr>))"
proof -
  have mem: "ch \<in> waiting (cids s)" using assms(2) by (force simp: waiting_def dest: map_of_SomeD)
  then have new: "ch \<notin> answered s" "ch < next_chan s" using assms(1) by (auto simp: table_inv_def)
  have "ch \<notin> waiting (AList.delete k (cids s))"
    using assms by (intro delete_removes_value) (auto simp: table_inv_def)
  then show ?thesis
    using table_inv_delete [OF assms(1), of k] new unfolding table_inv_def
    by (auto simp: deliver_def answered_def)
qed

text \<open>What a lookup by cid takes out of the table.\<close>

lemma takeCid_cases:
  "takeCid c m = (None, m) \<and> map_of m c = None \<or>
   (\<exists>ch. map_of m c = Some ch \<and> takeCid c m = (Some ch, AList.delete c m))"
  by (cases "map_of m c") (auto simp: takeCid_def)

lemma takeRawCid_cases:
  assumes "iter_ok iter" "distinct (map fst m)"
  shows "takeRawCid iter c m = (None, m) \<and> map_of m c = None \<and> (\<forall>k. wire_cid k = c \<longrightarrow> map_of m k = None) \<or>
    (\<exists>k ch. map_of m k = Some ch \<and> takeRawCid iter c m = (Some ch, AList.delete k m) \<and>
       (k = c \<or> map_of m c = None \<and> wire_cid k = c))"
proof (cases "map_of m c")
  case None
  show ?thesis
  proof (cases "find (\<lambda>(k, ch). wire_cid k = c) (iter m)")
    case no: None
    then have "\<forall>k. wire_cid k = c \<longrightarrow> map_of m k = None"
      using assms(1) by (force simp: find_None_iff iter_ok_def map_of_eq_None_iff)
    then show ?thesis using None no by (simp add: takeRawCid_def)
  next
    case (Some e)
    obtain k ch where e: "e = (k, ch)" by (cases e)
    have "(k, ch) \<in> set m" "wire_cid k = c"
      using Some assms(1) by (auto simp: find_Some_iff iter_ok_def e dest!: nth_mem)
    then show ?thesis using None Some assms(2) by (auto simp: takeRawCid_def e)
  qed
qed (simp add: takeRawCid_def)

section \<open>One turn of the read loop\<close>

text \<open>The cid a frame answers.\<close>

definition answers :: "(bytes \<Rightarrow> pb_Envelope result) \<Rightarrow> wireFrame \<Rightarrow> int32 \<Rightarrow> bool" where
  "answers unmarshal f k \<longleftrightarrow>
     (if wf_kind f = frameEnvelope
      then (\<exists>env. unmarshalEnvelope unmarshal f = Inr env \<and> env_Cid env = k \<and> k \<noteq> 0)
      else k = wf_cid f \<or> wire_cid k = wf_cid f)"

definition frame_effect ::
  "(bytes \<Rightarrow> pb_Envelope result) \<Rightarrow> wireFrame \<Rightarrow> socket_state \<Rightarrow> socket_state \<Rightarrow> bool" where
  "frame_effect unmarshal f s s' \<longleftrightarrow> s' = s \<or>
     (\<exists>k ch r. map_of (cids s) k = Some ch \<and> answers unmarshal f k \<and>
        s' = deliver (Some ch) r (s\<lparr>cids := AList.delete k (cids s)\<rparr>))"

lemma frame_effect_refl [simp]: "frame_effect unmarshal f s s"
  by (simp add: frame_effect_def)

lemma deliver_None [simp]: "deliver None r s = s"
  by (simp add: deliver_def)

lemma frame_effectI:
  "map_of (cids s) k = Some ch \<Longrightarrow> answers unmarshal f k \<Longrightarrow>
   frame_effect unmarshal f s (deliver (Some ch) r (s\<lparr>cids := AList.delete k (cids s)\<rparr>))"
  unfolding frame_effect_def by blast

lemma takeCid_effect:
  assumes "unmarshalEnvelope unmarshal f = Inr env" "wf_kind f = frameEnvelope" "env_Cid env \<noteq> 0"
    and "takeCid (env_Cid env) (cids s) = (ch, m)"
  shows "frame_effect unmarshal f s (deliver ch r (s\<lparr>cids := m\<rparr>))"
  using assms takeCid_cases [of "env_Cid env" "cids s"] by (auto simp: answers_def intro: frame_effectI)

lemma takeRawCid_effect:
  assumes "iter_ok iter" "table_inv s" "wf_kind f \<noteq> frameEnvelope" "takeRawCid iter (wf_cid f) (cids s) = (ch, m)"
  shows "frame_effect unmarshal f s (deliver ch r (s\<lparr>cids := m\<rparr>))"
proof -
  have "distinct (map fst (cids s))" using assms(2) by (simp add: table_inv_def)
  from takeRawCid_cases [OF assms(1) this, of "wf_cid f"] show ?thesis
    using assms(3,4) by (auto simp: answers_def intro: frame_effectI)
qed

lemma readLoop_frame_effect:
  assumes "iter_ok iter" "table_inv s" "readLoop_frame unmarshal iter f (st, s) = ((st', s'), ev)"
  shows "frame_effect unmarshal f s s'"
proof (cases "wf_kind f")
  case frameEnvelope
  then show ?thesis
    using assms(3) takeCid_effect
    by (auto simp: readLoop_frame_def split: sum.splits if_splits prod.splits)
next
  case frameAPIChunk
  then show ?thesis
    using assms(3) takeRawCid_effect [OF assms(1,2)]
    by (auto simp: readLoop_frame_def deliverAPIChunk_def Let_def split: if_splits prod.splits)
next
  case framePong
  then show ?thesis
    using assms(3) takeRawCid_effect [OF assms(1,2)]
    by (auto simp: readLoop_frame_def Let_def split: prod.splits)
qed

lemma frame_effect_inv: "table_inv s \<Longrightarrow> frame_effect unmarshal f s s' \<Longrightarrow> table_inv s'"
  by (auto simp: frame_effect_def table_inv_take)

lemma table_inv_register:
  assumes "table_inv s"
  shows "table_inv (s\<lparr>next_chan := Suc (next_chan s), cids := AList.update k (next_chan s) (cids s)\<rparr>)"
proof -
  have "next_chan s \<notin> waiting (cids s) \<union> answered s" using assms by (auto simp: table_inv_def)
  then show ?thesis
    using assms waiting_update [of k "next_chan s" "cids s"]
    by (intro table_invI [where ch = "next_chan s"])
      (auto simp: table_inv_def distinct_update distinct_snd_update)
qed

lemma table_inv_send_request:
  assumes "table_inv s" "send_request marshal io kind env s = (r, s')"
  shows "table_inv s'"
proof -
  let ?s1 = "s\<lparr>nextCid := nextCid s + 1\<rparr>"
  let ?s2 = "?s1\<lparr>next_chan := Suc (next_chan s), cids := AList.update (nextCid s) (next_chan s) (cids s)\<rparr>"
  have inv: "table_inv ?s2" using table_inv_register [of ?s1 "nextCid s"] assms(1) by simp
  have "s' = s \<or> s' = clearCid (nextCid s) ?s2 \<or> (\<exists>w. s' = ?s2\<lparr>written := w\<rparr>)"
    using assms(2) by (auto simp: send_request_def generateCid_def Let_def split: if_splits sum.splits)
  then show ?thesis
    using assms(1) inv table_inv_clearCid [OF inv] table_inv_ghost(1) by blast
qed

lemma table_inv_await: "table_inv s \<Longrightarrow> await_response cid w s = (r, s') \<Longrightarrow> table_inv s'"
  by (auto simp: await_response_def table_inv_clearCid split: wait_outcome.splits option.splits)

section \<open>All interleavings\<close>

text \<open>
  Senders register and write (\<open>Request\<close>), the read loop of the current connection handles a frame
  (\<open>Frame\<close>), a parked sender wakes up (\<open>Wake\<close>), and the connection is torn down or replaced, which
  starts a read loop with empty chunk buffers (\<open>Reconnect\<close>).
\<close>

datatype socket_label = Request pb_Envelope | Frame wireFrame | Wake int32 wait_outcome | Reconnect bool

inductive socket_step ::
  "(pb_Envelope \<Rightarrow> bytes result) \<Rightarrow> (bytes \<Rightarrow> go_error option) \<Rightarrow> TransportKind \<Rightarrow>
   (bytes \<Rightarrow> pb_Envelope result) \<Rightarrow> (cid_table \<Rightarrow> cid_table) \<Rightarrow>
   streams \<times> socket_state \<Rightarrow> socket_label \<Rightarrow> streams \<times> socket_state \<Rightarrow> bool"
  for marshal io kind unmarshal iter where
  sock_request: "send_request marshal io kind env s = (r, s') \<Longrightarrow>
     socket_step marshal io kind unmarshal iter (st, s) (Request env) (st, s')"
| sock_frame: "readLoop_frame unmarshal iter f x = (x', ev) \<Longrightarrow>
     socket_step marshal io kind unmarshal iter x (Frame f) x'"
| sock_wake: "await_response cid w s = (r, s') \<Longrightarrow>
     socket_step marshal io kind unmarshal iter (st, s) (Wake cid w) (st, s')"
| sock_reconnect:
     "socket_step marshal io kind unmarshal iter (st, s) (Reconnect b) ([], s\<lparr>connected := b\<rparr>)"

inductive_cases socket_stepE: "socket_step marshal io kind unmarshal iter x l x'"

definition socket_init :: "streams \<times> socket_state \<Rightarrow> bool" where
  "socket_init x \<longleftrightarrow> x = ([], new_socket_state)"

lemma table_inv_step:
  assumes "iter_ok iter" "table_inv (snd x)" "socket_step marshal io kind unmarshal iter x l x'"
  shows "table_inv (snd x')"
  using assms(3)
proof cases
  case (sock_frame f ev)
  obtain st s st' s' where x: "x = (st, s)" "x' = (st', s')" by (cases x, cases x')
  then have "frame_effect unmarshal f s s'"
    using readLoop_frame_effect assms(1,2) sock_frame by simp
  then show ?thesis using frame_effect_inv assms(2) x by simp
next
  case (sock_request env s r s' st)
  then have "table_inv s" using assms(2) by simp
  from table_inv_send_request [OF this] show ?thesis using sock_request by auto
next
  case (sock_wake cid w s r s' st)
  then have "table_inv s" using assms(2) by simp
  from table_inv_await [OF this] show ?thesis using sock_wake by auto
qed (use assms(2) in simp)

lemma socket_step_invariant:
  assumes "iter_ok iter"
  shows "step_invariant socket_init (socket_step marshal io kind unmarshal iter) (\<lambda>x. table_inv (snd x))"
proof unfold_locales
  show "socket_init x \<Longrightarrow> table_inv (snd x)" for x
    by (simp add: socket_init_def table_inv_new)
  show "table_inv (snd x) \<Longrightarrow> socket_step marshal io kind unmarshal iter x l x' \<Longrightarrow> table_inv (snd x')" for x l x'
    using table_inv_step [OF assms] by blast
qed

lemmas reachable_table_inv = step_invariant.reachable_inv [OF socket_step_invariant]

section \<open>Reassembly of API responses\<close>

lemma wire_cid_idem [simp]: "wire_cid (wire_cid k) = wire_cid k"
  by (simp add: wire_cid_def)

definition chunk_of :: "int32 \<Rightarrow> wireFrame \<Rightarrow> bool" where
  "chunk_of c f \<longleftrightarrow> wf_kind f = frameAPIChunk \<and> wf_cid f = wire_cid c"

text \<open>The sender of \<open>c\<close> waits, and no other pending cid has the same low 16 bits.\<close>

definition sole_pending :: "int32 \<Rightarrow> chan_id \<Rightarrow> socket_state \<Rightarrow> bool" where
  "sole_pending c ch s \<longleftrightarrow>
     map_of (cids s) c = Some ch \<and>
     (\<forall>k. wire_cid k = wire_cid c \<longrightarrow> map_of (cids s) k \<noteq> None \<longrightarrow> k = c)"

lemma sole_pending_effect:
  assumes "sole_pending c ch s" "frame_effect unmarshal f s s'" "\<not> answers unmarshal f c"
  shows "sole_pending c ch s'"
  using assms(2)
proof (unfold frame_effect_def, elim disjE exE conjE)
  fix k ch' r
  assume "map_of (cids s) k = Some ch'" "answers unmarshal f k"
    and s': "s' = deliver (Some ch') r (s\<lparr>cids := AList.delete k (cids s)\<rparr>)"
  then have "k \<noteq> c" using assms(3) by blast
  then show ?thesis
    using assms(1) by (auto simp: sole_pending_def s' deliver_def AList.delete_conv')
qed (use assms(1) in simp)

lemma stream_of_update [simp]: "stream_of (AList.update c v st) c' = (if c' = c then v else stream_of st c')"
  by (simp add: stream_of_def AList.update_conv')

lemma stream_of_delete [simp]: "stream_of (AList.delete c st) c' = (if c' = c then [] else stream_of st c')"
  by (simp add: stream_of_def AList.delete_conv')

lemma stream_kept:
  assumes "readLoop_frame unmarshal iter f (st, s) = ((st', s'), ev)" "\<not> chunk_of c f"
  shows "stream_of st' (wire_cid c) = stream_of st (wire_cid c)"
  using assms
  by (cases "wf_kind f")
    (auto simp: readLoop_frame_def deliverAPIChunk_def chunk_of_def Let_def
      split: sum.splits if_splits prod.splits)

lemma takeRawCid_sole:
  assumes "iter_ok iter" "distinct (map fst (cids s))" "sole_pending c ch s"
  shows "takeRawCid iter (wire_cid c) (cids s) = (Some ch, AList.delete c (cids s))"
proof -
  have c: "map_of (cids s) c = Some ch" using assms(3) by (simp add: sole_pending_def)
  have sole: "k = c" if "map_of (cids s) k = Some v" "wire_cid k = wire_cid c" for k v
    using assms(3) that by (simp add: sole_pending_def)
  from takeRawCid_cases [OF assms(1,2), of "wire_cid c"] show ?thesis
  proof (elim disjE exE conjE)
    fix k v
    assume "map_of (cids s) k = Some v" "takeRawCid iter (wire_cid c) (cids s) = (Some v, AList.delete k (cids s))"
      and "k = wire_cid c"
    then show ?thesis using sole [of k v] c by simp
  next
    fix k v
    assume "map_of (cids s) k = Some v" "takeRawCid iter (wire_cid c) (cids s) = (Some v, AList.delete k (cids s))"
      and "wire_cid k = wire_cid c"
    then show ?thesis using sole [of k v] c by simp
  qed (use c in simp)
qed

lemma chunk_buffered:
  assumes "chunk_of c f" "\<not> wf_fin f" "readLoop_frame unmarshal iter f (st, s) = ((st', s'), ev)"
  shows "s' = s" "stream_of st' (wire_cid c) = stream_of st (wire_cid c) @ [wf_payload f]"
  using assms by (auto simp: readLoop_frame_def deliverAPIChunk_def chunk_of_def Let_def)

lemma chunk_finished:
  assumes "iter_ok iter" "table_inv s" "sole_pending c ch s" "chunk_of c f" "wf_fin f"
    and "readLoop_frame unmarshal iter f (st, s) = ((st', s'), ev)"
  shows "delivered s' = delivered s @ [(ch, api_response (wf_code f) (concat (stream_of st (wire_cid c)) @ wf_payload f))]"
proof -
  have "takeRawCid iter (wf_cid f) (cids s) = (Some ch, AList.delete c (cids s))"
    using takeRawCid_sole [OF assms(1) _ assms(3)] assms(2,4) by (simp add: table_inv_def chunk_of_def)
  then show ?thesis
    using assms(4-6) by (auto simp: readLoop_frame_def deliverAPIChunk_def chunk_of_def deliver_def Let_def split: if_splits)
qed

lemma chunks_collected:
  assumes "iter_ok iter" "table_inv s" "sole_pending c ch s"
    and "\<forall>f\<in>set fs. if chunk_of c f then \<not> wf_fin f else \<not> answers unmarshal f c"
    and "readLoop unmarshal iter fs (st, s) = ((st', s'), evs)"
  shows "table_inv s' \<and> sole_pending c ch s' \<and>
    stream_of st' (wire_cid c) = stream_of st (wire_cid c) @ map wf_payload (filter (chunk_of c) fs)"
  using assms(2-5)
proof (induction fs arbitrary: st s evs)
  case (Cons f fs)
  obtain st1 s1 ev where step: "readLoop_frame unmarshal iter f (st, s) = ((st1, s1), ev)"
    by (metis prod.exhaust)
  obtain evs1 where rest: "readLoop unmarshal iter fs (st1, s1) = ((st', s'), evs1)"
    using Cons.prems(4) step by (auto simp: Let_def split: prod.splits)
  have eff: "frame_effect unmarshal f s s1" using readLoop_frame_effect [OF assms(1) Cons.prems(1) step] .
  have inv: "table_inv s1" using frame_effect_inv [OF Cons.prems(1) eff] .
  have "sole_pending c ch s1 \<and> stream_of st1 (wire_cid c) =
      stream_of st (wire_cid c) @ (if chunk_of c f then [wf_payload f] else [])"
  proof (cases "chunk_of c f")
    case True
    then show ?thesis using Cons.prems(2,3) chunk_buffered [OF True _ step] by simp
  next
    case False
    then show ?thesis
      using Cons.prems(3) sole_pending_effect [OF Cons.prems(2) eff] stream_kept [OF step False] by simp
  qed
  then show ?case using Cons.IH [OF inv _ _ rest] Cons.prems(3) by simp
qed simp

lemma readLoop_append:
  "readLoop unmarshal iter (fs @ gs) x =
     (let (x', evs) = readLoop unmarshal iter fs x; (x'', evs') = readLoop unmarshal iter gs x' in (x'', evs @ evs'))"
  by (induction fs arbitrary: x) (auto simp: Let_def split: prod.splits option.splits)

lemma chunks_reassembled:
  assumes "iter_ok iter" "table_inv s" "sole_pending c ch s" "stream_of st (wire_cid c) = []"
    and "\<forall>f\<in>set fs. if chunk_of c f then \<not> wf_fin f else \<not> answers unmarshal f c"
    and "chunk_of c f" "wf_fin f"
  shows "\<exists>ds. delivered (snd (fst (readLoop unmarshal iter (fs @ [f]) (st, s)))) =
    ds @ [(ch, api_response (wf_code f) (concat (map wf_payload (filter (chunk_of c) (fs @ [f])))))]"
proof -
  obtain st1 s1 evs where r1: "readLoop unmarshal iter fs (st, s) = ((st1, s1), evs)" by (metis prod.exhaust)
  obtain st2 s2 ev where r2: "readLoop_frame unmarshal iter f (st1, s1) = ((st2, s2), ev)" by (metis prod.exhaust)
  have "table_inv s1" "sole_pending c ch s1"
      "stream_of st1 (wire_cid c) = map wf_payload (filter (chunk_of c) fs)"
    using chunks_collected [OF assms(1-3,5) r1] assms(4) by simp_all
  from chunk_finished [OF assms(1) this(1,2) assms(6,7) r2] this(3) show ?thesis
    using assms(6) by (simp add: readLoop_append r1 r2)
qed

section \<open>Padded envelopes\<close>

lemma unpad_retry_pads:
  assumes "unmarshal data = Inr env" "\<forall>i\<in>{1..3}. \<exists>e. unmarshal (data @ replicate i 0) = Inl e" "pad \<le> n" "n \<le> 3"
  shows "unpad_retry unmarshal n (data @ replicate pad 0) = Inr env"
  using assms(3,4)
proof (induction n arbitrary: pad)
  case (Suc n)
  show ?case
  proof (cases pad)
    case 0
    then show ?thesis using assms(1) by simp
  next
    case (Suc p)
    then obtain e where "unmarshal (data @ replicate pad 0) = Inl e" using assms(2) Suc.prems by force
    moreover have "replicate pad (0::byte) = replicate p 0 @ [0]"
      by (simp add: Suc replicate_append_same)
    then have "butlast (data @ replicate pad 0) = data @ replicate p 0"
      by (simp add: butlast_append)
    ultimately show ?thesis
      using Suc Suc.IH [of p] Suc.prems by (simp add: last_append_replicate)
  qed
qed (use assms(1) in simp)

section \<open>A small run\<close>

text \<open>A connected socket with one request in flight, used to instantiate the properties.\<close>

definition demo_socket :: socket_state where
  "demo_socket = \<lparr>cids = [(1, 0)], nextCid = 2, connected = True, next_chan = 1, delivered = [],
     written = [tcp_writeEnvelope [1]]\<rparr>"

definition demo_step :: "streams \<times> socket_state \<Rightarrow> socket_label \<Rightarrow> streams \<times> socket_state \<Rightarrow> bool" where
  "demo_step = socket_step (\<lambda>_. Inr [1]) (\<lambda>_. None) TransportTCP (\<lambda>_. Inl EOF) (\<lambda>m. m)"

definition demo_chunk :: "bool \<Rightarrow> bytes \<Rightarrow> wireFrame" where
  "demo_chunk fin p = \<lparr>wf_kind = frameAPIChunk, wf_cid = 1, wf_code = 0, wf_fin = fin, wf_payload = p, wf_padded = False\<rparr>"

lemma demo_reachable: "reachable socket_init demo_step ([], demo_socket)"
proof -
  let ?s0 = "new_socket_state\<lparr>connected := True\<rparr>"
  have "demo_step ([], new_socket_state) (Reconnect True) ([], ?s0)"
    unfolding demo_step_def by (rule sock_reconnect)
  moreover have "reachable socket_init demo_step ([], new_socket_state)"
    by (rule reachable_init) (simp add: socket_init_def)
  ultimately have "reachable socket_init demo_step ([], ?s0)" by (rule reachable_step [rotated])
  moreover have "send_request (\<lambda>_. Inr [1]) (\<lambda>_. None) TransportTCP zero_Envelope ?s0 = (Inr (1, 0), demo_socket)"
    by (simp add: send_request_def demo_socket_def new_socket_state_def generateCid_def IsOpen_def
        write_request_def zero_Envelope_def Let_def)
  then have "demo_step ([], ?s0) (Request zero_Envelope) ([], demo_socket)"
    unfolding demo_step_def by (rule sock_request)
  ultimately show ?thesis by (rule reachable_step)
qed

lemma demo_facts:
  "iter_ok (\<lambda>m. m)" "wire_cid 1 = 1" "sole_pending 1 0 demo_socket" "chunk_of 1 (demo_chunk fin p)"
  by (simp_all add: iter_ok_def wire_cid_def sole_pending_def chunk_of_def demo_chunk_def demo_socket_def)

section \<open>Properties\<close>

text \<open>
  C13. In every interleaving of requests, inbound frames, timeouts, teardowns and reconnects, the
  table of pending cids holds each cid and each channel once, no channel ever receives a second
  response, and a channel that is still registered has received none. A response channel has room
  for one response, so the read loop never blocks on delivering.
\<close>

theorem one_response_per_sender:
  assumes "iter_ok iter" "reachable socket_init (socket_step marshal io kind unmarshal iter) (st, s)"
  shows "distinct (map fst (cids s)) \<and> distinct (map snd (cids s)) \<and> distinct (map fst (delivered s)) \<and>
    set (map snd (cids s)) \<inter> set (map fst (delivered s)) = {}"
  using reachable_table_inv [OF assms] by (simp add: table_inv_def waiting_def answered_def)

theorem one_response_per_sender_witness:
  "set (map snd (cids demo_socket)) \<inter> set (map fst (delivered demo_socket)) = {}"
  using one_response_per_sender [OF demo_facts(1) demo_reachable [unfolded demo_step_def]] by blast

text \<open>
  C14. A frame is delivered to at most one sender, one whose pending cid the frame answers: an
  envelope carries exactly that cid, a pong or an API response its low 16 bits. The sender's entry
  is removed and all other entries stay. An envelope for a pending cid is delivered to that
  cid's sender and is never queued as an event.
\<close>

theorem response_reaches_its_sender:
  assumes "iter_ok iter" "reachable socket_init (socket_step marshal io kind unmarshal iter) (st, s)"
    and "readLoop_frame unmarshal iter f (st, s) = ((st', s'), ev)"
  shows "(delivered s' = delivered s \<and> cids s' = cids s \<or>
      (\<exists>k ch r. map_of (cids s) k = Some ch \<and> answers unmarshal f k \<and>
         delivered s' = delivered s @ [(ch, r)] \<and> cids s' = AList.delete k (cids s))) \<and>
    (\<forall>env ch. wf_kind f = frameEnvelope \<and> unmarshalEnvelope unmarshal f = Inr env \<and> env_Cid env \<noteq> 0 \<and>
       map_of (cids s) (env_Cid env) = Some ch \<longrightarrow>
         delivered s' = delivered s @ [(ch, env_response env)] \<and> ev = None)"
proof -
  have "table_inv s" using reachable_table_inv [OF assms(1,2)] by simp
  from readLoop_frame_effect [OF assms(1) this assms(3)] have
    "delivered s' = delivered s \<and> cids s' = cids s \<or>
      (\<exists>k ch r. map_of (cids s) k = Some ch \<and> answers unmarshal f k \<and>
         delivered s' = delivered s @ [(ch, r)] \<and> cids s' = AList.delete k (cids s))"
    by (auto simp: frame_effect_def deliver_def)
  moreover have "delivered s' = delivered s @ [(ch, env_response env)] \<and> ev = None"
    if "wf_kind f = frameEnvelope" "unmarshalEnvelope unmarshal f = Inr env" "env_Cid env \<noteq> 0"
      "map_of (cids s) (env_Cid env) = Some ch" for env ch
    using assms(3) that by (auto simp: readLoop_frame_def takeCid_def deliver_def Let_def)
  ultimately show ?thesis by blast
qed

theorem response_reaches_its_sender_witness:
  "\<exists>st' s' ev. readLoop_frame (\<lambda>_. Inl EOF) (\<lambda>m. m) (demo_chunk True [7]) ([], demo_socket) = ((st', s'), ev) \<and>
     (delivered s' = delivered demo_socket \<or>
      (\<exists>ch r. map_of (cids demo_socket) 1 = Some ch \<and> delivered s' = [(ch, r)]))"
proof -
  obtain st' s' ev where step:
    "readLoop_frame (\<lambda>_. Inl EOF) (\<lambda>m. m) (demo_chunk True [7]) ([], demo_socket) = ((st', s'), ev)"
    by (metis prod.exhaust)
  from response_reaches_its_sender [OF demo_facts(1) demo_reachable [unfolded demo_step_def] step] step
  show ?thesis by (auto simp: demo_socket_def split: if_splits)
qed

text \<open>
  A chunked API response is reassembled: while the request's cid is pending and no other
  pending cid shares its low 16 bits, the chunks of the response may arrive interleaved with any
  frames for other requests; the final chunk delivers to the sender of the request the
  concatenation of the payloads of exactly its chunks, in order, with the final chunk's code.
\<close>

theorem api_response_reassembled:
  assumes "iter_ok iter" "reachable socket_init (socket_step marshal io kind unmarshal iter) (st, s)"
    and "sole_pending c ch s" "stream_of st (wire_cid c) = []"
    and "\<forall>f\<in>set fs. if chunk_of c f then \<not> wf_fin f else \<not> answers unmarshal f c"
    and "chunk_of c f" "wf_fin f"
  shows "\<exists>ds. delivered (snd (fst (readLoop unmarshal iter (fs @ [f]) (st, s)))) =
    ds @ [(ch, api_response (wf_code f) (concat (map wf_payload (filter (chunk_of c) (fs @ [f])))))]"
  using chunks_reassembled [OF assms(1) _ assms(3-7)] reachable_table_inv [OF assms(1,2)] by simp

theorem api_response_reassembled_witness:
  "\<exists>ds. delivered (snd (fst (readLoop (\<lambda>_. Inl EOF) (\<lambda>m. m) [demo_chunk False [1, 2], demo_chunk True [3]] ([], demo_socket)))) =
     ds @ [(0, api_response 0 [1, 2, 3])]"
  using api_response_reassembled [OF demo_facts(1) demo_reachable [unfolded demo_step_def] demo_facts(3),
      of "[demo_chunk False [1, 2]]" "demo_chunk True [3]"]
  by (simp add: demo_facts(4) stream_of_def) (simp add: demo_chunk_def)

text \<open>
  A sender that leaves because its connection was torn down does not remove its cid, unlike one
  that times out. Once the counter has advanced by 65536, the raw API response to a new request
  with the same low 16 bits is delivered to the channel of the sender that left, and the new
  request stays unanswered.
\<close>

theorem stale_cid_takes_raw_response:
  assumes "map_of (cids s) c = Some dead" "wire_cid c = c"
    and "map_of (cids s) k = Some live" "k \<noteq> c" "wire_cid k = c"
    and "chunk_of k f" "wf_fin f"
  shows "cids (snd (await_response c ConnDone s)) = cids s \<and>
    map_of (cids (snd (await_response c TimedOut s))) c = None \<and>
    (\<exists>r. delivered (snd (deliverAPIChunk iter f (st, s))) = delivered s @ [(dead, r)]) \<and>
    map_of (cids (snd (deliverAPIChunk iter f (st, s)))) k = Some live"
proof -
  have "wf_cid f = c" using assms(5,6) by (simp add: chunk_of_def)
  then have "takeRawCid iter (wf_cid f) (cids s) = (Some dead, AList.delete c (cids s))"
    using assms(1) by (simp add: takeRawCid_def)
  then show ?thesis
    using assms by (simp add: await_response_def clearCid_def deliverAPIChunk_def deliver_def Let_def AList.delete_conv')
qed

theorem stale_cid_takes_raw_response_witness:
  "\<exists>r. delivered (snd (deliverAPIChunk (\<lambda>m. m) (demo_chunk True []) ([], demo_socket\<lparr>cids := [(1, 0), (65537, 1)]\<rparr>))) = [(0, r)]"
  using stale_cid_takes_raw_response [of "demo_socket\<lparr>cids := [(1, 0), (65537, 1)]\<rparr>" 1 0 65537 1 "demo_chunk True []" "\<lambda>m. m" "[]"]
  by (simp add: demo_facts(2) wire_cid_def chunk_of_def demo_chunk_def demo_socket_def)

text \<open>
  An envelope that the gateway sends in the abridged framing decodes to what was sent: the
  frame is read from the stream with its zero padding, and trial decoding drops exactly the
  padding. The protobuf decoder is assumed to accept the encoding and to reject it when one to
  three zero bytes follow (a zero byte is no valid field tag).
\<close>

theorem abridged_envelope_decoded:
  assumes "unmarshal data = Inr env" "\<forall>i\<in>{1..3}. \<exists>e. unmarshal (data @ replicate i 0) = Inl e"
    and "data \<noteq> []" "length data \<le> 4 * (2 ^ 24 - 1)"
  shows "\<exists>f. readFrame (encodeAbridgedFrame data @ rest) = Inr (f, rest) \<and> unmarshalEnvelope unmarshal f = Inr env"
proof -
  let ?f = "envelope_frame (data @ replicate (abridged_padding (length data)) 0) True"
  have "readFrame (encodeAbridgedFrame data @ rest) = Inr (?f, rest)"
    using gateway.dec_enc [of "([], SrvEnvelope data)" rest] assms(3,4)
    by (simp add: stream_item_ok_def stream_item_bytes_def)
  moreover have "unmarshalEnvelope unmarshal ?f = Inr env"
    using unpad_retry_pads [OF assms(1,2)] abridged_padding_less [of "length data"]
    by (simp add: unmarshalEnvelope_def envelope_frame_def)
  ultimately show ?thesis by blast
qed

theorem abridged_envelope_decoded_witness:
  "\<exists>f. readFrame (encodeAbridgedFrame [26, 0] @ []) = Inr (f, []) \<and>
     unmarshalEnvelope (\<lambda>d. if d = [26, 0] then Inr zero_Envelope else Inl EOF) f = Inr zero_Envelope"
  by (rule abridged_envelope_decoded) auto

end
