(* ===== verification/Socket_Lifecycle.thy ===== *)
theory Socket_Lifecycle
  imports Mezon_Prelude "HOL-Library.Multiset"
begin

text \<open>
  The life of a connection in \<^verbatim>\<open>socket.go\<close>: \<^verbatim>\<open>Connect\<close>, \<^verbatim>\<open>Close\<close>, the read loop, the heartbeat loop and
  \<^verbatim>\<open>markDisconnected\<close>, as goroutines that interleave at their accesses to the shared state. One rule
  is one atomic action of the code: a load, store or swap of the \<^verbatim>\<open>connected\<close> flag, a section under
  \<^verbatim>\<open>writeMu\<close>, closing a done channel, or calling the \<^verbatim>\<open>OnDisconnect\<close> callback. A connection and its
  done channel have the same number.
\<close>

section \<open>Goroutines\<close>

text \<open>What a goroutine does next. \<open>ConnStart\<close> to \<open>ConnStore\<close> are the points of \<^verbatim>\<open>Connect\<close>, \<open>CloseStart\<close> to
  \<open>CloseConn\<close> those of \<^verbatim>\<open>Close\<close>, \<open>MarkGuard\<close> to \<open>MarkFire\<close> those of \<^verbatim>\<open>markDisconnected\<close>; the flag of the
  latter tells whether the heartbeat loop runs it, which closes the connection afterwards.\<close>

datatype proc =
    ConnStart | ConnDial | ConnPublish | ConnStore nat
  | ReadLoop nat
  | Heartbeat nat | HbPing nat | HbFailed nat
  | MarkGuard bool nat | MarkSwap bool nat | MarkClose bool nat | MarkFire bool nat | HbCloseConn nat
  | CloseStart | CloseRead | CloseDone "nat option"

record life =
  l_connected :: bool
  l_done :: nat
  l_closeDone :: "nat option"
  l_closed :: "nat set"
  l_conn_closed :: "nat set"
  l_next :: nat
  l_procs :: "proc list"
  l_stores :: nat
  l_fired :: "nat list"

text \<open>\<^verbatim>\<open>NewDefaultSocket\<close> makes a done channel (number 0) that belongs to no connection.\<close>

definition life_init :: "life \<Rightarrow> bool" where
  "life_init s \<longleftrightarrow> s = \<lparr>l_connected = False, l_done = 0, l_closeDone = None, l_closed = {}, l_conn_closed = {},
     l_next = 1, l_procs = [], l_stores = 0, l_fired = []\<rparr>"

text \<open>After \<^verbatim>\<open>markDisconnected\<close> the read loop returns; the heartbeat loop closes its connection.\<close>

definition after_mark :: "bool \<Rightarrow> nat \<Rightarrow> proc list" where
  "after_mark hb n = (if hb then [HbCloseConn n] else [])"

datatype life_label = Call | Go proc

inductive life_step :: "life \<Rightarrow> life_label \<Rightarrow> life \<Rightarrow> bool" where
  call_connect: "life_step s Call (s\<lparr>l_procs := l_procs s @ [ConnStart]\<rparr>)"
| call_close: "life_step s Call (s\<lparr>l_procs := l_procs s @ [CloseStart]\<rparr>)"
| conn_open: "l_procs s = xs @ ConnStart # ys \<Longrightarrow> l_connected s \<Longrightarrow>
     life_step s (Go ConnStart) (s\<lparr>l_procs := xs @ ys\<rparr>)"
| conn_check: "l_procs s = xs @ ConnStart # ys \<Longrightarrow> \<not> l_connected s \<Longrightarrow>
     life_step s (Go ConnStart) (s\<lparr>l_procs := xs @ ConnDial # ys\<rparr>)"
| conn_dialled: "l_procs s = xs @ ConnDial # ys \<Longrightarrow>
     life_step s (Go ConnDial) (s\<lparr>l_procs := xs @ ConnPublish # ys\<rparr>)"
| conn_dial_failed: "l_procs s = xs @ ConnDial # ys \<Longrightarrow>
     life_step s (Go ConnDial) (s\<lparr>l_procs := xs @ ys\<rparr>)"
| conn_publish: "l_procs s = xs @ ConnPublish # ys \<Longrightarrow> n = l_next s \<Longrightarrow>
     life_step s (Go ConnPublish)
       (s\<lparr>l_next := Suc n, l_done := n, l_closeDone := Some n, l_procs := xs @ ConnStore n # ys\<rparr>)"
| conn_store: "l_procs s = xs @ ConnStore n # ys \<Longrightarrow>
     life_step s (Go (ConnStore n))
       (s\<lparr>l_connected := True, l_stores := Suc (l_stores s), l_procs := xs @ [ReadLoop n, Heartbeat n] @ ys\<rparr>)"
| read_error: "l_procs s = xs @ ReadLoop n # ys \<Longrightarrow>
     life_step s (Go (ReadLoop n)) (s\<lparr>l_procs := xs @ MarkGuard False n # ys\<rparr>)"
| read_done: "l_procs s = xs @ ReadLoop n # ys \<Longrightarrow> n \<in> l_closed s \<Longrightarrow>
     life_step s (Go (ReadLoop n)) (s\<lparr>l_procs := xs @ ys\<rparr>)"
| hb_done: "l_procs s = xs @ Heartbeat n # ys \<Longrightarrow> n \<in> l_closed s \<Longrightarrow>
     life_step s (Go (Heartbeat n)) (s\<lparr>l_procs := xs @ ys\<rparr>)"
| hb_timer_closed: "l_procs s = xs @ Heartbeat n # ys \<Longrightarrow> \<not> l_connected s \<Longrightarrow>
     life_step s (Go (Heartbeat n)) (s\<lparr>l_procs := xs @ ys\<rparr>)"
| hb_timer: "l_procs s = xs @ Heartbeat n # ys \<Longrightarrow> l_connected s \<Longrightarrow>
     life_step s (Go (Heartbeat n)) (s\<lparr>l_procs := xs @ HbPing n # ys\<rparr>)"
| hb_ping_ok: "l_procs s = xs @ HbPing n # ys \<Longrightarrow>
     life_step s (Go (HbPing n)) (s\<lparr>l_procs := xs @ Heartbeat n # ys\<rparr>)"
| hb_ping_err: "l_procs s = xs @ HbPing n # ys \<Longrightarrow>
     life_step s (Go (HbPing n)) (s\<lparr>l_procs := xs @ HbFailed n # ys\<rparr>)"
| hb_failed_done: "l_procs s = xs @ HbFailed n # ys \<Longrightarrow> n \<in> l_closed s \<Longrightarrow>
     life_step s (Go (HbFailed n)) (s\<lparr>l_procs := xs @ ys\<rparr>)"
| hb_failed: "l_procs s = xs @ HbFailed n # ys \<Longrightarrow> n \<notin> l_closed s \<Longrightarrow>
     life_step s (Go (HbFailed n)) (s\<lparr>l_procs := xs @ MarkGuard True n # ys\<rparr>)"
| mark_stale: "l_procs s = xs @ MarkGuard hb n # ys \<Longrightarrow> l_done s \<noteq> n \<Longrightarrow>
     life_step s (Go (MarkGuard hb n)) (s\<lparr>l_procs := xs @ after_mark hb n @ ys\<rparr>)"
| mark_current: "l_procs s = xs @ MarkGuard hb n # ys \<Longrightarrow> l_done s = n \<Longrightarrow>
     life_step s (Go (MarkGuard hb n)) (s\<lparr>l_procs := xs @ MarkSwap hb n # ys\<rparr>)"
| mark_swap_lost: "l_procs s = xs @ MarkSwap hb n # ys \<Longrightarrow> \<not> l_connected s \<Longrightarrow>
     life_step s (Go (MarkSwap hb n)) (s\<lparr>l_procs := xs @ after_mark hb n @ ys\<rparr>)"
| mark_swap_won: "l_procs s = xs @ MarkSwap hb n # ys \<Longrightarrow> l_connected s \<Longrightarrow>
     life_step s (Go (MarkSwap hb n)) (s\<lparr>l_connected := False, l_procs := xs @ MarkClose hb n # ys\<rparr>)"
| mark_close: "l_procs s = xs @ MarkClose hb n # ys \<Longrightarrow>
     life_step s (Go (MarkClose hb n)) (s\<lparr>l_closed := insert n (l_closed s), l_procs := xs @ MarkFire hb n # ys\<rparr>)"
| mark_fire: "l_procs s = xs @ MarkFire hb n # ys \<Longrightarrow>
     life_step s (Go (MarkFire hb n)) (s\<lparr>l_fired := l_fired s @ [n], l_procs := xs @ after_mark hb n @ ys\<rparr>)"
| hb_close_conn: "l_procs s = xs @ HbCloseConn n # ys \<Longrightarrow>
     life_step s (Go (HbCloseConn n)) (s\<lparr>l_conn_closed := insert n (l_conn_closed s), l_procs := xs @ ys\<rparr>)"
| close_flag: "l_procs s = xs @ CloseStart # ys \<Longrightarrow>
     life_step s (Go CloseStart) (s\<lparr>l_connected := False, l_procs := xs @ CloseRead # ys\<rparr>)"
| close_read: "l_procs s = xs @ CloseRead # ys \<Longrightarrow>
     life_step s (Go CloseRead) (s\<lparr>l_procs := xs @ CloseDone (l_closeDone s) # ys\<rparr>)"
| close_done: "l_procs s = xs @ CloseDone d # ys \<Longrightarrow>
     life_step s (Go (CloseDone d))
       (s\<lparr>l_closed := l_closed s \<union> set_option d, l_conn_closed := l_conn_closed s \<union> set_option d, l_procs := xs @ ys\<rparr>)"

inductive_cases life_stepE: "life_step s l s'"

section \<open>Invariant\<close>

text \<open>A goroutine that has swapped the flag and has not yet called \<^verbatim>\<open>OnDisconnect\<close>.\<close>

fun firing :: "proc \<Rightarrow> bool" where
  "firing (MarkClose hb n) = True"
| "firing (MarkFire hb n) = True"
| "firing _ = False"

definition budget :: "life \<Rightarrow> nat" where
  "budget s = length (l_fired s) + length (filter firing (l_procs s)) + (if l_connected s then 1 else 0)"

text \<open>The connection a goroutine belongs to.\<close>

fun proc_conn :: "proc \<Rightarrow> nat set" where
  "proc_conn (ConnStore n) = {n}"
| "proc_conn (ReadLoop n) = {n}"
| "proc_conn (Heartbeat n) = {n}"
| "proc_conn (HbPing n) = {n}"
| "proc_conn (HbFailed n) = {n}"
| "proc_conn (MarkGuard hb n) = {n}"
| "proc_conn (MarkSwap hb n) = {n}"
| "proc_conn (MarkClose hb n) = {n}"
| "proc_conn (MarkFire hb n) = {n}"
| "proc_conn (HbCloseConn n) = {n}"
| "proc_conn (CloseDone d) = set_option d"
| "proc_conn _ = {}"

definition life_inv :: "life \<Rightarrow> bool" where
  "life_inv s \<longleftrightarrow>
     budget s \<le> l_stores s \<and>
     (\<forall>n\<in>set (l_fired s). n \<in> l_closed s) \<and>
     (\<forall>hb n. MarkFire hb n \<in> set (l_procs s) \<longrightarrow> n \<in> l_closed s) \<and>
     (\<forall>p\<in>set (l_procs s). proc_conn p \<subseteq> {1..<l_next s}) \<and> 1 \<le> l_next s \<and>
     l_closed s \<union> l_conn_closed s \<union> set_option (l_closeDone s) \<subseteq> {1..<l_next s} \<and>
     (l_closeDone s = None \<longrightarrow> l_done s = 0) \<and> (\<forall>n. l_closeDone s = Some n \<longrightarrow> l_done s = n)"

lemma filter_firing_after_mark [simp]: "filter firing (after_mark hb n) = []"
  by (simp add: after_mark_def)

lemma life_budget_step: "budget s \<le> l_stores s \<Longrightarrow> life_step s l s' \<Longrightarrow> budget s' \<le> l_stores s'"
  by (erule life_step.cases) (auto simp: budget_def)

lemma life_conn_step:
  assumes "\<forall>p\<in>set (l_procs s). proc_conn p \<subseteq> {1..<l_next s}" "1 \<le> l_next s"
    and "l_closed s \<union> l_conn_closed s \<union> set_option (l_closeDone s) \<subseteq> {1..<l_next s}" "life_step s l s'"
  shows "(\<forall>p\<in>set (l_procs s'). proc_conn p \<subseteq> {1..<l_next s'}) \<and> 1 \<le> l_next s' \<and>
    l_closed s' \<union> l_conn_closed s' \<union> set_option (l_closeDone s') \<subseteq> {1..<l_next s'}"
  using assms(4,1-3) by cases (auto simp: after_mark_def less_Suc_eq subset_iff)

lemma life_closed_step:
  assumes "\<forall>n\<in>set (l_fired s). n \<in> l_closed s" "\<forall>hb n. MarkFire hb n \<in> set (l_procs s) \<longrightarrow> n \<in> l_closed s"
    and "life_step s l s'"
  shows "(\<forall>n\<in>set (l_fired s'). n \<in> l_closed s') \<and> (\<forall>hb n. MarkFire hb n \<in> set (l_procs s') \<longrightarrow> n \<in> l_closed s')"
  using assms(3,1,2) by cases (auto simp: after_mark_def)

lemma life_done_step:
  assumes "(l_closeDone s = None \<longrightarrow> l_done s = 0) \<and> (\<forall>n. l_closeDone s = Some n \<longrightarrow> l_done s = n)"
    and "life_step s l s'"
  shows "(l_closeDone s' = None \<longrightarrow> l_done s' = 0) \<and> (\<forall>n. l_closeDone s' = Some n \<longrightarrow> l_done s' = n)"
  using assms(2,1) by cases auto

lemma life_inv_step:
  assumes "life_inv s" "life_step s l s'"
  shows "life_inv s'"
  unfolding life_inv_def
  using life_budget_step [OF _ assms(2)] life_conn_step [OF _ _ _ assms(2)]
    life_closed_step [OF _ _ assms(2)] life_done_step [OF _ assms(2)] assms(1) [unfolded life_inv_def]
  by (elim conjE, intro conjI) (blast, blast, blast, blast, blast, blast, blast, blast)

lemma life_inv_init: "life_init s \<Longrightarrow> life_inv s"
  by (simp add: life_init_def life_inv_def budget_def)

interpretation lifecycle: step_invariant life_init life_step life_inv
  by unfold_locales (auto intro: life_inv_init life_inv_step)

section \<open>A race\<close>

abbreviation life_reachable :: "life \<Rightarrow> bool" where
  "life_reachable \<equiv> reachable life_init life_step"

definition life_state ::
  "bool \<Rightarrow> nat \<Rightarrow> nat option \<Rightarrow> nat set \<Rightarrow> nat set \<Rightarrow> nat \<Rightarrow> proc list \<Rightarrow> nat \<Rightarrow> nat list \<Rightarrow> life" where
  "life_state c d cd cl cc nx ps st f =
     \<lparr>l_connected = c, l_done = d, l_closeDone = cd, l_closed = cl, l_conn_closed = cc, l_next = nx,
      l_procs = ps, l_stores = st, l_fired = f\<rparr>"

text \<open>A connection is established and closed by the application.\<close>

lemma race_closed: "life_reachable (life_state False 1 (Some 1) {1} {1} 2 [ReadLoop 1, Heartbeat 1] 1 [])"
proof -
  have "life_reachable (life_state False 0 None {} {} 1 [] 0 [])"
    by (rule reachable_init) (simp add: life_init_def life_state_def)
  from reachable_step [OF this [unfolded life_state_def] call_connect]
  have "life_reachable (life_state False 0 None {} {} 1 [ConnStart] 0 [])" by (simp add: life_state_def after_mark_def)
  from reachable_step [OF this [unfolded life_state_def] conn_check [of _ "[]" "[]"]]
  have "life_reachable (life_state False 0 None {} {} 1 [ConnDial] 0 [])" by (simp add: life_state_def after_mark_def)
  from reachable_step [OF this [unfolded life_state_def] conn_dialled [of _ "[]" "[]"]]
  have "life_reachable (life_state False 0 None {} {} 1 [ConnPublish] 0 [])" by (simp add: life_state_def after_mark_def)
  from reachable_step [OF this [unfolded life_state_def] conn_publish [of _ "[]" "[]" 1]]
  have "life_reachable (life_state False 1 (Some 1) {} {} 2 [ConnStore 1] 0 [])" by (simp add: life_state_def after_mark_def numeral_2_eq_2)
  from reachable_step [OF this [unfolded life_state_def] conn_store [of _ "[]" 1 "[]"]]
  have "life_reachable (life_state True 1 (Some 1) {} {} 2 [ReadLoop 1, Heartbeat 1] 1 [])" by (simp add: life_state_def after_mark_def)
  from reachable_step [OF this [unfolded life_state_def] call_close]
  have "life_reachable (life_state True 1 (Some 1) {} {} 2 [ReadLoop 1, Heartbeat 1, CloseStart] 1 [])" by (simp add: life_state_def after_mark_def)
  from reachable_step [OF this [unfolded life_state_def] close_flag [of _ "[ReadLoop 1, Heartbeat 1]" "[]"]]
  have "life_reachable (life_state False 1 (Some 1) {} {} 2 [ReadLoop 1, Heartbeat 1, CloseRead] 1 [])" by (simp add: life_state_def after_mark_def)
  from reachable_step [OF this [unfolded life_state_def] close_read [of _ "[ReadLoop 1, Heartbeat 1]" "[]"]]
  have "life_reachable (life_state False 1 (Some 1) {} {} 2 [ReadLoop 1, Heartbeat 1, CloseDone (Some 1)] 1 [])" by (simp add: life_state_def after_mark_def)
  from reachable_step [OF this [unfolded life_state_def] close_done [of _ "[ReadLoop 1, Heartbeat 1]" "Some 1" "[]"]]
  have "life_reachable (life_state False 1 (Some 1) {1} {1} 2 [ReadLoop 1, Heartbeat 1] 1 [])" by (simp add: life_state_def after_mark_def)
  then show ?thesis .
qed

text \<open>The application connects again while the read loop of the closed connection reports its error.\<close>

lemma race_stale_mark: "life_reachable (life_state False 2 (Some 2) {1} {1} 3 [Heartbeat 1, ReadLoop 2, Heartbeat 2] 2 [1])"
proof -
  have "life_reachable (life_state False 1 (Some 1) {1} {1} 2 [ReadLoop 1, Heartbeat 1] 1 [])"
    by (rule race_closed)
  from reachable_step [OF this [unfolded life_state_def] call_connect]
  have "life_reachable (life_state False 1 (Some 1) {1} {1} 2 [ReadLoop 1, Heartbeat 1, ConnStart] 1 [])" by (simp add: life_state_def after_mark_def)
  from reachable_step [OF this [unfolded life_state_def] conn_check [of _ "[ReadLoop 1, Heartbeat 1]" "[]"]]
  have "life_reachable (life_state False 1 (Some 1) {1} {1} 2 [ReadLoop 1, Heartbeat 1, ConnDial] 1 [])" by (simp add: life_state_def after_mark_def)
  from reachable_step [OF this [unfolded life_state_def] read_error [of _ "[]" 1 "[Heartbeat 1, ConnDial]"]]
  have "life_reachable (life_state False 1 (Some 1) {1} {1} 2 [MarkGuard False 1, Heartbeat 1, ConnDial] 1 [])" by (simp add: life_state_def after_mark_def)
  from reachable_step [OF this [unfolded life_state_def] mark_current [of _ "[]" False 1 "[Heartbeat 1, ConnDial]"]]
  have "life_reachable (life_state False 1 (Some 1) {1} {1} 2 [MarkSwap False 1, Heartbeat 1, ConnDial] 1 [])" by (simp add: life_state_def after_mark_def)
  from reachable_step [OF this [unfolded life_state_def] conn_dialled [of _ "[MarkSwap False 1, Heartbeat 1]" "[]"]]
  have "life_reachable (life_state False 1 (Some 1) {1} {1} 2 [MarkSwap False 1, Heartbeat 1, ConnPublish] 1 [])" by (simp add: life_state_def after_mark_def)
  from reachable_step [OF this [unfolded life_state_def] conn_publish [of _ "[MarkSwap False 1, Heartbeat 1]" "[]" 2]]
  have "life_reachable (life_state False 2 (Some 2) {1} {1} 3 [MarkSwap False 1, Heartbeat 1, ConnStore 2] 1 [])" by (simp add: life_state_def after_mark_def)
  from reachable_step [OF this [unfolded life_state_def] conn_store [of _ "[MarkSwap False 1, Heartbeat 1]" 2 "[]"]]
  have "life_reachable (life_state True 2 (Some 2) {1} {1} 3 [MarkSwap False 1, Heartbeat 1, ReadLoop 2, Heartbeat 2] 2 [])" by (simp add: life_state_def after_mark_def numeral_2_eq_2)
  from reachable_step [OF this [unfolded life_state_def] mark_swap_won [of _ "[]" False 1 "[Heartbeat 1, ReadLoop 2, Heartbeat 2]"]]
  have "life_reachable (life_state False 2 (Some 2) {1} {1} 3 [MarkClose False 1, Heartbeat 1, ReadLoop 2, Heartbeat 2] 2 [])" by (simp add: life_state_def after_mark_def)
  from reachable_step [OF this [unfolded life_state_def] mark_close [of _ "[]" False 1 "[Heartbeat 1, ReadLoop 2, Heartbeat 2]"]]
  have "life_reachable (life_state False 2 (Some 2) {1} {1} 3 [MarkFire False 1, Heartbeat 1, ReadLoop 2, Heartbeat 2] 2 [])" by (simp add: life_state_def after_mark_def)
  from reachable_step [OF this [unfolded life_state_def] mark_fire [of _ "[]" False 1 "[Heartbeat 1, ReadLoop 2, Heartbeat 2]"]]
  have "life_reachable (life_state False 2 (Some 2) {1} {1} 3 [Heartbeat 1, ReadLoop 2, Heartbeat 2] 2 [1])" by (simp add: life_state_def after_mark_def)
  then show ?thesis .
qed

text \<open>Two goroutines of one connection are past the guard. The first reports the connection, the application connects again, and
  the second swaps the flag of the new connection and reports the old one once more.\<close>

lemma race_reported_twice: "\<exists>s. life_reachable s \<and> l_fired s = [1, 1]"
proof -
  have "life_reachable (life_state False 0 None {} {} 1 [] 0 [])"
    by (rule reachable_init) (simp add: life_init_def life_state_def)
  from reachable_step [OF this [unfolded life_state_def] call_connect]
  have "life_reachable (life_state False 0 None {} {} 1 [ConnStart] 0 [])" by (simp add: life_state_def)
  from reachable_step [OF this [unfolded life_state_def] conn_check [of _ "[]" "[]"]]
  have "life_reachable (life_state False 0 None {} {} 1 [ConnDial] 0 [])" by (simp add: life_state_def)
  from reachable_step [OF this [unfolded life_state_def] conn_dialled [of _ "[]" "[]"]]
  have "life_reachable (life_state False 0 None {} {} 1 [ConnPublish] 0 [])" by (simp add: life_state_def)
  from reachable_step [OF this [unfolded life_state_def] conn_publish [of _ "[]" "[]" 1]]
  have "life_reachable (life_state False 1 (Some 1) {} {} 2 [ConnStore 1] 0 [])" by (simp add: life_state_def numeral_2_eq_2)
  from reachable_step [OF this [unfolded life_state_def] conn_store [of _ "[]" 1 "[]"]]
  have "life_reachable (life_state True 1 (Some 1) {} {} 2 [ReadLoop 1, Heartbeat 1] 1 [])" by (simp add: life_state_def)
  from reachable_step [OF this [unfolded life_state_def] hb_timer [of _ "[ReadLoop 1]" 1 "[]"]]
  have "life_reachable (life_state True 1 (Some 1) {} {} 2 [ReadLoop 1, HbPing 1] 1 [])" by (simp add: life_state_def)
  from reachable_step [OF this [unfolded life_state_def] hb_ping_err [of _ "[ReadLoop 1]" 1 "[]"]]
  have "life_reachable (life_state True 1 (Some 1) {} {} 2 [ReadLoop 1, HbFailed 1] 1 [])" by (simp add: life_state_def)
  from reachable_step [OF this [unfolded life_state_def] hb_failed [of _ "[ReadLoop 1]" 1 "[]"]]
  have "life_reachable (life_state True 1 (Some 1) {} {} 2 [ReadLoop 1, MarkGuard True 1] 1 [])" by (simp add: life_state_def)
  from reachable_step [OF this [unfolded life_state_def] mark_current [of _ "[ReadLoop 1]" True 1 "[]"]]
  have "life_reachable (life_state True 1 (Some 1) {} {} 2 [ReadLoop 1, MarkSwap True 1] 1 [])" by (simp add: life_state_def)
  from reachable_step [OF this [unfolded life_state_def] read_error [of _ "[]" 1 "[MarkSwap True 1]"]]
  have "life_reachable (life_state True 1 (Some 1) {} {} 2 [MarkGuard False 1, MarkSwap True 1] 1 [])" by (simp add: life_state_def)
  from reachable_step [OF this [unfolded life_state_def] mark_current [of _ "[]" False 1 "[MarkSwap True 1]"]]
  have "life_reachable (life_state True 1 (Some 1) {} {} 2 [MarkSwap False 1, MarkSwap True 1] 1 [])" by (simp add: life_state_def)
  from reachable_step [OF this [unfolded life_state_def] mark_swap_won [of _ "[]" False 1 "[MarkSwap True 1]"]]
  have "life_reachable (life_state False 1 (Some 1) {} {} 2 [MarkClose False 1, MarkSwap True 1] 1 [])" by (simp add: life_state_def)
  from reachable_step [OF this [unfolded life_state_def] mark_close [of _ "[]" False 1 "[MarkSwap True 1]"]]
  have "life_reachable (life_state False 1 (Some 1) {1} {} 2 [MarkFire False 1, MarkSwap True 1] 1 [])" by (simp add: life_state_def)
  from reachable_step [OF this [unfolded life_state_def] mark_fire [of _ "[]" False 1 "[MarkSwap True 1]"]]
  have "life_reachable (life_state False 1 (Some 1) {1} {} 2 [MarkSwap True 1] 1 [1])" by (simp add: life_state_def after_mark_def)
  from reachable_step [OF this [unfolded life_state_def] call_connect]
  have "life_reachable (life_state False 1 (Some 1) {1} {} 2 [MarkSwap True 1, ConnStart] 1 [1])" by (simp add: life_state_def)
  from reachable_step [OF this [unfolded life_state_def] conn_check [of _ "[MarkSwap True 1]" "[]"]]
  have "life_reachable (life_state False 1 (Some 1) {1} {} 2 [MarkSwap True 1, ConnDial] 1 [1])" by (simp add: life_state_def)
  from reachable_step [OF this [unfolded life_state_def] conn_dialled [of _ "[MarkSwap True 1]" "[]"]]
  have "life_reachable (life_state False 1 (Some 1) {1} {} 2 [MarkSwap True 1, ConnPublish] 1 [1])" by (simp add: life_state_def)
  from reachable_step [OF this [unfolded life_state_def] conn_publish [of _ "[MarkSwap True 1]" "[]" 2]]
  have "life_reachable (life_state False 2 (Some 2) {1} {} 3 [MarkSwap True 1, ConnStore 2] 1 [1])" by (simp add: life_state_def)
  from reachable_step [OF this [unfolded life_state_def] conn_store [of _ "[MarkSwap True 1]" 2 "[]"]]
  have "life_reachable (life_state True 2 (Some 2) {1} {} 3 [MarkSwap True 1, ReadLoop 2, Heartbeat 2] 2 [1])" by (simp add: life_state_def numeral_2_eq_2)
  from reachable_step [OF this [unfolded life_state_def] mark_swap_won [of _ "[]" True 1 "[ReadLoop 2, Heartbeat 2]"]]
  have "life_reachable (life_state False 2 (Some 2) {1} {} 3 [MarkClose True 1, ReadLoop 2, Heartbeat 2] 2 [1])" by (simp add: life_state_def)
  from reachable_step [OF this [unfolded life_state_def] mark_close [of _ "[]" True 1 "[ReadLoop 2, Heartbeat 2]"]]
  have "life_reachable (life_state False 2 (Some 2) {1} {} 3 [MarkFire True 1, ReadLoop 2, Heartbeat 2] 2 [1])" by (simp add: life_state_def)
  from reachable_step [OF this [unfolded life_state_def] mark_fire [of _ "[]" True 1 "[ReadLoop 2, Heartbeat 2]"]]
  have "life_reachable (life_state False 2 (Some 2) {1} {} 3 [HbCloseConn 1, ReadLoop 2, Heartbeat 2] 2 [1, 1])" by (simp add: life_state_def after_mark_def)
  then show ?thesis by (intro exI conjI, assumption) (simp add: life_state_def)
qed

section \<open>Without the race\<close>

text \<open>Connections that do not overlap: a new one is published only when no other is about to set the flag, and when no
  \<^verbatim>\<open>markDisconnected\<close> stands between its guard and its swap.\<close>

fun in_between :: "proc \<Rightarrow> bool" where
  "in_between (ConnStore n) = True"
| "in_between (MarkSwap hb n) = True"
| "in_between _ = False"

definition orderly_step :: "life \<Rightarrow> life_label \<Rightarrow> life \<Rightarrow> bool" where
  "orderly_step s l s' \<longleftrightarrow> life_step s l s' \<and> (l = Go ConnPublish \<longrightarrow> (\<forall>p\<in>set (l_procs s). \<not> in_between p))"

text \<open>The connections that are being reported and were reported.\<close>

fun reporting :: "proc \<Rightarrow> nat list" where
  "reporting (MarkClose hb n) = [n]"
| "reporting (MarkFire hb n) = [n]"
| "reporting _ = []"

definition reports :: "life \<Rightarrow> nat list" where
  "reports s = l_fired s @ concat (map reporting (l_procs s))"

text \<open>A goroutine that works for a connection, once that is established.\<close>

fun works_for :: "nat \<Rightarrow> proc \<Rightarrow> bool" where
  "works_for n (CloseDone d) = False"
| "works_for n (ConnStore m) = False"
| "works_for n p = (n \<in> proc_conn p)"

definition orderly_inv :: "life \<Rightarrow> bool" where
  "orderly_inv s \<longleftrightarrow> life_inv s \<and> l_done s < l_next s \<and> distinct (reports s) \<and> (\<forall>n\<in>set (reports s). n \<le> l_done s) \<and>
     (\<forall>p\<in>set (l_procs s). in_between p \<longrightarrow> proc_conn p = {l_done s}) \<and>
     (l_connected s \<longrightarrow> l_done s \<notin> set (reports s)) \<and>
     (ConnStore (l_done s) \<in> set (l_procs s) \<longrightarrow> l_done s \<notin> set (reports s) \<and> (\<forall>p\<in>set (l_procs s). \<not> works_for (l_done s) p)) \<and>
     count (mset (l_procs s)) (ConnStore (l_done s)) \<le> 1"

lemma orderly_invD:
  assumes "orderly_inv s"
  shows "life_inv s" "l_done s < l_next s" "distinct (reports s)" "n \<in> set (reports s) \<Longrightarrow> n \<le> l_done s"
    "p \<in> set (l_procs s) \<Longrightarrow> in_between p \<Longrightarrow> proc_conn p = {l_done s}" "l_connected s \<Longrightarrow> l_done s \<notin> set (reports s)"
    "ConnStore (l_done s) \<in> set (l_procs s) \<Longrightarrow> l_done s \<notin> set (reports s)"
    "ConnStore (l_done s) \<in> set (l_procs s) \<Longrightarrow> p \<in> set (l_procs s) \<Longrightarrow> \<not> works_for (l_done s) p"
    "count (mset (l_procs s)) (ConnStore (l_done s)) \<le> 1"
  using assms unfolding orderly_inv_def by blast+

lemma orderly_invI:
  assumes "life_inv s" "l_done s < l_next s" "distinct (reports s)" "\<And>n. n \<in> set (reports s) \<Longrightarrow> n \<le> l_done s"
    "\<And>p. p \<in> set (l_procs s) \<Longrightarrow> in_between p \<Longrightarrow> proc_conn p = {l_done s}" "l_connected s \<Longrightarrow> l_done s \<notin> set (reports s)"
    "ConnStore (l_done s) \<in> set (l_procs s) \<Longrightarrow> l_done s \<notin> set (reports s)"
    "\<And>p. ConnStore (l_done s) \<in> set (l_procs s) \<Longrightarrow> p \<in> set (l_procs s) \<Longrightarrow> \<not> works_for (l_done s) p"
    "count (mset (l_procs s)) (ConnStore (l_done s)) \<le> 1"
  shows "orderly_inv s"
  using assms unfolding orderly_inv_def by blast

lemma reporting_after_mark [simp]: "concat (map reporting (after_mark hb n)) = []"
  by (simp add: after_mark_def)

lemma store_after_mark [simp]: "ConnStore m \<notin> set (after_mark hb n)"
  by (simp add: after_mark_def)

lemma after_mark_works: "p \<in> set (after_mark hb n) \<Longrightarrow> works_for m p \<Longrightarrow> m = n" "p \<in> set (after_mark hb n) \<Longrightarrow> \<not> in_between p"
  by (auto simp: after_mark_def split: if_splits)

lemma count_absent: "x \<notin> set xs \<Longrightarrow> count (mset xs) x = 0"
  by (simp add: count_eq_zero_iff)

text \<open>A goroutine moves on: nothing is published, and what is reported stays the same.\<close>

lemma orderly_move:
  assumes inv: "orderly_inv s" and ps: "l_procs s = xs @ p # ys" "l_procs s' = xs @ qs @ ys" and life: "life_inv s'"
    and same: "l_done s' = l_done s" "l_next s' = l_next s" "l_connected s' \<Longrightarrow> l_connected s"
    and reported: "mset (l_fired s' @ concat (map reporting qs)) = mset (l_fired s @ reporting p)"
    and qs: "\<And>q. q \<in> set qs \<Longrightarrow> in_between q \<Longrightarrow> proc_conn q = {l_done s}"
      "\<And>q. q \<in> set qs \<Longrightarrow> works_for (l_done s) q \<Longrightarrow> works_for (l_done s) p" "ConnStore (l_done s) \<notin> set qs"
  shows "orderly_inv s'"
proof -
  have "mset (reports s') = mset (reports s)" using reported by (simp add: reports_def ps)
  then have r: "distinct (reports s') = distinct (reports s)" "set (reports s') = set (reports s)"
    by (metis mset_eq_imp_distinct_iff, metis mset_eq_setD)
  have old: "q \<in> set qs \<or> q \<in> set (l_procs s)" if "q \<in> set (l_procs s')" for q using that by (auto simp: ps)
  have store: "ConnStore (l_done s) \<in> set (l_procs s)" if "ConnStore (l_done s) \<in> set (l_procs s')" using old [OF that] qs(3) by blast
  have p: "p \<in> set (l_procs s)" by (simp add: ps)
  show ?thesis
  proof (rule orderly_invI; (unfold same(1,2) r(2))?)
    show "\<not> works_for (l_done s) q" if "ConnStore (l_done s) \<in> set (l_procs s')" "q \<in> set (l_procs s')" for q
      using old [OF that(2)] qs(2) orderly_invD(8) [OF inv store [OF that(1)]] p by blast
    show "proc_conn q = {l_done s}" if "q \<in> set (l_procs s')" "in_between q" for q
      using old [OF that(1)] qs(1) [OF _ that(2)] orderly_invD(5) [OF inv _ that(2)] by blast
    have "count (mset (l_procs s')) (ConnStore (l_done s)) \<le> count (mset (l_procs s)) (ConnStore (l_done s))"
      using count_absent [OF qs(3)] by (simp add: ps del: count_mset_0_iff)
    then show "count (mset (l_procs s')) (ConnStore (l_done s)) \<le> 1" using orderly_invD(9) [OF inv] by (rule le_trans)
  qed (use life r(1) same(3) store orderly_invD [OF inv] in blast)+
qed

lemma orderly_publish:
  assumes inv: "orderly_inv s" and ps: "l_procs s = xs @ ConnPublish # ys" and life: "life_inv s'"
    and none: "\<forall>p\<in>set (l_procs s). \<not> in_between p"
    and s': "s' = s\<lparr>l_next := Suc (l_next s), l_done := l_next s, l_closeDone := Some (l_next s), l_procs := xs @ ConnStore (l_next s) # ys\<rparr>"
  shows "orderly_inv s'"
proof -
  let ?n = "l_next s"
  have nxt: "l_done s' = ?n" "l_next s' = Suc ?n" and reps: "reports s' = reports s" by (simp_all add: s' reports_def ps)
  have "proc_conn p \<subseteq> {1..<?n}" if "p \<in> set (l_procs s)" for p using orderly_invD(1) [OF inv] that by (simp add: life_inv_def)
  then have fresh: "?n \<notin> proc_conn p" if "p \<in> set (l_procs s)" for p using that by fastforce
  have works: "\<not> works_for ?n p" if "p \<in> set (l_procs s)" for p using fresh [OF that] by (cases p) auto
  have store: "ConnStore ?n \<notin> set (l_procs s)" using fresh by fastforce
  have old: "q = ConnStore ?n \<or> q \<in> set (l_procs s)" if "q \<in> set (l_procs s')" for q using that by (auto simp: s' ps)
  have less: "n < ?n" if "n \<in> set (reports s)" for n using orderly_invD(2) [OF inv] orderly_invD(4) [OF inv that] by simp
  show ?thesis
  proof (rule orderly_invI; (unfold nxt reps)?)
    show "\<not> works_for ?n q" if "q \<in> set (l_procs s')" for q using old [OF that] works by auto
    show "proc_conn q = {?n}" if "q \<in> set (l_procs s')" "in_between q" for q using old [OF that(1)] that(2) none by auto
    show "count (mset (l_procs s')) (ConnStore ?n) \<le> 1" using count_absent [OF store] by (simp add: s' ps del: count_mset_0_iff)
  qed (use life less orderly_invD(3) [OF inv] in \<open>auto dest: less_imp_le\<close>)
qed

lemma orderly_store:
  assumes inv: "orderly_inv s" and ps: "l_procs s = xs @ ConnStore n # ys" and life: "life_inv s'"
    and s': "s' = s\<lparr>l_connected := True, l_stores := Suc (l_stores s), l_procs := xs @ [ReadLoop n, Heartbeat n] @ ys\<rparr>"
  shows "orderly_inv s'"
proof -
  have n: "n = l_done s" using orderly_invD(5) [OF inv, of "ConnStore n"] by (simp add: ps)
  have same: "l_done s' = l_done s" "l_next s' = l_next s" "reports s' = reports s" by (simp_all add: s' reports_def ps)
  have pending: "ConnStore (l_done s) \<in> set (l_procs s)" by (simp add: ps n)
  have "count (mset xs) (ConnStore n) + count (mset ys) (ConnStore n) = 0" using orderly_invD(9) [OF inv] by (simp add: ps n)
  then have gone: "ConnStore (l_done s) \<notin> set (l_procs s')" by (simp add: s' n count_eq_zero_iff)
  have old: "q \<in> {ReadLoop n, Heartbeat n} \<or> q \<in> set (l_procs s)" if "q \<in> set (l_procs s')" for q using that by (auto simp: s' ps)
  show ?thesis
  proof (rule orderly_invI; (unfold same)?)
    show "proc_conn q = {l_done s}" if "q \<in> set (l_procs s')" "in_between q" for q
      using old [OF that(1)] that(2) orderly_invD(5) [OF inv] by auto
    show "count (mset (l_procs s')) (ConnStore (l_done s)) \<le> 1" using count_absent [OF gone] by linarith
  qed (use life gone pending orderly_invD [OF inv] in blast)+
qed

lemma orderly_swap:
  assumes inv: "orderly_inv s" and ps: "l_procs s = xs @ MarkSwap hb n # ys" and life: "life_inv s'" and "l_connected s"
    and s': "s' = s\<lparr>l_connected := False, l_procs := xs @ MarkClose hb n # ys\<rparr>"
  shows "orderly_inv s'"
proof -
  have n: "n = l_done s" using orderly_invD(5) [OF inv, of "MarkSwap hb n"] by (simp add: ps)
  have same: "l_done s' = l_done s" "l_next s' = l_next s" "\<not> l_connected s'" by (simp_all add: s')
  have free: "l_done s \<notin> set (reports s)" using orderly_invD(6) [OF inv assms(4)] .
  have none: "ConnStore (l_done s) \<notin> set (l_procs s)" using orderly_invD(8) [OF inv, of "MarkSwap hb n"] by (auto simp: ps n)
  have "mset (reports s') = mset (n # reports s)" by (simp add: reports_def s' ps)
  then have r: "distinct (reports s') = distinct (n # reports s)" "set (reports s') = set (n # reports s)"
    by (metis mset_eq_imp_distinct_iff, metis mset_eq_setD)
  have old: "q = MarkClose hb n \<or> q \<in> set (l_procs s)" if "q \<in> set (l_procs s')" for q using that by (auto simp: s' ps)
  have gone: "ConnStore (l_done s) \<notin> set (l_procs s')" using old none by auto
  show ?thesis
  proof (rule orderly_invI; (unfold same(1,2))?)
    show "proc_conn q = {l_done s}" if "q \<in> set (l_procs s')" "in_between q" for q
      using old [OF that(1)] that(2) orderly_invD(5) [OF inv] by auto
    show "distinct (reports s')" using r(1) free orderly_invD(3) [OF inv] by (simp add: n)
    show "m \<le> l_done s" if "m \<in> set (reports s')" for m using that orderly_invD(4) [OF inv] by (auto simp: r(2) n)
    show "count (mset (l_procs s')) (ConnStore (l_done s)) \<le> 1" using count_absent [OF gone] by linarith
  qed (use life gone same(3) orderly_invD(2) [OF inv] in blast)+
qed

lemma orderly_call:
  assumes inv: "orderly_inv s" and life: "life_inv s'" and "p = ConnStart \<or> p = CloseStart" and s': "s' = s\<lparr>l_procs := l_procs s @ [p]\<rparr>"
  shows "orderly_inv s'"
proof -
  have p: "\<not> in_between p" "\<not> works_for m p" "reporting p = []" "p \<noteq> ConnStore m" for m using assms(3) by auto
  have reps: "reports s' = reports s" "l_done s' = l_done s" "l_next s' = l_next s" "l_connected s' = l_connected s"
    by (simp_all add: reports_def s' p)
  show ?thesis
    by (rule orderly_invI; (unfold reps)?) (use life p orderly_invD [OF inv] in \<open>auto simp: s'\<close>)
qed

lemma orderly_inv_step:
  assumes "orderly_inv s" "orderly_step s l s'"
  shows "orderly_inv s'"
proof -
  have step: "life_step s l s'" using assms by (simp add: orderly_step_def)
  have inv': "life_inv s'" using assms life_inv_step by (auto simp: orderly_inv_def orderly_step_def)
  note move = orderly_move [OF assms(1) _ _ inv']
  show ?thesis
    using step
  proof cases
    case (conn_publish xs ys n)
    then show ?thesis using assms(2) by (intro orderly_publish [OF assms(1) _ inv']) (auto simp: orderly_step_def)
  next
    case (conn_store xs n ys)
    then show ?thesis by (intro orderly_store [OF assms(1) _ inv'])
  next
    case (mark_swap_won xs hb n ys)
    then show ?thesis by (intro orderly_swap [OF assms(1) _ inv'])
  next
    case call_connect
    then show ?thesis by (intro orderly_call [OF assms(1) inv']) auto
  next
    case call_close
    then show ?thesis by (intro orderly_call [OF assms(1) inv']) auto
  next
    case (conn_open xs ys)
    then show ?thesis by (intro move [where qs = "[]"]) auto
  next
    case (conn_check xs ys)
    then show ?thesis by (intro move [where qs = "[ConnDial]"]) auto
  next
    case (conn_dialled xs ys)
    then show ?thesis by (intro move [where qs = "[ConnPublish]"]) auto
  next
    case (conn_dial_failed xs ys)
    then show ?thesis by (intro move [where qs = "[]"]) auto
  next
    case (read_error xs n ys)
    then show ?thesis by (intro move [where qs = "[MarkGuard False n]"]) auto
  next
    case (read_done xs n ys)
    then show ?thesis by (intro move [where qs = "[]"]) auto
  next
    case (hb_done xs n ys)
    then show ?thesis by (intro move [where qs = "[]"]) auto
  next
    case (hb_timer_closed xs n ys)
    then show ?thesis by (intro move [where qs = "[]"]) auto
  next
    case (hb_timer xs n ys)
    then show ?thesis by (intro move [where qs = "[HbPing n]"]) auto
  next
    case (hb_ping_ok xs n ys)
    then show ?thesis by (intro move [where qs = "[Heartbeat n]"]) auto
  next
    case (hb_ping_err xs n ys)
    then show ?thesis by (intro move [where qs = "[HbFailed n]"]) auto
  next
    case (hb_failed_done xs n ys)
    then show ?thesis by (intro move [where qs = "[]"]) auto
  next
    case (hb_failed xs n ys)
    then show ?thesis by (intro move [where qs = "[MarkGuard True n]"]) auto
  next
    case (mark_stale xs hb n ys)
    then show ?thesis by (intro move [where qs = "after_mark hb n"]) (auto dest: after_mark_works)
  next
    case (mark_current xs hb n ys)
    then show ?thesis by (intro move [where qs = "[MarkSwap hb n]"]) auto
  next
    case (mark_swap_lost xs hb n ys)
    then show ?thesis by (intro move [where qs = "after_mark hb n"]) (auto dest: after_mark_works)
  next
    case (mark_close xs hb n ys)
    then show ?thesis by (intro move [where qs = "[MarkFire hb n]"]) auto
  next
    case (mark_fire xs hb n ys)
    then show ?thesis by (intro move [where qs = "after_mark hb n"]) (auto dest: after_mark_works)
  next
    case (hb_close_conn xs n ys)
    then show ?thesis by (intro move [where qs = "[]"]) auto
  next
    case (close_flag xs ys)
    then show ?thesis by (intro move [where qs = "[CloseRead]"]) auto
  next
    case (close_read xs ys)
    then show ?thesis by (intro move [where qs = "[CloseDone (l_closeDone s)]"]) auto
  next
    case (close_done xs d ys)
    then show ?thesis by (intro move [where qs = "[]"]) auto
  qed
qed

lemma orderly_inv_init: "life_init s \<Longrightarrow> orderly_inv s"
  by (simp add: orderly_inv_def life_inv_init) (simp add: life_init_def reports_def)

interpretation orderly: step_invariant life_init orderly_step orderly_inv
  by unfold_locales (erule orderly_inv_init, erule (1) orderly_inv_step)

section \<open>Properties\<close>

text \<open>
  C15. The disconnect callback never runs more often than connections were established (and once less while the socket is
  connected), and by the time it runs the done channel of the reported connection is closed, so that its
  waiting senders and loops are released. When connections do not overlap (nothing is published between \<^verbatim>\<open>markDisconnected\<close>'s guard
  and its swap, or while another \<^verbatim>\<open>Connect\<close> has still to set the flag), it runs at most once for each connection. Otherwise it can run
  twice for one: a state is reached in which connection 1 was reported twice.
\<close>

theorem OnDisconnect_once_unless_connections_overlap:
  "(\<forall>s. reachable life_init life_step s \<longrightarrow> length (l_fired s) + (if l_connected s then 1 else 0) \<le> l_stores s \<and>
      (\<forall>n\<in>set (l_fired s). n \<in> l_closed s \<and> 1 \<le> n \<and> n < l_next s)) \<and>
   (\<forall>s. reachable life_init orderly_step s \<longrightarrow> distinct (l_fired s)) \<and>
   (\<exists>s. reachable life_init life_step s \<and> l_fired s = [1, 1])"
proof (intro conjI allI impI)
  fix s
  assume "reachable life_init life_step s"
  then have inv: "life_inv s" by (rule lifecycle.reachable_inv)
  then show "length (l_fired s) + (if l_connected s then 1 else 0) \<le> l_stores s" by (auto simp: life_inv_def budget_def)
  have "\<forall>n\<in>set (l_fired s). n \<in> l_closed s" "l_closed s \<subseteq> {1..<l_next s}" using inv by (auto simp: life_inv_def)
  then show "\<forall>n\<in>set (l_fired s). n \<in> l_closed s \<and> 1 \<le> n \<and> n < l_next s" by fastforce
next
  show "distinct (l_fired s)" if "reachable life_init orderly_step s" for s
    using orderly_invD(3) [OF orderly.reachable_inv [OF that]] by (simp add: reports_def)
  show "\<exists>s. reachable life_init life_step s \<and> l_fired s = [1, 1]" by (rule race_reported_twice)
qed

theorem OnDisconnect_once_unless_connections_overlap_witness:
  "length (l_fired (life_state False 2 (Some 2) {1} {1} 3 [Heartbeat 1, ReadLoop 2, Heartbeat 2] 2 [1])) \<le> 2 \<and>
   (\<exists>s. reachable life_init orderly_step s \<and> ConnStart \<in> set (l_procs s) \<and> distinct (l_fired s))"
proof
  show "length (l_fired (life_state False 2 (Some 2) {1} {1} 3 [Heartbeat 1, ReadLoop 2, Heartbeat 2] 2 [1])) \<le> 2"
    using OnDisconnect_once_unless_connections_overlap [THEN conjunct1, rule_format, OF race_stale_mark] by (simp add: life_state_def)
  let ?s = "life_state False 0 None {} {} 1 [] 0 []"
  have "reachable life_init orderly_step ?s" by (rule reachable_init) (simp add: life_init_def life_state_def)
  moreover have "orderly_step ?s Call (?s\<lparr>l_procs := l_procs ?s @ [ConnStart]\<rparr>)" by (simp add: orderly_step_def call_connect)
  ultimately have r: "reachable life_init orderly_step (?s\<lparr>l_procs := l_procs ?s @ [ConnStart]\<rparr>)" by (rule reachable_step)
  from OnDisconnect_once_unless_connections_overlap [THEN conjunct2, THEN conjunct1, rule_format, OF r] r
  show "\<exists>s. reachable life_init orderly_step s \<and> ConnStart \<in> set (l_procs s) \<and> distinct (l_fired s)"
    by (intro exI [of _ "?s\<lparr>l_procs := l_procs ?s @ [ConnStart]\<rparr>"]) simp
qed

text \<open>
  C16. The stale guard of \<^verbatim>\<open>markDisconnected\<close> is not atomic with the swap of the connected flag. When the
  application closes the socket and connects again, the read loop of the closed connection can pass
  the guard before the new connection is published and swap the flag after it is stored: then the
  new connection is running, its done channel is open, and the socket reports that it is not open
  after a disconnect callback for the old connection.
\<close>

theorem markDisconnected_guard_race:
  "\<exists>s. reachable life_init life_step s \<and> \<not> l_connected s \<and> l_fired s = [1] \<and> l_done s = 2 \<and>
     2 \<notin> l_closed s \<and> 2 \<notin> l_conn_closed s \<and> ReadLoop 2 \<in> set (l_procs s) \<and> Heartbeat 2 \<in> set (l_procs s)"
  using race_stale_mark by (intro exI conjI, assumption) (simp_all add: life_state_def)

end
