(* ===== verification/Reconnect.thy ===== *)
theory Reconnect
  imports Mezon_Prelude
begin

text \<open>
  Reconnection in \<^verbatim>\<open>client.go\<close>: the disconnect callback that \<^verbatim>\<open>initManagers\<close> installs, \<^verbatim>\<open>retryConnect\<close> with its
  back-off, and \<^verbatim>\<open>Close\<close>. Every callback starts a goroutine that runs \<^verbatim>\<open>retryConnect\<close>; one rule is one
  step of such a goroutine, of the network or of the application. Delays are in seconds.
\<close>

section \<open>The back-off\<close>

definition maxDelay :: nat where "maxDelay = 60"

definition next_delay :: "nat \<Rightarrow> nat" where
  "next_delay delay = (if maxDelay < delay * 2 then maxDelay else delay * 2)"

section \<open>Steps\<close>

text \<open>Where a \<^verbatim>\<open>retryConnect\<close> goroutine stands: at its entry, at the loop condition, after the sleep, in
  \<^verbatim>\<open>postConnectInit\<close> before and after \<^verbatim>\<open>ListClanDescs\<close>, and behind the loop. After the clan list was
  fetched \<^verbatim>\<open>postConnectInit\<close> returns no error: failures to load or join a clan and to list the DM
  channels are only logged.\<close>

datatype retry = RetryEnter | RetryLoop nat | RetryWake nat | RetryInit nat | RetryJoin | RetryLeave

record reconnect =
  r_open :: bool
  r_reconnecting :: bool
  r_hard :: bool
  r_session :: bool
  r_retries :: "retry list"

datatype reconnect_label = Drop | AppClose | Step retry

definition reconnect_init :: "reconnect \<Rightarrow> bool" where
  "reconnect_init s \<longleftrightarrow> s = \<lparr>r_open = True, r_reconnecting = False, r_hard = False, r_session = True, r_retries = []\<rparr>"

inductive reconnect_step :: "reconnect \<Rightarrow> reconnect_label \<Rightarrow> reconnect \<Rightarrow> bool" where
  drop_callback: "r_open s \<Longrightarrow> \<not> r_hard s \<Longrightarrow>
     reconnect_step s Drop (s\<lparr>r_open := False, r_retries := r_retries s @ [RetryEnter]\<rparr>)"
| drop_hard: "r_open s \<Longrightarrow> r_hard s \<Longrightarrow> reconnect_step s Drop (s\<lparr>r_open := False\<rparr>)"
| app_close: "reconnect_step s AppClose (s\<lparr>r_hard := True, r_open := False\<rparr>)"
| retry_busy: "r_retries s = xs @ RetryEnter # ys \<Longrightarrow> r_reconnecting s \<or> r_hard s \<Longrightarrow>
     reconnect_step s (Step RetryEnter) (s\<lparr>r_retries := xs @ ys\<rparr>)"
| retry_enter: "r_retries s = xs @ RetryEnter # ys \<Longrightarrow> \<not> r_reconnecting s \<Longrightarrow> \<not> r_hard s \<Longrightarrow>
     reconnect_step s (Step RetryEnter) (s\<lparr>r_reconnecting := True, r_retries := xs @ RetryLoop 5 # ys\<rparr>)"
| retry_hard: "r_retries s = xs @ RetryLoop d # ys \<Longrightarrow> r_hard s \<Longrightarrow>
     reconnect_step s (Step (RetryLoop d)) (s\<lparr>r_retries := xs @ RetryLeave # ys\<rparr>)"
| retry_sleep: "r_retries s = xs @ RetryLoop d # ys \<Longrightarrow> \<not> r_hard s \<Longrightarrow>
     reconnect_step s (Step (RetryLoop d)) (s\<lparr>r_retries := xs @ RetryWake d # ys\<rparr>)"
| retry_no_session: "r_retries s = xs @ RetryWake d # ys \<Longrightarrow> \<not> r_session s \<Longrightarrow>
     reconnect_step s (Step (RetryWake d)) (s\<lparr>r_retries := xs @ RetryLeave # ys\<rparr>)"
| retry_connected: "r_retries s = xs @ RetryWake d # ys \<Longrightarrow> r_session s \<Longrightarrow>
     reconnect_step s (Step (RetryWake d)) (s\<lparr>r_open := True, r_retries := xs @ RetryInit d # ys\<rparr>)"
| retry_dial_failed: "r_retries s = xs @ RetryWake d # ys \<Longrightarrow> r_session s \<Longrightarrow> \<not> r_open s \<Longrightarrow>
     reconnect_step s (Step (RetryWake d)) (s\<lparr>r_retries := xs @ RetryLoop (next_delay d) # ys\<rparr>)"
| retry_list_failed: "r_retries s = xs @ RetryInit d # ys \<Longrightarrow>
     reconnect_step s (Step (RetryInit d)) (s\<lparr>r_retries := xs @ RetryLoop (next_delay d) # ys\<rparr>)"
| retry_listed: "r_retries s = xs @ RetryInit d # ys \<Longrightarrow>
     reconnect_step s (Step (RetryInit d)) (s\<lparr>r_retries := xs @ RetryJoin # ys\<rparr>)"
| retry_joined: "r_retries s = xs @ RetryJoin # ys \<Longrightarrow>
     reconnect_step s (Step RetryJoin) (s\<lparr>r_retries := xs @ RetryLeave # ys\<rparr>)"
| retry_leave: "r_retries s = xs @ RetryLeave # ys \<Longrightarrow>
     reconnect_step s (Step RetryLeave) (s\<lparr>r_reconnecting := False, r_retries := xs @ ys\<rparr>)"

section \<open>Invariant\<close>

definition active :: "retry \<Rightarrow> bool" where
  "active r \<longleftrightarrow> r \<noteq> RetryEnter"

text \<open>The delays that the back-off produces.\<close>

definition backoff :: "nat \<Rightarrow> bool" where
  "backoff d \<longleftrightarrow> d \<in> {5, 10, 20, 40, 60}"

fun retry_delay_ok :: "retry \<Rightarrow> bool" where
  "retry_delay_ok (RetryLoop d) = backoff d"
| "retry_delay_ok (RetryWake d) = backoff d"
| "retry_delay_ok (RetryInit d) = backoff d"
| "retry_delay_ok _ = True"

lemma backoff_next: "backoff d \<Longrightarrow> backoff (next_delay d)"
  by (auto simp: backoff_def next_delay_def maxDelay_def)

definition reconnect_inv :: "reconnect \<Rightarrow> bool" where
  "reconnect_inv s \<longleftrightarrow>
     length (filter active (r_retries s)) = (if r_reconnecting s then 1 else 0) \<and>
     (\<forall>r\<in>set (r_retries s). retry_delay_ok r)"

lemma reconnect_inv_step: "reconnect_inv s \<Longrightarrow> reconnect_step s l s' \<Longrightarrow> reconnect_inv s'"
  by (erule reconnect_step.cases)
    (auto simp: reconnect_inv_def active_def backoff_next split: if_splits, auto simp: backoff_def)

lemma reconnect_inv_init: "reconnect_init s \<Longrightarrow> reconnect_inv s"
  by (simp add: reconnect_init_def reconnect_inv_def)

interpretation reconnection: step_invariant reconnect_init reconnect_step reconnect_inv
  by unfold_locales (auto intro: reconnect_inv_init reconnect_inv_step)

text \<open>Runs in which the connection does not drop while a retry goroutine is still at work.\<close>

definition settled_step :: "reconnect \<Rightarrow> reconnect_label \<Rightarrow> reconnect \<Rightarrow> bool" where
  "settled_step s l s' \<longleftrightarrow> reconnect_step s l s' \<and> (l = Drop \<longrightarrow> r_retries s = [])"

fun retry_needs_open :: "retry \<Rightarrow> bool" where
  "retry_needs_open (RetryInit d) = True"
| "retry_needs_open RetryJoin = True"
| "retry_needs_open RetryLeave = True"
| "retry_needs_open _ = False"

definition settled_inv :: "reconnect \<Rightarrow> bool" where
  "settled_inv s \<longleftrightarrow>
     r_session s \<and> length (r_retries s) \<le> 1 \<and>
     (r_reconnecting s \<longrightarrow> filter active (r_retries s) \<noteq> []) \<and>
     (r_open s \<or> r_hard s \<or> (\<exists>r. r_retries s = [r] \<and> \<not> retry_needs_open r))"

lemma short_list_split: "length (xs @ x # ys) \<le> Suc 0 \<longleftrightarrow> xs = [] \<and> ys = []"
  by auto

lemma settled_inv_step: "settled_inv s \<Longrightarrow> settled_step s l s' \<Longrightarrow> settled_inv s'"
  unfolding settled_step_def
  by (elim conjE, erule reconnect_step.cases) (auto simp: settled_inv_def active_def short_list_split)

lemma settled_inv_init: "reconnect_init s \<Longrightarrow> settled_inv s"
  by (simp add: reconnect_init_def settled_inv_def)

interpretation settled: step_invariant reconnect_init settled_step settled_inv
  by unfold_locales (auto intro: settled_inv_init settled_inv_step)

section \<open>Runs\<close>

abbreviation reconnect_reachable :: "reconnect \<Rightarrow> bool" where
  "reconnect_reachable \<equiv> reachable reconnect_init reconnect_step"

definition rstate :: "bool \<Rightarrow> bool \<Rightarrow> bool \<Rightarrow> retry list \<Rightarrow> reconnect" where
  "rstate open reconnecting hard retries =
     \<lparr>r_open = open, r_reconnecting = reconnecting, r_hard = hard, r_session = True, r_retries = retries\<rparr>"

lemma run_until_sleep: "reconnect_reachable (rstate False True False [RetryWake 5])"
proof -
  have "reconnect_reachable (rstate True False False [])"
    by (rule reachable_init) (simp add: reconnect_init_def rstate_def)
  from reachable_step [OF this [unfolded rstate_def] drop_callback]
  have "reconnect_reachable (rstate False False False [RetryEnter])" by (simp add: rstate_def)
  from reachable_step [OF this [unfolded rstate_def] retry_enter [of _ "[]" "[]"]]
  have "reconnect_reachable (rstate False True False [RetryLoop 5])" by (simp add: rstate_def)
  from reachable_step [OF this [unfolded rstate_def] retry_sleep [of _ "[]" 5 "[]"]]
  show ?thesis by (simp add: rstate_def)
qed

lemma run_close_while_sleeping: "reconnect_reachable (rstate True False True [])"
proof -
  from reachable_step [OF run_until_sleep [unfolded rstate_def] app_close]
  have "reconnect_reachable (rstate False True True [RetryWake 5])" by (simp add: rstate_def)
  from reachable_step [OF this [unfolded rstate_def] retry_connected [of _ "[]" 5 "[]"]]
  have "reconnect_reachable (rstate True True True [RetryInit 5])" by (simp add: rstate_def)
  from reachable_step [OF this [unfolded rstate_def] retry_listed [of _ "[]" 5 "[]"]]
  have "reconnect_reachable (rstate True True True [RetryJoin])" by (simp add: rstate_def)
  from reachable_step [OF this [unfolded rstate_def] retry_joined [of _ "[]" "[]"]]
  have "reconnect_reachable (rstate True True True [RetryLeave])" by (simp add: rstate_def)
  from reachable_step [OF this [unfolded rstate_def] retry_leave [of _ "[]" "[]"]]
  show ?thesis by (simp add: rstate_def)
qed

lemma run_drop_while_joining: "reconnect_reachable (rstate False False False [])"
proof -
  from reachable_step [OF run_until_sleep [unfolded rstate_def] retry_connected [of _ "[]" 5 "[]"]]
  have "reconnect_reachable (rstate True True False [RetryInit 5])" by (simp add: rstate_def)
  from reachable_step [OF this [unfolded rstate_def] retry_listed [of _ "[]" 5 "[]"]]
  have "reconnect_reachable (rstate True True False [RetryJoin])" by (simp add: rstate_def)
  from reachable_step [OF this [unfolded rstate_def] drop_callback]
  have "reconnect_reachable (rstate False True False [RetryJoin, RetryEnter])" by (simp add: rstate_def)
  from reachable_step [OF this [unfolded rstate_def] retry_busy [of _ "[RetryJoin]" "[]"]]
  have "reconnect_reachable (rstate False True False [RetryJoin])" by (simp add: rstate_def)
  from reachable_step [OF this [unfolded rstate_def] retry_joined [of _ "[]" "[]"]]
  have "reconnect_reachable (rstate False True False [RetryLeave])" by (simp add: rstate_def)
  from reachable_step [OF this [unfolded rstate_def] retry_leave [of _ "[]" "[]"]]
  show ?thesis by (simp add: rstate_def)
qed

section \<open>Properties\<close>

text \<open>
  C17. Reconnection is single-flight with a bounded back-off: in every interleaving at most one
  \<^verbatim>\<open>retryConnect\<close> loop is past its entry, exactly while \<^verbatim>\<open>reconnecting\<close> is set, and the delay before an
  attempt is one of 5, 10, 20, 40 and 60 seconds.
\<close>

theorem retry_single_flight_bounded_backoff:
  assumes "reachable reconnect_init reconnect_step s"
  shows "length (filter active (r_retries s)) = (if r_reconnecting s then 1 else 0) \<and>
    (\<forall>d. RetryLoop d \<in> set (r_retries s) \<or> RetryWake d \<in> set (r_retries s) \<longrightarrow> d \<in> {5, 10, 20, 40, 60})"
  using reconnection.reachable_inv [OF assms] by (force simp: reconnect_inv_def backoff_def)

theorem retry_single_flight_bounded_backoff_witness:
  "length (filter active (r_retries (rstate False True False [RetryWake 5]))) = 1"
  using retry_single_flight_bounded_backoff [OF run_until_sleep] by (simp add: rstate_def)

text \<open>
  C18. As long as the connection does not drop while a retry is still in progress, a client that is
  offline and was not closed by the application always has a retry goroutine that will attempt to
  connect again.
\<close>

theorem offline_client_keeps_retrying:
  assumes "reachable reconnect_init settled_step s" "\<not> r_open s" "\<not> r_hard s"
  shows "\<exists>r. r_retries s = [r] \<and> (r = RetryEnter \<and> \<not> r_reconnecting s \<or> (\<exists>d. r = RetryLoop d \<or> r = RetryWake d))"
proof -
  have inv: "settled_inv s" using settled.reachable_inv [OF assms(1)] .
  then obtain r where r: "r_retries s = [r]" "\<not> retry_needs_open r"
    using assms(2,3) by (auto simp: settled_inv_def)
  then show ?thesis using inv by (cases r) (auto simp: settled_inv_def active_def)
qed

theorem offline_client_keeps_retrying_witness:
  "\<exists>r. r_retries (rstate False False False [RetryEnter]) = [r] \<and> r = RetryEnter"
proof -
  have "reachable reconnect_init settled_step (rstate True False False [])"
    by (rule reachable_init) (simp add: reconnect_init_def rstate_def)
  moreover have "settled_step (rstate True False False []) Drop (rstate False False False [RetryEnter])"
    using drop_callback [of "rstate True False False []"] by (simp add: settled_step_def rstate_def)
  ultimately have "reachable reconnect_init settled_step (rstate False False False [RetryEnter])"
    by (rule reachable_step)
  from offline_client_keeps_retrying [OF this] show ?thesis by (simp add: rstate_def)
qed

text \<open>
  C19. Two ways in which reconnection goes wrong. When the application closes the client while
  \<^verbatim>\<open>retryConnect\<close> sleeps, the loop does not look at the flag again before dialling: the client ends
  up connected after \<^verbatim>\<open>Close\<close>. And when the new connection drops after the clan list was fetched, the
  goroutine of the second callback finds \<^verbatim>\<open>reconnecting\<close> set and leaves, then the first loop ends
  because \<^verbatim>\<open>postConnectInit\<close> reports no error: the client stays offline with nobody retrying.
\<close>

theorem reconnect_flaws:
  "(\<exists>s. reachable reconnect_init reconnect_step s \<and> r_hard s \<and> r_open s \<and> r_retries s = []) \<and>
   (\<exists>s. reachable reconnect_init reconnect_step s \<and> \<not> r_hard s \<and> \<not> r_open s \<and> r_session s \<and>
        \<not> r_reconnecting s \<and> r_retries s = [])"
proof
  show "\<exists>s. reconnect_reachable s \<and> r_hard s \<and> r_open s \<and> r_retries s = []"
    using run_close_while_sleeping by (intro exI conjI, assumption) (simp_all add: rstate_def)
  show "\<exists>s. reconnect_reachable s \<and> \<not> r_hard s \<and> \<not> r_open s \<and> r_session s \<and> \<not> r_reconnecting s \<and> r_retries s = []"
    using run_drop_while_joining by (intro exI conjI, assumption) (simp_all add: rstate_def)
qed

end
