(* ===== verification/Helper.thy ===== *)
theory Helper
  imports Go_Ids
begin

text \<open>
  The helpers of \<^verbatim>\<open>helper.go\<close>, the channel types and stream modes of \<^verbatim>\<open>constants.go\<close> that they map between,
  and \<^verbatim>\<open>getChannelTypeFromMode\<close> of \<^verbatim>\<open>socket_write.go\<close>. Channel types and modes are Go integers (64 bits).
\<close>

section \<open>Channel types and stream modes\<close>

definition ChannelTypeChannel :: int64 where [simp]: "ChannelTypeChannel = 1"
definition ChannelTypeGroup :: int64 where [simp]: "ChannelTypeGroup = 2"
definition ChannelTypeDM :: int64 where [simp]: "ChannelTypeDM = 3"
definition ChannelTypeGmeetVoice :: int64 where [simp]: "ChannelTypeGmeetVoice = 4"
definition ChannelTypeForum :: int64 where [simp]: "ChannelTypeForum = 5"
definition ChannelTypeStreaming :: int64 where [simp]: "ChannelTypeStreaming = 6"
definition ChannelTypeThread :: int64 where [simp]: "ChannelTypeThread = 7"
definition ChannelTypeApp :: int64 where [simp]: "ChannelTypeApp = 8"
definition ChannelTypeAnnouncement :: int64 where [simp]: "ChannelTypeAnnouncement = 9"
definition ChannelTypeMezonVoice :: int64 where [simp]: "ChannelTypeMezonVoice = 10"

definition StreamModeChannel :: int64 where [simp]: "StreamModeChannel = 2"
definition StreamModeGroup :: int64 where [simp]: "StreamModeGroup = 3"
definition StreamModeDM :: int64 where [simp]: "StreamModeDM = 4"
definition StreamModeClan :: int64 where [simp]: "StreamModeClan = 5"
definition StreamModeThread :: int64 where [simp]: "StreamModeThread = 6"

definition TypeMessageEphemeral :: int64 where [simp]: "TypeMessageEphemeral = 12"

definition ConvertChannelTypeToChannelMode :: "int64 \<Rightarrow> int64" where
  "ConvertChannelTypeToChannelMode channelType =
     (if channelType = ChannelTypeDM then StreamModeDM
      else if channelType = ChannelTypeGroup then StreamModeGroup
      else if channelType = ChannelTypeChannel \<or> channelType = ChannelTypeApp \<or> channelType = ChannelTypeMezonVoice
      then StreamModeChannel
      else if channelType = ChannelTypeThread then StreamModeThread
      else 0)"

definition getChannelTypeFromMode :: "int64 \<Rightarrow> int64" where
  "getChannelTypeFromMode mode =
     (if mode = StreamModeDM then ChannelTypeDM
      else if mode = StreamModeGroup then ChannelTypeGroup
      else if mode = StreamModeThread then ChannelTypeThread
      else ChannelTypeChannel)"

section \<open>User ids and URLs\<close>

definition IsValidUserID :: "string \<Rightarrow> bool" where
  "IsValidUserID i \<longleftrightarrow> i \<noteq> [] \<and> list_all is_digit i"

text \<open>What \<^verbatim>\<open>url.Parse\<close> found: scheme, host name and port, each possibly empty.\<close>

record parsed_url =
  u_Scheme :: string
  u_Hostname :: string
  u_Port :: string

definition ParseURLToHostAndSSL ::
  "(string \<Rightarrow> parsed_url result) \<Rightarrow> string \<Rightarrow> (string \<times> string \<times> bool) result" where
  "ParseURLToHostAndSSL url_Parse urlStr =
     (case url_Parse urlStr of
        Inl e \<Rightarrow> Inl e
      | Inr u \<Rightarrow>
          (let useSSL = (u_Scheme u = ''https'');
               port = (if u_Port u = [] then (if useSSL then ''443'' else ''80'') else u_Port u)
           in Inr (u_Hostname u, port, useSSL)))"

section \<open>Snowflake ids\<close>

definition snowflakeEpoch :: int64 where "snowflakeEpoch = 1577836800000"

record snowflake =
  snowflakeSeq :: int64
  snowflakeLast :: int64

definition snowflake_id :: "int64 \<Rightarrow> int64 \<Rightarrow> int64" where
  "snowflake_id ts s = push_bit 22 (ts - snowflakeEpoch) OR push_bit 17 1 OR push_bit 12 1 OR s"

text \<open>\<open>ts\<close> is what \<^verbatim>\<open>time.Now().UnixMilli()\<close> returns.\<close>

definition GenerateSnowflakeID :: "int64 \<Rightarrow> snowflake \<Rightarrow> string \<times> snowflake" where
  "GenerateSnowflakeID ts g =
     (let g' = (if ts = snowflakeLast g then g\<lparr>snowflakeSeq := snowflakeSeq g + 1\<rparr>
                else \<lparr>snowflakeSeq = 0, snowflakeLast = ts\<rparr>)
      in (FormatInt (sint (snowflake_id ts (snowflakeSeq g'))), g'))"

fun snowflake_run :: "snowflake \<Rightarrow> int64 list \<Rightarrow> string list" where
  "snowflake_run g [] = []"
| "snowflake_run g (ts # tss) = (let (i, g') = GenerateSnowflakeID ts g in i # snowflake_run g' tss)"

section \<open>Uniqueness of snowflake ids\<close>

text \<open>The timestamp and the sequence number of each call.\<close>

fun snowflake_pairs :: "snowflake \<Rightarrow> int64 list \<Rightarrow> (int64 \<times> int64) list" where
  "snowflake_pairs g [] = []"
| "snowflake_pairs g (ts # tss) =
     (let g' = snd (GenerateSnowflakeID ts g) in (ts, snowflakeSeq g') # snowflake_pairs g' tss)"

lemma snowflake_run_pairs:
  "snowflake_run g tss = map (\<lambda>(ts, s). FormatInt (sint (snowflake_id ts s))) (snowflake_pairs g tss)"
  by (induction tss arbitrary: g) (simp_all add: GenerateSnowflakeID_def Let_def)

text \<open>A sequence number below 4096 keeps out of the bits of the worker id.\<close>

lemma small_bits:
  fixes s :: int64
  assumes "unat s < 4096"
  shows "take_bit 12 s = s" "drop_bit 22 s = 0"
proof -
  show "take_bit 12 s = s"
    using assms by (simp add: word_unat_eq_iff unsigned_take_bit_eq take_bit_nat_eq_self)
  show "drop_bit 22 s = 0"
    using assms by (simp add: word_unat_eq_iff drop_bit_eq_div unat_div)
qed

lemma snowflake_id_decode:
  assumes "unat s < 4096"
  shows "take_bit 12 (snowflake_id ts s) = s"
    and "drop_bit 22 (snowflake_id ts s) = drop_bit 22 (push_bit 22 (ts - snowflakeEpoch))"
  using small_bits [OF assms] by (simp_all add: snowflake_id_def take_bit_push_bit)

definition millis :: "int64 \<Rightarrow> nat" where
  "millis ts = unat (ts - snowflakeEpoch)"

lemma millis_inject [simp]: "millis a = millis b \<longleftrightarrow> a = b"
  by (simp add: millis_def word_unat_eq_iff [symmetric])

lemma shift_back: "unat (x :: int64) < 2 ^ 42 \<Longrightarrow> unat (drop_bit 22 (push_bit 22 x)) = unat x"
  by (simp add: push_bit_eq_mult drop_bit_eq_div unat_div unat_word_ariths(2))

lemma snowflake_id_inject:
  assumes "snowflake_id ts s = snowflake_id ts' s'" "unat s < 4096" "unat s' < 4096"
    and "millis ts < 2 ^ 42" "millis ts' < 2 ^ 42"
  shows "ts = ts' \<and> s = s'"
proof -
  have shift: "unat (drop_bit 22 (push_bit 22 (t - snowflakeEpoch))) = millis t" if "millis t < 2 ^ 42" for t
    using that shift_back by (simp add: millis_def)
  have "s = s'" using assms(1) snowflake_id_decode(1) [OF assms(2)] snowflake_id_decode(1) [OF assms(3)] by metis
  moreover have "millis ts = millis ts'"
    using assms(1) snowflake_id_decode(2) [OF assms(2)] snowflake_id_decode(2) [OF assms(3)]
      shift [OF assms(4)] shift [OF assms(5)] by metis
  ultimately show ?thesis by simp
qed

definition newer :: "snowflake \<Rightarrow> int64 \<times> int64 \<Rightarrow> bool" where
  "newer g = (\<lambda>(ts, s). unat s < 4096 \<and>
     (millis (snowflakeLast g) < millis ts \<or> ts = snowflakeLast g \<and> unat (snowflakeSeq g) < unat s))"

lemma snowflake_pairs_newer:
  assumes "sorted (map millis (snowflakeLast g # tss))"
    and "unat (snowflakeSeq g) + count_list tss (snowflakeLast g) < 4096"
    and "\<forall>ts. count_list tss ts \<le> 4096"
  shows "distinct (snowflake_pairs g tss) \<and> (\<forall>p\<in>set (snowflake_pairs g tss). newer g p)"
  using assms
proof (induction tss arbitrary: g)
  case (Cons ts tss)
  define g' where "g' = snd (GenerateSnowflakeID ts g)"
  have g': "g' = (if ts = snowflakeLast g then g\<lparr>snowflakeSeq := snowflakeSeq g + 1\<rparr> else \<lparr>snowflakeSeq = 0, snowflakeLast = ts\<rparr>)"
    by (simp add: g'_def GenerateSnowflakeID_def Let_def)
  have suc: "unat (snowflakeSeq g + 1) = Suc (unat (snowflakeSeq g))" if "unat (snowflakeSeq g) < 4096"
    using that by (simp add: unat_word_ariths(1))
  have few: "count_list tss t \<le> 4096" for t
    using spec [OF Cons.prems(3), of t] by (simp split: if_splits)
  have "unat (snowflakeSeq g') + count_list tss (snowflakeLast g') < 4096"
  proof (cases "ts = snowflakeLast g")
    case True
    then show ?thesis using Cons.prems(2) suc by (simp add: g')
  next
    case False
    then show ?thesis using spec [OF Cons.prems(3), of ts] by (simp add: g')
  qed
  moreover have "sorted (map millis (snowflakeLast g' # tss))" using Cons.prems(1) by (simp add: g')
  ultimately have ih: "distinct (snowflake_pairs g' tss)" "\<forall>p\<in>set (snowflake_pairs g' tss). newer g' p"
    using Cons.IH few by blast+
  have step: "newer g (ts, snowflakeSeq g')"
    using Cons.prems(1,2) suc by (auto simp: newer_def g' le_less)
  have "\<not> newer g' (ts, snowflakeSeq g')" by (simp add: newer_def g' split: if_splits)
  moreover have "newer g p" if "newer g' p" for p
    using that Cons.prems(1,2) suc by (cases p) (auto simp: newer_def g' le_less split: if_splits)
  ultimately show ?case
    using ih step by (auto simp: Let_def simp flip: g'_def)
qed simp

lemma snowflake_pairs_distinct:
  assumes "snowflakeLast g \<notin> set tss" "sorted (map millis tss)" "\<forall>ts. count_list tss ts \<le> 4096"
  shows "distinct (snowflake_pairs g tss) \<and> (\<forall>(ts, s)\<in>set (snowflake_pairs g tss). ts \<in> set tss \<and> unat s < 4096)"
proof (cases tss)
  case (Cons ts rest)
  define g' where "g' = \<lparr>snowflakeSeq = 0 :: int64, snowflakeLast = ts\<rparr>"
  have pairs: "snowflake_pairs g tss = (ts, 0) # snowflake_pairs g' rest"
    using assms(1) by (auto simp: Cons GenerateSnowflakeID_def g'_def Let_def)
  have few: "count_list rest t \<le> 4096" "count_list rest ts < 4096" for t
    using spec [OF assms(3), of t] spec [OF assms(3), of ts] by (simp_all add: Cons split: if_splits)
  then have rest: "distinct (snowflake_pairs g' rest)" "\<forall>p\<in>set (snowflake_pairs g' rest). newer g' p"
    using snowflake_pairs_newer [of g' rest] assms(2) by (simp_all add: g'_def Cons)
  have "ts' \<in> set us" if "(ts', s) \<in> set (snowflake_pairs h us)" for h us ts' s
    using that by (induction us arbitrary: h) (auto simp: Let_def)
  moreover have "(ts, 0) \<notin> set (snowflake_pairs g' rest)" using rest(2) by (auto simp: newer_def g'_def)
  moreover have "unat s < 4096" if "(ts', s) \<in> set (snowflake_pairs g' rest)" for ts' s
    using rest(2) that by (auto simp: newer_def)
  moreover have "ts \<in> set tss" "set rest \<subseteq> set tss" by (auto simp: Cons)
  ultimately show ?thesis using rest(1) unfolding pairs by auto
qed simp

lemma snowflake_pairs_same:
  "i < n \<Longrightarrow> snowflake_pairs \<lparr>snowflakeSeq = q, snowflakeLast = ts\<rparr> (replicate n ts) ! i = (ts, q + of_nat (Suc i))"
  by (induction n arbitrary: q i) (auto simp: GenerateSnowflakeID_def Let_def nth_Cons ac_simps split: nat.splits)

lemma length_snowflake_pairs: "length (snowflake_pairs g tss) = length tss"
  by (induction tss arbitrary: g) (simp_all add: Let_def)

section \<open>Properties\<close>

text \<open>
  C24. Snowflake ids are unique as long as the clock does not run backwards, no more than 4096 ids
  are drawn in one millisecond and the clock stays within the 42 bits of the timestamp field (until
  the year 2159).
\<close>

theorem snowflake_ids_unique:
  assumes "snowflakeLast g \<notin> set tss" "sorted (map millis tss)" "\<forall>ts. count_list tss ts \<le> 4096"
    and "\<forall>ts\<in>set tss. millis ts < 2 ^ 42"
  shows "distinct (snowflake_run g tss)"
proof -
  have pairs: "distinct (snowflake_pairs g tss)"
      "\<forall>(ts, s)\<in>set (snowflake_pairs g tss). ts \<in> set tss \<and> unat s < 4096"
    using snowflake_pairs_distinct [OF assms(1-3)] by blast+
  have "inj_on (\<lambda>(ts, s). FormatInt (sint (snowflake_id ts s))) (set (snowflake_pairs g tss))"
  proof (rule inj_onI, clarify)
    fix ts s ts' s'
    assume "(ts, s) \<in> set (snowflake_pairs g tss)" "(ts', s') \<in> set (snowflake_pairs g tss)"
      and "FormatInt (sint (snowflake_id ts s)) = FormatInt (sint (snowflake_id ts' s'))"
    then show "ts = ts' \<and> s = s'"
      using pairs(2) assms(4) by (intro snowflake_id_inject) auto
  qed
  then show ?thesis using pairs(1) by (simp add: snowflake_run_pairs distinct_map)
qed

theorem snowflake_ids_unique_witness:
  "distinct (snowflake_run \<lparr>snowflakeSeq = 0, snowflakeLast = 0\<rparr> [1577836800001, 1577836800001, 1577836800002])"
  by (rule snowflake_ids_unique) (simp_all add: millis_def snowflakeEpoch_def)

text \<open>
  The 4097th id drawn in one millisecond equals the first: the sequence number is not masked, and
  4096 coincides with the bit of the worker id.
\<close>

theorem snowflake_sequence_overflow:
  assumes "snowflakeLast g \<noteq> ts"
  shows "snowflake_run g (replicate 4097 ts) ! 4096 = snowflake_run g (replicate 4097 ts) ! 0"
proof -
  define g' where "g' = \<lparr>snowflakeSeq = 0 :: int64, snowflakeLast = ts\<rparr>"
  have "replicate 4097 ts = ts # replicate 4096 ts"
    using replicate_Suc [of 4096 ts] by (simp del: replicate_Suc)
  then have pairs: "snowflake_pairs g (replicate 4097 ts) = (ts, 0) # snowflake_pairs g' (replicate 4096 ts)"
    using assms by (simp add: GenerateSnowflakeID_def g'_def Let_def)
  have "snowflake_pairs g' (replicate 4096 ts) ! 4095 = (ts, 4096)"
    using snowflake_pairs_same [of 4095 4096 0 ts] by (simp add: g'_def)
  moreover have "snowflake_id ts 4096 = snowflake_id ts 0"
    by (simp add: snowflake_id_def or.assoc)
  ultimately show ?thesis
    by (simp add: snowflake_run_pairs pairs length_snowflake_pairs nth_Cons')
qed

theorem snowflake_sequence_overflow_witness:
  "snowflake_run \<lparr>snowflakeSeq = 0, snowflakeLast = 0\<rparr> (replicate 4097 1577836800001) ! 4096 =
   snowflake_run \<lparr>snowflakeSeq = 0, snowflakeLast = 0\<rparr> (replicate 4097 1577836800001) ! 0"
  by (rule snowflake_sequence_overflow) simp

text \<open>
  The channel type that \<^verbatim>\<open>joinChannelBeforeRetry\<close> derives from a stream mode is consistent with the
  mode: it has the same stream mode again, whenever the mode came from a channel type that has one;
  a type without a stream mode is joined as a plain channel.
\<close>

theorem channel_type_mode_consistent:
  "ConvertChannelTypeToChannelMode (getChannelTypeFromMode (ConvertChannelTypeToChannelMode t)) =
     (if ConvertChannelTypeToChannelMode t = 0 then StreamModeChannel else ConvertChannelTypeToChannelMode t)"
  by (simp add: ConvertChannelTypeToChannelMode_def getChannelTypeFromMode_def)

end
