(* ===== verification/Json.thy ===== *)
theory Json
  imports UTF16 Go_Ids
begin

text \<open>
  The part of \<^verbatim>\<open>encoding/json\<close> that the SDK uses: encoding of values (with and without HTML escaping)
  and the parser behind \<^verbatim>\<open>json.Unmarshal\<close>, on Go strings as byte sequences. A number is its literal.
  The main result is that parsing what was encoded gives the value back.
\<close>

section \<open>UTF-8 encoding\<close>

definition utf8_encode_rune :: "rune \<Rightarrow> string" where
  "utf8_encode_rune r = map char_of
     (if r < 0x80 then [r]
      else if r < 0x800 then [0xC0 + r div 64, 0x80 + r mod 64]
      else if r < 0x10000 then [0xE0 + r div 4096, 0x80 + r div 64 mod 64, 0x80 + r mod 64]
      else [0xF0 + r div 262144, 0x80 + r div 4096 mod 64, 0x80 + r div 64 mod 64, 0x80 + r mod 64])"

text \<open>The first rune of a non-empty string and the number of its bytes.\<close>

definition first_rune :: "string \<Rightarrow> rune \<times> nat" where
  "first_rune s = decode_rune (map of_char s)"

definition utf8_string :: "rune list \<Rightarrow> string" where
  "utf8_string rs = concat (map utf8_encode_rune rs)"

definition utf8_valid :: "string \<Rightarrow> bool" where
  "utf8_valid s \<longleftrightarrow> (\<exists>rs. list_all valid_rune rs \<and> s = utf8_string rs)"

section \<open>Values and encoding\<close>

datatype json =
    JNull
  | JBool bool
  | JNumber string
  | JString string
  | JArray "json list"
  | JObject "(string \<times> json) list"

definition json_hex :: "nat \<Rightarrow> char" where
  "json_hex d = (if d < 10 then char_of (48 + d) else char_of (87 + d))"

definition json_u4 :: "nat \<Rightarrow> string" where
  "json_u4 r = [CHR 0x5C, CHR ''u'', json_hex (r div 4096 mod 16), json_hex (r div 256 mod 16),
     json_hex (r div 16 mod 16), json_hex (r mod 16)]"

text \<open>The escape of an ASCII character in a string, if it has one.\<close>

definition ascii_escape :: "bool \<Rightarrow> char \<Rightarrow> string" where
  "ascii_escape html c =
     (if c = CHR 0x22 then [CHR 0x5C, CHR 0x22]
      else if c = CHR 0x5C then [CHR 0x5C, CHR 0x5C]
      else if c = CHR 0x08 then [CHR 0x5C, CHR ''b'']
      else if c = CHR 0x0C then [CHR 0x5C, CHR ''f'']
      else if c = CHR 0x0A then [CHR 0x5C, CHR ''n'']
      else if c = CHR 0x0D then [CHR 0x5C, CHR ''r'']
      else if c = CHR 0x09 then [CHR 0x5C, CHR ''t'']
      else if (of_char c :: nat) < 0x20 \<or> html \<and> c \<in> {CHR ''<'', CHR ''>'', CHR ''&''}
      then json_u4 (of_char c)
      else [c])"

function json_escape :: "bool \<Rightarrow> string \<Rightarrow> string" where
  "json_escape html [] = []"
| "json_escape html (c # cs) =
     (if (of_char c :: nat) < 0x80 then ascii_escape html c @ json_escape html cs
      else (let (r, n) = first_rune (c # cs)
            in if r = RuneError \<and> n = 1 then json_u4 RuneError @ json_escape html cs
               else if r = 0x2028 \<or> r = 0x2029 then json_u4 r @ json_escape html (drop n (c # cs))
               else take n (c # cs) @ json_escape html (drop n (c # cs))))"
  by pat_completeness auto

lemma first_rune_width: "0 < snd (first_rune (c # cs))"
  using decode_rune_width [of "map of_char (c # cs)"] by (simp add: first_rune_def)

lemma drop_first_rune: "first_rune (c # cs) = (r, n) \<Longrightarrow> length (drop n (c # cs)) \<le> length cs"
  using first_rune_width [of c cs] by (cases n) auto

termination json_escape
  by (relation "measure (\<lambda>(html, s). length s)") (auto dest!: drop_first_rune [OF sym])

definition json_quote :: "bool \<Rightarrow> string \<Rightarrow> string" where
  "json_quote html s = CHR 0x22 # json_escape html s @ [CHR 0x22]"

fun json_join :: "string list \<Rightarrow> string" where
  "json_join [] = []"
| "json_join [s] = s"
| "json_join (s # ss) = s @ CHR '','' # json_join ss"

fun json_encode :: "bool \<Rightarrow> json \<Rightarrow> string" where
  "json_encode html JNull = ''null''"
| "json_encode html (JBool b) = (if b then ''true'' else ''false'')"
| "json_encode html (JNumber l) = l"
| "json_encode html (JString s) = json_quote html s"
| "json_encode html (JArray vs) = CHR ''['' # json_join (map (json_encode html) vs) @ '']''"
| "json_encode html (JObject kvs) =
     CHR ''{'' # json_join (map (\<lambda>(k, v). json_quote html k @ CHR '':'' # json_encode html v) kvs) @ ''}''"

section \<open>Parsing\<close>

definition is_ws :: "char \<Rightarrow> bool" where
  "is_ws c \<longleftrightarrow> c = CHR 0x20 \<or> c = CHR 0x09 \<or> c = CHR 0x0D \<or> c = CHR 0x0A"

definition skip_ws :: "string \<Rightarrow> string" where
  "skip_ws s = dropWhile is_ws s"

definition hex_val :: "char \<Rightarrow> nat option" where
  "hex_val c =
     (if is_digit c then Some (of_char c - 48)
      else if 97 \<le> (of_char c :: nat) \<and> (of_char c :: nat) \<le> 102 then Some (of_char c - 87)
      else if 65 \<le> (of_char c :: nat) \<and> (of_char c :: nat) \<le> 70 then Some (of_char c - 55)
      else None)"

definition hex4 :: "string \<Rightarrow> nat option" where
  "hex4 s = (case s of
      a # b # c # d # _ \<Rightarrow>
        (case (hex_val a, hex_val b, hex_val c, hex_val d) of
           (Some w, Some x, Some y, Some z) \<Rightarrow> Some (w * 4096 + x * 256 + y * 16 + z)
         | _ \<Rightarrow> None)
    | _ \<Rightarrow> None)"

definition is_surrogate :: "nat \<Rightarrow> bool" where
  "is_surrogate r \<longleftrightarrow> 0xD800 \<le> r \<and> r < 0xE000"

text \<open>The low half of a surrogate pair that follows an escaped high half.\<close>

definition low_surrogate :: "string \<Rightarrow> nat option" where
  "low_surrogate s = (case s of
      a # b # cs \<Rightarrow> if a = CHR 0x5C \<and> b = CHR ''u''
                    then (case hex4 cs of Some r \<Rightarrow> if 0xDC00 \<le> r \<and> r < 0xE000 then Some r else None | None \<Rightarrow> None)
                    else None
    | _ \<Rightarrow> None)"

definition simple_escape :: "char \<Rightarrow> char option" where
  "simple_escape c =
     (if c = CHR 0x22 \<or> c = CHR 0x5C \<or> c = CHR ''/'' then Some c
      else if c = CHR ''b'' then Some (CHR 0x08)
      else if c = CHR ''f'' then Some (CHR 0x0C)
      else if c = CHR ''n'' then Some (CHR 0x0A)
      else if c = CHR ''r'' then Some (CHR 0x0D)
      else if c = CHR ''t'' then Some (CHR 0x09)
      else None)"

text \<open>The rest of a string literal after its opening quote: the decoded string and what follows the
  closing quote.\<close>

definition cons_fst :: "string \<Rightarrow> (string \<times> string) option \<Rightarrow> (string \<times> string) option" where
  "cons_fst x = map_option (\<lambda>(s, r). (x @ s, r))"

function parse_string :: "string \<Rightarrow> (string \<times> string) option" where
  "parse_string [] = None"
| "parse_string (c # cs) =
     (if c = CHR 0x22 then Some ([], cs)
      else if (of_char c :: nat) < 0x20 then None
      else if c = CHR 0x5C then
        (case cs of
           [] \<Rightarrow> None
         | e # ds \<Rightarrow>
             if e = CHR ''u'' then
               (case hex4 ds of
                  None \<Rightarrow> None
                | Some r \<Rightarrow>
                    if is_surrogate r then
                      (case (r < 0xDC00, low_surrogate (drop 4 ds)) of
                         (True, Some l) \<Rightarrow>
                           cons_fst (utf8_encode_rune (0x10000 + (r - 0xD800) * 0x400 + (l - 0xDC00)))
                             (parse_string (drop 10 ds))
                       | _ \<Rightarrow> cons_fst (utf8_encode_rune RuneError) (parse_string (drop 4 ds)))
                    else cons_fst (utf8_encode_rune r) (parse_string (drop 4 ds)))
             else (case simple_escape e of
                     Some x \<Rightarrow> cons_fst [x] (parse_string ds)
                   | None \<Rightarrow> None))
      else if (of_char c :: nat) < 0x80 then cons_fst [c] (parse_string cs)
      else (let (r, n) = first_rune (c # cs)
            in cons_fst (utf8_encode_rune r) (parse_string (drop n (c # cs)))))"
  by pat_completeness auto
termination
  by (relation "measure length") (auto dest!: drop_first_rune [OF sym])

text \<open>Number literals: an optional sign, an integer part without a leading zero, an optional fraction
  and an optional exponent.\<close>

definition span_digits :: "string \<Rightarrow> string \<times> string" where
  "span_digits s = (takeWhile is_digit s, dropWhile is_digit s)"

definition scan_sign :: "string \<Rightarrow> string \<times> string" where
  "scan_sign s = (case s of c # cs \<Rightarrow> if c = CHR ''-'' then ([c], cs) else ([], s) | [] \<Rightarrow> ([], s))"

definition scan_int :: "string \<Rightarrow> (string \<times> string) option" where
  "scan_int s = (case s of
      [] \<Rightarrow> None
    | c # cs \<Rightarrow> if c = CHR ''0'' then Some ([c], cs)
                else if is_digit c then Some (span_digits s) else None)"

definition scan_frac :: "string \<Rightarrow> (string \<times> string) option" where
  "scan_frac s = (case s of
      [] \<Rightarrow> Some ([], s)
    | c # cs \<Rightarrow> if c = CHR ''.''
                then (case span_digits cs of (ds, r) \<Rightarrow> if ds = [] then None else Some (c # ds, r))
                else Some ([], s))"

definition scan_exp :: "string \<Rightarrow> (string \<times> string) option" where
  "scan_exp s = (case s of
      [] \<Rightarrow> Some ([], s)
    | c # cs \<Rightarrow> if c = CHR ''e'' \<or> c = CHR ''E''
                then (case (case cs of x # xs \<Rightarrow> if x = CHR ''+'' \<or> x = CHR ''-'' then ([x], xs) else ([], cs) | [] \<Rightarrow> ([], cs)) of
                        (sg, cs') \<Rightarrow> (case span_digits cs' of (ds, r) \<Rightarrow> if ds = [] then None else Some (c # sg @ ds, r)))
                else Some ([], s))"

definition scan_number :: "string \<Rightarrow> (string \<times> string) option" where
  "scan_number s = (case scan_sign s of (sg, s1) \<Rightarrow>
     (case scan_int s1 of
        None \<Rightarrow> None
      | Some (i, s2) \<Rightarrow>
          (case scan_frac s2 of
             None \<Rightarrow> None
           | Some (f, s3) \<Rightarrow>
               (case scan_exp s3 of None \<Rightarrow> None | Some (x, s4) \<Rightarrow> Some (sg @ i @ f @ x, s4)))))"

definition strip_prefix :: "string \<Rightarrow> string \<Rightarrow> string option" where
  "strip_prefix p s = (if take (length p) s = p then Some (drop (length p) s) else None)"

text \<open>The parser proper. The first argument is fuel (every call takes one unit, and a value takes at
  most two calls per character), the second the nesting depth still allowed.\<close>

fun parse_value :: "nat \<Rightarrow> nat \<Rightarrow> string \<Rightarrow> (json \<times> string) option"
  and parse_elements :: "nat \<Rightarrow> nat \<Rightarrow> string \<Rightarrow> (json list \<times> string) option"
  and parse_members :: "nat \<Rightarrow> nat \<Rightarrow> string \<Rightarrow> ((string \<times> json) list \<times> string) option" where
  "parse_value 0 d s = None"
| "parse_value (Suc n) d s =
     (case skip_ws s of
        [] \<Rightarrow> None
      | c # cs \<Rightarrow>
          if c = CHR ''['' then
            (if d = 0 then None
             else (case skip_ws cs of
                     [] \<Rightarrow> None
                   | x # xs \<Rightarrow> if x = CHR '']'' then Some (JArray [], xs)
                               else map_option (\<lambda>(vs, r). (JArray vs, r)) (parse_elements n (d - 1) (x # xs))))
          else if c = CHR ''{'' then
            (if d = 0 then None
             else (case skip_ws cs of
                     [] \<Rightarrow> None
                   | x # xs \<Rightarrow> if x = CHR ''}'' then Some (JObject [], xs)
                               else map_option (\<lambda>(kvs, r). (JObject kvs, r)) (parse_members n (d - 1) (x # xs))))
          else if c = CHR 0x22 then map_option (\<lambda>(s, r). (JString s, r)) (parse_string cs)
          else if c = CHR ''n'' then map_option (\<lambda>r. (JNull, r)) (strip_prefix ''ull'' cs)
          else if c = CHR ''t'' then map_option (\<lambda>r. (JBool True, r)) (strip_prefix ''rue'' cs)
          else if c = CHR ''f'' then map_option (\<lambda>r. (JBool False, r)) (strip_prefix ''alse'' cs)
          else map_option (\<lambda>(l, r). (JNumber l, r)) (scan_number (c # cs)))"
| "parse_elements 0 d s = None"
| "parse_elements (Suc n) d s =
     (case parse_value n d s of
        None \<Rightarrow> None
      | Some (v, r) \<Rightarrow>
          (case skip_ws r of
             [] \<Rightarrow> None
           | c # cs \<Rightarrow> if c = CHR '']'' then Some ([v], cs)
                       else if c = CHR '','' then map_option (\<lambda>(vs, r'). (v # vs, r')) (parse_elements n d cs)
                       else None))"
| "parse_members 0 d s = None"
| "parse_members (Suc n) d s =
     (case skip_ws s of
        [] \<Rightarrow> None
      | q # qs \<Rightarrow>
          if q \<noteq> CHR 0x22 then None
          else (case parse_string qs of
                  None \<Rightarrow> None
                | Some (k, r) \<Rightarrow>
                    (case skip_ws r of
                       [] \<Rightarrow> None
                     | c # cs \<Rightarrow>
                         if c \<noteq> CHR '':'' then None
                         else (case parse_value n d cs of
                                 None \<Rightarrow> None
                               | Some (v, r2) \<Rightarrow>
                                   (case skip_ws r2 of
                                      [] \<Rightarrow> None
                                    | e # es \<Rightarrow> if e = CHR ''}'' then Some ([(k, v)], es)
                                                else if e = CHR '','' then map_option (\<lambda>(kvs, r'). ((k, v) # kvs, r')) (parse_members n d es)
                                                else None)))))"

definition max_nesting :: nat where "max_nesting = 10000"

definition json_parse :: "string \<Rightarrow> json option" where
  "json_parse s = (case parse_value (2 * length s + 2) max_nesting s of
      Some (v, r) \<Rightarrow> if skip_ws r = [] then Some v else None
    | None \<Rightarrow> None)"

section \<open>Encoding and parsing strings\<close>

lemma of_char_char_of_small [simp]: "n < 256 \<Longrightarrow> (of_char (char_of n :: char) :: nat) = n"
  by simp

lemma first_rune_2:
  assumes "0x80 \<le> r" "r < 0x800"
  shows "first_rune (utf8_encode_rune r @ s) = (r, 2)"
proof -
  have "2 \<le> r div 64" "r div 64 < 32" "r mod 64 < 64" using assms by (auto simp: div_le_mono)
  then show ?thesis using assms
    by (simp add: first_rune_def utf8_encode_rune_def decode_rune_def is_cont_def)
qed

lemma split_base64:
  fixes r :: nat
  shows "r div 4096 * 4096 + r div 64 mod 64 * 64 + r mod 64 = r"
    and "r div 262144 * 262144 + r div 4096 mod 64 * 4096 + r div 64 mod 64 * 64 + r mod 64 = r"
proof -
  have d: "r div 64 div 64 = r div 4096" "r div 4096 div 64 = r div 262144"
    by (simp_all add: div_mult2_eq [symmetric])
  have "r div 64 * 64 + r mod 64 = r" "r div 4096 * 64 + r div 64 mod 64 = r div 64"
    "r div 262144 * 64 + r div 4096 mod 64 = r div 4096"
    using div_mult_mod_eq [of r 64] div_mult_mod_eq [of "r div 64" 64] div_mult_mod_eq [of "r div 4096" 64] d
    by simp_all
  then show "r div 4096 * 4096 + r div 64 mod 64 * 64 + r mod 64 = r"
    and "r div 262144 * 262144 + r div 4096 mod 64 * 4096 + r div 64 mod 64 * 64 + r mod 64 = r"
    by linarith+
qed

lemma decode_rune_3:
  assumes "a < 16" "b < 64" "c < 64" "a = 0 \<Longrightarrow> 32 \<le> b" "a = 13 \<Longrightarrow> b < 32"
  shows "decode_rune ((224 + a) # (128 + b) # (128 + c) # s) = (a * 4096 + b * 64 + c, 3)"
proof -
  have "second_ok (224 + a) (128 + b)" using assms by (auto simp: second_ok_def)
  then show ?thesis using assms(1,3) by (simp add: decode_rune_def is_cont_def)
qed

lemma decode_rune_4:
  assumes "a < 5" "b < 64" "c < 64" "d < 64" "a = 0 \<Longrightarrow> 16 \<le> b" "a = 4 \<Longrightarrow> b < 16"
  shows "decode_rune ((240 + a) # (128 + b) # (128 + c) # (128 + d) # s) = (a * 262144 + b * 4096 + c * 64 + d, 4)"
proof -
  have "second_ok (240 + a) (128 + b)" using assms by (auto simp: second_ok_def)
  then show ?thesis using assms(1,3,4) by (simp add: decode_rune_def is_cont_def)
qed

lemma map_of_char_char_of: "list_all (\<lambda>n. n < 256) ns \<Longrightarrow> map of_char (map char_of ns) = (ns :: nat list)"
  by (induction ns) auto

lemma mod64_cases:
  fixes q :: nat
  shows "q div 64 = 13 \<Longrightarrow> q < 864 \<or> 896 \<le> q \<Longrightarrow> q mod 64 < 32"
    and "q div 64 = 0 \<Longrightarrow> 16 \<le> q \<Longrightarrow> 16 \<le> q mod 64"
    and "q div 64 = 4 \<Longrightarrow> q \<le> 271 \<Longrightarrow> q mod 64 < 16"
proof -
  have q: "q div 64 * 64 + q mod 64 = q" "q mod 64 < 64" by simp_all
  show "q div 64 = 13 \<Longrightarrow> q < 864 \<or> 896 \<le> q \<Longrightarrow> q mod 64 < 32"
    and "q div 64 = 0 \<Longrightarrow> 16 \<le> q \<Longrightarrow> 16 \<le> q mod 64"
    and "q div 64 = 4 \<Longrightarrow> q \<le> 271 \<Longrightarrow> q mod 64 < 16"
    using q by linarith+
qed

lemma first_rune_bytes:
  assumes "utf8_encode_rune r = map char_of ns" "list_all (\<lambda>n. n < 256) ns"
  shows "first_rune (utf8_encode_rune r @ s) = decode_rune (ns @ map of_char s)"
  unfolding first_rune_def assms(1) map_append map_of_char_char_of [OF assms(2)] ..

lemma first_rune_3:
  assumes "0x800 \<le> r" "r < 0x10000" "valid_rune r"
  shows "first_rune (utf8_encode_rune r @ s) = (r, 3)"
proof -
  have b: "r div 4096 < 16" "r div 64 mod 64 < 64" "r mod 64 < 64" using assms by auto
  have lo: "32 \<le> r div 64 mod 64" if "r div 4096 = 0"
  proof -
    have "32 \<le> r div 64" "r div 64 < 64" using that assms(1) by (auto simp: div_eq_0_iff)
    then show ?thesis by simp
  qed
  have hi: "r div 64 mod 64 < 32" if "r div 4096 = 13"
  proof -
    have "r div 64 div 64 = 13" using that by (simp add: div_mult2_eq [symmetric])
    moreover have "r < 0xD800 \<or> 0xE000 \<le> r" using assms(3) by (auto simp: valid_rune_def)
    then have "r div 64 < 864 \<or> 896 \<le> r div 64" by auto
    ultimately show ?thesis by (rule mod64_cases(1))
  qed
  have enc: "utf8_encode_rune r = map char_of [224 + r div 4096, 128 + r div 64 mod 64, 128 + r mod 64]"
    using assms(1,2) by (simp add: utf8_encode_rune_def del: list.map)
  have "list_all (\<lambda>n. n < 256) [224 + r div 4096, 128 + r div 64 mod 64, 128 + r mod 64]"
    using b by (simp only: list.pred_inject) (intro conjI TrueI; linarith)
  from first_rune_bytes [OF enc this, of s] show ?thesis
    by (simp only: append.simps decode_rune_3 [OF b lo hi] split_base64(1))
qed

lemma first_rune_4:
  assumes "0x10000 \<le> r" "valid_rune r"
  shows "first_rune (utf8_encode_rune r @ s) = (r, 4)"
proof -
  have m: "r \<le> 0x10FFFF" using assms(2) by (auto simp: valid_rune_def)
  then have b: "r div 262144 < 5" "r div 4096 mod 64 < 64" "r div 64 mod 64 < 64" "r mod 64 < 64" by auto
  have top: "r div 262144 = r div 4096 div 64" by (simp add: div_mult2_eq [symmetric])
  have q: "16 \<le> r div 4096" "r div 4096 \<le> 271" using assms(1) m by auto
  have lo: "16 \<le> r div 4096 mod 64" if "r div 262144 = 0"
    using that q(1) unfolding top by (rule mod64_cases(2))
  have hi: "r div 4096 mod 64 < 16" if "r div 262144 = 4"
    using that q(2) unfolding top by (rule mod64_cases(3))
  have enc: "utf8_encode_rune r = map char_of [240 + r div 262144, 128 + r div 4096 mod 64, 128 + r div 64 mod 64, 128 + r mod 64]"
    using assms(1) by (simp add: utf8_encode_rune_def del: list.map)
  have "list_all (\<lambda>n. n < 256) [240 + r div 262144, 128 + r div 4096 mod 64, 128 + r div 64 mod 64, 128 + r mod 64]"
    using b by (simp only: list.pred_inject) (intro conjI TrueI; linarith)
  from first_rune_bytes [OF enc this, of s] show ?thesis
    by (simp only: append.simps decode_rune_4 [OF b lo hi] split_base64(2))
qed

lemma first_rune_encode:
  assumes "valid_rune r"
  shows "first_rune (utf8_encode_rune r @ s) = (r, length (utf8_encode_rune r))"
proof -
  consider "r < 0x80" | "0x80 \<le> r" "r < 0x800" | "0x800 \<le> r" "r < 0x10000" | "0x10000 \<le> r" by linarith
  then show ?thesis
  proof cases
    case 1
    then show ?thesis by (simp add: first_rune_def utf8_encode_rune_def decode_rune_def)
  next
    case 2
    then show ?thesis using first_rune_2 [of r s] by (simp add: utf8_encode_rune_def)
  next
    case 3
    then show ?thesis using first_rune_3 [of r s] assms by (simp add: utf8_encode_rune_def)
  next
    case 4
    then show ?thesis using first_rune_4 [of r s] assms by (simp add: utf8_encode_rune_def)
  qed
qed

text \<open>The bytes of a rune beyond ASCII are all above \<open>0x7F\<close>.\<close>

lemma utf8_encode_rune_head:
  assumes "0x80 \<le> r" "r \<le> 0x10FFFF"
  obtains c cs where "utf8_encode_rune r = c # cs" "0x80 \<le> (of_char c :: nat)"
proof -
  consider "r < 0x800" | "0x800 \<le> r" "r < 0x10000" | "0x10000 \<le> r" by linarith
  then show ?thesis
  proof cases
    case 1
    then have "r div 64 < 32" by auto
    with 1 assms(1) that show ?thesis by (force simp: utf8_encode_rune_def)
  next
    case 2
    then have "r div 4096 < 16" by auto
    with 2 that show ?thesis by (force simp: utf8_encode_rune_def)
  next
    case 3
    have "r div 262144 < 5" using assms(2) by auto
    with 3 that show ?thesis by (force simp: utf8_encode_rune_def)
  qed
qed

lemma hex_val_json_hex: "d < 16 \<Longrightarrow> hex_val (json_hex d) = Some d"
  by (auto simp: hex_val_def json_hex_def is_digit_def)

lemma hex4_json_u4:
  assumes "r < 65536"
  shows "hex4 (drop 2 (json_u4 r) @ s) = Some r"
proof -
  have "r div 4096 * 4096 + r div 256 mod 16 * 256 + r div 16 mod 16 * 16 + r mod 16 = r"
  proof -
    have "r div 16 * 16 + r mod 16 = r" "r div 256 * 16 + r div 16 mod 16 = r div 16"
      "r div 4096 * 16 + r div 256 mod 16 = r div 256"
      using div_mult_mod_eq [of r 16] div_mult_mod_eq [of "r div 16" 16] div_mult_mod_eq [of "r div 256" 16]
      by (simp_all add: div_mult2_eq [symmetric])
    then show ?thesis by linarith
  qed
  moreover have "r div 4096 < 16" using assms by auto
  ultimately show ?thesis by (simp add: hex4_def json_u4_def hex_val_json_hex)
qed

lemma cons_fst_Some [simp]: "cons_fst x (Some (s, r)) = Some (x @ s, r)"
  by (simp add: cons_fst_def)

lemma parse_string_u4:
  assumes "r < 65536" "\<not> is_surrogate r"
  shows "parse_string (json_u4 r @ s) = cons_fst (utf8_encode_rune r) (parse_string s)"
  using hex4_json_u4 [OF assms(1), of s] assms(2) by (simp add: json_u4_def)

lemma parse_string_ascii:
  assumes "(of_char c :: nat) < 0x80"
  shows "parse_string (ascii_escape html c @ s) = cons_fst [c] (parse_string s)"
proof -
  have u4: "parse_string (json_u4 (of_char c) @ s) = cons_fst [c] (parse_string s)"
    using parse_string_u4 [of "of_char c" s] assms by (simp add: is_surrogate_def utf8_encode_rune_def)
  show ?thesis
    using assms u4 by (auto simp: ascii_escape_def simple_escape_def)
qed

lemma parse_string_escape:
  assumes "list_all valid_rune rs"
  shows "parse_string (json_escape html (utf8_string rs) @ CHR 0x22 # rest) = Some (utf8_string rs, rest)"
  using assms
proof (induction rs)
  case Nil
  then show ?case by (simp add: utf8_string_def)
next
  case (Cons r rs)
  have v: "valid_rune r" and IH: "parse_string (json_escape html (utf8_string rs) @ CHR 0x22 # rest) = Some (utf8_string rs, rest)"
    using Cons by auto
  have split: "utf8_string (r # rs) = utf8_encode_rune r @ utf8_string rs" by (simp add: utf8_string_def)
  show ?case
  proof (cases "r < 0x80")
    case True
    then show ?thesis using IH by (simp add: split utf8_encode_rune_def parse_string_ascii)
  next
    case False
    then obtain c cs where enc: "utf8_encode_rune r = c # cs" "0x80 \<le> (of_char c :: nat)"
      using v utf8_encode_rune_head [of r thesis] by (force simp: valid_rune_def)
    have fr: "first_rune (c # cs @ t) = (r, Suc (length cs))" for t
      using first_rune_encode [OF v, of t] by (simp add: enc(1))
    have "length (utf8_encode_rune RuneError) = 3" by (simp add: RuneError_def utf8_encode_rune_def)
    then have cs: "cs \<noteq> [] \<or> r \<noteq> RuneError" using enc(1) by auto
    show ?thesis
    proof (cases "r = 0x2028 \<or> r = 0x2029")
      case True
      then show ?thesis using IH enc fr cs
        by (auto simp: split parse_string_u4 is_surrogate_def RuneError_def)
    next
      case other: False
      then show ?thesis using IH enc fr cs by (auto simp: split)
    qed
  qed
qed

lemma utf8_valid_ascii: "list_all (\<lambda>c. (of_char c :: nat) < 0x80) s \<Longrightarrow> utf8_valid s"
  unfolding utf8_valid_def
  by (rule exI [of _ "map of_char s"], induction s)
    (auto simp: utf8_string_def utf8_encode_rune_def valid_rune_def)

section \<open>Numbers\<close>

definition number_ok :: "string \<Rightarrow> bool" where
  "number_ok l \<longleftrightarrow> scan_number l = Some (l, [])"

text \<open>What may follow a value inside an encoding.\<close>

definition delim :: "string \<Rightarrow> bool" where
  "delim r \<longleftrightarrow> r = [] \<or> hd r \<in> {CHR '','', CHR '']'', CHR ''}''}"

lemma delim_simps [simp]: "delim []" "delim (CHR '','' # r)" "delim (CHR '']'' # r)" "delim (CHR ''}'' # r)"
  by (simp_all add: delim_def)

lemma delim_cases:
  assumes "delim r"
  obtains "r = []" | c cs where "r = c # cs" "\<not> is_digit c" "c \<noteq> CHR ''.''" "c \<noteq> CHR ''e''" "c \<noteq> CHR ''E''"
proof (cases r)
  case (Cons c cs)
  with assms that(2) [of c cs] show ?thesis by (auto simp: delim_def is_digit_def)
qed (use that in simp)

lemma span_digits_append:
  assumes "delim r"
  shows "span_digits (s @ r) = (fst (span_digits s), snd (span_digits s) @ r)"
proof -
  have "takeWhile is_digit r = [] \<and> dropWhile is_digit r = r"
    using assms by (rule delim_cases) simp_all
  then show ?thesis
    by (induction s) (auto simp: span_digits_def)
qed

lemma scan_int_append:
  "scan_int s = Some (i, t) \<Longrightarrow> delim r \<Longrightarrow> scan_int (s @ r) = Some (i, t @ r)"
  by (cases s) (auto simp: scan_int_def span_digits_append [of r "_ # _", simplified] split: if_splits)

lemma scan_frac_append:
  assumes "scan_frac s = Some (f, t)" "delim r"
  shows "scan_frac (s @ r) = Some (f, t @ r)"
proof (cases s)
  case Nil
  then show ?thesis
    using assms(1) by (rule_tac delim_cases [OF assms(2)]) (auto simp: scan_frac_def)
next
  case (Cons c cs)
  then show ?thesis
    using assms by (auto simp: scan_frac_def span_digits_append [OF assms(2)] split: if_splits prod.splits)
qed

lemma scan_exp_append:
  assumes "scan_exp s = Some (x, t)" "delim r"
  shows "scan_exp (s @ r) = Some (x, t @ r)"
proof (cases s)
  case Nil
  then show ?thesis
    using assms(1) by (rule_tac delim_cases [OF assms(2)]) (auto simp: scan_exp_def)
next
  case (Cons c cs)
  have "cs \<noteq> []" if "c = CHR ''e'' \<or> c = CHR ''E''"
    using assms(1) that Cons by (auto simp: scan_exp_def span_digits_def)
  then show ?thesis
    using assms(1) Cons
    by (cases cs) (auto simp: scan_exp_def span_digits_append [OF assms(2)] span_digits_append [OF assms(2), of "_ # _", simplified]
        split: if_splits prod.splits)
qed

lemma scan_number_append:
  assumes "number_ok l" "delim r"
  shows "scan_number (l @ r) = Some (l, r)"
proof -
  obtain sg s1 where sg: "scan_sign l = (sg, s1)" by (cases "scan_sign l")
  obtain i s2 f s3 x s4 where parts: "scan_int s1 = Some (i, s2)" "scan_frac s2 = Some (f, s3)"
      "scan_exp s3 = Some (x, s4)" "sg @ i @ f @ x = l" "s4 = []"
    using assms(1) sg by (auto simp: number_ok_def scan_number_def split: option.splits prod.splits)
  have "l \<noteq> []" using parts(1) sg by (cases l) (auto simp: scan_sign_def scan_int_def)
  then have "scan_sign (l @ r) = (sg, s1 @ r)" using sg by (cases l) (auto simp: scan_sign_def split: if_splits)
  then show ?thesis
    using scan_int_append [OF parts(1) assms(2)] scan_frac_append [OF parts(2) assms(2)]
      scan_exp_append [OF parts(3) assms(2)] parts(4,5) by (simp add: scan_number_def)
qed

section \<open>Parsing what was encoded\<close>

text \<open>Values that Go can produce: number literals and strings of valid UTF-8.\<close>

fun json_ok :: "json \<Rightarrow> bool" where
  "json_ok (JNumber l) = number_ok l"
| "json_ok (JString s) = utf8_valid s"
| "json_ok (JArray vs) = (\<forall>v\<in>set vs. json_ok v)"
| "json_ok (JObject kvs) = (\<forall>(k, v)\<in>set kvs. utf8_valid k \<and> json_ok v)"
| "json_ok _ = True"

fun json_depth :: "json \<Rightarrow> nat" where
  "json_depth (JArray vs) = Suc (foldr max (map json_depth vs) 0)"
| "json_depth (JObject kvs) = Suc (foldr max (map (\<lambda>(k, v). json_depth v) kvs) 0)"
| "json_depth _ = 0"

fun json_fuel :: "json \<Rightarrow> nat" where
  "json_fuel (JArray vs) = Suc (sum_list (map (\<lambda>v. Suc (json_fuel v)) vs))"
| "json_fuel (JObject kvs) = Suc (sum_list (map (\<lambda>(k, v). Suc (json_fuel v)) kvs))"
| "json_fuel _ = 1"

lemma foldr_max_bound: "x \<in> set xs \<Longrightarrow> x \<le> foldr max xs (0::nat)"
  by (induction xs) auto

lemma number_head:
  assumes "number_ok l"
  obtains c cs where "l = c # cs" "c = CHR ''-'' \<or> is_digit c"
proof (cases l)
  case Nil
  then show ?thesis using assms by (simp add: number_ok_def scan_number_def scan_sign_def scan_int_def)
next
  case (Cons c cs)
  then show ?thesis
    using assms that
    by (auto simp: number_ok_def scan_number_def scan_sign_def scan_int_def is_digit_def split: if_splits option.splits)
qed

definition value_start :: "char \<Rightarrow> bool" where
  "value_start c \<longleftrightarrow> \<not> is_ws c \<and> c \<notin> {CHR '']'', CHR ''}'', CHR '',''}"

lemma encode_head:
  assumes "json_ok v"
  obtains c cs where "json_encode html v = c # cs" "value_start c"
proof (cases v)
  case (JNumber l)
  then obtain c cs where "l = c # cs" "c = CHR ''-'' \<or> is_digit c"
    using assms number_head [of l] by auto
  moreover from this(2) have "value_start c" by (auto simp: value_start_def is_ws_def is_digit_def)
  ultimately show ?thesis using that JNumber by simp
next
  case (JBool b)
  then show ?thesis using that by (cases b) (auto simp: value_start_def is_ws_def)
qed (use that in \<open>auto simp: value_start_def is_ws_def json_quote_def\<close>)

lemma skip_ws_start [simp]: "value_start c \<Longrightarrow> skip_ws (c # cs) = c # cs"
  by (simp add: skip_ws_def value_start_def)

lemma skip_ws_punct [simp]:
  "skip_ws (CHR '','' # cs) = CHR '','' # cs" "skip_ws (CHR '']'' # cs) = CHR '']'' # cs"
  "skip_ws (CHR ''}'' # cs) = CHR ''}'' # cs" "skip_ws (CHR '':'' # cs) = CHR '':'' # cs"
  "skip_ws (CHR ''['' # cs) = CHR ''['' # cs" "skip_ws (CHR ''{'' # cs) = CHR ''{'' # cs"
  "skip_ws (CHR 0x22 # cs) = CHR 0x22 # cs" "skip_ws (CHR ''n'' # cs) = CHR ''n'' # cs"
  "skip_ws (CHR ''t'' # cs) = CHR ''t'' # cs" "skip_ws (CHR ''f'' # cs) = CHR ''f'' # cs"
  by (simp_all add: skip_ws_def is_ws_def)

lemma parse_quoted: "utf8_valid s \<Longrightarrow> parse_string (json_escape html s @ CHR 0x22 # rest) = Some (s, rest)"
  using parse_string_escape by (auto simp: utf8_valid_def)

text \<open>A value that parses back whatever follows it.\<close>

definition parses :: "bool \<Rightarrow> nat \<Rightarrow> json \<Rightarrow> bool" where
  "parses html d v \<longleftrightarrow> json_ok v \<and>
     (\<forall>n rest. json_fuel v \<le> n \<longrightarrow> delim rest \<longrightarrow> parse_value n d (json_encode html v @ rest) = Some (v, rest))"

lemma parse_elements_encoded:
  assumes "\<forall>v\<in>set vs. parses html d v" "vs \<noteq> []" "sum_list (map (\<lambda>v. Suc (json_fuel v)) vs) \<le> n"
  shows "parse_elements n d (json_join (map (json_encode html) vs) @ CHR '']'' # rest) = Some (vs, rest)"
  using assms
proof (induction vs arbitrary: n)
  case (Cons v vs)
  then obtain m where n: "n = Suc m" "json_fuel v \<le> m" "sum_list (map (\<lambda>v. Suc (json_fuel v)) vs) \<le> m"
    by (cases n) auto
  have v: "parse_value m d (json_encode html v @ r) = Some (v, r)" if "delim r" for r
    using Cons.prems(1) n(2) that by (simp add: parses_def)
  show ?case
  proof (cases vs)
    case Nil
    then show ?thesis using v n by simp
  next
    case (Cons w ws)
    then show ?thesis using v n Cons.IH [of m] Cons.prems(1) by simp
  qed
qed simp

lemma parse_members_encoded:
  assumes "\<forall>(k, v)\<in>set kvs. utf8_valid k \<and> parses html d v" "kvs \<noteq> []"
    and "sum_list (map (\<lambda>(k, v). Suc (json_fuel v)) kvs) \<le> n"
  shows "parse_members n d (json_join (map (\<lambda>(k, v). json_quote html k @ CHR '':'' # json_encode html v) kvs) @ CHR ''}'' # rest) = Some (kvs, rest)"
  using assms
proof (induction kvs arbitrary: n)
  case (Cons kv kvs)
  obtain k v where kv: "kv = (k, v)" by (cases kv)
  obtain m where n: "n = Suc m" "json_fuel v \<le> m" "sum_list (map (\<lambda>(k, v). Suc (json_fuel v)) kvs) \<le> m"
    using Cons.prems(3) kv by (cases n) auto
  have v: "parse_value m d (json_encode html v @ r) = Some (v, r)" if "delim r" for r
    using Cons.prems(1) n(2) that by (simp add: parses_def kv)
  have k: "parse_string (json_escape html k @ CHR 0x22 # r) = Some (k, r)" for r
    using Cons.prems(1) parse_quoted by (simp add: kv)
  show ?case
  proof (cases kvs)
    case Nil
    then show ?thesis using v k n by (simp add: kv json_quote_def)
  next
    case (Cons w ws)
    then show ?thesis using v k n Cons.IH [of m] Cons.prems(1) by (simp add: kv json_quote_def)
  qed
qed simp

lemma digit_start:
  "is_digit c \<Longrightarrow> c \<notin> {CHR ''['', CHR ''{'', CHR 0x22, CHR ''n'', CHR ''t'', CHR ''f''} \<and> value_start c"
  by (auto simp: value_start_def is_ws_def is_digit_def)

lemma parses_number:
  assumes "number_ok l"
  shows "parses html d (JNumber l)"
proof -
  obtain c cs where l: "l = c # cs" "c = CHR ''-'' \<or> is_digit c" using number_head [OF assms] .
  have "c \<notin> {CHR ''['', CHR ''{'', CHR 0x22, CHR ''n'', CHR ''t'', CHR ''f''} \<and> value_start c"
    using l(2)
  proof
    assume "c = CHR ''-''"
    then show ?thesis by (simp add: value_start_def is_ws_def)
  qed (rule digit_start)
  then have "parse_value (Suc n) d (l @ r) = Some (JNumber l, r)" if "delim r" for n r
    using scan_number_append [OF assms that] by (simp add: l(1))
  then show ?thesis using assms by (auto simp: parses_def Suc_le_eq gr0_conv_Suc)
qed

lemma parse_value_bracket:
  assumes "value_start c"
  shows "parse_value (Suc n) (Suc d) (CHR ''['' # c # cs) = map_option (\<lambda>(vs, r). (JArray vs, r)) (parse_elements n d (c # cs))"
    and "parse_value (Suc n) (Suc d) (CHR ''{'' # c # cs) = map_option (\<lambda>(kvs, r). (JObject kvs, r)) (parse_members n d (c # cs))"
  using assms by (auto simp: value_start_def)

lemma join_head: "f v = c # cs \<Longrightarrow> \<exists>ds. json_join (map f (v # vs)) = c # ds"
  by (cases vs) auto

lemma parses_array:
  assumes "\<forall>v\<in>set vs. parses html d v"
  shows "parses html (Suc d) (JArray vs)"
proof (cases vs)
  case Nil
  then show ?thesis by (auto simp: parses_def Suc_le_eq gr0_conv_Suc)
next
  case (Cons v ws)
  obtain c cs where "json_encode html v = c # cs" and c: "value_start c"
    using encode_head [of v html] assms Cons by (auto simp: parses_def)
  then obtain ds where ds: "json_join (map (json_encode html) vs) = c # ds"
    using join_head [of "json_encode html" v c cs ws] by (auto simp: Cons)
  have "parse_value n (Suc d) (json_encode html (JArray vs) @ rest) = Some (JArray vs, rest)"
    if fuel: "json_fuel (JArray vs) \<le> n" and "delim rest" for n rest
  proof -
    obtain m where n: "n = Suc m" "sum_list (map (\<lambda>v. Suc (json_fuel v)) vs) \<le> m"
      using fuel by (cases n) auto
    have "parse_elements m d ((c # ds) @ CHR '']'' # rest) = Some (vs, rest)"
      using parse_elements_encoded [OF assms _ n(2), of rest] ds Cons by simp
    then show ?thesis using parse_value_bracket(1) [OF c, of m d "ds @ CHR '']'' # rest"] n(1) ds by simp
  qed
  moreover have "json_ok (JArray vs)" using assms by (auto simp: parses_def)
  ultimately show ?thesis by (simp add: parses_def)
qed

lemma parses_object:
  assumes "\<forall>(k, v)\<in>set kvs. utf8_valid k \<and> parses html d v"
  shows "parses html (Suc d) (JObject kvs)"
proof (cases kvs)
  case Nil
  then show ?thesis by (auto simp: parses_def Suc_le_eq gr0_conv_Suc)
next
  case (Cons kv ws)
  let ?f = "\<lambda>(k, v). json_quote html k @ CHR '':'' # json_encode html v"
  obtain cs where "?f kv = CHR 0x22 # cs" by (cases kv) (simp add: json_quote_def)
  then obtain ds where ds: "json_join (map ?f kvs) = CHR 0x22 # ds"
    using join_head [of ?f kv "CHR 0x22" cs ws] by (auto simp: Cons)
  have c: "value_start (CHR 0x22)" by (simp add: value_start_def is_ws_def)
  have "parse_value n (Suc d) (json_encode html (JObject kvs) @ rest) = Some (JObject kvs, rest)"
    if fuel: "json_fuel (JObject kvs) \<le> n" and "delim rest" for n rest
  proof -
    obtain m where n: "n = Suc m" "sum_list (map (\<lambda>(k, v). Suc (json_fuel v)) kvs) \<le> m"
      using fuel by (cases n) auto
    have "parse_members m d ((CHR 0x22 # ds) @ CHR ''}'' # rest) = Some (kvs, rest)"
      using parse_members_encoded [OF assms _ n(2), of rest] ds Cons by simp
    then show ?thesis using parse_value_bracket(2) [OF c, of m d "ds @ CHR ''}'' # rest"] n(1) ds by simp
  qed
  moreover have "json_ok (JObject kvs)" using assms by (auto simp: parses_def)
  ultimately show ?thesis by (simp add: parses_def)
qed

lemma json_parses: "json_ok v \<Longrightarrow> json_depth v \<le> d \<Longrightarrow> parses html d v"
proof (induction html v arbitrary: d rule: json_encode.induct)
  case (5 html vs)
  then obtain e where "d = Suc e" "foldr max (map json_depth vs) 0 \<le> e" by (cases d) auto
  moreover from this(2) have "json_depth v \<le> e" if "v \<in> set vs" for v
    using that foldr_max_bound [of "json_depth v" "map json_depth vs"] by simp
  ultimately show ?case using 5 by (simp add: parses_array)
next
  case (6 html kvs)
  then obtain e where "d = Suc e" "foldr max (map (\<lambda>(k, v). json_depth v) kvs) 0 \<le> e" by (cases d) auto
  moreover from this(2) have "json_depth v \<le> e" if "(k, v) \<in> set kvs" for k v
    using that foldr_max_bound [of "json_depth v" "map (\<lambda>(k, v). json_depth v) kvs"] by force
  ultimately have "\<forall>(k, v)\<in>set kvs. utf8_valid k \<and> parses html e v" using 6 by auto
  then show ?case using \<open>d = Suc e\<close> parses_object by simp
qed (auto simp: parses_number, auto simp: parses_def Suc_le_eq gr0_conv_Suc strip_prefix_def json_quote_def parse_quoted)

text \<open>The fuel that \<^const>\<open>json_parse\<close> provides is enough.\<close>

lemma fuel_join:
  assumes "\<forall>v\<in>set vs. fuel v \<le> 2 * length (enc v)"
  shows "sum_list (map (\<lambda>v. Suc (fuel v)) vs) \<le> 2 * length (json_join (map enc vs)) + 1"
  using assms
proof (induction vs)
  case (Cons v vs)
  then show ?case by (cases vs) auto
qed simp

lemma fuel_bound: "json_ok v \<Longrightarrow> json_fuel v \<le> 2 * length (json_encode html v)"
proof (induction html v rule: json_encode.induct)
  case (5 html vs)
  then show ?case using fuel_join [of vs json_fuel "json_encode html"] by simp
next
  case (6 html kvs)
  then have "json_fuel v \<le> 2 * length (json_quote html k @ CHR '':'' # json_encode html v)" if "(k, v) \<in> set kvs" for k v
    using that by fastforce
  then show ?case
    using fuel_join [of kvs "\<lambda>(k, v). json_fuel v" "\<lambda>(k, v). json_quote html k @ CHR '':'' # json_encode html v"]
    by (auto simp: case_prod_unfold)
next
  case (3 html l)
  then show ?case using number_head [of l] by (cases l) auto
qed (auto simp: json_quote_def)

lemma json_parse_encode:
  assumes "json_ok v" "json_depth v \<le> max_nesting"
  shows "json_parse (json_encode html v) = Some v"
proof -
  have "parse_value (2 * length (json_encode html v) + 2) max_nesting (json_encode html v @ []) = Some (v, [])"
    using json_parses [OF assms] fuel_bound [OF assms(1), of html] unfolding parses_def
    by (metis delim_simps(1) trans_le_add1)
  then show ?thesis by (simp add: json_parse_def skip_ws_def)
qed

end
