(* ===== verification/Content.thy ===== *)
theory Content
  imports Json
begin

text \<open>
  Message content (\<^verbatim>\<open>content.go\<close>) and its text field (\<^verbatim>\<open>channelmessage.go\<close>). A content value is a Go value
  that \<^verbatim>\<open>encoding/json\<close> turns into a JSON value, or one that it cannot encode (a channel, a function,
  a number that is not finite).
\<close>

section \<open>content.go\<close>

datatype content = ContentNil | ContentValue json | ContentUnsupported go_error

definition Text :: "string \<Rightarrow> content" where
  "Text s = ContentValue (JObject [(''t'', JString s)])"

definition maxContentLength :: nat where "maxContentLength = 8000"

definition strip_newline :: "string \<Rightarrow> string" where
  "strip_newline out = (if 0 < length out \<and> last out = CHR 0x0A then butlast out else out)"

definition marshalContent :: "content \<Rightarrow> string result" where
  "marshalContent content =
     (case (case content of ContentNil \<Rightarrow> ContentValue (JObject []) | c \<Rightarrow> c) of
        ContentUnsupported e \<Rightarrow> Inl e
      | ContentValue v \<Rightarrow> Inr (strip_newline (json_encode False v @ [CHR 0x0A]))
      | ContentNil \<Rightarrow> Inr (strip_newline (json_encode False (JObject []) @ [CHR 0x0A])))"

definition validateContentLength :: "string \<Rightarrow> go_error option" where
  "validateContentLength jsonContent =
     (let l = UTF16Len jsonContent in
      if maxContentLength < l
      then Some (ErrNew (''message.content exceeds the allowed length! Maximum total of '' @
             FormatInt (int maxContentLength) @ '' characters. Current length: '' @ FormatInt (int l)))
      else None)"

section \<open>Decoding into structs\<close>

text \<open>A key selects a struct field when it equals the field's name, or when both are equal after case
  folding. Only the long s and the Kelvin sign fold to ASCII letters.\<close>

fun fold_name :: "string \<Rightarrow> string" where
  "fold_name (a # b # c # cs) =
     (if a = CHR 0xC5 \<and> b = CHR 0xBF then CHR ''S'' # fold_name (c # cs)
      else if a = CHR 0xE2 \<and> b = CHR 0x84 \<and> c = CHR 0xAA then CHR ''K'' # fold_name cs
      else (if 97 \<le> (of_char a :: nat) \<and> (of_char a :: nat) \<le> 122 then char_of ((of_char a :: nat) - 32) else a) # fold_name (b # c # cs))"
| "fold_name [a, b] =
     (if a = CHR 0xC5 \<and> b = CHR 0xBF then [CHR ''S'']
      else (if 97 \<le> (of_char a :: nat) \<and> (of_char a :: nat) \<le> 122 then char_of ((of_char a :: nat) - 32) else a) # fold_name [b])"
| "fold_name [a] = [if 97 \<le> (of_char a :: nat) \<and> (of_char a :: nat) \<le> 122 then char_of ((of_char a :: nat) - 32) else a]"
| "fold_name [] = []"

definition key_matches :: "string \<Rightarrow> string \<Rightarrow> bool" where
  "key_matches name k \<longleftrightarrow> k = name \<or> fold_name k = fold_name name"

text \<open>A field of type string takes the last string given for it; a value of another type is a type
  error that leaves the field as it was, and \<^verbatim>\<open>null\<close> changes nothing.\<close>

definition string_field :: "string \<Rightarrow> (string \<times> json) list \<Rightarrow> string" where
  "string_field name kvs = foldl (\<lambda>acc (k, v).
     if key_matches name k then (case v of JString s \<Rightarrow> s | _ \<Rightarrow> acc) else acc) [] kvs"

definition ContentText :: "string \<Rightarrow> string" where
  "ContentText content =
     (if content = [] then []
      else case json_parse content of
             Some (JObject kvs) \<Rightarrow> string_field ''t'' kvs
           | _ \<Rightarrow> [])"

section \<open>JSON.stringify\<close>

text \<open>How \<^verbatim>\<open>JSON.stringify\<close> writes one character of a string (a scalar value): ECMAScript escapes the
  quote, the backslash and the control characters, and writes everything else as it is.\<close>

definition js_rune :: "rune \<Rightarrow> string" where
  "js_rune r = (if r < 0x80 then ascii_escape False (char_of r) else utf8_encode_rune r)"

definition js_quote :: "rune list \<Rightarrow> string" where
  "js_quote rs = CHR 0x22 # concat (map js_rune rs) @ [CHR 0x22]"

definition go_rune :: "rune \<Rightarrow> string" where
  "go_rune r = (if r = 0x2028 \<or> r = 0x2029 then json_u4 r else js_rune r)"

lemma json_escape_go_rune:
  assumes "valid_rune r"
  shows "json_escape False (utf8_encode_rune r @ s) = go_rune r @ json_escape False s"
proof (cases "r < 0x80")
  case True
  then show ?thesis by (simp add: utf8_encode_rune_def go_rune_def js_rune_def)
next
  case False
  then obtain c cs where enc: "utf8_encode_rune r = c # cs" "0x80 \<le> (of_char c :: nat)"
    using assms utf8_encode_rune_head [of r thesis] by (force simp: valid_rune_def)
  have fr: "first_rune (c # cs @ s) = (r, Suc (length cs))"
    using first_rune_encode [OF assms, of s] by (simp add: enc(1))
  have "length (utf8_encode_rune RuneError) = 3" by (simp add: RuneError_def utf8_encode_rune_def)
  then have "cs \<noteq> [] \<or> r \<noteq> RuneError" using enc(1) by auto
  then show ?thesis using enc fr False by (auto simp: go_rune_def js_rune_def)
qed

lemma json_escape_runes:
  "list_all valid_rune rs \<Longrightarrow> json_escape False (utf8_string rs) = concat (map go_rune rs)"
  by (induction rs) (simp_all add: utf8_string_def json_escape_go_rune)

lemma go_rune_longer: "length (js_rune r) \<le> length (go_rune r)"
  by (auto simp: go_rune_def js_rune_def json_u4_def utf8_encode_rune_def)

lemma go_js_equal: "concat (map go_rune rs) = concat (map js_rune rs) \<longleftrightarrow> 0x2028 \<notin> set rs \<and> 0x2029 \<notin> set rs"
proof
  have sum: "(\<Sum>r\<leftarrow>rs. length (js_rune r)) \<le> (\<Sum>r\<leftarrow>rs. length (go_rune r))" for rs
    by (rule sum_list_mono) (rule go_rune_longer)
  assume eq: "concat (map go_rune rs) = concat (map js_rune rs)"
  have "length (go_rune r) = length (js_rune r)" if mem: "r \<in> set rs" for r
  proof -
    obtain xs ys where rs: "rs = xs @ r # ys" using split_list [OF mem] by blast
    have "length (concat (map go_rune rs)) = length (concat (map js_rune rs))" using eq by simp
    then show ?thesis
      using sum [of xs] sum [of ys] go_rune_longer [of r] by (simp add: rs length_concat comp_def)
  qed
  moreover have "length (go_rune 0x2028) \<noteq> length (js_rune 0x2028)" "length (go_rune 0x2029) \<noteq> length (js_rune 0x2029)"
    by (simp_all add: go_rune_def js_rune_def json_u4_def utf8_encode_rune_def)
  ultimately show "0x2028 \<notin> set rs \<and> 0x2029 \<notin> set rs" by blast
next
  assume no: "0x2028 \<notin> set rs \<and> 0x2029 \<notin> set rs"
  then have "map go_rune rs = map js_rune rs" by (auto simp: go_rune_def)
  then show "concat (map go_rune rs) = concat (map js_rune rs)" by (rule arg_cong)
qed

section \<open>Properties\<close>

lemma strip_newline_snoc [simp]: "strip_newline (s @ [CHR 0x0A]) = s"
  by (simp add: strip_newline_def)

lemma marshalContent_value [simp]: "marshalContent (ContentValue v) = Inr (json_encode False v)"
  by (simp add: marshalContent_def)

lemma text_value_ok:
  assumes "utf8_valid s"
  shows "json_ok (JObject [(''t'', JString s)])" "json_depth (JObject [(''t'', JString s)]) \<le> max_nesting"
  using assms by (simp_all add: utf8_valid_ascii max_nesting_def)

text \<open>
  Content survives serialization: whatever value the application passes (numbers that are JSON
  literals, strings of valid UTF-8, nesting within the parser's limit), parsing the marshalled
  content gives that value back.
\<close>

theorem marshalContent_roundtrip:
  assumes "json_ok v" "json_depth v \<le> max_nesting"
  shows "\<exists>s. marshalContent (ContentValue v) = Inr s \<and> json_parse s = Some v"
  using json_parse_encode [OF assms] by simp

theorem marshalContent_roundtrip_witness:
  "\<exists>s. marshalContent (ContentValue (JArray [JNumber ''-12.5e3'', JString ''a<b'', JNull])) = Inr s \<and>
     json_parse s = Some (JArray [JNumber ''-12.5e3'', JString ''a<b'', JNull])"
  by (rule marshalContent_roundtrip)
    (simp_all add: utf8_valid_ascii max_nesting_def number_ok_def scan_number_def scan_sign_def scan_int_def
      scan_frac_def scan_exp_def span_digits_def is_digit_def)

text \<open>
  C22. A plain text message reads back: the text that \<^verbatim>\<open>ContentText\<close> finds in the marshalled content of
  \<^verbatim>\<open>Text(s)\<close> is \<open>s\<close>, for every string of valid UTF-8.
\<close>

theorem ContentText_of_Text:
  assumes "utf8_valid s"
  shows "\<exists>c. marshalContent (Text s) = Inr c \<and> ContentText c = s"
proof -
  let ?v = "JObject [(''t'', JString s)]"
  have "json_parse (json_encode False ?v) = Some ?v"
    using json_parse_encode [OF text_value_ok [OF assms]] .
  then have "ContentText (json_encode False ?v) = s"
    by (auto simp: ContentText_def string_field_def key_matches_def)
  then show ?thesis by (simp add: Text_def)
qed

theorem ContentText_of_Text_witness: "\<exists>c. marshalContent (Text ''hi @bob'') = Inr c \<and> ContentText c = ''hi @bob''"
  by (rule ContentText_of_Text) (simp add: utf8_valid_ascii)

text \<open>
  C23. The JSON that \<^verbatim>\<open>marshalContent\<close> writes for a string is the one \<^verbatim>\<open>JSON.stringify\<close> writes exactly when
  the string has neither U+2028 nor U+2029: Go escapes these two characters also without HTML
  escaping, so that the claim that the output matches what a JavaScript bot would send fails there,
  and with it the length that is compared with the limit.
\<close>

theorem marshalContent_matches_stringify:
  assumes "list_all valid_rune rs"
  shows "marshalContent (ContentValue (JString (utf8_string rs))) = Inr (js_quote rs) \<longleftrightarrow>
    0x2028 \<notin> set rs \<and> 0x2029 \<notin> set rs"
  using go_js_equal [of rs] json_escape_runes [OF assms] by (simp add: json_quote_def js_quote_def)

theorem marshalContent_matches_stringify_witness:
  "marshalContent (ContentValue (JString (utf8_string [0x61, 0x2028]))) \<noteq> Inr (js_quote [0x61, 0x2028])"
  using marshalContent_matches_stringify [of "[0x61, 0x2028]"] by (simp add: valid_rune_def)

text \<open>
  The length check admits exactly the contents of at most 8000 UTF-16 code units, counted on the
  encoding that a JavaScript client measures, and reports the limit and the length otherwise.
\<close>

theorem validateContentLength_exact:
  "validateContentLength s =
     (if length (UTF16Encode s) \<le> 8000 then None
      else Some (ErrNew (''message.content exceeds the allowed length! Maximum total of 8000 characters. Current length: '' @
             FormatInt (int (length (UTF16Encode s))))))"
proof -
  have "FormatInt 8000 = ''8000''"
    by (simp add: FormatInt_def nat_digits.simps digit_char_def char_of_def bit_0)
  then show ?thesis
    by (simp add: validateContentLength_def maxContentLength_def UTF16Len_eq Let_def)
qed

end
