(* ===== verification/Json_Struct.thy ===== *)
theory Json_Struct
  imports Content
begin

text \<open>
  Structs in \<^verbatim>\<open>encoding/json\<close>. A tag describes how one field of a struct is encoded and how a JSON value
  is stored into it; the tags of a struct give its encoder and its decoder. Decoding follows
  \<^verbatim>\<open>json.Unmarshal\<close>: an unknown key is ignored, a key is matched exactly first and case-insensitively
  after that, a value of a wrong type leaves the field as it was, \<^verbatim>\<open>null\<close> changes nothing.
\<close>

section \<open>Tags\<close>

type_synonym 'a tag = "string \<times> ('a \<Rightarrow> json option) \<times> (json \<Rightarrow> 'a \<Rightarrow> 'a)"

definition string_tag :: "string \<Rightarrow> ('a \<Rightarrow> string) \<Rightarrow> ((string \<Rightarrow> string) \<Rightarrow> 'a \<Rightarrow> 'a) \<Rightarrow> 'a tag" where
  "string_tag name get upd =
     (name, \<lambda>x. if get x = [] then None else Some (JString (get x)),
      \<lambda>v x. case v of JString s \<Rightarrow> upd (\<lambda>_. s) x | _ \<Rightarrow> x)"

text \<open>The same without \<^verbatim>\<open>omitempty\<close>.\<close>

definition string_tag_always :: "string \<Rightarrow> ('a \<Rightarrow> string) \<Rightarrow> ((string \<Rightarrow> string) \<Rightarrow> 'a \<Rightarrow> 'a) \<Rightarrow> 'a tag" where
  "string_tag_always name get upd =
     (name, \<lambda>x. Some (JString (get x)),
      \<lambda>v x. case v of JString s \<Rightarrow> upd (\<lambda>_. s) x | _ \<Rightarrow> x)"

text \<open>A Go \<^verbatim>\<open>int\<close>; \<open>omit\<close> says whether the field has \<^verbatim>\<open>omitempty\<close>.\<close>

definition int_tag :: "bool \<Rightarrow> string \<Rightarrow> ('a \<Rightarrow> int64) \<Rightarrow> ((int64 \<Rightarrow> int64) \<Rightarrow> 'a \<Rightarrow> 'a) \<Rightarrow> 'a tag" where
  "int_tag omit name get upd =
     (name, \<lambda>x. if omit \<and> get x = 0 then None else Some (JNumber (FormatInt (sint (get x)))),
      \<lambda>v x. case v of
          JNumber l \<Rightarrow> (case ParseInt l of (n, None) \<Rightarrow> upd (\<lambda>_. n) x | _ \<Rightarrow> x)
        | _ \<Rightarrow> x)"

definition uint32_tag :: "string \<Rightarrow> ('a \<Rightarrow> uint32) \<Rightarrow> ((uint32 \<Rightarrow> uint32) \<Rightarrow> 'a \<Rightarrow> 'a) \<Rightarrow> 'a tag" where
  "uint32_tag name get upd =
     (name, \<lambda>x. if get x = 0 then None else Some (JNumber (nat_digits (unat (get x)))),
      \<lambda>v x. case v of
          JNumber l \<Rightarrow> (case ParseUint l of Inr n \<Rightarrow> if n < 2 ^ 32 then upd (\<lambda>_. of_nat n) x else x | Inl _ \<Rightarrow> x)
        | _ \<Rightarrow> x)"

definition bool_tag :: "string \<Rightarrow> ('a \<Rightarrow> bool) \<Rightarrow> ((bool \<Rightarrow> bool) \<Rightarrow> 'a \<Rightarrow> 'a) \<Rightarrow> 'a tag" where
  "bool_tag name get upd =
     (name, \<lambda>x. if get x then Some (JBool True) else None,
      \<lambda>v x. case v of JBool b \<Rightarrow> upd (\<lambda>_. b) x | _ \<Rightarrow> x)"

section \<open>Encoding and decoding\<close>

definition struct_json :: "'a tag list \<Rightarrow> 'a \<Rightarrow> json" where
  "struct_json tags x =
     JObject (concat (map (\<lambda>(n, enc, _). case enc x of Some v \<Rightarrow> [(n, v)] | None \<Rightarrow> []) tags))"

definition tag_for :: "'a tag list \<Rightarrow> string \<Rightarrow> (json \<Rightarrow> 'a \<Rightarrow> 'a) option" where
  "tag_for tags k = (case find (\<lambda>(n, _). n = k) tags of
      Some (_, _, dec) \<Rightarrow> Some dec
    | None \<Rightarrow> map_option (\<lambda>(_, _, dec). dec) (find (\<lambda>(n, _). fold_name n = fold_name k) tags))"

definition decode_struct :: "'a tag list \<Rightarrow> 'a \<Rightarrow> json \<Rightarrow> 'a" where
  "decode_struct tags x v = (case v of
      JObject kvs \<Rightarrow> foldl (\<lambda>x (k, v). case tag_for tags k of Some dec \<Rightarrow> dec v x | None \<Rightarrow> x) x kvs
    | _ \<Rightarrow> x)"

text \<open>A slice is nil (\<^const>\<open>None\<close>) or a list of elements.\<close>

type_synonym 'a slice = "'a list option"

definition elems :: "'a slice \<Rightarrow> 'a list" where
  "elems s = (case s of Some xs \<Rightarrow> xs | None \<Rightarrow> [])"

lemma elems_simps [simp]: "elems None = []" "elems (Some xs) = xs"
  by (simp_all add: elems_def)

definition slice_json :: "'a tag list \<Rightarrow> 'a slice \<Rightarrow> json" where
  "slice_json tags s = (case s of Some xs \<Rightarrow> JArray (map (struct_json tags) xs) | None \<Rightarrow> JNull)"

text \<open>\<^verbatim>\<open>json.Marshal\<close> of a slice, and \<^verbatim>\<open>json.Unmarshal\<close> into a nil slice of structs whose error is
  ignored.\<close>

definition marshal_slice :: "'a tag list \<Rightarrow> 'a slice \<Rightarrow> string" where
  "marshal_slice tags s = json_encode True (slice_json tags s)"

definition unmarshal_slice :: "'a tag list \<Rightarrow> 'a \<Rightarrow> string \<Rightarrow> 'a slice" where
  "unmarshal_slice tags zero s = (case json_parse s of
      Some (JArray vs) \<Rightarrow> Some (map (decode_struct tags zero) vs)
    | _ \<Rightarrow> None)"

section \<open>Round trip\<close>

text \<open>Storing an encoded field into a struct; an omitted field changes nothing.\<close>

definition apply_tag :: "'a tag \<Rightarrow> 'a \<Rightarrow> 'a \<Rightarrow> 'a" where
  "apply_tag t x y = (case t of (_, enc, dec) \<Rightarrow> case enc x of Some v \<Rightarrow> dec v y | None \<Rightarrow> y)"

lemma find_distinct_tag:
  "distinct (map fst tags) \<Longrightarrow> (n, enc, dec) \<in> set tags \<Longrightarrow> find (\<lambda>(m, _). m = n) tags = Some (n, enc, dec)"
  by (induction tags) (auto simp: image_iff)

lemma tag_for_own:
  "distinct (map fst tags) \<Longrightarrow> (n, enc, dec) \<in> set tags \<Longrightarrow> tag_for tags n = Some dec"
  by (simp add: tag_for_def find_distinct_tag)

lemma decode_struct_json:
  assumes "distinct (map fst tags)"
  shows "decode_struct tags y (struct_json tags x) = foldl (\<lambda>y t. apply_tag t x y) y tags"
proof -
  let ?dec = "\<lambda>y (k, v). case tag_for tags k of Some dec \<Rightarrow> dec v y | None \<Rightarrow> y"
  have "foldl ?dec y (concat (map (\<lambda>(n, enc, _). case enc x of Some v \<Rightarrow> [(n, v)] | None \<Rightarrow> []) ts)) =
        foldl (\<lambda>y t. apply_tag t x y) y ts" if "set ts \<subseteq> set tags" for ts
    using that
  proof (induction ts arbitrary: y)
    case (Cons t ts)
    obtain n enc dec where t: "t = (n, enc, dec)" by (cases t)
    with Cons.prems have "tag_for tags n = Some dec" using tag_for_own [OF assms] by auto
    with Cons t show ?case by (auto simp: apply_tag_def split: option.splits)
  qed simp
  from this [of tags] show ?thesis by (simp add: decode_struct_def struct_json_def)
qed

lemma apply_string_tag:
  "upd (\<lambda>_. []) y = y \<Longrightarrow> apply_tag (string_tag name get upd) x y = upd (\<lambda>_. get x) y"
  by (simp add: apply_tag_def string_tag_def)

lemma apply_string_tag_always: "apply_tag (string_tag_always name get upd) x y = upd (\<lambda>_. get x) y"
  by (simp add: apply_tag_def string_tag_always_def)

lemma apply_int_tag:
  "upd (\<lambda>_. 0) y = y \<Longrightarrow> apply_tag (int_tag omit name get upd) x y = upd (\<lambda>_. get x) y"
  using ParseInt_FormatInt [OF sint_int64_bounds [of "get x"]] by (simp add: apply_tag_def int_tag_def)

lemma apply_uint32_tag:
  assumes "upd (\<lambda>_. 0) y = y"
  shows "apply_tag (uint32_tag name get upd) x y = upd (\<lambda>_. get x) y"
proof -
  have b: "unat (get x) < 2 ^ 32" using unsigned_less [of "get x", where ?'a = nat] by simp
  then have "ParseUint (nat_digits (unat (get x))) = Inr (unat (get x))"
    by (intro ParseUint_digits) simp
  with b assms show ?thesis by (simp add: apply_tag_def uint32_tag_def)
qed

lemma apply_bool_tag:
  "upd (\<lambda>_. False) y = y \<Longrightarrow> apply_tag (bool_tag name get upd) x y = upd (\<lambda>_. get x) y"
  by (cases "get x") (simp_all add: apply_tag_def bool_tag_def)

lemmas apply_tags = apply_string_tag apply_string_tag_always apply_int_tag apply_uint32_tag apply_bool_tag

text \<open>Encoded structs are JSON values that the parser accepts.\<close>

lemma nat_digits_head: "0 < n \<Longrightarrow> \<exists>d ds. nat_digits n = digit_char d # ds \<and> 0 < d \<and> d < 10"
proof (induction n rule: nat_digits.induct)
  case (1 n)
  show ?case
  proof (cases "n < 10")
    case True
    with 1(2) show ?thesis by (subst nat_digits.simps) auto
  next
    case False
    then have "0 < n div 10" by (simp add: div_greater_zero_iff)
    from 1(1) [OF False this] False show ?thesis by (subst nat_digits.simps) auto
  qed
qed

lemma span_all_digits: "list_all is_digit s \<Longrightarrow> span_digits s = (s, [])"
  by (simp add: span_digits_def list_all_iff takeWhile_eq_all_conv dropWhile_eq_Nil_conv)

lemma nat_digits_digits: "list_all is_digit (nat_digits n)"
proof (induction n rule: nat_digits.induct)
  case (1 n)
  then show ?case by (subst nat_digits.simps) simp
qed

lemma scan_int_nat_digits: "scan_int (nat_digits n) = Some (nat_digits n, [])"
proof (cases "n = 0")
  case True
  then show ?thesis by (simp add: nat_digits.simps scan_int_def digit_char_def char_of_def bit_0)
next
  case False
  then obtain d ds where d: "nat_digits n = digit_char d # ds" "0 < d" "d < 10" using nat_digits_head [of n] by auto
  have "(of_char (digit_char d) :: nat) \<noteq> of_char CHR ''0''" using d by simp
  then have "digit_char d \<noteq> CHR ''0''" by metis
  with d span_all_digits [OF nat_digits_digits [of n]] show ?thesis by (simp add: scan_int_def)
qed

lemma nat_digits_not_minus: "nat_digits n = c # cs \<Longrightarrow> c \<noteq> CHR ''-''"
  using nat_digits_digits [of n] by (auto simp: is_digit_def)

lemma number_ok_nat_digits: "number_ok (nat_digits n)"
proof -
  obtain c cs where c: "nat_digits n = c # cs" using scan_int_nat_digits [of n] by (cases "nat_digits n") (auto simp: scan_int_def)
  then have "scan_sign (nat_digits n) = ([], nat_digits n)" using nat_digits_not_minus [OF c] by (simp add: scan_sign_def)
  then show ?thesis by (simp add: number_ok_def scan_number_def scan_int_nat_digits scan_frac_def scan_exp_def)
qed

lemma number_ok_FormatInt: "number_ok (FormatInt i)"
  using number_ok_nat_digits [of "nat (- i)"] number_ok_nat_digits [of "nat i"]
  by (simp add: FormatInt_def number_ok_def scan_number_def scan_sign_def scan_int_nat_digits scan_frac_def scan_exp_def)

text \<open>A struct is well formed when every field it encodes is a scalar the parser accepts.\<close>

definition scalar_ok :: "json \<Rightarrow> bool" where
  "scalar_ok v \<longleftrightarrow> json_ok v \<and> json_depth v = 0"

definition struct_ok :: "'a tag list \<Rightarrow> 'a \<Rightarrow> bool" where
  "struct_ok tags x \<longleftrightarrow> (\<forall>(n, enc, dec)\<in>set tags. utf8_valid n \<and> (\<forall>v. enc x = Some v \<longrightarrow> scalar_ok v))"

lemma foldr_max_zero: "(\<And>k v. (k, v) \<in> set kvs \<Longrightarrow> f v = (0::nat)) \<Longrightarrow> foldr max (map (\<lambda>(k, v). f v) kvs) 0 = 0"
proof (induction kvs)
  case (Cons kv kvs)
  obtain k v where kv: "kv = (k, v)" by (cases kv)
  then have "f v = 0" using Cons.prems [of k v] by simp
  moreover have "foldr max (map (\<lambda>(k, v). f v) kvs) 0 = 0" by (rule Cons.IH) (metis Cons.prems list.set_intros(2))
  ultimately show ?case by (simp add: kv)
qed simp

lemma foldr_max_le: "\<forall>x\<in>set xs. f x \<le> (n::nat) \<Longrightarrow> foldr max (map f xs) 0 \<le> n"
  by (induction xs) auto

lemma struct_json_ok:
  assumes "struct_ok tags x"
  shows "json_ok (struct_json tags x)" "json_depth (struct_json tags x) = 1"
proof -
  have ok: "utf8_valid k \<and> scalar_ok v"
    if "(k, v) \<in> set (concat (map (\<lambda>(n, enc, _). case enc x of Some v \<Rightarrow> [(n, v)] | None \<Rightarrow> []) tags))" for k v
    using assms that by (fastforce simp: struct_ok_def split: option.splits)
  then show "json_ok (struct_json tags x)" by (fastforce simp: struct_json_def scalar_ok_def)
  from ok have "json_depth v = 0"
    if "(k, v) \<in> set (concat (map (\<lambda>(n, enc, _). case enc x of Some v \<Rightarrow> [(n, v)] | None \<Rightarrow> []) tags))" for k v
    using that unfolding scalar_ok_def by blast
  then show "json_depth (struct_json tags x) = 1"
    unfolding struct_json_def json_depth.simps by (subst foldr_max_zero) simp_all
qed

lemma unmarshal_marshal_slice:
  assumes "distinct (map fst tags)" and "\<forall>x\<in>set (elems s). struct_ok tags x"
    and "\<And>x. foldl (\<lambda>y t. apply_tag t x y) zero tags = x"
  shows "unmarshal_slice tags zero (marshal_slice tags s) = s"
proof (cases s)
  case None
  have "json_parse (json_encode True JNull) = Some JNull" by (rule json_parse_encode) (simp_all add: max_nesting_def)
  with None show ?thesis by (simp add: unmarshal_slice_def marshal_slice_def slice_json_def)
next
  case (Some xs)
  have ok: "json_ok (slice_json tags s)" using assms(2) Some by (auto simp: slice_json_def struct_json_ok)
  have "foldr max (map (json_depth \<circ> struct_json tags) xs) 0 \<le> 1"
    using assms(2) Some by (intro foldr_max_le) (simp add: struct_json_ok)
  then have "json_depth (slice_json tags s) \<le> max_nesting" by (simp add: Some slice_json_def max_nesting_def)
  from json_parse_encode [OF ok this]
  have "unmarshal_slice tags zero (marshal_slice tags s) = Some (map (decode_struct tags zero \<circ> struct_json tags) xs)"
    by (simp add: unmarshal_slice_def marshal_slice_def slice_json_def Some)
  then show ?thesis by (simp add: Some comp_def decode_struct_json [OF assms(1)] assms(3))
qed

lemma struct_ok_tags [simp]:
  "struct_ok [] x"
  "struct_ok (string_tag n gs us # tags) x \<longleftrightarrow> utf8_valid n \<and> (gs x \<noteq> [] \<longrightarrow> utf8_valid (gs x)) \<and> struct_ok tags x"
  "struct_ok (string_tag_always n gs us # tags) x \<longleftrightarrow> utf8_valid n \<and> utf8_valid (gs x) \<and> struct_ok tags x"
  "struct_ok (int_tag om n gi ui # tags) x \<longleftrightarrow> utf8_valid n \<and> struct_ok tags x"
  "struct_ok (uint32_tag n gu uu # tags) x \<longleftrightarrow> utf8_valid n \<and> struct_ok tags x"
  "struct_ok (bool_tag n gb ub # tags) x \<longleftrightarrow> utf8_valid n \<and> struct_ok tags x"
  by (auto simp: struct_ok_def string_tag_def string_tag_always_def int_tag_def uint32_tag_def bool_tag_def
      scalar_ok_def number_ok_FormatInt number_ok_nat_digits)

lemma tag_name [simp]:
  "fst (string_tag n gs us) = n" "fst (string_tag_always n gs us) = n" "fst (int_tag om n gi ui) = n"
  "fst (uint32_tag n gu uu) = n" "fst (bool_tag n gb ub) = n"
  by (simp_all add: string_tag_def string_tag_always_def int_tag_def uint32_tag_def bool_tag_def)

lemma utf8_valid_Nil [simp]: "utf8_valid []"
  by (rule utf8_valid_ascii) simp

end
