(* ===== verification/Types.thy ===== *)
theory Types
  imports Json_Struct Proto
begin

text \<open>
  The message types of \<^verbatim>\<open>types.go\<close> and \<^verbatim>\<open>channelmessage.go\<close>: the structs with their JSON tags, the
  conversions to the protobuf messages that the socket sends, and the decoding of an inbound
  message, whose mention, attachment, reference and reaction blobs arrive as JSON or as protobuf.
  The protobuf decoder is a parameter. A Go \<^verbatim>\<open>int\<close> has 64 bits and is truncated to the 32 bits of the
  wire fields.
\<close>

section \<open>types.go\<close>

record Mention =
  men_UserID :: string
  men_RoleID :: string
  men_Username :: string
  men_Rolename :: string
  men_S :: int64
  men_E :: int64
  men_CreateTimeSeconds :: uint32

definition zero_go_Mention :: Mention where
  "zero_go_Mention = \<lparr>men_UserID = [], men_RoleID = [], men_Username = [],
     men_Rolename = [], men_S = 0, men_E = 0, men_CreateTimeSeconds = 0\<rparr>"

definition mention_tags :: "Mention tag list" where
  "mention_tags =
     [string_tag ''user_id'' men_UserID men_UserID_update,
      string_tag ''role_id'' men_RoleID men_RoleID_update,
      string_tag ''username'' men_Username men_Username_update,
      string_tag ''rolename'' men_Rolename men_Rolename_update,
      int_tag False ''s'' men_S men_S_update,
      int_tag False ''e'' men_E men_E_update,
      uint32_tag ''create_time_seconds'' men_CreateTimeSeconds men_CreateTimeSeconds_update]"

record Attachment =
  att_Filename :: string
  att_Size :: int64
  att_URL :: string
  att_Filetype :: string
  att_Width :: int64
  att_Height :: int64
  att_Thumbnail :: string
  att_Duration :: int64

definition zero_go_Attachment :: Attachment where
  "zero_go_Attachment = \<lparr>att_Filename = [], att_Size = 0, att_URL = [], att_Filetype = [],
     att_Width = 0, att_Height = 0, att_Thumbnail = [], att_Duration = 0\<rparr>"

definition attachment_tags :: "Attachment tag list" where
  "attachment_tags =
     [string_tag ''filename'' att_Filename att_Filename_update,
      int_tag True ''size'' att_Size att_Size_update,
      string_tag ''url'' att_URL att_URL_update,
      string_tag ''filetype'' att_Filetype att_Filetype_update,
      int_tag True ''width'' att_Width att_Width_update,
      int_tag True ''height'' att_Height att_Height_update,
      string_tag ''thumbnail'' att_Thumbnail att_Thumbnail_update,
      int_tag True ''duration'' att_Duration att_Duration_update]"

record MessageRef =
  ref_MessageID :: string
  ref_MessageRefID :: string
  ref_Content :: string
  ref_HasAttachment :: bool
  ref_RefType :: int64
  ref_MessageSenderID :: string
  ref_MessageSenderUsername :: string
  ref_MessageSenderAvatar :: string
  ref_MessageSenderClanNick :: string
  ref_MessageSenderDisplayName :: string

definition zero_go_MessageRef :: MessageRef where
  "zero_go_MessageRef = \<lparr>ref_MessageID = [], ref_MessageRefID = [], ref_Content = [],
     ref_HasAttachment = False, ref_RefType = 0, ref_MessageSenderID = [],
     ref_MessageSenderUsername = [], ref_MessageSenderAvatar = [], ref_MessageSenderClanNick = [],
     ref_MessageSenderDisplayName = []\<rparr>"

definition ref_tags :: "MessageRef tag list" where
  "ref_tags =
     [string_tag ''message_id'' ref_MessageID ref_MessageID_update,
      string_tag ''message_ref_id'' ref_MessageRefID ref_MessageRefID_update,
      string_tag ''content'' ref_Content ref_Content_update,
      bool_tag ''has_attachment'' ref_HasAttachment ref_HasAttachment_update,
      int_tag True ''ref_type'' ref_RefType ref_RefType_update,
      string_tag ''message_sender_id'' ref_MessageSenderID ref_MessageSenderID_update,
      string_tag ''message_sender_username'' ref_MessageSenderUsername ref_MessageSenderUsername_update,
      string_tag ''message_sender_avatar'' ref_MessageSenderAvatar ref_MessageSenderAvatar_update,
      string_tag ''message_sender_clan_nick'' ref_MessageSenderClanNick ref_MessageSenderClanNick_update,
      string_tag ''message_sender_display_name'' ref_MessageSenderDisplayName ref_MessageSenderDisplayName_update]"

record Reaction =
  rea_ID :: string
  rea_EmojiID :: string
  rea_Emoji :: string
  rea_SenderID :: string
  rea_SenderName :: string
  rea_Action :: bool
  rea_Count :: int64
  rea_MessageSenderID :: string

definition zero_go_Reaction :: Reaction where
  "zero_go_Reaction = \<lparr>rea_ID = [], rea_EmojiID = [], rea_Emoji = [], rea_SenderID = [],
     rea_SenderName = [], rea_Action = False, rea_Count = 0, rea_MessageSenderID = []\<rparr>"

definition reaction_tags :: "Reaction tag list" where
  "reaction_tags =
     [string_tag ''id'' rea_ID rea_ID_update,
      string_tag ''emoji_id'' rea_EmojiID rea_EmojiID_update,
      string_tag ''emoji'' rea_Emoji rea_Emoji_update,
      string_tag ''sender_id'' rea_SenderID rea_SenderID_update,
      string_tag ''sender_name'' rea_SenderName rea_SenderName_update,
      bool_tag ''action'' rea_Action rea_Action_update,
      int_tag True ''count'' rea_Count rea_Count_update,
      string_tag ''message_sender_id'' rea_MessageSenderID rea_MessageSenderID_update]"

record ReactPayload =
  rp_ID :: string
  rp_EmojiID :: string
  rp_Emoji :: string
  rp_Count :: int64
  rp_ActionDelete :: bool

section \<open>Conversion to protobuf\<close>

definition mentionsToProto :: "Mention slice \<Rightarrow> pb_MessageMention list" where
  "mentionsToProto ms = map (\<lambda>m. zero_MessageMention\<lparr>
     mm_UserId := atoiID (men_UserID m),
     mm_RoleId := atoiID (men_RoleID m),
     mm_Username := men_Username m,
     mm_Rolename := men_Rolename m,
     mm_S := to_int32 (men_S m),
     mm_E := to_int32 (men_E m),
     mm_CreateTimeSeconds := men_CreateTimeSeconds m\<rparr>) (elems ms)"

definition attachmentsToProto :: "Attachment slice \<Rightarrow> pb_MessageAttachment list" where
  "attachmentsToProto as = map (\<lambda>a. zero_MessageAttachment\<lparr>
     ma_Filename := att_Filename a,
     ma_Size := to_int32 (att_Size a),
     ma_Url := att_URL a,
     ma_Filetype := att_Filetype a,
     ma_Width := to_int32 (att_Width a),
     ma_Height := to_int32 (att_Height a),
     ma_Thumbnail := att_Thumbnail a,
     ma_Duration := to_int32 (att_Duration a)\<rparr>) (elems as)"

definition refsToProto :: "MessageRef slice \<Rightarrow> pb_MessageRef list" where
  "refsToProto rs = map (\<lambda>r. zero_MessageRef\<lparr>
     mr_MessageId := atoiID (ref_MessageID r),
     mr_MessageRefId := atoiID (ref_MessageRefID r),
     mr_Content := ref_Content r,
     mr_HasAttachment := ref_HasAttachment r,
     mr_RefType := to_int32 (ref_RefType r),
     mr_MessageSenderId := atoiID (ref_MessageSenderID r),
     mr_MessageSenderUsername := ref_MessageSenderUsername r,
     mr_MessageSenderAvatar := ref_MessageSenderAvatar r,
     mr_MessageSenderClanNick := ref_MessageSenderClanNick r,
     mr_MessageSenderDisplayName := ref_MessageSenderDisplayName r\<rparr>) (elems rs)"

section \<open>channelmessage.go\<close>

record ChannelMessage =
  chm_ID :: string
  chm_ChannelID :: string
  chm_ClanID :: string
  chm_Code :: int32
  chm_SenderID :: string
  chm_Username :: string
  chm_Avatar :: string
  chm_Content :: string
  chm_Reactions :: "Reaction slice"
  chm_Mentions :: "Mention slice"
  chm_Attachments :: "Attachment slice"
  chm_References :: "MessageRef slice"
  chm_ReferencedMessage :: string
  chm_MessageID :: string
  chm_ChannelLabel :: string
  chm_ClanLogo :: string
  chm_CategoryName :: string
  chm_DisplayName :: string
  chm_ClanNick :: string
  chm_ClanAvatar :: string
  chm_Mode :: int32
  chm_HideEditted :: bool
  chm_IsPublic :: bool
  chm_TopicID :: string
  chm_CreateTimeSeconds :: uint32
  chm_UpdateTimeSeconds :: uint32

definition zero_go_ChannelMessage :: ChannelMessage where
  "zero_go_ChannelMessage = \<lparr>chm_ID = [], chm_ChannelID = [], chm_ClanID = [], chm_Code = 0,
     chm_SenderID = [], chm_Username = [], chm_Avatar = [], chm_Content = [], chm_Reactions = None,
     chm_Mentions = None, chm_Attachments = None, chm_References = None,
     chm_ReferencedMessage = [], chm_MessageID = [], chm_ChannelLabel = [], chm_ClanLogo = [],
     chm_CategoryName = [], chm_DisplayName = [], chm_ClanNick = [], chm_ClanAvatar = [],
     chm_Mode = 0, chm_HideEditted = False, chm_IsPublic = False, chm_TopicID = [],
     chm_CreateTimeSeconds = 0, chm_UpdateTimeSeconds = 0\<rparr>"

definition looksLikeJSON :: "bytes \<Rightarrow> bool" where
  "looksLikeJSON b \<longleftrightarrow> 0 < length b \<and> (b ! 0 = 0x5B \<or> b ! 0 = 0x7B)"

definition decodeMentions :: "(bytes \<Rightarrow> pb_MessageMentionList result) \<Rightarrow> bytes \<Rightarrow> Mention slice" where
  "decodeMentions unmarshal b =
     (if length b = 0 then None
      else if looksLikeJSON b then unmarshal_slice mention_tags zero_go_Mention (string_of_bytes b)
      else case unmarshal b of
             Inl _ \<Rightarrow> None
           | Inr l \<Rightarrow> Some (map (\<lambda>m. \<lparr>
               men_UserID = itoaID (mm_UserId m),
               men_RoleID = itoaID (mm_RoleId m),
               men_Username = mm_Username m,
               men_Rolename = mm_Rolename m,
               men_S = of_int32 (mm_S m),
               men_E = of_int32 (mm_E m),
               men_CreateTimeSeconds = mm_CreateTimeSeconds m\<rparr>) (mml_Mentions l)))"

definition decodeAttachments :: "(bytes \<Rightarrow> pb_MessageAttachmentList result) \<Rightarrow> bytes \<Rightarrow> Attachment slice" where
  "decodeAttachments unmarshal b =
     (if length b = 0 then None
      else if looksLikeJSON b then unmarshal_slice attachment_tags zero_go_Attachment (string_of_bytes b)
      else case unmarshal b of
             Inl _ \<Rightarrow> None
           | Inr l \<Rightarrow> Some (map (\<lambda>a. \<lparr>
               att_Filename = ma_Filename a,
               att_Size = of_int32 (ma_Size a),
               att_URL = ma_Url a,
               att_Filetype = ma_Filetype a,
               att_Width = of_int32 (ma_Width a),
               att_Height = of_int32 (ma_Height a),
               att_Thumbnail = ma_Thumbnail a,
               att_Duration = of_int32 (ma_Duration a)\<rparr>) (mal_Attachments l)))"

definition decodeRefs :: "(bytes \<Rightarrow> pb_MessageRefList result) \<Rightarrow> bytes \<Rightarrow> MessageRef slice" where
  "decodeRefs unmarshal b =
     (if length b = 0 then None
      else if looksLikeJSON b then unmarshal_slice ref_tags zero_go_MessageRef (string_of_bytes b)
      else case unmarshal b of
             Inl _ \<Rightarrow> None
           | Inr l \<Rightarrow> Some (map (\<lambda>r. \<lparr>
               ref_MessageID = itoaID (mr_MessageId r),
               ref_MessageRefID = itoaID (mr_MessageRefId r),
               ref_Content = mr_Content r,
               ref_HasAttachment = mr_HasAttachment r,
               ref_RefType = of_int32 (mr_RefType r),
               ref_MessageSenderID = itoaID (mr_MessageSenderId r),
               ref_MessageSenderUsername = mr_MessageSenderUsername r,
               ref_MessageSenderAvatar = mr_MessageSenderAvatar r,
               ref_MessageSenderClanNick = mr_MessageSenderClanNick r,
               ref_MessageSenderDisplayName = mr_MessageSenderDisplayName r\<rparr>) (mrl_Refs l)))"

definition decodeReactions :: "(bytes \<Rightarrow> pb_MessageReactionList result) \<Rightarrow> bytes \<Rightarrow> Reaction slice" where
  "decodeReactions unmarshal b =
     (if length b = 0 then None
      else if looksLikeJSON b then unmarshal_slice reaction_tags zero_go_Reaction (string_of_bytes b)
      else case unmarshal b of
             Inl _ \<Rightarrow> None
           | Inr l \<Rightarrow> Some (map (\<lambda>r. \<lparr>
               rea_ID = itoaID (mre_Id r),
               rea_EmojiID = itoaID (mre_EmojiId r),
               rea_Emoji = mre_Emoji r,
               rea_SenderID = itoaID (mre_SenderId r),
               rea_SenderName = mre_SenderName r,
               rea_Action = mre_Action r,
               rea_Count = of_int32 (mre_Count r),
               rea_MessageSenderID = itoaID (mre_MessageSenderId r)\<rparr>) (mrel_Reactions l)))"

text \<open>The protobuf decoders of the four list messages.\<close>

record list_codec =
  lc_mentions :: "bytes \<Rightarrow> pb_MessageMentionList result"
  lc_attachments :: "bytes \<Rightarrow> pb_MessageAttachmentList result"
  lc_refs :: "bytes \<Rightarrow> pb_MessageRefList result"
  lc_reactions :: "bytes \<Rightarrow> pb_MessageReactionList result"

definition channelMessageFromProto :: "list_codec \<Rightarrow> pb_ChannelMessage option \<Rightarrow> ChannelMessage" where
  "channelMessageFromProto codec p = (case p of
      None \<Rightarrow> zero_go_ChannelMessage
    | Some cm \<Rightarrow>
        (let out = zero_go_ChannelMessage\<lparr>
               chm_ID := itoaID (cm_MessageId cm),
               chm_ChannelID := itoaID (cm_ChannelId cm),
               chm_ClanID := itoaID (cm_ClanId cm),
               chm_Code := cm_Code cm,
               chm_SenderID := itoaID (cm_SenderId cm),
               chm_Username := cm_Username cm,
               chm_Avatar := cm_Avatar cm,
               chm_MessageID := itoaID (cm_MessageId cm),
               chm_ChannelLabel := cm_ChannelLabel cm,
               chm_ClanLogo := cm_ClanLogo cm,
               chm_CategoryName := cm_CategoryName cm,
               chm_DisplayName := cm_DisplayName cm,
               chm_ClanNick := cm_ClanNick cm,
               chm_ClanAvatar := cm_ClanAvatar cm,
               chm_Mode := cm_Mode cm,
               chm_HideEditted := cm_HideEditted cm,
               chm_IsPublic := cm_IsPublic cm,
               chm_TopicID := itoaID (cm_TopicId cm),
               chm_CreateTimeSeconds := cm_CreateTimeSeconds cm,
               chm_UpdateTimeSeconds := cm_UpdateTimeSeconds cm\<rparr>;
             out = (if cm_Content cm \<noteq> [] then out\<lparr>chm_Content := cm_Content cm\<rparr> else out);
             out = out\<lparr>
               chm_Mentions := decodeMentions (lc_mentions codec) (cm_Mentions cm),
               chm_Attachments := decodeAttachments (lc_attachments codec) (cm_Attachments cm),
               chm_References := decodeRefs (lc_refs codec) (cm_References cm),
               chm_Reactions := decodeReactions (lc_reactions codec) (cm_Reactions cm)\<rparr>
         in if 0 < length (cm_ReferencedMessage cm)
            then out\<lparr>chm_ReferencedMessage := string_of_bytes (cm_ReferencedMessage cm)\<rparr> else out))"

section \<open>Round trips\<close>

lemma to_of_int32 [simp]: "to_int32 (of_int32 v) = v"
proof (rule bit_word_eqI)
  fix n assume "n < LENGTH(32)"
  then show "bit (to_int32 (of_int32 v)) n = bit v n"
    by (cases "n = 31") (auto simp: to_int32_def of_int32_def bit_simps min_def)
qed

lemma bit_sint_low: "n \<le> 63 \<Longrightarrow> bit (sint (v :: int64)) n = bit v n"
  by (simp add: bit_signed_iff min_def)

lemma of_to_int32:
  assumes "- (2 ^ 31) \<le> sint v" "sint v < 2 ^ 31"
  shows "of_int32 (to_int32 v) = v"
proof -
  have "signed_take_bit 31 (sint v) = sint v" using assms by (intro signed_take_bit_int_eq_self) simp_all
  then have "bit (sint v) n = bit (sint v) (min n 31)" for n
    by (metis bit_signed_take_bit_iff min.commute possible_bit_int)
  then have low: "bit v n = bit v (min n 31)" if "n \<le> 63" for n
    using bit_sint_low [OF that, of v] bit_sint_low [of "min n 31" v] by simp
  show ?thesis
  proof (rule bit_word_eqI)
    fix n assume "n < LENGTH(64)"
    then have n: "n \<le> 63" by simp
    have "bit (of_int32 (to_int32 v)) n = bit v (min n 31)"
      using n by (cases "n < 31") (simp_all add: to_int32_def of_int32_def bit_simps min_def)
    with low [OF n] show "bit (of_int32 (to_int32 v)) n = bit v n" by (simp only:)
  qed
qed

lemmas struct_tags = mention_tags_def attachment_tags_def ref_tags_def reaction_tags_def
lemmas zero_structs = zero_go_Mention_def zero_go_Attachment_def zero_go_MessageRef_def zero_go_Reaction_def

lemma tags_distinct:
  "distinct (map fst mention_tags)" "distinct (map fst attachment_tags)"
  "distinct (map fst ref_tags)" "distinct (map fst reaction_tags)"
  by (simp_all add: struct_tags)

lemma apply_struct_tags:
  "foldl (\<lambda>y t. apply_tag t m y) zero_go_Mention mention_tags = m"
  "foldl (\<lambda>y t. apply_tag t a y) zero_go_Attachment attachment_tags = a"
  "foldl (\<lambda>y t. apply_tag t r y) zero_go_MessageRef ref_tags = r"
  "foldl (\<lambda>y t. apply_tag t x y) zero_go_Reaction reaction_tags = x"
  by (simp_all add: struct_tags zero_structs apply_tags)

lemmas unmarshal_marshal_structs =
  unmarshal_marshal_slice [OF tags_distinct(1) _ apply_struct_tags(1)]
  unmarshal_marshal_slice [OF tags_distinct(2) _ apply_struct_tags(2)]
  unmarshal_marshal_slice [OF tags_distinct(3) _ apply_struct_tags(3)]
  unmarshal_marshal_slice [OF tags_distinct(4) _ apply_struct_tags(4)]

lemma marshal_slice_looks_like_json:
  "looksLikeJSON (bytes_of_string (marshal_slice tags (Some xs)))"
  by (simp add: looksLikeJSON_def bytes_of_string_def marshal_slice_def slice_json_def)

lemma looksLikeJSON_nonempty: "looksLikeJSON b \<Longrightarrow> b \<noteq> []"
  by (auto simp: looksLikeJSON_def)

text \<open>The strings of a struct are valid UTF-8.\<close>

definition mention_utf8 :: "Mention \<Rightarrow> bool" where
  "mention_utf8 m \<longleftrightarrow> list_all utf8_valid [men_UserID m, men_RoleID m, men_Username m, men_Rolename m]"

definition attachment_utf8 :: "Attachment \<Rightarrow> bool" where
  "attachment_utf8 a \<longleftrightarrow> list_all utf8_valid [att_Filename a, att_URL a, att_Filetype a, att_Thumbnail a]"

definition ref_utf8 :: "MessageRef \<Rightarrow> bool" where
  "ref_utf8 r \<longleftrightarrow> list_all utf8_valid [ref_MessageID r, ref_MessageRefID r, ref_Content r, ref_MessageSenderID r,
     ref_MessageSenderUsername r, ref_MessageSenderAvatar r, ref_MessageSenderClanNick r, ref_MessageSenderDisplayName r]"

definition reaction_utf8 :: "Reaction \<Rightarrow> bool" where
  "reaction_utf8 r \<longleftrightarrow> list_all utf8_valid [rea_ID r, rea_EmojiID r, rea_Emoji r, rea_SenderID r, rea_SenderName r,
     rea_MessageSenderID r]"

lemmas utf8_structs = mention_utf8_def attachment_utf8_def ref_utf8_def reaction_utf8_def

lemma struct_ok_structs:
  "mention_utf8 m \<Longrightarrow> struct_ok mention_tags m"
  "attachment_utf8 a \<Longrightarrow> struct_ok attachment_tags a"
  "ref_utf8 r \<Longrightarrow> struct_ok ref_tags r"
  "reaction_utf8 x \<Longrightarrow> struct_ok reaction_tags x"
  by (simp_all add: struct_tags utf8_structs utf8_valid_ascii)

text \<open>
  Message parts in JSON form are decoded exactly: the mentions, attachments, references and
  reactions that a client encoded with the JSON tags of the structs (empty fields left out) come
  back unchanged, whatever their order, their number and their integers, and the protobuf decoder
  is not consulted.
\<close>

theorem decode_json_parts:
  assumes "list_all mention_utf8 ms" "list_all attachment_utf8 as" "list_all ref_utf8 rs" "list_all reaction_utf8 xs"
  shows "decodeMentions um (bytes_of_string (marshal_slice mention_tags (Some ms))) = Some ms \<and>
    decodeAttachments ua (bytes_of_string (marshal_slice attachment_tags (Some as))) = Some as \<and>
    decodeRefs ur (bytes_of_string (marshal_slice ref_tags (Some rs))) = Some rs \<and>
    decodeReactions ux (bytes_of_string (marshal_slice reaction_tags (Some xs))) = Some xs"
proof -
  have "\<forall>x\<in>set (elems (Some ms)). struct_ok mention_tags x" "\<forall>x\<in>set (elems (Some as)). struct_ok attachment_tags x"
    "\<forall>x\<in>set (elems (Some rs)). struct_ok ref_tags x" "\<forall>x\<in>set (elems (Some xs)). struct_ok reaction_tags x"
    using assms by (auto simp: list_all_iff struct_ok_structs)
  note parts = this(1) [THEN unmarshal_marshal_structs(1)] this(2) [THEN unmarshal_marshal_structs(2)]
    this(3) [THEN unmarshal_marshal_structs(3)] this(4) [THEN unmarshal_marshal_structs(4)]
  show ?thesis
    by (simp add: decodeMentions_def decodeAttachments_def decodeRefs_def decodeReactions_def parts
        marshal_slice_looks_like_json looksLikeJSON_nonempty [OF marshal_slice_looks_like_json])
qed

theorem decode_json_parts_witness:
  "decodeMentions (\<lambda>_. Inl EOF) (bytes_of_string (marshal_slice mention_tags (Some []))) = Some [] \<and>
   decodeReactions (\<lambda>_. Inl EOF) (bytes_of_string (marshal_slice reaction_tags
     (Some [zero_go_Reaction\<lparr>rea_Emoji := ''ok'', rea_Count := - 3\<rparr>]))) =
     Some [zero_go_Reaction\<lparr>rea_Emoji := ''ok'', rea_Count := - 3\<rparr>]"
  using decode_json_parts [of "[]" "[]" "[]" "[zero_go_Reaction\<lparr>rea_Emoji := ''ok'', rea_Count := - 3\<rparr>]"]
  by (simp add: reaction_utf8_def zero_go_Reaction_def utf8_valid_ascii)

text \<open>Values that the wire can carry: decimal ids as the server writes them, integers of 32 bits.\<close>

definition canonical_id :: "string \<Rightarrow> bool" where
  "canonical_id s \<longleftrightarrow> itoaID (atoiID s) = s"

definition fits32 :: "int64 \<Rightarrow> bool" where
  "fits32 v \<longleftrightarrow> - (2 ^ 31) \<le> sint v \<and> sint v < 2 ^ 31"

lemma fits32_id: "fits32 v \<Longrightarrow> of_int32 (to_int32 v) = v"
  by (simp add: fits32_def of_to_int32)

definition wire_mention :: "Mention \<Rightarrow> bool" where
  "wire_mention m \<longleftrightarrow> list_all canonical_id [men_UserID m, men_RoleID m] \<and> list_all fits32 [men_S m, men_E m]"

definition wire_attachment :: "Attachment \<Rightarrow> bool" where
  "wire_attachment a \<longleftrightarrow> list_all fits32 [att_Size a, att_Width a, att_Height a, att_Duration a]"

definition wire_ref :: "MessageRef \<Rightarrow> bool" where
  "wire_ref r \<longleftrightarrow> list_all canonical_id [ref_MessageID r, ref_MessageRefID r, ref_MessageSenderID r] \<and> fits32 (ref_RefType r)"

lemmas wire_structs = wire_mention_def wire_attachment_def wire_ref_def canonical_id_def

text \<open>
  C25. Message parts survive the wire: what \<^verbatim>\<open>mentionsToProto\<close>, \<^verbatim>\<open>attachmentsToProto\<close> and
  \<^verbatim>\<open>refsToProto\<close> put into a message is what the decoders of an inbound message read out of the
  protobuf lists, for ids in the form the server uses and integers that fit 32 bits.
\<close>

theorem decode_proto_parts:
  assumes "list_all wire_mention ms" "list_all wire_attachment as" "list_all wire_ref rs"
    and "\<not> looksLikeJSON bm" "\<not> looksLikeJSON ba" "\<not> looksLikeJSON br" "bm \<noteq> []" "ba \<noteq> []" "br \<noteq> []"
    and "um bm = Inr \<lparr>mml_Mentions = mentionsToProto (Some ms)\<rparr>"
    and "ua ba = Inr \<lparr>mal_Attachments = attachmentsToProto (Some as)\<rparr>"
    and "ur br = Inr \<lparr>mrl_Refs = refsToProto (Some rs)\<rparr>"
  shows "decodeMentions um bm = Some ms \<and> decodeAttachments ua ba = Some as \<and> decodeRefs ur br = Some rs"
proof (intro conjI)
  show "decodeMentions um bm = Some ms"
    using assms by (auto simp: decodeMentions_def mentionsToProto_def wire_structs list_all_iff fits32_id comp_def
        intro!: map_idI)
  show "decodeAttachments ua ba = Some as"
    using assms by (auto simp: decodeAttachments_def attachmentsToProto_def wire_structs list_all_iff fits32_id comp_def
        intro!: map_idI)
  show "decodeRefs ur br = Some rs"
    using assms by (auto simp: decodeRefs_def refsToProto_def wire_structs list_all_iff fits32_id comp_def
        intro!: map_idI)
qed

theorem decode_proto_parts_witness:
  "decodeMentions (\<lambda>b. if b = [10] then Inr \<lparr>mml_Mentions = mentionsToProto (Some
       [zero_go_Mention\<lparr>men_UserID := itoaID 77, men_RoleID := itoaID 0, men_S := 3, men_E := 8\<rparr>])\<rparr> else Inl EOF) [10] =
     Some [zero_go_Mention\<lparr>men_UserID := itoaID 77, men_RoleID := itoaID 0, men_S := 3, men_E := 8\<rparr>]"
  using decode_proto_parts [of "[zero_go_Mention\<lparr>men_UserID := itoaID 77, men_RoleID := itoaID 0, men_S := 3, men_E := 8\<rparr>]"
      "[]" "[]" "[10]" "[10]" "[10]" "\<lambda>b. if b = [10] then Inr \<lparr>mml_Mentions = mentionsToProto (Some
       [zero_go_Mention\<lparr>men_UserID := itoaID 77, men_RoleID := itoaID 0, men_S := 3, men_E := 8\<rparr>])\<rparr> else Inl EOF"
      "\<lambda>b. Inr \<lparr>mal_Attachments = attachmentsToProto (Some [])\<rparr>" "\<lambda>b. Inr \<lparr>mrl_Refs = refsToProto (Some [])\<rparr>"]
  by (simp add: wire_structs fits32_def looksLikeJSON_def zero_go_Mention_def)

end
