(* ===== verification/Events.thy ===== *)
theory Events
  imports Types
begin

text \<open>
  Server pushes: the event names of \<^verbatim>\<open>constants.go\<close>, the emitter of \<^verbatim>\<open>emitter.go\<close> and the dispatch of
  pushed envelopes in \<^verbatim>\<open>socket_dispatch.go\<close> and \<^verbatim>\<open>socket.go\<close>. A handler is an address; \<open>run\<close> says what
  calling it does to the state of the application, so that a handler may change everything,
  including the registrations.
\<close>

section \<open>constants.go\<close>

definition EventChannelMessage :: string where "EventChannelMessage = ''channel_message''"
definition EventMessageReaction :: string where "EventMessageReaction = ''message_reaction_event''"
definition EventUserChannelRemoved :: string where "EventUserChannelRemoved = ''user_channel_removed_event''"
definition EventUserClanRemoved :: string where "EventUserClanRemoved = ''user_clan_removed_event''"
definition EventUserChannelAdded :: string where "EventUserChannelAdded = ''user_channel_added_event''"
definition EventChannelCreated :: string where "EventChannelCreated = ''channel_created_event''"
definition EventChannelDeleted :: string where "EventChannelDeleted = ''channel_deleted_event''"
definition EventChannelUpdated :: string where "EventChannelUpdated = ''channel_updated_event''"
definition EventChannelArchive :: string where "EventChannelArchive = ''channel_archive_event''"
definition EventRole :: string where "EventRole = ''role_event''"
definition EventGiveCoffee :: string where "EventGiveCoffee = ''give_coffee_event''"
definition EventRoleAssign :: string where "EventRoleAssign = ''role_assign_event''"
definition EventAddClanUser :: string where "EventAddClanUser = ''add_clan_user_event''"
definition EventTokenSend :: string where "EventTokenSend = ''token_sent_event''"
definition EventClanEventCreated :: string where "EventClanEventCreated = ''clan_event_created''"
definition EventMessageButtonClick :: string where "EventMessageButtonClick = ''message_button_clicked''"
definition EventStreamingJoined :: string where "EventStreamingJoined = ''streaming_joined_event''"
definition EventStreamingLeaved :: string where "EventStreamingLeaved = ''streaming_leaved_event''"
definition EventDropdownBoxSelected :: string where "EventDropdownBoxSelected = ''dropdown_box_selected''"
definition EventWebrtcSignalingFwd :: string where "EventWebrtcSignalingFwd = ''webrtc_signaling_fwd''"
definition EventVoiceStarted :: string where "EventVoiceStarted = ''voice_started_event''"
definition EventVoiceEnded :: string where "EventVoiceEnded = ''voice_ended_event''"
definition EventVoiceJoined :: string where "EventVoiceJoined = ''voice_joined_event''"
definition EventVoiceLeaved :: string where "EventVoiceLeaved = ''voice_leaved_event''"
definition EventNotifications :: string where "EventNotifications = ''notifications''"
definition EventQuickMenu :: string where "EventQuickMenu = ''quick_menu_event''"
definition EventAIAgentEnable :: string where "EventAIAgentEnable = ''aiagent_enabled_event''"
definition EventClanUpdated :: string where "EventClanUpdated = ''clan_updated_event''"
definition EventClanProfileUpdated :: string where "EventClanProfileUpdated = ''clan_profile_updated_event''"
definition EventUserProfileUpdated :: string where "EventUserProfileUpdated = ''user_profile_updated_event''"
definition EventClanDeleted :: string where "EventClanDeleted = ''clan_deleted_event''"
definition EventReady :: string where "EventReady = ''ready''"

section \<open>emitter.go\<close>

text \<open>What a handler receives.\<close>

datatype payload =
    PayloadChannelMessage ChannelMessage
  | PayloadReaction pb_MessageReaction
  | PayloadChannelDeleted pb_ChannelDeletedEvent
  | PayloadChannelUpdated pb_ChannelUpdatedEvent
  | PayloadOpaque opaque
  | PayloadNil

type_synonym handler_id = nat

record emitter =
  handlers :: "(string \<times> handler_id list) list"

definition newEmitter :: emitter where
  "newEmitter = \<lparr>handlers = []\<rparr>"

definition handlers_of :: "emitter \<Rightarrow> string \<Rightarrow> handler_id list" where
  "handlers_of e event = (case map_of (handlers e) event of Some hs \<Rightarrow> hs | None \<Rightarrow> [])"

definition emitter_on :: "string \<Rightarrow> handler_id \<Rightarrow> emitter \<Rightarrow> emitter" where
  "emitter_on event h e = e\<lparr>handlers := AList.update event (handlers_of e event @ [h]) (handlers e)\<rparr>"

text \<open>The handlers are read under the lock once; what they do is done to the state.\<close>

definition emitter_emit ::
  "(handler_id \<Rightarrow> payload \<Rightarrow> 's \<Rightarrow> 's) \<Rightarrow> emitter \<Rightarrow> string \<Rightarrow> payload \<Rightarrow> 's \<Rightarrow> 's" where
  "emitter_emit run e event payload s = foldl (\<lambda>s h. run h payload s) s (handlers_of e event)"

section \<open>Dispatch\<close>

definition dispatch_event :: "list_codec \<Rightarrow> pb_Envelope \<Rightarrow> (string \<times> payload) option" where
  "dispatch_event codec env =
     (if env_ChannelMessage env \<noteq> None then Some (EventChannelMessage, PayloadChannelMessage (channelMessageFromProto codec (env_ChannelMessage env)))
      else if env_MessageReactionEvent env \<noteq> None then Some (EventMessageReaction, PayloadReaction (the (env_MessageReactionEvent env)))
      else if env_ChannelCreatedEvent env \<noteq> None then Some (EventChannelCreated, PayloadOpaque (the (env_ChannelCreatedEvent env)))
      else if env_ChannelDeletedEvent env \<noteq> None then Some (EventChannelDeleted, PayloadChannelDeleted (the (env_ChannelDeletedEvent env)))
      else if env_ChannelUpdatedEvent env \<noteq> None then Some (EventChannelUpdated, PayloadChannelUpdated (the (env_ChannelUpdatedEvent env)))
      else if env_ChannelArchiveEvent env \<noteq> None then Some (EventChannelArchive, PayloadOpaque (the (env_ChannelArchiveEvent env)))
      else if env_UserChannelAddedEvent env \<noteq> None then Some (EventUserChannelAdded, PayloadOpaque (the (env_UserChannelAddedEvent env)))
      else if env_UserChannelRemovedEvent env \<noteq> None then Some (EventUserChannelRemoved, PayloadOpaque (the (env_UserChannelRemovedEvent env)))
      else if env_UserClanRemovedEvent env \<noteq> None then Some (EventUserClanRemoved, PayloadOpaque (the (env_UserClanRemovedEvent env)))
      else if env_AddClanUserEvent env \<noteq> None then Some (EventAddClanUser, PayloadOpaque (the (env_AddClanUserEvent env)))
      else if env_RoleEvent env \<noteq> None then Some (EventRole, PayloadOpaque (the (env_RoleEvent env)))
      else if env_RoleAssignEvent env \<noteq> None then Some (EventRoleAssign, PayloadOpaque (the (env_RoleAssignEvent env)))
      else if env_GiveCoffeeEvent env \<noteq> None then Some (EventGiveCoffee, PayloadOpaque (the (env_GiveCoffeeEvent env)))
      else if env_TokenSentEvent env \<noteq> None then Some (EventTokenSend, PayloadOpaque (the (env_TokenSentEvent env)))
      else if env_ClanEventCreated env \<noteq> None then Some (EventClanEventCreated, PayloadOpaque (the (env_ClanEventCreated env)))
      else if env_MessageButtonClicked env \<noteq> None then Some (EventMessageButtonClick, PayloadOpaque (the (env_MessageButtonClicked env)))
      else if env_StreamingJoinedEvent env \<noteq> None then Some (EventStreamingJoined, PayloadOpaque (the (env_StreamingJoinedEvent env)))
      else if env_StreamingLeavedEvent env \<noteq> None then Some (EventStreamingLeaved, PayloadOpaque (the (env_StreamingLeavedEvent env)))
      else if env_DropdownBoxSelected env \<noteq> None then Some (EventDropdownBoxSelected, PayloadOpaque (the (env_DropdownBoxSelected env)))
      else if env_WebrtcSignalingFwd env \<noteq> None then Some (EventWebrtcSignalingFwd, PayloadOpaque (the (env_WebrtcSignalingFwd env)))
      else if env_VoiceStartedEvent env \<noteq> None then Some (EventVoiceStarted, PayloadOpaque (the (env_VoiceStartedEvent env)))
      else if env_VoiceEndedEvent env \<noteq> None then Some (EventVoiceEnded, PayloadOpaque (the (env_VoiceEndedEvent env)))
      else if env_VoiceJoinedEvent env \<noteq> None then Some (EventVoiceJoined, PayloadOpaque (the (env_VoiceJoinedEvent env)))
      else if env_VoiceLeavedEvent env \<noteq> None then Some (EventVoiceLeaved, PayloadOpaque (the (env_VoiceLeavedEvent env)))
      else if env_Notifications env \<noteq> None then Some (EventNotifications, PayloadOpaque (the (env_Notifications env)))
      else if env_QuickMenuEvent env \<noteq> None then Some (EventQuickMenu, PayloadOpaque (the (env_QuickMenuEvent env)))
      else if env_AiagentEnabledEvent env \<noteq> None then Some (EventAIAgentEnable, PayloadOpaque (the (env_AiagentEnabledEvent env)))
      else if env_ClanUpdatedEvent env \<noteq> None then Some (EventClanUpdated, PayloadOpaque (the (env_ClanUpdatedEvent env)))
      else if env_ClanProfileUpdatedEvent env \<noteq> None then Some (EventClanProfileUpdated, PayloadOpaque (the (env_ClanProfileUpdatedEvent env)))
      else if env_UserProfileUpdatedEvent env \<noteq> None then Some (EventUserProfileUpdated, PayloadOpaque (the (env_UserProfileUpdatedEvent env)))
      else if env_ClanDeletedEvent env \<noteq> None then Some (EventClanDeleted, PayloadOpaque (the (env_ClanDeletedEvent env)))
      else None)"

text \<open>\<open>emit\<close> is the callback of the socket, which may be nil.\<close>

definition dispatch :: "list_codec \<Rightarrow> (string \<Rightarrow> payload \<Rightarrow> 's \<Rightarrow> 's) option \<Rightarrow> pb_Envelope \<Rightarrow> 's \<Rightarrow> 's" where
  "dispatch codec emit env s = (case emit of
      None \<Rightarrow> s
    | Some f \<Rightarrow> (case dispatch_event codec env of
        Some (event, payload) \<Rightarrow> f event payload s
      | None \<Rightarrow> s))"

text \<open>\<^verbatim>\<open>dispatchLoop\<close> takes envelopes from its channel until the connection is done, which may happen
  after any number of them.\<close>

definition dispatchLoop ::
  "list_codec \<Rightarrow> (string \<Rightarrow> payload \<Rightarrow> 's \<Rightarrow> 's) option \<Rightarrow> nat \<Rightarrow> pb_Envelope list \<Rightarrow> 's \<Rightarrow> 's" where
  "dispatchLoop codec emit n events s = foldl (\<lambda>s env. dispatch codec emit env s) s (take n events)"

section \<open>Properties\<close>

text \<open>The events an envelope may carry, in the order in which \<^verbatim>\<open>dispatch\<close> looks for them.\<close>

definition pushed :: "list_codec \<Rightarrow> pb_Envelope \<Rightarrow> (string \<times> payload option) list" where
  "pushed codec env =
     [(EventChannelMessage, map_option (\<lambda>m. PayloadChannelMessage (channelMessageFromProto codec (Some m))) (env_ChannelMessage env)),
      (EventMessageReaction, map_option PayloadReaction (env_MessageReactionEvent env)),
      (EventChannelCreated, map_option PayloadOpaque (env_ChannelCreatedEvent env)),
      (EventChannelDeleted, map_option PayloadChannelDeleted (env_ChannelDeletedEvent env)),
      (EventChannelUpdated, map_option PayloadChannelUpdated (env_ChannelUpdatedEvent env)),
      (EventChannelArchive, map_option PayloadOpaque (env_ChannelArchiveEvent env)),
      (EventUserChannelAdded, map_option PayloadOpaque (env_UserChannelAddedEvent env)),
      (EventUserChannelRemoved, map_option PayloadOpaque (env_UserChannelRemovedEvent env)),
      (EventUserClanRemoved, map_option PayloadOpaque (env_UserClanRemovedEvent env)),
      (EventAddClanUser, map_option PayloadOpaque (env_AddClanUserEvent env)),
      (EventRole, map_option PayloadOpaque (env_RoleEvent env)),
      (EventRoleAssign, map_option PayloadOpaque (env_RoleAssignEvent env)),
      (EventGiveCoffee, map_option PayloadOpaque (env_GiveCoffeeEvent env)),
      (EventTokenSend, map_option PayloadOpaque (env_TokenSentEvent env)),
      (EventClanEventCreated, map_option PayloadOpaque (env_ClanEventCreated env)),
      (EventMessageButtonClick, map_option PayloadOpaque (env_MessageButtonClicked env)),
      (EventStreamingJoined, map_option PayloadOpaque (env_StreamingJoinedEvent env)),
      (EventStreamingLeaved, map_option PayloadOpaque (env_StreamingLeavedEvent env)),
      (EventDropdownBoxSelected, map_option PayloadOpaque (env_DropdownBoxSelected env)),
      (EventWebrtcSignalingFwd, map_option PayloadOpaque (env_WebrtcSignalingFwd env)),
      (EventVoiceStarted, map_option PayloadOpaque (env_VoiceStartedEvent env)),
      (EventVoiceEnded, map_option PayloadOpaque (env_VoiceEndedEvent env)),
      (EventVoiceJoined, map_option PayloadOpaque (env_VoiceJoinedEvent env)),
      (EventVoiceLeaved, map_option PayloadOpaque (env_VoiceLeavedEvent env)),
      (EventNotifications, map_option PayloadOpaque (env_Notifications env)),
      (EventQuickMenu, map_option PayloadOpaque (env_QuickMenuEvent env)),
      (EventAIAgentEnable, map_option PayloadOpaque (env_AiagentEnabledEvent env)),
      (EventClanUpdated, map_option PayloadOpaque (env_ClanUpdatedEvent env)),
      (EventClanProfileUpdated, map_option PayloadOpaque (env_ClanProfileUpdatedEvent env)),
      (EventUserProfileUpdated, map_option PayloadOpaque (env_UserProfileUpdatedEvent env)),
      (EventClanDeleted, map_option PayloadOpaque (env_ClanDeletedEvent env))]"

lemmas event_names = EventChannelMessage_def EventMessageReaction_def EventUserChannelRemoved_def EventUserClanRemoved_def EventUserChannelAdded_def EventChannelCreated_def EventChannelDeleted_def EventChannelUpdated_def EventChannelArchive_def EventRole_def EventGiveCoffee_def EventRoleAssign_def EventAddClanUser_def EventTokenSend_def EventClanEventCreated_def EventMessageButtonClick_def EventStreamingJoined_def EventStreamingLeaved_def EventDropdownBoxSelected_def EventWebrtcSignalingFwd_def EventVoiceStarted_def EventVoiceEnded_def EventVoiceJoined_def EventVoiceLeaved_def EventNotifications_def EventQuickMenu_def EventAIAgentEnable_def EventClanUpdated_def EventClanProfileUpdated_def EventUserProfileUpdated_def EventClanDeleted_def EventReady_def

lemma pushed_names_distinct: "distinct (map fst (pushed codec env))"
  by (simp add: pushed_def event_names)

text \<open>The first event that is set.\<close>

fun first_set :: "('a \<times> 'b option) list \<Rightarrow> ('a \<times> 'b) option" where
  "first_set [] = None"
| "first_set ((n, p) # xs) = (case p of Some q \<Rightarrow> Some (n, q) | None \<Rightarrow> first_set xs)"

lemma switch_case:
  "(case map_option f x of Some q \<Rightarrow> Some (n, q) | None \<Rightarrow> r) = (if x \<noteq> None then Some (n, f (the x)) else r)"
  by (cases x) simp_all

lemma channel_message_case:
  "(case map_option (\<lambda>m. PayloadChannelMessage (channelMessageFromProto codec (Some m))) (env_ChannelMessage env) of
      Some q \<Rightarrow> Some (n, q) | None \<Rightarrow> r) =
   (if env_ChannelMessage env \<noteq> None
    then Some (n, PayloadChannelMessage (channelMessageFromProto codec (env_ChannelMessage env))) else r)"
  by (cases "env_ChannelMessage env") simp_all

lemma dispatch_event_first: "dispatch_event codec env = first_set (pushed codec env)"
  unfolding dispatch_event_def pushed_def unfolding first_set.simps channel_message_case
  unfolding switch_case by (rule refl)

lemma first_set_unique:
  assumes "distinct (map fst xs)" "(n, Some p) \<in> set xs" "\<And>m q. (m, Some q) \<in> set xs \<Longrightarrow> m = n"
  shows "first_set xs = Some (n, p)"
  using assms
proof (induction xs)
  case (Cons x xs)
  obtain m q where x: "x = (m, q)" by (cases x)
  show ?case
  proof (cases q)
    case None
    have "first_set xs = Some (n, p)"
    proof (rule Cons.IH)
      show "distinct (map fst xs)" using Cons.prems(1) by simp
      show "(n, Some p) \<in> set xs" using Cons.prems(2) x None by simp
      show "m = n" if "(m, Some q) \<in> set xs" for m q using Cons.prems(3) [of m q] that by simp
    qed
    then show ?thesis using x None by simp
  next
    case (Some r)
    then have "m = n" using Cons.prems(3) [of m r] x by simp
    moreover have "(n, Some p) \<notin> set xs" using Cons.prems(1) x \<open>m = n\<close> by force
    ultimately show ?thesis using Cons.prems(2) x Some by simp
  qed
qed simp

lemma first_set_None:
  assumes "\<And>m q. (m, Some q) \<notin> set xs"
  shows "first_set xs = None"
proof -
  have "snd x = None" if "x \<in> set xs" for x using assms [of "fst x" "the (snd x)"] that
    by (cases x; cases "snd x") auto
  then have "list_all (\<lambda>x. snd x = None) xs" by (simp add: list_all_iff)
  then show ?thesis by (induction xs rule: first_set.induct) simp_all
qed

text \<open>
  C26. A pushed envelope that carries one event is emitted once, under the name of that event and with
  its payload (a chat message converted to the friendly form), whichever of the 31 events it is; an
  envelope that carries none is dropped, and so is everything when the socket has no callback.
\<close>

theorem dispatch_emits_the_event:
  assumes "(name, Some p) \<in> set (pushed codec env)" "\<And>m q. (m, Some q) \<in> set (pushed codec env) \<Longrightarrow> m = name"
    and "\<And>m q. (m, Some q) \<notin> set (pushed codec quiet)"
  shows "dispatch codec (Some emit) env s = emit name p s \<and> dispatch codec (Some emit) quiet s = s \<and>
    dispatch codec None env s = s"
  using first_set_unique [OF pushed_names_distinct assms(1) assms(2)] first_set_None [OF assms(3)]
  by (simp add: dispatch_def dispatch_event_first)

theorem dispatch_emits_the_event_witness:
  "\<forall>codec. dispatch codec (Some (\<lambda>n p s. s @ [n])) (zero_Envelope\<lparr>env_RoleEvent := Some [8, 1]\<rparr>) [] = [''role_event''] \<and>
     dispatch codec (Some (\<lambda>n p s. s @ [n])) (zero_Envelope\<lparr>env_Cid := 7\<rparr>) [] = []"
proof
  fix codec
  show "dispatch codec (Some (\<lambda>n p s. s @ [n])) (zero_Envelope\<lparr>env_RoleEvent := Some [8, 1]\<rparr>) [] = [''role_event''] \<and>
     dispatch codec (Some (\<lambda>n p s. s @ [n])) (zero_Envelope\<lparr>env_Cid := 7\<rparr>) [] = []"
    using dispatch_emits_the_event [of EventRole "PayloadOpaque [8, 1]" codec "zero_Envelope\<lparr>env_RoleEvent := Some [8, 1]\<rparr>"
        "zero_Envelope\<lparr>env_Cid := 7\<rparr>" "\<lambda>n p s. s @ [n]" "[]"]
    by (simp add: pushed_def zero_Envelope_def EventRole_def)
qed

text \<open>The handlers registered for an event by a sequence of registrations.\<close>

lemma handlers_of_on: "handlers_of (emitter_on ev h e) ev' = handlers_of e ev' @ (if ev' = ev then [h] else [])"
  by (simp add: emitter_on_def handlers_of_def update_conv')

definition registered :: "(string \<times> handler_id) list \<Rightarrow> emitter" where
  "registered regs = fold (\<lambda>(ev, h). emitter_on ev h) regs newEmitter"

lemma handlers_of_fold:
  "handlers_of (fold (\<lambda>(ev, h). emitter_on ev h) regs e) ev =
     handlers_of e ev @ map snd (filter (\<lambda>(ev', h). ev' = ev) regs)"
  by (induction regs arbitrary: e) (auto simp: handlers_of_on)

lemma handlers_of_registered: "handlers_of (registered regs) ev = map snd (filter (\<lambda>(ev', h). ev' = ev) regs)"
  unfolding registered_def handlers_of_fold by (simp add: newEmitter_def handlers_of_def)

definition calls :: "list_codec \<Rightarrow> (string \<times> handler_id) list \<Rightarrow> pb_Envelope \<Rightarrow> (handler_id \<times> payload) list" where
  "calls codec regs env = (case dispatch_event codec env of
      None \<Rightarrow> []
    | Some (ev, p) \<Rightarrow> map (\<lambda>(_, h). (h, p)) (filter (\<lambda>(ev', h). ev' = ev) regs))"

lemma dispatch_calls:
  "dispatch codec (Some (emitter_emit run (registered regs))) env s =
     foldl (\<lambda>s (h, p). run h p s) s (calls codec regs env)"
  by (auto simp: dispatch_def calls_def emitter_emit_def handlers_of_registered foldl_map split_def split: option.splits)

text \<open>
  Events keep their order: the dispatch goroutine calls the handlers of one envelope after those of
  the envelopes that arrived before it, the handlers of an event in the order in which they were
  registered, each exactly once, and no handler of another event; when the connection is done after
  \<open>n\<close> envelopes, the rest is dropped.
\<close>

theorem handlers_run_in_order:
  "dispatchLoop codec (Some (emitter_emit run (registered regs))) n events s =
     foldl (\<lambda>s (h, p). run h p s) s (concat (map (calls codec regs) (take n events)))"
proof -
  have "foldl (\<lambda>s env. dispatch codec (Some (emitter_emit run (registered regs))) env s) s es =
        foldl (\<lambda>s (h, p). run h p s) s (concat (map (calls codec regs) es))" for es
    by (induction es arbitrary: s) (simp_all add: dispatch_calls)
  then show ?thesis by (simp add: dispatchLoop_def)
qed

end
