(* ===== verification/Go_Calls.thy ===== *)
theory Go_Calls
  imports Mezon_Prelude
begin

text \<open>
  Calls that may fail and change state: a function from the state to a result and the new state. The
  combinators carry the early returns of the source: \<open>and_then\<close> is \<^verbatim>\<open>if err != nil { return nil, err }\<close>
  followed by the rest of the function.
\<close>

type_synonym ('s, 'a) call = "'s \<Rightarrow> 'a result \<times> 's"

definition ret :: "'a \<Rightarrow> ('s, 'a) call" where
  "ret x s = (Inr x, s)"

definition fail :: "go_error \<Rightarrow> ('s, 'a) call" where
  "fail e s = (Inl e, s)"

definition and_then :: "('s, 'a) call \<Rightarrow> ('a \<Rightarrow> ('s, 'b) call) \<Rightarrow> ('s, 'b) call" where
  "and_then m f s = (case m s of (Inl e, s') \<Rightarrow> (Inl e, s') | (Inr x, s') \<Rightarrow> f x s')"

lemma and_then_simps [simp]:
  "and_then (ret x) f = f x" "and_then (fail e) f = fail e" "and_then m ret = m"
  "and_then (Pair (Inr x)) f = f x" "and_then (Pair (Inl e)) f = Pair (Inl e)"
  by (auto simp: and_then_def ret_def fail_def fun_eq_iff split: sum.splits prod.splits)

lemma and_then_assoc [simp]: "and_then (and_then m f) g = and_then m (\<lambda>x. and_then (f x) g)"
  by (auto simp: and_then_def fun_eq_iff split: sum.splits prod.splits)

lemma and_then_InrD:
  "and_then m f s = (Inr y, s') \<Longrightarrow> \<exists>x s1. m s = (Inr x, s1) \<and> f x s1 = (Inr y, s')"
  by (auto simp: and_then_def split: sum.splits prod.splits)

lemma ret_apply [simp]: "ret x s = (Inr x, s)" and fail_apply [simp]: "fail e s = (Inl e, s)"
  by (simp_all add: ret_def fail_def)

text \<open>Reading and changing the state, and a call whose error the caller looks at.\<close>

definition gets :: "('s \<Rightarrow> 'v) \<Rightarrow> ('v \<Rightarrow> ('s, 'a) call) \<Rightarrow> ('s, 'a) call" where
  "gets f m s = m (f s) s"

definition modify :: "('s \<Rightarrow> 's) \<Rightarrow> ('s, unit) call" where
  "modify f s = (Inr (), f s)"

definition attempt :: "('s, 'a) call \<Rightarrow> ('s, 'a result) call" where
  "attempt m s = (case m s of (r, s') \<Rightarrow> (Inr r, s'))"

text \<open>A loop whose body cannot fail.\<close>

definition for_each :: "('a \<Rightarrow> 's \<Rightarrow> 's) \<Rightarrow> 'a list \<Rightarrow> 's \<Rightarrow> 's" where
  "for_each f xs s = foldl (\<lambda>s x. f x s) s xs"

lemma call_simps [simp]:
  "gets f m s = m (f s) s" "modify g s = (Inr (), g s)"
  "for_each h [] s = s" "for_each h (x # xs) s = for_each h xs (h x s)"
  by (simp_all add: gets_def modify_def for_each_def)

text \<open>A call that keeps a predicate of the state; sequences of such calls keep it.\<close>

definition keeps :: "('s \<Rightarrow> bool) \<Rightarrow> ('s, 'a) call \<Rightarrow> bool" where
  "keeps P m \<longleftrightarrow> (\<forall>s. P s \<longrightarrow> P (snd (m s)))"

named_theorems keeps_intros \<open>calls that keep an invariant\<close>

lemma keeps_ret [keeps_intros]: "keeps P (ret x)" and keeps_fail [keeps_intros]: "keeps P (fail e)"
  by (simp_all add: keeps_def)

lemma keeps_and_then [keeps_intros]:
  "keeps P m \<Longrightarrow> (\<And>x. keeps P (f x)) \<Longrightarrow> keeps P (and_then m f)"
  by (fastforce simp: keeps_def and_then_def split: sum.splits prod.splits)

lemma keeps_gets [keeps_intros]: "(\<And>s. P s \<Longrightarrow> P (snd (m (f s) s))) \<Longrightarrow> keeps P (gets f m)"
  by (simp add: keeps_def)

lemma keeps_attempt [keeps_intros]: "keeps P m \<Longrightarrow> keeps P (attempt m)"
  by (auto simp: keeps_def attempt_def split: prod.splits)

lemma for_each_keeps: "(\<And>x s. x \<in> set xs \<Longrightarrow> P s \<Longrightarrow> P (f x s)) \<Longrightarrow> P s \<Longrightarrow> P (for_each f xs s)"
  by (induction xs arbitrary: s) simp_all

text \<open>Recording the requests of a client: the state is paired with the list of what was sent.\<close>

definition logged :: "('q \<Rightarrow> ('s, 'a) call) \<Rightarrow> 'q \<Rightarrow> ('q list \<times> 's, 'a) call" where
  "logged snd_fn q st = (case snd_fn q (snd st) of (r, s') \<Rightarrow> (r, (fst st @ [q], s')))"

end
