(* ===== verification/Socket_Write.thy ===== *)
theory Socket_Write
  imports Types Helper Socket Go_Calls
begin

text \<open>
  The operations of \<^verbatim>\<open>socket_write.go\<close>: writing, editing, reacting to and deleting messages, joining
  and leaving channels, with the join-and-retry of a rejected write; and the payload structs of
  \<^verbatim>\<open>socket.go\<close>. The operations are written over a function that sends an envelope and waits for the
  response; \<open>socket_transmit\<close> below is that function on the socket of theory \<open>Socket\<close>. The codec of
  the API bodies is a parameter.
\<close>

section \<open>Payloads\<close>

record ReplyMessageData =
  rmd_ClanID :: string
  rmd_ChannelID :: string
  rmd_ChannelType :: int64
  rmd_Mode :: int64
  rmd_IsPublic :: bool
  rmd_Content :: content
  rmd_Mentions :: "Mention slice"
  rmd_Attachments :: "Attachment slice"
  rmd_References :: "MessageRef slice"
  rmd_AnonymousMessage :: bool
  rmd_MentionEveryone :: bool
  rmd_Avatar :: string
  rmd_Code :: int64
  rmd_TopicID :: string

record EphemeralMessageData =
  emd_ReceiverIDs :: "string list"
  emd_ClanID :: string
  emd_ChannelID :: string
  emd_ChannelType :: int64
  emd_Mode :: int64
  emd_IsPublic :: bool
  emd_Content :: content
  emd_Mentions :: "Mention slice"
  emd_Attachments :: "Attachment slice"
  emd_References :: "MessageRef slice"
  emd_AnonymousMessage :: bool
  emd_MentionEveryone :: bool
  emd_Avatar :: string
  emd_Code :: int64
  emd_TopicID :: string
  emd_MessageID :: string

record UpdateMessageData =
  umd_ClanID :: string
  umd_ChannelID :: string
  umd_ChannelType :: int64
  umd_Mode :: int64
  umd_IsPublic :: bool
  umd_MessageID :: string
  umd_Content :: content
  umd_Mentions :: "Mention slice"
  umd_Attachments :: "Attachment slice"
  umd_CreateTimeSeconds :: uint32
  umd_HideEditted :: bool
  umd_TopicID :: string
  umd_IsUpdateMsgTopic :: bool

record ReactMessageData =
  rad_ID :: string
  rad_ClanID :: string
  rad_ChannelID :: string
  rad_ChannelType :: int64
  rad_Mode :: int64
  rad_IsPublic :: bool
  rad_MessageID :: string
  rad_EmojiID :: string
  rad_Emoji :: string
  rad_Count :: int64
  rad_MessageSenderID :: string
  rad_ActionDelete :: bool

record RemoveMessageData =
  rvd_ClanID :: string
  rvd_ChannelID :: string
  rvd_ChannelType :: int64
  rvd_Mode :: int64
  rvd_IsPublic :: bool
  rvd_MessageID :: string
  rvd_TopicID :: string
  rvd_HasAttachment :: bool

section \<open>Joining\<close>

text \<open>\<open>transmit\<close> is \<^verbatim>\<open>DefaultSocket.send\<close> with the default timeout: it sends an envelope and returns the
  envelope of the response.\<close>

type_synonym 's transmit = "pb_Envelope \<Rightarrow> ('s, pb_Envelope) call"

definition isMustJoinChannelError :: "go_error \<Rightarrow> bool" where
  "isMustJoinChannelError err =
     (let msg = error_string err
      in str_contains msg ''error 3:'' \<or> str_contains msg ''Must join channel before sending messages'')"

definition JoinClanChat :: "'s transmit \<Rightarrow> string \<Rightarrow> ('s, pb_ClanJoin option) call" where
  "JoinClanChat transmit clanID =
     and_then (transmit (zero_Envelope\<lparr>env_ClanJoin := Some (zero_ClanJoin\<lparr>cj_ClanId := atoiID clanID\<rparr>)\<rparr>))
       (\<lambda>resp. ret (env_ClanJoin resp))"

definition join_envelope :: "string \<Rightarrow> string \<Rightarrow> int64 \<Rightarrow> bool \<Rightarrow> pb_Envelope" where
  "join_envelope clanID channelID channelType isPublic =
     zero_Envelope\<lparr>env_ChannelJoin := Some \<lparr>
       chj_ClanId = atoiID clanID,
       chj_ChannelId = atoiID channelID,
       chj_ChannelType = to_int32 channelType,
       chj_IsPublic = isPublic\<rparr>\<rparr>"

definition JoinChat :: "'s transmit \<Rightarrow> string \<Rightarrow> string \<Rightarrow> int64 \<Rightarrow> bool \<Rightarrow> ('s, pb_Channel option) call" where
  "JoinChat transmit clanID channelID channelType isPublic =
     and_then (transmit (join_envelope clanID channelID channelType isPublic)) (\<lambda>resp. ret (env_Channel resp))"

definition LeaveChat :: "'s transmit \<Rightarrow> string \<Rightarrow> string \<Rightarrow> int64 \<Rightarrow> bool \<Rightarrow> ('s, unit) call" where
  "LeaveChat transmit clanID channelID channelType isPublic =
     and_then (transmit (zero_Envelope\<lparr>env_ChannelLeave := Some \<lparr>
       chl_ClanId = atoiID clanID,
       chl_ChannelId = atoiID channelID,
       chl_ChannelType = to_int32 channelType,
       chl_IsPublic = isPublic\<rparr>\<rparr>)) (\<lambda>_. ret ())"

definition joinChannelBeforeRetry ::
  "'s transmit \<Rightarrow> string \<Rightarrow> string \<Rightarrow> int64 \<Rightarrow> int64 \<Rightarrow> bool \<Rightarrow> ('s, unit) call" where
  "joinChannelBeforeRetry transmit clanID channelID channelType mode isPublic =
     (let channelType = (if channelType = 0 then getChannelTypeFromMode mode else channelType)
      in and_then (JoinChat transmit clanID channelID channelType isPublic) (\<lambda>_. ret ()))"

section \<open>Writing messages\<close>

text \<open>The common tail of \<^verbatim>\<open>WriteChatMessage\<close> and \<^verbatim>\<open>WriteEphemeralMessage\<close>: send, and when the server
  answers that the channel must be joined first, join it and send once more.\<close>

definition send_with_join :: "('s, 'a) call \<Rightarrow> ('s, unit) call \<Rightarrow> ('s, 'a) call" where
  "send_with_join write join s = (case write s of
      (Inr ack, s1) \<Rightarrow> (Inr ack, s1)
    | (Inl err, s1) \<Rightarrow>
        if isMustJoinChannelError err
        then (case join s1 of
                (Inl jerr, s2) \<Rightarrow> (Inl (ErrWrap [] err ('' (auto-join failed: '' @ error_string jerr @ '')'')), s2)
              | (Inr _, s2) \<Rightarrow> write s2)
        else (Inl err, s1))"

text \<open>\<^verbatim>\<open>marshalContent\<close> followed by \<^verbatim>\<open>validateContentLength\<close>.\<close>

definition checked_content :: "content \<Rightarrow> string result" where
  "checked_content c = (case marshalContent c of
      Inl e \<Rightarrow> Inl e
    | Inr s \<Rightarrow> (case validateContentLength s of Some e \<Rightarrow> Inl e | None \<Rightarrow> Inr s))"

definition chat_envelope :: "ReplyMessageData \<Rightarrow> string \<Rightarrow> pb_Envelope" where
  "chat_envelope d content = zero_Envelope\<lparr>env_ChannelMessageSend := Some (zero_ChannelMessageSend\<lparr>
     cms_ClanId := atoiID (rmd_ClanID d),
     cms_ChannelId := atoiID (rmd_ChannelID d),
     cms_Mode := to_int32 (rmd_Mode d),
     cms_IsPublic := rmd_IsPublic d,
     cms_Content := content,
     cms_Mentions := mentionsToProto (rmd_Mentions d),
     cms_Attachments := attachmentsToProto (rmd_Attachments d),
     cms_References := refsToProto (rmd_References d),
     cms_AnonymousMessage := rmd_AnonymousMessage d,
     cms_MentionEveryone := rmd_MentionEveryone d,
     cms_Avatar := rmd_Avatar d,
     cms_Code := to_int32 (rmd_Code d),
     cms_TopicId := atoiID (rmd_TopicID d)\<rparr>)\<rparr>"

definition WriteChatMessage :: "'s transmit \<Rightarrow> ReplyMessageData \<Rightarrow> ('s, pb_ChannelMessageAck option) call" where
  "WriteChatMessage transmit d = (case checked_content (rmd_Content d) of
      Inl e \<Rightarrow> fail e
    | Inr content \<Rightarrow>
        send_with_join
          (and_then (transmit (chat_envelope d content)) (\<lambda>resp. ret (env_ChannelMessageAck resp)))
          (joinChannelBeforeRetry transmit (rmd_ClanID d) (rmd_ChannelID d) (rmd_ChannelType d) (rmd_Mode d) (rmd_IsPublic d)))"

definition ephemeral_envelope :: "EphemeralMessageData \<Rightarrow> string \<Rightarrow> pb_Envelope" where
  "ephemeral_envelope d content = zero_Envelope\<lparr>env_EphemeralMessageSend := Some \<lparr>
     ems_Message = Some (zero_ChannelMessageSend\<lparr>
       cms_ClanId := atoiID (emd_ClanID d),
       cms_ChannelId := atoiID (emd_ChannelID d),
       cms_Mode := to_int32 (emd_Mode d),
       cms_IsPublic := emd_IsPublic d,
       cms_Content := content,
       cms_Mentions := mentionsToProto (emd_Mentions d),
       cms_Attachments := attachmentsToProto (emd_Attachments d),
       cms_References := refsToProto (emd_References d),
       cms_AnonymousMessage := emd_AnonymousMessage d,
       cms_MentionEveryone := emd_MentionEveryone d,
       cms_Avatar := emd_Avatar d,
       cms_Code := to_int32 (emd_Code d),
       cms_TopicId := atoiID (emd_TopicID d),
       cms_Id := atoiID (emd_MessageID d)\<rparr>),
     ems_ReceiverIds = map atoiID (emd_ReceiverIDs d)\<rparr>\<rparr>"

definition WriteEphemeralMessage :: "'s transmit \<Rightarrow> EphemeralMessageData \<Rightarrow> ('s, pb_ChannelMessage option) call" where
  "WriteEphemeralMessage transmit d = (case checked_content (emd_Content d) of
      Inl e \<Rightarrow> fail e
    | Inr content \<Rightarrow>
        send_with_join
          (and_then (transmit (ephemeral_envelope d content)) (\<lambda>resp. ret (env_ChannelMessage resp)))
          (joinChannelBeforeRetry transmit (emd_ClanID d) (emd_ChannelID d) (emd_ChannelType d) (emd_Mode d) (emd_IsPublic d)))"

section \<open>Editing and deleting\<close>

text \<open>\<open>request\<close> is \<^verbatim>\<open>DefaultSocket.sendApiRequest\<close>; the protobuf codec of the two messages is a
  parameter.\<close>

type_synonym 's api_request = "string \<Rightarrow> bytes \<Rightarrow> ('s, bytes) call"

type_synonym 'm codec = "('m \<Rightarrow> bytes result) \<times> (bytes \<Rightarrow> 'm result)"

definition update_message :: "UpdateMessageData \<Rightarrow> string \<Rightarrow> pb_ChannelMessageUpdate" where
  "update_message d content = \<lparr>
     cmu_ClanId = atoiID (umd_ClanID d),
     cmu_ChannelId = atoiID (umd_ChannelID d),
     cmu_MessageId = atoiID (umd_MessageID d),
     cmu_Content = content,
     cmu_Mentions = mentionsToProto (umd_Mentions d),
     cmu_Attachments = attachmentsToProto (umd_Attachments d),
     cmu_Mode = to_int32 (umd_Mode d),
     cmu_IsPublic = umd_IsPublic d,
     cmu_HideEditted = umd_HideEditted d,
     cmu_TopicId = atoiID (umd_TopicID d),
     cmu_IsUpdateMsgTopic = umd_IsUpdateMsgTopic d,
     cmu_CreateTimeSeconds = umd_CreateTimeSeconds d\<rparr>"

definition UpdateChannelMessage ::
  "pb_ChannelMessageUpdate codec \<Rightarrow> 's api_request \<Rightarrow> UpdateMessageData \<Rightarrow> ('s, pb_ChannelMessageAck) call" where
  "UpdateChannelMessage codec request d = (case checked_content (umd_Content d) of
      Inl e \<Rightarrow> fail e
    | Inr content \<Rightarrow> (case fst codec (update_message d content) of
        Inl e \<Rightarrow> fail e
      | Inr body \<Rightarrow>
          and_then (request ''UpdateChannelMessage'' body) (\<lambda>respBody.
            case snd codec respBody of
              Inl e \<Rightarrow> fail e
            | Inr updated \<Rightarrow>
                (let ack = zero_ChannelMessageAck\<lparr>
                       ack_ChannelId := atoiID (umd_ChannelID d),
                       ack_MessageId := atoiID (umd_MessageID d),
                       ack_Code := 1\<rparr>;
                     ack = (if ack_ChannelId ack = 0 then ack\<lparr>ack_ChannelId := cmu_ChannelId updated\<rparr> else ack);
                     ack = (if ack_MessageId ack = 0 then ack\<lparr>ack_MessageId := cmu_MessageId updated\<rparr> else ack)
                 in ret ack))))"

definition remove_message :: "RemoveMessageData \<Rightarrow> pb_ChannelMessageRemove" where
  "remove_message d = zero_ChannelMessageRemove\<lparr>
     cmr_ClanId := atoiID (rvd_ClanID d),
     cmr_ChannelId := atoiID (rvd_ChannelID d),
     cmr_MessageId := atoiID (rvd_MessageID d),
     cmr_Mode := to_int32 (rvd_Mode d),
     cmr_IsPublic := rvd_IsPublic d,
     cmr_HasAttachment := rvd_HasAttachment d,
     cmr_TopicId := atoiID (rvd_TopicID d)\<rparr>"

definition DeleteChannelMessage ::
  "pb_ChannelMessageRemove codec \<Rightarrow> 's api_request \<Rightarrow> RemoveMessageData \<Rightarrow> ('s, pb_ChannelMessageAck) call" where
  "DeleteChannelMessage codec request d = (case fst codec (remove_message d) of
      Inl e \<Rightarrow> fail e
    | Inr body \<Rightarrow>
        and_then (request ''DeleteChannelMessage'' body) (\<lambda>respBody.
          case snd codec respBody of
            Inl e \<Rightarrow> fail e
          | Inr removed \<Rightarrow>
              (let ack = zero_ChannelMessageAck\<lparr>
                     ack_ChannelId := atoiID (rvd_ChannelID d),
                     ack_MessageId := atoiID (rvd_MessageID d),
                     ack_Code := 2\<rparr>;
                   ack = (if ack_ChannelId ack = 0 then ack\<lparr>ack_ChannelId := cmr_ChannelId removed\<rparr> else ack);
                   ack = (if ack_MessageId ack = 0 then ack\<lparr>ack_MessageId := cmr_MessageId removed\<rparr> else ack)
               in ret ack)))"

definition UpdateChatMessage :: "'s transmit \<Rightarrow> UpdateMessageData \<Rightarrow> ('s, pb_ChannelMessageAck option) call" where
  "UpdateChatMessage transmit d = (case checked_content (umd_Content d) of
      Inl e \<Rightarrow> fail e
    | Inr content \<Rightarrow>
        and_then (transmit (zero_Envelope\<lparr>env_ChannelMessageUpdate := Some (update_message d content)\<rparr>))
          (\<lambda>resp. ret (env_ChannelMessageAck resp)))"

definition WriteMessageReaction :: "'s transmit \<Rightarrow> ReactMessageData \<Rightarrow> ('s, pb_MessageReaction option) call" where
  "WriteMessageReaction transmit d =
     and_then (transmit (zero_Envelope\<lparr>env_MessageReactionEvent := Some (zero_MessageReaction\<lparr>
       mre_Id := atoiID (rad_ID d),
       mre_ClanId := atoiID (rad_ClanID d),
       mre_ChannelId := atoiID (rad_ChannelID d),
       mre_Mode := to_int32 (rad_Mode d),
       mre_IsPublic := rad_IsPublic d,
       mre_MessageId := atoiID (rad_MessageID d),
       mre_EmojiId := atoiID (rad_EmojiID d),
       mre_Emoji := rad_Emoji d,
       mre_Count := to_int32 (rad_Count d),
       mre_MessageSenderId := atoiID (rad_MessageSenderID d),
       mre_Action := rad_ActionDelete d\<rparr>)\<rparr>))
     (\<lambda>resp. ret (env_MessageReactionEvent resp))"

definition RemoveChatMessage :: "'s transmit \<Rightarrow> RemoveMessageData \<Rightarrow> ('s, pb_ChannelMessageAck option) call" where
  "RemoveChatMessage transmit d =
     and_then (transmit (zero_Envelope\<lparr>env_ChannelMessageRemove := Some (zero_ChannelMessageRemove\<lparr>
       cmr_ClanId := atoiID (rvd_ClanID d),
       cmr_ChannelId := atoiID (rvd_ChannelID d),
       cmr_Mode := to_int32 (rvd_Mode d),
       cmr_IsPublic := rvd_IsPublic d,
       cmr_MessageId := atoiID (rvd_MessageID d),
       cmr_TopicId := atoiID (rvd_TopicID d)\<rparr>)\<rparr>))
     (\<lambda>resp. ret (env_ChannelMessageAck resp))"

section \<open>On the socket\<close>

text \<open>The parameters of the socket: codec, connection, transport, and what happens while a sender waits.\<close>

record socket_env =
  se_quote :: "string \<Rightarrow> string"
  se_marshal :: "pb_Envelope \<Rightarrow> bytes result"
  se_io :: "bytes \<Rightarrow> go_error option"
  se_kind :: TransportKind
  se_park :: "int32 \<Rightarrow> chan_id \<Rightarrow> socket_state \<Rightarrow> wait_outcome \<times> socket_state"

text \<open>A response without an envelope would be dereferenced by the callers, which panics; the read loop
  never delivers one.\<close>

definition nil_dereference :: go_error where
  "nil_dereference = ErrNew ''runtime error: invalid memory address or nil pointer dereference''"

definition socket_transmit :: "socket_env \<Rightarrow> socket_state transmit" where
  "socket_transmit se env = and_then (send (se_marshal se) (se_io se) (se_kind se) (se_park se) env)
     (\<lambda>r. case r of Some resp \<Rightarrow> ret resp | None \<Rightarrow> fail nil_dereference)"

definition socket_request :: "socket_env \<Rightarrow> socket_state api_request" where
  "socket_request se = sendApiRequest (se_quote se) (se_marshal se) (se_io se) (se_kind se) (se_park se)"

section \<open>Recognizing the rejection\<close>

lemma sublist_skip: "list_all (\<lambda>c. c \<noteq> x) ys \<Longrightarrow> sublist (x # xs) (ys @ zs) \<longleftrightarrow> sublist (x # xs) zs"
  by (induction ys) (auto simp: sublist_Cons_right)

lemma FormatInt_chars: "list_all (\<lambda>c. is_digit c \<or> c = CHR ''-'') (FormatInt i)"
  using nat_digits_digits [of "nat (- i)"] nat_digits_digits [of "nat i"]
  by (auto simp: FormatInt_def list_all_iff)

lemma FormatInt_skip:
  assumes "\<not> is_digit x" "x \<noteq> CHR ''-''"
  shows "list_all (\<lambda>c. c \<noteq> x) (FormatInt i)"
  using FormatInt_chars [of i] assms by (auto simp: list_all_iff)

lemma FormatInt_int32_inject: "FormatInt (sint (v :: int32)) = FormatInt (sint w) \<longleftrightarrow> v = w"
proof
  assume eq: "FormatInt (sint v) = FormatInt (sint w)"
  have b: "- (2 ^ 63) \<le> sint x" "sint x < 2 ^ 63" for x :: int32
    using sint_greater_eq [of x] sint_less [of x] by simp_all
  have "(word_of_int (sint v) :: int64) = word_of_int (sint w)"
    using ParseInt_FormatInt [OF b [of v]] ParseInt_FormatInt [OF b [of w]] eq by simp
  then have "of_int32 v = of_int32 w" unfolding of_int32_def by simp
  then show "v = w" by (metis to_of_int32)
qed simp

lemma FormatInt_three: "FormatInt (sint (3 :: int32)) = ''3''"
  by (simp add: FormatInt_def nat_digits.simps digit_char_def char_of_def bit_0)

lemma prefix_code: "prefix ''3:'' (FormatInt (sint c) @ '': '' @ msg) \<longleftrightarrow> c = (3 :: int32)"
proof
  assume pre: "prefix ''3:'' (FormatInt (sint c) @ '': '' @ msg)"
  have no: "list_all (\<lambda>x. x \<noteq> CHR '':'') (FormatInt (sint c))" by (rule FormatInt_skip) (simp_all add: is_digit_def)
  have "FormatInt (sint c) = ''3''"
  proof (cases "FormatInt (sint c)")
    case Nil
    then show ?thesis using pre by simp
  next
    case (Cons x xs)
    then have "x = CHR ''3''" using pre by simp
    moreover have "xs = []" using pre no Cons by (cases xs) auto
    ultimately show ?thesis using Cons by simp
  qed
  then show "c = 3" by (metis FormatInt_three FormatInt_int32_inject)
next
  assume "c = 3"
  then show "prefix ''3:'' (FormatInt (sint c) @ '': '' @ msg)" by (simp only: FormatInt_three) simp
qed

lemma contains_code:
  "str_contains (error_string (socket_error e)) ''error 3:'' \<longleftrightarrow> err_Code e = 3 \<or> str_contains (err_Message e) ''error 3:''"
proof -
  have "sublist ''error 3:'' (FormatInt (sint (err_Code e)) @ '': '' @ err_Message e) = sublist ''error 3:'' (err_Message e)"
    by (subst sublist_skip) (simp_all add: FormatInt_skip is_digit_def sublist_Cons_right)
  then show ?thesis
    using prefix_code [of "err_Code e" "err_Message e"] by (simp add: str_contains_def socket_error_def sublist_Cons_right)
qed

lemma contains_must_join:
  "str_contains (error_string (socket_error e)) (CHR ''M'' # rest) \<longleftrightarrow> str_contains (err_Message e) (CHR ''M'' # rest)"
proof -
  have "sublist (CHR ''M'' # rest) (FormatInt (sint (err_Code e)) @ '': '' @ err_Message e) = sublist (CHR ''M'' # rest) (err_Message e)"
    by (subst sublist_skip) (simp_all add: FormatInt_skip is_digit_def sublist_Cons_right)
  then show ?thesis by (simp add: str_contains_def socket_error_def sublist_Cons_right)
qed

text \<open>
  The rejection that calls for a join is recognized in the error text: of the errors the server
  sends, exactly those with code 3 or whose message has one of the two phrases; a timeout or a closed
  connection never is taken for it, so such a write is never repeated.
\<close>

theorem must_join_recognized:
  "(isMustJoinChannelError (socket_error e) \<longleftrightarrow>
     err_Code e = 3 \<or> str_contains (err_Message e) ''error 3:'' \<or>
     str_contains (err_Message e) ''Must join channel before sending messages'') \<and>
   \<not> isMustJoinChannelError ErrSocketClosed \<and> \<not> isMustJoinChannelError ErrSendTimeout"
proof (intro conjI)
  show "\<not> isMustJoinChannelError ErrSocketClosed" "\<not> isMustJoinChannelError ErrSendTimeout"
    by (simp_all add: isMustJoinChannelError_def str_contains_def sublist_Cons_right)
  show "isMustJoinChannelError (socket_error e) \<longleftrightarrow>
     err_Code e = 3 \<or> str_contains (err_Message e) ''error 3:'' \<or>
     str_contains (err_Message e) ''Must join channel before sending messages''"
    by (simp add: isMustJoinChannelError_def contains_code contains_must_join)
qed

section \<open>Join and retry\<close>

text \<open>What a write with join and retry does to the sequence of requests: \<open>m\<close> is the message, \<open>j\<close> the join.
  The outcomes of the requests are related to the result of the whole write.\<close>

inductive join_retry ::
  "'s transmit \<Rightarrow> pb_Envelope \<Rightarrow> pb_Envelope \<Rightarrow> 's \<Rightarrow> pb_Envelope list \<Rightarrow> pb_Envelope result \<Rightarrow> 's \<Rightarrow> bool"
  for transmit :: "'s transmit" and m j :: pb_Envelope and s :: 's where
  accepted: "transmit m s = (Inr resp, s') \<Longrightarrow> join_retry transmit m j s [m] (Inr resp) s'"
| rejected: "transmit m s = (Inl e, s') \<Longrightarrow> \<not> isMustJoinChannelError e \<Longrightarrow> join_retry transmit m j s [m] (Inl e) s'"
| not_joined: "transmit m s = (Inl e, s1) \<Longrightarrow> isMustJoinChannelError e \<Longrightarrow> transmit j s1 = (Inl je, s') \<Longrightarrow>
    join_retry transmit m j s [m, j] (Inl (ErrWrap [] e ('' (auto-join failed: '' @ error_string je @ '')''))) s'"
| retried: "transmit m s = (Inl e, s1) \<Longrightarrow> isMustJoinChannelError e \<Longrightarrow> transmit j s1 = (Inr resp, s2) \<Longrightarrow>
    transmit m s2 = (r, s') \<Longrightarrow> join_retry transmit m j s [m, j, m] r s'"

definition retry_type :: "int64 \<Rightarrow> int64 \<Rightarrow> int64" where
  "retry_type channelType mode = (if channelType = 0 then getChannelTypeFromMode mode else channelType)"

lemma joinChannelBeforeRetry_eq:
  "joinChannelBeforeRetry transmit clanID channelID channelType mode isPublic =
     and_then (transmit (join_envelope clanID channelID (retry_type channelType mode) isPublic)) (\<lambda>_. ret ())"
  by (simp add: joinChannelBeforeRetry_def JoinChat_def retry_type_def Let_def ret_def [abs_def])

lemma send_with_join_retry:
  assumes "send_with_join (and_then (logged transmit m) (\<lambda>resp. ret (f resp)))
      (and_then (logged transmit j) (\<lambda>_. ret ())) (log0, s) = (r, (log, s'))"
  shows "\<exists>log' r'. log = log0 @ log' \<and> r = map_sum id f r' \<and> join_retry transmit m j s log' r' s'"
proof (cases "transmit m s")
  case (Pair r1 s1)
  show ?thesis
  proof (cases r1)
    case (Inr resp)
    then show ?thesis using assms Pair
      by (auto simp: send_with_join_def and_then_def logged_def intro!: exI [of _ "Inr resp"] join_retry.accepted)
  next
    case (Inl e)
    show ?thesis
    proof (cases "isMustJoinChannelError e")
      case False
      then show ?thesis using assms Pair Inl
        by (auto simp: send_with_join_def and_then_def logged_def intro!: exI [of _ "Inl e"] join_retry.rejected)
    next
      case True
      obtain r2 s2 where j: "transmit j s1 = (r2, s2)" by (cases "transmit j s1")
      obtain r3 s3 where m2: "transmit m s2 = (r3, s3)" by (cases "transmit m s2")
      show ?thesis
      proof (cases r2)
        case (Inl je)
        then show ?thesis using assms Pair \<open>r1 = Inl e\<close> True j
          by (auto simp: send_with_join_def and_then_def logged_def intro!: join_retry.not_joined
              exI [of _ "Inl (ErrWrap [] e ('' (auto-join failed: '' @ error_string je @ '')''))"])
      next
        case (Inr resp)
        then have "log = log0 @ [m, j, m] \<and> r = map_sum id f r3 \<and> s' = s3"
          using assms Pair \<open>r1 = Inl e\<close> True j m2
          by (cases r3) (auto simp: send_with_join_def and_then_def logged_def)
        then show ?thesis using join_retry.retried [where transmit = transmit and m = m and j = j, OF _ True _ m2] Pair \<open>r1 = Inl e\<close> j Inr by blast
      qed
    qed
  qed
qed

text \<open>
  C27. Writing a message joins the channel and retries at most once: content that cannot be encoded or
  is too long sends nothing; otherwise the message is sent once, and only when the server answers that
  the channel must be joined, the channel is joined (with the type of the channel, or the one its mode
  stands for) and, if that worked, the same message is sent a second and last time. The outcome is
  that of the last request; a failed join is reported wrapped around the original rejection. The
  same holds for ephemeral messages.
\<close>

theorem write_joins_and_retries_once:
  "(WriteChatMessage (logged transmit) d ([], s) = (r, (log, s')) \<longrightarrow>
     (case checked_content (rmd_Content d) of
        Inl e \<Rightarrow> r = Inl e \<and> log = [] \<and> s' = s
      | Inr content \<Rightarrow> \<exists>r'. r = map_sum id env_ChannelMessageAck r' \<and>
          join_retry transmit (chat_envelope d content)
            (join_envelope (rmd_ClanID d) (rmd_ChannelID d) (retry_type (rmd_ChannelType d) (rmd_Mode d)) (rmd_IsPublic d))
            s log r' s')) \<and>
   (WriteEphemeralMessage (logged transmit) ed ([], s) = (re, (log, s')) \<longrightarrow>
     (case checked_content (emd_Content ed) of
        Inl e \<Rightarrow> re = Inl e \<and> log = [] \<and> s' = s
      | Inr content \<Rightarrow> \<exists>r'. re = map_sum id env_ChannelMessage r' \<and>
          join_retry transmit (ephemeral_envelope ed content)
            (join_envelope (emd_ClanID ed) (emd_ChannelID ed) (retry_type (emd_ChannelType ed) (emd_Mode ed)) (emd_IsPublic ed))
            s log r' s'))"
  by (auto simp: WriteChatMessage_def WriteEphemeralMessage_def joinChannelBeforeRetry_eq fail_def
      dest!: send_with_join_retry split: sum.splits)

text \<open>A server that rejects the first write with code 3, accepts the join and the second write.\<close>

definition demo_server :: "nat transmit" where
  "demo_server env n =
     (if n = 0 then (Inl (socket_error (zero_Error\<lparr>err_Code := 3\<rparr>)), 1)
      else (Inr (zero_Envelope\<lparr>env_Channel := Some zero_Channel, env_ChannelMessageAck := Some (zero_ChannelMessageAck\<lparr>ack_MessageId := 5\<rparr>)\<rparr>), Suc n))"

definition demo_reply :: ReplyMessageData where
  "demo_reply = \<lparr>rmd_ClanID = ''1'', rmd_ChannelID = ''2'', rmd_ChannelType = 0, rmd_Mode = 4, rmd_IsPublic = False,
     rmd_Content = ContentNil, rmd_Mentions = None, rmd_Attachments = None, rmd_References = None,
     rmd_AnonymousMessage = False, rmd_MentionEveryone = False, rmd_Avatar = [], rmd_Code = 0, rmd_TopicID = []\<rparr>"

lemma demo_content: "checked_content ContentNil = Inr ''{}''"
  by (simp add: checked_content_def marshalContent_def strip_newline_def validateContentLength_def
      UTF16Len_def runes_def decode_runes.simps decode_rune_def maxContentLength_def)

lemma demo_write:
  "WriteChatMessage (logged demo_server) demo_reply ([], 0) =
     (Inr (Some (zero_ChannelMessageAck\<lparr>ack_MessageId := 5\<rparr>)),
      [chat_envelope demo_reply ''{}'', join_envelope ''1'' ''2'' 3 False, chat_envelope demo_reply ''{}''], 3)"
proof -
  have "isMustJoinChannelError (socket_error (zero_Error\<lparr>err_Code := 3\<rparr>))"
    by (simp add: isMustJoinChannelError_def contains_code)
  then show ?thesis
    by (simp add: WriteChatMessage_def demo_reply_def demo_content send_with_join_def logged_def and_then_def
        demo_server_def joinChannelBeforeRetry_eq retry_type_def getChannelTypeFromMode_def)
qed

theorem write_joins_and_retries_once_witness:
  "\<exists>r'. join_retry demo_server (chat_envelope demo_reply ''{}'') (join_envelope ''1'' ''2'' 3 False) 0
     [chat_envelope demo_reply ''{}'', join_envelope ''1'' ''2'' 3 False, chat_envelope demo_reply ''{}''] r' 3"
  using write_joins_and_retries_once [of demo_server demo_reply 0
      "Inr (Some (zero_ChannelMessageAck\<lparr>ack_MessageId := 5\<rparr>))"
      "[chat_envelope demo_reply ''{}'', join_envelope ''1'' ''2'' 3 False, chat_envelope demo_reply ''{}'']" 3]
    demo_write by (auto simp: demo_reply_def demo_content retry_type_def getChannelTypeFromMode_def)

text \<open>
  Editing and deleting go through the API as one request of a known name: the acknowledgement
  carries code 1 for an edit and 2 for a deletion, and the ids of the request, with the server's in the
  place of an id that is missing; content that cannot be encoded or is too long sends nothing.
\<close>

theorem edit_and_delete_acknowledged:
  "apiIndexFromName ''UpdateChannelMessage'' \<noteq> None \<and> apiIndexFromName ''DeleteChannelMessage'' \<noteq> None \<and>
   (UpdateChannelMessage uc (\<lambda>name body. logged (\<lambda>(name, body). request name body) (name, body)) ud ([], s) = (Inr ack, (log, s')) \<longrightarrow>
     (\<exists>content body resp updated. checked_content (umd_Content ud) = Inr content \<and>
        fst uc (update_message ud content) = Inr body \<and> log = [(''UpdateChannelMessage'', body)] \<and>
        request ''UpdateChannelMessage'' body s = (Inr resp, s') \<and> snd uc resp = Inr updated \<and>
        ack_Code ack = 1 \<and>
        ack_ChannelId ack = (if atoiID (umd_ChannelID ud) = 0 then cmu_ChannelId updated else atoiID (umd_ChannelID ud)) \<and>
        ack_MessageId ack = (if atoiID (umd_MessageID ud) = 0 then cmu_MessageId updated else atoiID (umd_MessageID ud)))) \<and>
   (DeleteChannelMessage dc (\<lambda>name body. logged (\<lambda>(name, body). request name body) (name, body)) rd ([], s) = (Inr ack, (log, s')) \<longrightarrow>
     (\<exists>body resp removed. fst dc (remove_message rd) = Inr body \<and> log = [(''DeleteChannelMessage'', body)] \<and>
        request ''DeleteChannelMessage'' body s = (Inr resp, s') \<and> snd dc resp = Inr removed \<and>
        ack_Code ack = 2 \<and>
        ack_ChannelId ack = (if atoiID (rvd_ChannelID rd) = 0 then cmr_ChannelId removed else atoiID (rvd_ChannelID rd)) \<and>
        ack_MessageId ack = (if atoiID (rvd_MessageID rd) = 0 then cmr_MessageId removed else atoiID (rvd_MessageID rd))))"
  by (intro conjI impI, rule apiIndexFromName_known, simp add: apiNames_def,
      rule apiIndexFromName_known, simp add: apiNames_def)
    (auto simp: UpdateChannelMessage_def DeleteChannelMessage_def and_then_def logged_def Let_def
      split: sum.splits prod.splits if_splits)

theorem edit_and_delete_acknowledged_witness:
  "\<exists>ack log s'. DeleteChannelMessage (\<lambda>_. Inr [1], \<lambda>_. Inr (zero_ChannelMessageRemove\<lparr>cmr_MessageId := 9\<rparr>))
       (\<lambda>name body. logged (\<lambda>(name, body). \<lambda>n. (Inr [2], Suc n)) (name, body))
       \<lparr>rvd_ClanID = [], rvd_ChannelID = itoaID 4, rvd_ChannelType = 1, rvd_Mode = 2, rvd_IsPublic = True, rvd_MessageID = [],
        rvd_TopicID = [], rvd_HasAttachment = False\<rparr> ([], 0) = (Inr ack, (log, s')) \<and>
     log = [(''DeleteChannelMessage'', [1])] \<and> s' = Suc 0 \<and> ack_Code ack = 2 \<and> ack_ChannelId ack = 4 \<and> ack_MessageId ack = 9"
proof -
  let ?d = "\<lparr>rvd_ClanID = [], rvd_ChannelID = itoaID 4, rvd_ChannelType = 1, rvd_Mode = 2, rvd_IsPublic = True, rvd_MessageID = [],
      rvd_TopicID = [], rvd_HasAttachment = False\<rparr>"
  let ?dc = "(\<lambda>_. Inr [1], \<lambda>_. Inr (zero_ChannelMessageRemove\<lparr>cmr_MessageId := 9\<rparr>)) :: pb_ChannelMessageRemove codec"
  let ?rq = "\<lambda>name body. logged (\<lambda>(name, body). \<lambda>n. (Inr [2], Suc n)) (name, body)"
  obtain ack log s' where run: "DeleteChannelMessage ?dc ?rq ?d ([], 0) = (Inr ack, (log, s'))"
    by (simp add: DeleteChannelMessage_def and_then_def logged_def Let_def)
  moreover have "atoiID [] = 0" by (simp add: atoiID_def)
  ultimately show ?thesis
    using edit_and_delete_acknowledged [where request = "\<lambda>_ _ n. (Inr [2], Suc n)" and dc = ?dc and rd = ?d
        and s = "0 :: nat" and ack = ack and log = log and s' = s'] run by auto
qed

end
