(* ===== verification/Base64.thy ===== *)
theory Base64
  imports Go_Ids
begin

text \<open>
  The encodings of \<^verbatim>\<open>encoding/base64\<close> that the SDK uses: \<^verbatim>\<open>StdEncoding\<close> (padded, with \<^verbatim>\<open>+\<close> and \<^verbatim>\<open>/\<close>)
  and \<^verbatim>\<open>RawURLEncoding\<close> (unpadded, with \<^verbatim>\<open>-\<close> and \<^verbatim>\<open>_\<close>). Decoding skips line ends, ignores the unused
  bits of the last group and reports the offset of the first illegal byte.
\<close>

record b64 =
  b64_62 :: char
  b64_63 :: char
  b64_padded :: bool

definition StdEncoding :: b64 where
  "StdEncoding = \<lparr>b64_62 = CHR ''+'', b64_63 = CHR ''/'', b64_padded = True\<rparr>"

definition RawURLEncoding :: b64 where
  "RawURLEncoding = \<lparr>b64_62 = CHR ''-'', b64_63 = CHR ''_'', b64_padded = False\<rparr>"

section \<open>Encoding\<close>

definition b64_char :: "b64 \<Rightarrow> nat \<Rightarrow> char" where
  "b64_char e n =
     (if n < 26 then char_of (65 + n) else if n < 52 then char_of (71 + n) else if n < 62 then char_of (n - 4)
      else if n = 62 then b64_62 e else b64_63 e)"

fun EncodeToString :: "b64 \<Rightarrow> bytes \<Rightarrow> string" where
  "EncodeToString e (a # b # c # bs) =
     (let n = unat a * 65536 + unat b * 256 + unat c
      in [b64_char e (n div 262144), b64_char e (n div 4096 mod 64), b64_char e (n div 64 mod 64), b64_char e (n mod 64)]) @
     EncodeToString e bs"
| "EncodeToString e [a, b] =
     (let n = unat a * 65536 + unat b * 256
      in [b64_char e (n div 262144), b64_char e (n div 4096 mod 64), b64_char e (n div 64 mod 64)]) @
     (if b64_padded e then ''='' else [])"
| "EncodeToString e [a] =
     (let n = unat a * 65536 in [b64_char e (n div 262144), b64_char e (n div 4096 mod 64)]) @
     (if b64_padded e then ''=='' else [])"
| "EncodeToString e [] = []"

section \<open>Decoding\<close>

definition b64_val :: "b64 \<Rightarrow> char \<Rightarrow> nat option" where
  "b64_val e c = (let n = of_char c in
     if 65 \<le> n \<and> n \<le> 90 then Some (n - 65)
     else if 97 \<le> n \<and> n \<le> 122 then Some (n - 71)
     else if 48 \<le> n \<and> n \<le> 57 then Some (n + 4)
     else if c = b64_62 e then Some 62
     else if c = b64_63 e then Some 63
     else None)"

definition is_newline :: "char \<Rightarrow> bool" where
  "is_newline c \<longleftrightarrow> c = CHR 0x0A \<or> c = CHR 0x0D"

definition CorruptInputError :: "nat \<Rightarrow> go_error" where
  "CorruptInputError i = ErrNew (''illegal base64 data at input byte '' @ FormatInt (int i))"

text \<open>The bytes of a group of two to four digits.\<close>

definition b64_group :: "nat list \<Rightarrow> bytes" where
  "b64_group vs = (let val = foldl (\<lambda>n v. n * 64 + v) 0 (take 4 (vs @ [0, 0, 0]))
     in take (length vs - 1) [of_nat (val div 65536), of_nat (val div 256), of_nat val])"

text \<open>The rest of the input after a first padding character, at offset \<open>si\<close>, for a group of which the
  digits \<open>vs\<close> were read.\<close>

definition b64_finish :: "nat \<Rightarrow> nat list \<Rightarrow> string \<Rightarrow> bytes result" where
  "b64_finish si vs cs =
     (if length vs < 2 then Inl (CorruptInputError (si - 1))
      else if length vs = 2
      then (let nl = length (takeWhile is_newline cs); cs1 = dropWhile is_newline cs; si1 = si + nl
            in case cs1 of
                 [] \<Rightarrow> Inl (CorruptInputError si1)
               | c # cs2 \<Rightarrow>
                   if c \<noteq> CHR ''='' then Inl (CorruptInputError (si1 - 1))
                   else if dropWhile is_newline cs2 \<noteq> []
                   then Inl (CorruptInputError (si1 + 1 + length (takeWhile is_newline cs2)))
                   else Inr (b64_group vs))
      else if dropWhile is_newline cs \<noteq> []
      then Inl (CorruptInputError (si + length (takeWhile is_newline cs)))
      else Inr (b64_group vs))"

fun b64_loop :: "b64 \<Rightarrow> nat \<Rightarrow> nat list \<Rightarrow> string \<Rightarrow> bytes result" where
  "b64_loop e si vs [] =
     (if vs = [] then Inr []
      else if length vs = 1 \<or> b64_padded e then Inl (CorruptInputError (si - length vs))
      else Inr (b64_group vs))"
| "b64_loop e si vs (c # cs) = (case b64_val e c of
      Some v \<Rightarrow>
        if length vs = 3
        then (case b64_loop e (Suc si) [] cs of Inl err \<Rightarrow> Inl err | Inr bs \<Rightarrow> Inr (b64_group (vs @ [v]) @ bs))
        else b64_loop e (Suc si) (vs @ [v]) cs
    | None \<Rightarrow>
        if is_newline c then b64_loop e (Suc si) vs cs
        else if b64_padded e \<and> c = CHR ''='' then b64_finish (Suc si) vs cs
        else Inl (CorruptInputError si))"

definition DecodeString :: "b64 \<Rightarrow> string \<Rightarrow> bytes result" where
  "DecodeString e s = b64_loop e 0 [] s"

section \<open>Round trip\<close>

definition b64_ok :: "b64 \<Rightarrow> bool" where
  "b64_ok e \<longleftrightarrow> e = StdEncoding \<or> e = RawURLEncoding"

lemma b64_val_char:
  assumes "b64_ok e" "n < 64"
  shows "b64_val e (b64_char e n) = Some n"
proof -
  have alpha: "\<not> (65 \<le> (of_char c :: nat) \<and> (of_char c :: nat) \<le> 90)" "\<not> (97 \<le> (of_char c :: nat) \<and> (of_char c :: nat) \<le> 122)"
    "\<not> (48 \<le> (of_char c :: nat) \<and> (of_char c :: nat) \<le> 57)" if "c \<in> {b64_62 e, b64_63 e}" for c
    using that assms(1) by (auto simp: b64_ok_def StdEncoding_def RawURLEncoding_def)
  have ne: "b64_62 e \<noteq> b64_63 e" using assms(1) by (auto simp: b64_ok_def StdEncoding_def RawURLEncoding_def)
  consider "n < 26" | "26 \<le> n" "n < 52" | "52 \<le> n" "n < 62" | "n = 62" | "n = 63" using assms(2) by linarith
  then show ?thesis
  proof cases
    case 4
    then show ?thesis using alpha [of "b64_62 e"] by (auto simp: b64_val_def b64_char_def Let_def)
  next
    case 5
    then show ?thesis using alpha [of "b64_63 e"] ne by (auto simp: b64_val_def b64_char_def Let_def)
  next
    case 3
    then have "48 \<le> n - 4 \<and> n - 4 \<le> 57 \<and> n - 4 + 4 = n" by linarith
    with 3 show ?thesis by (simp add: b64_val_def b64_char_def Let_def)
  qed (simp_all add: b64_val_def b64_char_def Let_def)
qed

lemma base64_digits: "((n div 262144 * 64 + n div 4096 mod 64) * 64 + n div 64 mod 64) * 64 + n mod 64 = (n :: nat)"
proof -
  have "n div 262144 * 64 + n div 4096 mod 64 = n div 4096"
    using div_mult_mod_eq [of "n div 4096" 64] by (simp add: div_mult2_eq [symmetric])
  moreover have "n div 4096 * 64 + n div 64 mod 64 = n div 64"
    using div_mult_mod_eq [of "n div 64" 64] by (simp add: div_mult2_eq [symmetric])
  ultimately show ?thesis by (simp only: div_mult_mod_eq)
qed

lemma b64_digit_less: "n < 16777216 \<Longrightarrow> n div 262144 < (64 :: nat)" "n div 4096 mod 64 < (64 :: nat)" "n div 64 mod 64 < (64 :: nat)" "n mod 64 < (64 :: nat)"
  by (simp_all add: less_mult_imp_div_less)

lemma three_bytes:
  assumes "n = unat (a :: byte) * 65536 + unat (b :: byte) * 256 + unat (c :: byte)"
  shows "n < 16777216" "of_nat (n div 65536) = a" "of_nat (n div 256) = b" "of_nat n = c"
proof -
  have l: "unat a < 256" "unat b < 256" "unat c < 256" by (rule unat_byte_less)+
  show "n < 16777216" using l assms by linarith
  have d: "n div 65536 = unat a" "n div 256 = unat a * 256 + unat b"
    using l unfolding assms by (simp_all add: div_nat_eqI)
  show "of_nat (n div 65536) = a" by (simp add: d)
  have "unat (of_nat (n div 256) :: byte) = unat b" using l by (subst unat_of_nat_byte) (simp add: d(2))
  then show "of_nat (n div 256) = b" by (rule unsigned_word_eqI)
  have "n = (unat a * 256 + unat b) * 256 + unat c" using assms by simp
  then have "n mod 256 = unat c" using l(3) by (metis mod_less mod_mult_self3)
  then have "unat (of_nat n :: byte) = unat c" by (simp only: unat_of_nat_byte)
  then show "of_nat n = c" by (rule unsigned_word_eqI)
qed

lemma b64_group_val:
  assumes "((v0 * 64 + v1) * 64 + v2) * 64 + v3 = n"
    and "of_nat (n div 65536) = a" "of_nat (n div 256) = b" "of_nat n = c"
  shows "b64_group [v0, v1, v2, v3] = [a, b, c]"
    and "v3 = 0 \<Longrightarrow> b64_group [v0, v1, v2] = [a, b]"
    and "v3 = 0 \<Longrightarrow> v2 = 0 \<Longrightarrow> b64_group [v0, v1] = [a]"
proof -
  have f: "foldl (\<lambda>n v. n * 64 + v) 0 [v0, v1, v2, v3] = n" using assms(1) by (simp only: foldl.simps mult_0 add_0)
  then show "b64_group [v0, v1, v2, v3] = [a, b, c]" by (simp only: b64_group_def Let_def) (simp add: assms(2-4))
  show "b64_group [v0, v1, v2] = [a, b]" if "v3 = 0"
    using f that by (simp only: b64_group_def Let_def) (simp add: assms(2-4) flip: foldl.simps)
  show "b64_group [v0, v1] = [a]" if "v3 = 0" "v2 = 0"
    using f that by (simp only: b64_group_def Let_def) (simp add: assms(2-4) flip: foldl.simps)
qed

lemma b64_groups:
  "n = unat (a :: byte) * 65536 + unat (b :: byte) * 256 + unat (c :: byte) \<Longrightarrow>
     b64_group [n div 262144, n div 4096 mod 64, n div 64 mod 64, n mod 64] = [a, b, c]"
  "n = unat a * 65536 + unat b * 256 \<Longrightarrow> b64_group [n div 262144, n div 4096 mod 64, n div 64 mod 64] = [a, b]"
  "n = unat a * 65536 \<Longrightarrow> b64_group [n div 262144, n div 4096 mod 64] = [a]"
proof -
  show "b64_group [n div 262144, n div 4096 mod 64, n div 64 mod 64, n mod 64] = [a, b, c]"
    if "n = unat a * 65536 + unat b * 256 + unat c"
    by (rule b64_group_val(1) [OF base64_digits three_bytes(2-4) [OF that]])
  show "b64_group [n div 262144, n div 4096 mod 64, n div 64 mod 64] = [a, b]" if n: "n = unat a * 65536 + unat b * 256"
  proof -
    have "n = (unat a * 1024 + unat b * 4) * 64" using n by simp
    then have "n mod 64 = 0" by (simp only: mod_mult_self2_is_0)
    moreover have "n = unat a * 65536 + unat b * 256 + unat (0 :: byte)" using n by simp
    ultimately show ?thesis by (intro b64_group_val(2) [OF base64_digits three_bytes(2-4)])
  qed
  show "b64_group [n div 262144, n div 4096 mod 64] = [a]" if n: "n = unat a * 65536"
  proof -
    have "n = (unat a * 16 * 64) * 64" using n by simp
    then have "n mod 64 = 0" "n div 64 = unat a * 16 * 64"
      by (simp_all only: mod_mult_self2_is_0 nonzero_mult_div_cancel_right zero_neq_numeral not_False_eq_True)
    then have "n mod 64 = 0" "n div 64 mod 64 = 0" by (simp_all only: mod_mult_self2_is_0)
    moreover have "n = unat a * 65536 + unat (0 :: byte) * 256 + unat (0 :: byte)" using n by simp
    ultimately show ?thesis by (intro b64_group_val(3) [OF base64_digits three_bytes(2-4)])
  qed
qed

lemma b64_loop_digit:
  assumes "b64_ok e" "n < 64"
  shows "b64_loop e si vs (b64_char e n # cs) =
    (if length vs = 3
     then (case b64_loop e (Suc si) [] cs of Inl err \<Rightarrow> Inl err | Inr bs \<Rightarrow> Inr (b64_group (vs @ [n]) @ bs))
     else b64_loop e (Suc si) (vs @ [n]) cs)"
  by (simp add: b64_val_char [OF assms])

lemma three_bytes_less:
  "unat (a :: byte) * 65536 + unat (b :: byte) * 256 + unat (c :: byte) < 16777216"
  "unat a * 65536 + unat b * 256 < 16777216" "unat a * 65536 < 16777216"
  using unat_byte_less [of a] unat_byte_less [of b] unat_byte_less [of c] by linarith+

lemma b64_loop_pad:
  assumes "b64_ok e" "b64_padded e"
  shows "b64_loop e si vs (CHR ''='' # cs) = b64_finish (Suc si) vs cs"
proof -
  have "e = StdEncoding" using assms by (auto simp: b64_ok_def RawURLEncoding_def)
  then show ?thesis by (simp add: b64_val_def StdEncoding_def is_newline_def)
qed

lemma DecodeString_EncodeToString:
  assumes "b64_ok e"
  shows "DecodeString e (EncodeToString e bs) = Inr bs"
proof -
  have "b64_loop e si [] (EncodeToString e bs) = Inr bs" for si
    using assms
  proof (induction e bs arbitrary: si rule: EncodeToString.induct)
    case (1 e a b c bs)
    obtain n where n: "n = unat a * 65536 + unat b * 256 + unat c" by blast
    note digits = b64_digit_less(1) [OF three_bytes_less(1) [of a b c, folded n]] b64_digit_less(2-4)
    have "EncodeToString e (a # b # c # bs) = [b64_char e (n div 262144), b64_char e (n div 4096 mod 64),
        b64_char e (n div 64 mod 64), b64_char e (n mod 64)] @ EncodeToString e bs" by (simp add: n Let_def)
    then show ?case
      using 1 b64_groups(1) [OF n] by (simp add: b64_loop_digit digits del: b64_loop.simps EncodeToString.simps)
  next
    case (2 e a b)
    obtain n where n: "n = unat a * 65536 + unat b * 256" by blast
    note digits = b64_digit_less(1) [OF three_bytes_less(2) [of a b, folded n]] b64_digit_less(2-4)
    have "EncodeToString e [a, b] = [b64_char e (n div 262144), b64_char e (n div 4096 mod 64), b64_char e (n div 64 mod 64)] @
        (if b64_padded e then ''='' else [])" by (simp add: n Let_def)
    then show ?case
      using 2 b64_groups(2) [OF n] by (cases "b64_padded e")
        (simp_all add: b64_loop_digit digits b64_loop_pad b64_finish_def del: b64_loop.simps(2) EncodeToString.simps)
  next
    case (3 e a)
    obtain n where n: "n = unat a * 65536" by blast
    note digits = b64_digit_less(1) [OF three_bytes_less(3) [of a, folded n]] b64_digit_less(2-4)
    have "EncodeToString e [a] = [b64_char e (n div 262144), b64_char e (n div 4096 mod 64)] @
        (if b64_padded e then ''=='' else [])" by (simp add: n Let_def)
    then show ?case
      using 3 b64_groups(3) [OF n] by (cases "b64_padded e")
        (simp_all add: b64_loop_digit digits b64_loop_pad b64_finish_def is_newline_def del: b64_loop.simps(2) EncodeToString.simps)
  qed simp
  then show ?thesis by (simp add: DecodeString_def)
qed

end
