(* ===== verification/Session.thy ===== *)
theory Session
  imports Base64 Json_Struct
begin

text \<open>
  Sessions (\<^verbatim>\<open>session.go\<close>): the claims of a JSON web token and the expiry check. The payload of the token
  is base64 in the URL alphabet, with a fallback to the standard one; its claims are decoded by
  \<^verbatim>\<open>encoding/json\<close> into a number and a map. The text of a JSON error is a parameter (\<open>jerr\<close>), and the
  clock is an argument.
\<close>

section \<open>Claims\<close>

text \<open>A number stored into an \<^verbatim>\<open>any\<close> becomes a \<^verbatim>\<open>float64\<close>, which fails when it is out of range: the
  literal is \<open>m \<sqdot> 10\<^sup>e\<close> and rounds to infinity from \<open>2\<^sup>1\<^sup>0\<^sup>2\<^sup>4 - 2\<^sup>9\<^sup>7\<^sup>0\<close> on.\<close>

definition digits_value :: "string \<Rightarrow> nat" where
  "digits_value ds = foldl (\<lambda>n c. n * 10 + digit_val c) 0 ds"

definition exponent_value :: "string \<Rightarrow> int" where
  "exponent_value x = (case x of
      [] \<Rightarrow> 0
    | _ # cs \<Rightarrow> (case cs of
        [] \<Rightarrow> 0
      | sg # ds \<Rightarrow> if sg = CHR ''-'' then - int (digits_value ds)
                  else if sg = CHR ''+'' then int (digits_value ds) else int (digits_value cs)))"

definition float_range_ok :: "string \<Rightarrow> bool" where
  "float_range_ok l = (case scan_int (snd (scan_sign l)) of
      None \<Rightarrow> False
    | Some (i, r) \<Rightarrow> (case scan_frac r of
        None \<Rightarrow> False
      | Some (f, x) \<Rightarrow>
          (let m = digits_value (i @ drop 1 f); e = exponent_value x - int (length (drop 1 f))
           in if e \<ge> 0 then m * 10 ^ nat e < 2 ^ 1024 - 2 ^ 970 else m < (2 ^ 1024 - 2 ^ 970) * 10 ^ nat (- e))))"

fun any_ok :: "json \<Rightarrow> bool" where
  "any_ok (JNumber l) = float_range_ok l"
| "any_ok (JArray vs) = (\<forall>v\<in>set vs. any_ok v)"
| "any_ok (JObject kvs) = (\<forall>kv\<in>set kvs. any_ok (snd kv))"
| "any_ok _ = True"

text \<open>The anonymous struct of \<^verbatim>\<open>decodeJWT\<close>. A map in Go is an association list here; the values keep their
  JSON form.\<close>

record claims =
  cl_Exp :: string
  cl_Vrs :: "(string \<times> json) list option"

definition put_all :: "(string \<times> json) list \<Rightarrow> (string \<times> json) list \<Rightarrow> (string \<times> json) list" where
  "put_all kvs m = foldl (\<lambda>m (k, v). AList.update k v m) m kvs"

text \<open>Storing one key; \<^const>\<open>None\<close> is an error, after which \<^verbatim>\<open>json.Unmarshal\<close> fails.\<close>

definition set_claim :: "string \<Rightarrow> json \<Rightarrow> claims \<Rightarrow> claims option" where
  "set_claim k v c =
     (if key_matches ''exp'' k
      then (case v of
              JNumber l \<Rightarrow> Some (c\<lparr>cl_Exp := l\<rparr>)
            | JString s \<Rightarrow> if number_ok s then Some (c\<lparr>cl_Exp := s\<rparr>) else None
            | JNull \<Rightarrow> Some c
            | _ \<Rightarrow> None)
      else if key_matches ''vrs'' k
      then (case v of
              JObject kvs \<Rightarrow> if any_ok v then Some (c\<lparr>cl_Vrs := Some (put_all kvs (elems (cl_Vrs c)))\<rparr>) else None
            | JNull \<Rightarrow> Some (c\<lparr>cl_Vrs := None\<rparr>)
            | _ \<Rightarrow> None)
      else Some c)"

fun set_claims :: "(string \<times> json) list \<Rightarrow> claims \<Rightarrow> claims option" where
  "set_claims [] c = Some c"
| "set_claims ((k, v) # kvs) c = (case set_claim k v c of Some c' \<Rightarrow> set_claims kvs c' | None \<Rightarrow> None)"

definition unmarshal_claims :: "string \<Rightarrow> claims option" where
  "unmarshal_claims s = (case json_parse s of
      Some (JObject kvs) \<Rightarrow> set_claims kvs \<lparr>cl_Exp = [], cl_Vrs = None\<rparr>
    | Some JNull \<Rightarrow> Some \<lparr>cl_Exp = [], cl_Vrs = None\<rparr>
    | _ \<Rightarrow> None)"

section \<open>session.go\<close>

text \<open>\<^verbatim>\<open>strings.Split\<close> at a single character and \<^verbatim>\<open>strings.TrimRight\<close>.\<close>

fun str_split :: "char \<Rightarrow> string \<Rightarrow> string list" where
  "str_split d [] = [[]]"
| "str_split d (c # cs) = (if c = d then [] # str_split d cs
     else (case str_split d cs of p # ps \<Rightarrow> (c # p) # ps | [] \<Rightarrow> [[c]]))"

definition trim_right :: "char \<Rightarrow> string \<Rightarrow> string" where
  "trim_right d s = rev (dropWhile (\<lambda>c. c = d) (rev s))"

definition decodeJWT :: "(bytes \<Rightarrow> go_error) \<Rightarrow> string \<Rightarrow> (int64 \<times> (string \<times> json) list option) result" where
  "decodeJWT jerr token =
     (let parts = str_split CHR ''.'' token in
      if length parts \<noteq> 3 then Inl (ErrNew ''jwt is not valid'')
      else case (case DecodeString RawURLEncoding (trim_right CHR ''='' (parts ! 1)) of
                   Inr payload \<Rightarrow> Inr payload
                 | Inl _ \<Rightarrow> DecodeString StdEncoding (parts ! 1)) of
             Inl e \<Rightarrow> Inl e
           | Inr payload \<Rightarrow> (case unmarshal_claims (string_of_bytes payload) of
               None \<Rightarrow> Inl (jerr payload)
             | Some claims \<Rightarrow> Inr (fst (ParseInt (cl_Exp claims)), cl_Vrs claims)))"

record Session =
  ses_Token :: string
  ses_RefreshToken :: string
  ses_CreatedAt :: int64
  ses_ExpiresAt :: int64
  ses_RefreshExpiresAt :: int64
  ses_UserID :: string
  ses_Vars :: "(string \<times> json) list option"
  ses_APIURL :: string
  ses_IDToken :: string
  ses_WsURL :: string
  ses_TcpURL :: string

definition session_update :: "(bytes \<Rightarrow> go_error) \<Rightarrow> string \<Rightarrow> string \<Rightarrow> Session \<Rightarrow> Session result" where
  "session_update jerr token refreshToken s = (case decodeJWT jerr token of
      Inl e \<Rightarrow> Inl e
    | Inr (exp, vars) \<Rightarrow>
        (case (if refreshToken \<noteq> []
               then (case decodeJWT jerr refreshToken of
                       Inl _ \<Rightarrow> Inl (ErrNew ''refresh jwt is not valid'')
                     | Inr (rexp, _) \<Rightarrow> Inr (s\<lparr>ses_RefreshExpiresAt := rexp, ses_RefreshToken := refreshToken\<rparr>))
               else Inr s) of
           Inl e \<Rightarrow> Inl e
         | Inr s \<Rightarrow> Inr (s\<lparr>ses_Token := token, ses_ExpiresAt := exp, ses_Vars := vars\<rparr>)))"

text \<open>\<open>now\<close> is \<^verbatim>\<open>time.Now().Unix()\<close>.\<close>

definition NewSession ::
  "(bytes \<Rightarrow> go_error) \<Rightarrow> int64 \<Rightarrow> string \<Rightarrow> string \<Rightarrow> string \<Rightarrow> string \<Rightarrow> string \<Rightarrow> string \<Rightarrow> Session result" where
  "NewSession jerr now token refreshToken userID apiURL idToken wsURL =
     session_update jerr token refreshToken
       \<lparr>ses_Token = token, ses_RefreshToken = refreshToken, ses_CreatedAt = now, ses_ExpiresAt = 0,
        ses_RefreshExpiresAt = 0, ses_UserID = userID, ses_Vars = None, ses_APIURL = apiURL,
        ses_IDToken = idToken, ses_WsURL = wsURL, ses_TcpURL = []\<rparr>"

definition IsExpired :: "Session \<Rightarrow> int64 \<Rightarrow> bool" where
  "IsExpired s now \<longleftrightarrow> sint (ses_ExpiresAt s - now) < 0"

definition IsRefreshExpired :: "Session \<Rightarrow> int64 \<Rightarrow> bool" where
  "IsRefreshExpired s now \<longleftrightarrow> sint (ses_RefreshExpiresAt s - now) < 0"

section \<open>Splitting a token\<close>

lemma str_split_nonempty [simp]: "str_split d s \<noteq> []"
  by (induction s) (auto split: list.splits)

lemma str_split_single: "d \<notin> set s \<Longrightarrow> str_split d s = [s]"
  by (induction s) auto

lemma str_split_append: "d \<notin> set p \<Longrightarrow> str_split d (p @ d # s) = p # str_split d s"
  by (induction p) auto

lemma str_split_token:
  assumes "CHR ''.'' \<notin> set h" "CHR ''.'' \<notin> set p" "CHR ''.'' \<notin> set sig"
  shows "str_split CHR ''.'' (h @ ''.'' @ p @ ''.'' @ sig) = [h, p, sig]"
  using assms by (simp add: str_split_append str_split_single)

lemma trim_right_none: "s = [] \<or> last s \<noteq> d \<Longrightarrow> trim_right d s = s"
  by (cases s rule: rev_cases) (auto simp: trim_right_def)

lemma trim_right_snoc [simp]: "trim_right d (s @ [d]) = trim_right d s"
  by (simp add: trim_right_def)

section \<open>Payloads in either alphabet\<close>

lemma b64_char_plain:
  assumes "b64_ok e"
  shows "b64_char e n \<noteq> CHR ''.''" "b64_char e n \<noteq> CHR ''=''"
proof -
  have "(of_char (b64_char e n) :: nat) \<notin> {46, 61}" if "n < 62"
    using that by (auto simp: b64_char_def)
  then have "b64_char e n \<noteq> CHR ''.'' \<and> b64_char e n \<noteq> CHR ''=''" if "n < 62"
    using that by auto
  then show "b64_char e n \<noteq> CHR ''.''" "b64_char e n \<noteq> CHR ''=''"
    using assms by (cases "n < 62"; auto simp: b64_char_def b64_ok_def StdEncoding_def RawURLEncoding_def)+
qed

lemma b64_char_unpadded [simp]: "b64_char (e\<lparr>b64_padded := p\<rparr>) n = b64_char e n"
  by (simp add: b64_char_def)

lemma EncodeToString_unpadded:
  "\<exists>k. EncodeToString e bs = EncodeToString (e\<lparr>b64_padded := False\<rparr>) bs @ replicate k CHR ''='' \<and> (\<not> b64_padded e \<longrightarrow> k = 0)"
proof (induction e bs rule: EncodeToString.induct)
  case (1 e a b c bs)
  then show ?case by auto
next
  case (2 e a b)
  show ?case by (intro exI [of _ "if b64_padded e then 1 else 0"]) simp
next
  case (3 e a)
  show ?case by (intro exI [of _ "if b64_padded e then 2 else 0"]) (simp add: numeral_2_eq_2)
qed simp

lemma EncodeToString_chars:
  assumes "b64_ok e"
  shows "CHR ''.'' \<notin> set (EncodeToString e bs)" "CHR ''='' \<notin> set (EncodeToString (e\<lparr>b64_padded := False\<rparr>) bs)"
  using assms by (induction e bs rule: EncodeToString.induct) (auto simp: b64_char_plain [symmetric] Let_def)

lemma trim_right_replicate: "d \<notin> set s \<Longrightarrow> trim_right d (s @ replicate k d) = s"
proof (induction k)
  case 0
  then show ?case by (cases s rule: rev_cases) (auto intro!: trim_right_none)
next
  case (Suc k)
  have "s @ replicate (Suc k) d = (s @ replicate k d) @ [d]" by (simp add: replicate_append_same)
  then show ?case using Suc.IH Suc.prems by (metis trim_right_snoc)
qed

lemma trim_right_encoded:
  "b64_ok e \<Longrightarrow> trim_right CHR ''='' (EncodeToString e bs) = EncodeToString (e\<lparr>b64_padded := False\<rparr>) bs"
  using EncodeToString_unpadded [of e bs] EncodeToString_chars(2) [of e bs] 
  by (metis trim_right_replicate)

text \<open>Digits of the standard alphabet are read by the URL decoder as they are, or rejected.\<close>

fun b64_digits :: "bytes \<Rightarrow> nat list" where
  "b64_digits (a # b # c # bs) =
     (let n = unat a * 65536 + unat b * 256 + unat c
      in [n div 262144, n div 4096 mod 64, n div 64 mod 64, n mod 64]) @ b64_digits bs"
| "b64_digits [a, b] = (let n = unat a * 65536 + unat b * 256 in [n div 262144, n div 4096 mod 64, n div 64 mod 64])"
| "b64_digits [a] = (let n = unat a * 65536 in [n div 262144, n div 4096 mod 64])"
| "b64_digits [] = []"

lemma encoded_digits: "EncodeToString (e\<lparr>b64_padded := False\<rparr>) bs = map (b64_char e) (b64_digits bs)"
  by (induction bs rule: b64_digits.induct) (simp_all add: Let_def)

lemma byte_div_4: "unat (a :: byte) div 4 < 64"
  using unat_byte_less [of a] by (simp add: less_mult_imp_div_less)

lemma b64_digits_less: "list_all (\<lambda>n. n < 64) (b64_digits bs)"
  by (induction bs rule: b64_digits.induct)
    (simp_all add: Let_def b64_digit_less(1) three_bytes_less byte_div_4)

lemma url_reads_std:
  "list_all (\<lambda>n. n < 64) ns \<Longrightarrow>
   (\<exists>err. b64_loop RawURLEncoding si vs (map (b64_char StdEncoding) ns) = Inl err) \<or>
   b64_loop RawURLEncoding si vs (map (b64_char StdEncoding) ns) = b64_loop RawURLEncoding si vs (map (b64_char RawURLEncoding) ns)"
proof (induction ns arbitrary: si vs)
  case (Cons n ns)
  show ?case
  proof (cases "n < 62")
    case True
    then have same: "b64_char StdEncoding n = b64_char RawURLEncoding n" by (simp add: b64_char_def)
    have ok: "b64_ok RawURLEncoding" "n < 64" "list_all (\<lambda>n. n < 64) ns" using Cons.prems by (simp_all add: b64_ok_def)
    show ?thesis
      using Cons.IH [OF ok(3), of "Suc si" "[]"] Cons.IH [OF ok(3), of "Suc si" "vs @ [n]"]
      unfolding list.map same b64_loop_digit [OF ok(1,2)] by (auto split: sum.splits)
  next
    case False
    then have "b64_char StdEncoding n \<in> {CHR ''+'', CHR ''/''}" by (simp add: b64_char_def StdEncoding_def)
    then show ?thesis by (auto simp: b64_val_def RawURLEncoding_def is_newline_def)
  qed
qed simp

definition decode_payload :: "string \<Rightarrow> bytes result" where
  "decode_payload p = (case DecodeString RawURLEncoding (trim_right CHR ''='' p) of
     Inr payload \<Rightarrow> Inr payload | Inl _ \<Rightarrow> DecodeString StdEncoding p)"

lemma decode_payload_encoded:
  assumes "b64_ok e"
  shows "decode_payload (EncodeToString e bs) = Inr bs"
proof -
  have url: "DecodeString RawURLEncoding (map (b64_char RawURLEncoding) (b64_digits bs)) = Inr bs"
    using DecodeString_EncodeToString [of RawURLEncoding bs] encoded_digits [of RawURLEncoding bs]
    by (simp add: b64_ok_def RawURLEncoding_def)
  have std: "DecodeString StdEncoding (EncodeToString StdEncoding bs) = Inr bs"
    by (rule DecodeString_EncodeToString) (simp add: b64_ok_def)
  consider "e = RawURLEncoding" | "e = StdEncoding" using assms by (auto simp: b64_ok_def)
  then show ?thesis
  proof cases
    case 1
    then show ?thesis using url trim_right_encoded [OF assms, of bs] encoded_digits [of e bs] by (simp add: decode_payload_def)
  next
    case 2
    have "(\<exists>err. DecodeString RawURLEncoding (map (b64_char StdEncoding) (b64_digits bs)) = Inl err) \<or>
      DecodeString RawURLEncoding (map (b64_char StdEncoding) (b64_digits bs)) = Inr bs"
      using url_reads_std [OF b64_digits_less [of bs], of 0 "[]"] url by (simp add: DecodeString_def)
    then show ?thesis
      using 2 std trim_right_encoded [OF assms, of bs] encoded_digits [of e bs] by (auto simp: decode_payload_def)
  qed
qed

section \<open>Properties\<close>

lemma decodeJWT_eq:
  "decodeJWT jerr token =
     (let parts = str_split CHR ''.'' token in
      if length parts \<noteq> 3 then Inl (ErrNew ''jwt is not valid'')
      else case decode_payload (parts ! 1) of
             Inl e \<Rightarrow> Inl e
           | Inr payload \<Rightarrow> (case unmarshal_claims (string_of_bytes payload) of
               None \<Rightarrow> Inl (jerr payload)
             | Some claims \<Rightarrow> Inr (fst (ParseInt (cl_Exp claims)), cl_Vrs claims)))"
  unfolding decodeJWT_def decode_payload_def by (rule refl)

lemma length_str_split: "length (str_split d s) = Suc (length (filter (\<lambda>c. c = d) s))"
proof (induction s)
  case (Cons c cs)
  obtain p ps where "str_split d cs = p # ps" by (cases "str_split d cs") auto
  with Cons show ?case by simp
qed simp

lemma put_all_distinct:
  "distinct (map fst (m @ kvs)) \<Longrightarrow> put_all kvs m = m @ kvs"
proof (induction kvs arbitrary: m)
  case (Cons kv kvs)
  obtain k v where kv: "kv = (k, v)" by (cases kv)
  have "k \<notin> fst ` set m" using Cons.prems kv by auto
  then have "AList.update k v m = m @ [(k, v)]" by (induction m) auto
  then show ?case using Cons.IH [of "m @ [(k, v)]"] Cons.prems kv by (simp add: put_all_def)
qed (simp add: put_all_def)

text \<open>The claims of a token.\<close>

definition claims_json :: "int64 \<Rightarrow> (string \<times> json) list \<Rightarrow> json" where
  "claims_json n vars = JObject [(''exp'', JNumber (FormatInt (sint n))), (''vrs'', JObject vars)]"

definition token_of :: "b64 \<Rightarrow> bool \<Rightarrow> string \<Rightarrow> json \<Rightarrow> string \<Rightarrow> string" where
  "token_of e html h v sig = h @ ''.'' @ EncodeToString e (bytes_of_string (json_encode html v)) @ ''.'' @ sig"

lemma decodeJWT_token:
  assumes "b64_ok e" "CHR ''.'' \<notin> set h" "CHR ''.'' \<notin> set sig"
    and "json_ok (JObject vars)" "any_ok (JObject vars)" "distinct (map fst vars)" "json_depth (JObject vars) < max_nesting"
  shows "decodeJWT jerr (token_of e html h (claims_json n vars) sig) = Inr (n, Some vars)"
proof -
  have "json_ok (claims_json n vars)" using assms(4) by (simp add: claims_json_def number_ok_FormatInt utf8_valid_ascii)
  moreover have "json_depth (claims_json n vars) \<le> max_nesting" using assms(7) by (simp add: claims_json_def)
  ultimately have "json_parse (json_encode html (claims_json n vars)) = Some (claims_json n vars)" by (rule json_parse_encode)
  moreover have "key_matches ''exp'' ''exp''" "\<not> key_matches ''exp'' ''vrs''" "key_matches ''vrs'' ''vrs''"
    by (simp_all add: key_matches_def)
  ultimately have "unmarshal_claims (json_encode html (claims_json n vars)) = Some \<lparr>cl_Exp = FormatInt (sint n), cl_Vrs = Some vars\<rparr>"
    using assms(5,6) put_all_distinct [of "[]" vars] by (simp add: unmarshal_claims_def claims_json_def set_claim_def)
  moreover have "str_split CHR ''.'' (token_of e html h (claims_json n vars) sig) =
      [h, EncodeToString e (bytes_of_string (json_encode html (claims_json n vars))), sig]"
    unfolding token_of_def by (rule str_split_token) (simp_all add: assms EncodeToString_chars)
  ultimately show ?thesis
    using decode_payload_encoded [OF assms(1)] ParseInt_FormatInt [OF sint_int64_bounds [of n]]
    by (simp add: decodeJWT_eq)
qed

section \<open>Malformed tokens\<close>

text \<open>A character that occurs in no form of base64, and a payload whose length no form of it has.\<close>

definition b64_foreign :: "char \<Rightarrow> bool" where
  "b64_foreign c \<longleftrightarrow> (\<forall>e. b64_ok e \<longrightarrow> b64_val e c = None) \<and> \<not> is_newline c \<and> c \<noteq> CHR ''=''"

lemma b64_finish_foreign: "c \<in> set cs \<Longrightarrow> b64_foreign c \<Longrightarrow> \<exists>err. b64_finish si vs cs = Inl err"
proof -
  assume c: "c \<in> set cs" "b64_foreign c"
  have rest: "c \<in> set (dropWhile is_newline xs)" if "c \<in> set xs" for xs
    using that c(2) by (induction xs) (auto simp: b64_foreign_def)
  then obtain x cs2 where x: "dropWhile is_newline cs = x # cs2" using rest [OF c(1)] by (cases "dropWhile is_newline cs") auto
  have "dropWhile is_newline cs2 \<noteq> []" if "x = CHR ''=''"
  proof -
    have "c \<in> set cs2" using rest [OF c(1)] x that c(2) by (auto simp: b64_foreign_def)
    from rest [OF this] show ?thesis by (metis empty_iff empty_set)
  qed
  then show ?thesis by (auto simp: b64_finish_def Let_def x)
qed

lemma b64_loop_foreign: "b64_ok e \<Longrightarrow> c \<in> set cs \<Longrightarrow> b64_foreign c \<Longrightarrow> \<exists>err. b64_loop e si vs cs = Inl err"
proof (induction cs arbitrary: si vs)
  case (Cons d cs)
  show ?case
  proof (cases "d = c")
    case True
    then show ?thesis using Cons.prems by (auto simp: b64_foreign_def)
  next
    case False
    then have c: "c \<in> set cs" using Cons.prems(2) by simp
    note ih = Cons.IH [OF Cons.prems(1) c Cons.prems(3)]
    show ?thesis
      using ih [of "Suc si" "[]"] ih [of "Suc si" "vs @ [the (b64_val e d)]"] ih [of "Suc si" vs]
        b64_finish_foreign [OF c Cons.prems(3), of "Suc si" vs]
      by (auto split: option.splits sum.splits)
  qed
qed simp

lemma b64_loop_length:
  "\<forall>c\<in>set cs. \<not> is_newline c \<and> c \<noteq> CHR ''='' \<Longrightarrow> length vs \<le> 3 \<Longrightarrow> (length vs + length cs) mod 4 = 1 \<Longrightarrow>
     \<exists>err. b64_loop e si vs cs = Inl err"
proof (induction cs arbitrary: si vs)
  case Nil
  then have "length vs = 1" by (cases "length vs = 0 \<or> length vs = 1 \<or> length vs = 2 \<or> length vs = 3") auto
  then show ?case by auto
next
  case (Cons c cs)
  show ?case
  proof (cases "length vs = 3")
    case True
    then have "\<exists>err. b64_loop e (Suc si) [] cs = Inl err" using Cons by (intro Cons.IH) auto
    then obtain err where "b64_loop e (Suc si) [] cs = Inl err" by blast
    moreover have "\<not> is_newline c" "c \<noteq> CHR ''=''" using Cons.prems(1) by simp_all
    ultimately show ?thesis using True by (simp split: option.splits)
  next
    case False
    then have "\<exists>err. b64_loop e (Suc si) (vs @ [v]) cs = Inl err" for v using Cons.prems by (intro Cons.IH) auto
    moreover have "\<not> is_newline c" "c \<noteq> CHR ''=''" using Cons.prems(1) by simp_all
    ultimately show ?thesis using False by (simp split: option.splits)
  qed
qed

lemma decode_payload_foreign:
  assumes "c \<in> set p" "b64_foreign c"
  shows "\<exists>err. decode_payload p = Inl err"
proof -
  have "c \<in> set (trim_right CHR ''='' p)" using assms
    by (induction p rule: rev_induct) (auto simp: trim_right_def b64_foreign_def)
  then obtain e1 where "DecodeString RawURLEncoding (trim_right CHR ''='' p) = Inl e1"
    using b64_loop_foreign [of RawURLEncoding c] assms(2) unfolding DecodeString_def b64_ok_def by blast
  moreover obtain e2 where "DecodeString StdEncoding p = Inl e2"
    using b64_loop_foreign [of StdEncoding c] assms unfolding DecodeString_def b64_ok_def by blast
  ultimately show ?thesis by (simp add: decode_payload_def)
qed

lemma decode_payload_length:
  assumes "length p mod 4 = 1" "\<forall>c\<in>set p. \<not> is_newline c \<and> c \<noteq> CHR ''=''"
  shows "\<exists>err. decode_payload p = Inl err"
proof -
  have "trim_right CHR ''='' p = p" using assms(2) by (cases p rule: rev_cases) (auto simp: trim_right_def)
  then show ?thesis
    using b64_loop_length [OF assms(2), of "[]" RawURLEncoding 0] b64_loop_length [OF assms(2), of "[]" StdEncoding 0] assms(1)
    by (auto simp: decode_payload_def DecodeString_def)
qed

text \<open>A claim of a type that does not fit its field: \<^verbatim>\<open>exp\<close> must be a number, a string that reads as one, or null, and
  \<^verbatim>\<open>vrs\<close> an object whose numbers fit a \<^verbatim>\<open>float64\<close>, or null.\<close>

fun bad_exp :: "json \<Rightarrow> bool" where
  "bad_exp (JNumber l) = False"
| "bad_exp JNull = False"
| "bad_exp (JString s) = (\<not> number_ok s)"
| "bad_exp _ = True"

fun bad_vrs :: "json \<Rightarrow> bool" where
  "bad_vrs JNull = False"
| "bad_vrs (JObject kvs) = (\<exists>kv\<in>set kvs. \<not> any_ok (snd kv))"
| "bad_vrs _ = True"

definition bad_claims :: "json option \<Rightarrow> bool" where
  "bad_claims j = (case j of
      None \<Rightarrow> True
    | Some (JObject kvs) \<Rightarrow> (\<exists>v. (''exp'', v) \<in> set kvs \<and> bad_exp v) \<or> (\<exists>v. (''vrs'', v) \<in> set kvs \<and> bad_vrs v)
    | Some JNull \<Rightarrow> False
    | _ \<Rightarrow> True)"

text \<open>The malformed tokens: a wrong number of parts, a payload that is not base64, or one whose text is not the JSON of
  claims.\<close>

definition malformed_token :: "string \<Rightarrow> bool" where
  "malformed_token t \<longleftrightarrow> length (filter (\<lambda>c. c = CHR ''.'') t) \<noteq> 2 \<or>
     (\<exists>h p sig. t = h @ ''.'' @ p @ ''.'' @ sig \<and> CHR ''.'' \<notin> set h \<and> CHR ''.'' \<notin> set p \<and> CHR ''.'' \<notin> set sig \<and>
        ((\<exists>c\<in>set p. b64_foreign c) \<or>
         length p mod 4 = 1 \<and> (\<forall>c\<in>set p. \<not> is_newline c \<and> c \<noteq> CHR ''='') \<or>
         (\<exists>e bs. b64_ok e \<and> p = EncodeToString e bs \<and> bad_claims (json_parse (string_of_bytes bs)))))"

lemma malformed_tokenI:
  "b64_ok e \<Longrightarrow> CHR ''.'' \<notin> set h \<Longrightarrow> CHR ''.'' \<notin> set sig \<Longrightarrow> bad_claims (json_parse (string_of_bytes bs)) \<Longrightarrow>
     malformed_token (h @ ''.'' @ EncodeToString e bs @ ''.'' @ sig)"
  unfolding malformed_token_def using EncodeToString_chars(1) by blast

lemma set_claims_bad:
  "(\<exists>v. (''exp'', v) \<in> set kvs \<and> bad_exp v) \<or> (\<exists>v. (''vrs'', v) \<in> set kvs \<and> bad_vrs v) \<Longrightarrow> set_claims kvs c = None"
proof (induction kvs arbitrary: c)
  case (Cons kv kvs)
  have keys: "key_matches ''exp'' ''exp''" "\<not> key_matches ''exp'' ''vrs''" "key_matches ''vrs'' ''vrs''"
    by (simp_all add: key_matches_def)
  obtain k v where kv: "kv = (k, v)" by (cases kv)
  have "set_claim k v c = None" if "k = ''exp'' \<and> bad_exp v \<or> k = ''vrs'' \<and> bad_vrs v"
    using that keys by (cases v) (auto simp: set_claim_def)
  with Cons kv show ?case by (auto split: option.splits)
qed simp

lemma unmarshal_bad_claims: "bad_claims (json_parse s) \<Longrightarrow> unmarshal_claims s = None"
  by (auto simp: bad_claims_def unmarshal_claims_def set_claims_bad split: option.splits json.splits)

lemma decodeJWT_malformed:
  assumes "malformed_token t"
  shows "\<exists>err. decodeJWT jerr t = Inl err"
proof (cases "length (filter (\<lambda>c. c = CHR ''.'') t) = 2")
  case False
  then show ?thesis by (simp add: decodeJWT_def length_str_split)
next
  case True
  then obtain h p sig where t: "t = h @ ''.'' @ p @ ''.'' @ sig" "CHR ''.'' \<notin> set h" "CHR ''.'' \<notin> set p" "CHR ''.'' \<notin> set sig"
    and bad: "(\<exists>c\<in>set p. b64_foreign c) \<or> length p mod 4 = 1 \<and> (\<forall>c\<in>set p. \<not> is_newline c \<and> c \<noteq> CHR ''='') \<or>
      (\<exists>e bs. b64_ok e \<and> p = EncodeToString e bs \<and> bad_claims (json_parse (string_of_bytes bs)))"
    using True assms unfolding malformed_token_def by blast
  have split: "str_split CHR ''.'' t = [h, p, sig]" unfolding t(1) by (rule str_split_token [OF t(2-4)])
  from bad consider c where "c \<in> set p" "b64_foreign c" | "length p mod 4 = 1" "\<forall>c\<in>set p. \<not> is_newline c \<and> c \<noteq> CHR ''=''"
    | e bs where "b64_ok e" "p = EncodeToString e bs" "bad_claims (json_parse (string_of_bytes bs))" by blast
  then show ?thesis
  proof cases
    case 1
    from decode_payload_foreign [OF 1] obtain err where "decode_payload p = Inl err" by blast
    then show ?thesis using split by (simp add: decodeJWT_eq)
  next
    case 2
    from decode_payload_length [OF 2] obtain err where "decode_payload p = Inl err" by blast
    then show ?thesis using split by (simp add: decodeJWT_eq)
  next
    case 3
    then have "decode_payload p = Inr bs" "unmarshal_claims (string_of_bytes bs) = None"
      by (simp_all add: decode_payload_encoded unmarshal_bad_claims)
    then show ?thesis using split by (simp add: decodeJWT_eq)
  qed
qed



lemma mod_shift:
  fixes x m :: int
  shows "- m \<le> x \<Longrightarrow> x < 0 \<Longrightarrow> x mod m = x + m" "0 \<le> x \<Longrightarrow> x < m \<Longrightarrow> x mod m = x" "m \<le> x \<Longrightarrow> x < 2 * m \<Longrightarrow> x mod m = x - m"
proof -
  show "x mod m = x + m" if "- m \<le> x" "x < 0" using that mod_pos_pos_trivial [of "x + m" m] by simp
  show "x mod m = x" if "0 \<le> x" "x < m" using that by simp
  show "x mod m = x - m" if "m \<le> x" "x < 2 * m" using that mod_pos_pos_trivial [of "x - m" m] by simp
qed

lemma sint_minus_int64:
  fixes a b :: int64
  shows "sint (a - b) =
    (if sint a - sint b < - (2 ^ 63) then sint a - sint b + 2 ^ 64
     else if 2 ^ 63 \<le> sint a - sint b then sint a - sint b - 2 ^ 64
     else sint a - sint b)"
proof -
  have "sint (a - b) = signed_take_bit 63 (sint a - sint b)"
    using sint_word_ariths(2) [of a b] by simp
  also have "\<dots> = (sint a - sint b + 2 ^ 63) mod 2 ^ 64 - 2 ^ 63"
    by (simp add: signed_take_bit_eq_take_bit_shift take_bit_eq_mod)
  finally have eq: "sint (a - b) = (sint a - sint b + 2 ^ 63) mod 2 ^ 64 - 2 ^ 63" .
  have b: "- (2 ^ 64) < sint a - sint b" "sint a - sint b < 2 ^ 64"
    using sint_int64_bounds [of a] sint_int64_bounds [of b] by simp_all
  consider "sint a - sint b < - (2 ^ 63)" | "2 ^ 63 \<le> sint a - sint b" | "- (2 ^ 63) \<le> sint a - sint b" "sint a - sint b < 2 ^ 63"
    by linarith
  then show ?thesis
    using eq b mod_shift [of "2 ^ 64" "sint a - sint b + 2 ^ 63"] by cases simp_all
qed

text \<open>
  The expiry check is exact while the difference of the two times fits 64 bits, which it does for
  every expiry from -2^63 + now on; for an expiry further in the past the difference wraps around and an expired
  token passes as valid.
\<close>

theorem IsExpired_exact:
  "IsExpired s now \<longleftrightarrow>
     (if sint (ses_ExpiresAt s) - sint now < - (2 ^ 63) then False
      else if 2 ^ 63 \<le> sint (ses_ExpiresAt s) - sint now then True
      else sint (ses_ExpiresAt s) < sint now)"
proof -
  let ?d = "sint (ses_ExpiresAt s) - sint now"
  have "- (2 ^ 64) < ?d" "?d < 2 ^ 64"
    using sint_int64_bounds [of "ses_ExpiresAt s"] sint_int64_bounds [of now] by simp_all
  then show ?thesis unfolding IsExpired_def sint_minus_int64 by simp
qed

end
