(* ===== verification/Rest_Api.thy ===== *)
theory Rest_Api
  imports Socket_Write Session
begin

text \<open>
  The API client (\<^verbatim>\<open>restapi.go\<close>): every request to the endpoints below \<^verbatim>\<open>/mezon.api.Mezon/\<close> goes over the
  realtime socket when it is open and knows the endpoint, and over HTTP otherwise or when the socket
  fails; authentication always goes over HTTP. The HTTP client (making the request, sending it and
  reading the body) and the protobuf codec are parameters.
\<close>

section \<open>The client\<close>

record http_request =
  hq_url :: string
  hq_header :: "(string \<times> string) list"
  hq_body :: bytes
  hq_timeout :: int64

text \<open>A response whose body was read, or the error of reading it.\<close>

record http_response =
  hp_status :: int
  hp_body :: "bytes result"

record 's socket_port =
  sp_IsOpen :: "'s \<Rightarrow> bool"
  sp_request :: "'s api_request"

record 's MezonApi =
  ma_APIKey :: string
  ma_BasePath :: string
  ma_Timeout :: int64
  ma_client :: "http_request \<Rightarrow> ('s, http_response) call"
  ma_socket :: "'s socket_port option"

definition NewMezonApi :: "(http_request \<Rightarrow> ('s, http_response) call) \<Rightarrow> string \<Rightarrow> string \<Rightarrow> int64 \<Rightarrow> 's MezonApi" where
  "NewMezonApi client apiKey basePath timeout =
     (let timeout = (if sint timeout \<le> 0 then 7 * 1000000000 else timeout)
      in \<lparr>ma_APIKey = apiKey, ma_BasePath = basePath, ma_Timeout = timeout, ma_client = client, ma_socket = None\<rparr>)"

definition AttachSocket :: "'s MezonApi \<Rightarrow> 's socket_port \<Rightarrow> 's MezonApi" where
  "AttachSocket a s = a\<lparr>ma_socket := Some s\<rparr>"

section \<open>Requests\<close>

text \<open>Where a response goes: the message to fill and its decoder, which is missing when the caller
  passed nil.\<close>

type_synonym 'm target = "'m \<times> (bytes \<Rightarrow> 'm result) option"

definition decode_into :: "'m target \<Rightarrow> bytes \<Rightarrow> 'm result" where
  "decode_into target data = (case snd target of
      Some unmarshal \<Rightarrow> if 0 < length data then unmarshal data else Inr (fst target)
    | None \<Rightarrow> Inr (fst target))"

definition api_prefix :: string where "api_prefix = ''/mezon.api.Mezon/''"

text \<open>The result is \<^const>\<open>None\<close> when the request was not handled.\<close>

definition doProtoSocket :: "'s MezonApi \<Rightarrow> string \<Rightarrow> bytes \<Rightarrow> 'm target \<Rightarrow> 's \<Rightarrow> 'm result option \<times> 's" where
  "doProtoSocket a path body target s = (case ma_socket a of
      None \<Rightarrow> (None, s)
    | Some p \<Rightarrow>
        if \<not> sp_IsOpen p s then (None, s)
        else case strip_prefix api_prefix path of
               None \<Rightarrow> (None, s)
             | Some name \<Rightarrow>
                 if apiIndexFromName name = None then (None, s)
                 else case sp_request p name body s of
                        (Inl err, s') \<Rightarrow>
                          if errors_is err ErrSocketClosed \<or> errors_is err ErrSendTimeout then (None, s')
                          else (Some (Inl err), s')
                      | (Inr respBody, s') \<Rightarrow> (Some (decode_into target respBody), s'))"

definition proto_request :: "'s MezonApi \<Rightarrow> string \<Rightarrow> string \<Rightarrow> bytes \<Rightarrow> http_request" where
  "proto_request a bearer path body = \<lparr>hq_url = ma_BasePath a @ path,
     hq_header = [(''Content-Type'', ''application/proto''), (''Accept'', ''application/proto'')] @
       (if bearer \<noteq> [] then [(''Authorization'', ''Bearer '' @ bearer)] else []),
     hq_body = body, hq_timeout = ma_Timeout a\<rparr>"

text \<open>The HTTP half of \<^verbatim>\<open>doProto\<close>.\<close>

definition doProtoHttp :: "'s MezonApi \<Rightarrow> string \<Rightarrow> string \<Rightarrow> bytes \<Rightarrow> 'm target \<Rightarrow> ('s, 'm) call" where
  "doProtoHttp a bearer path body target =
     and_then (ma_client a (proto_request a bearer path body)) (\<lambda>res.
       if hp_status res = 204 then ret (fst target)
       else case hp_body res of
              Inl e \<Rightarrow> fail e
            | Inr data \<Rightarrow>
                if 400 \<le> hp_status res
                then fail (ErrNew (''mezon api '' @ path @ '': status '' @ FormatInt (hp_status res) @ '': '' @ string_of_bytes data))
                else (case decode_into target data of Inl e \<Rightarrow> fail e | Inr m \<Rightarrow> ret m))"

text \<open>\<open>req\<close> is the marshalled request, if there is one.\<close>

definition doProto :: "'s MezonApi \<Rightarrow> string \<Rightarrow> string \<Rightarrow> bytes result option \<Rightarrow> 'm target \<Rightarrow> ('s, 'm) call" where
  "doProto a bearer path req target s = (case (case req of Some r \<Rightarrow> r | None \<Rightarrow> Inr []) of
      Inl e \<Rightarrow> (Inl e, s)
    | Inr body \<Rightarrow> (case doProtoSocket a path body target s of
        (Some r, s') \<Rightarrow> (r, s')
      | (None, s') \<Rightarrow> doProtoHttp a bearer path body target s'))"

section \<open>Endpoints\<close>

text \<open>The protobuf codec of the messages the endpoints exchange.\<close>

record api_codec =
  ac_ChannelMessageSend :: "pb_ChannelMessageSend \<Rightarrow> bytes result"
  ac_CreateChannelDescRequest :: "pb_CreateChannelDescRequest \<Rightarrow> bytes result"
  ac_DeleteChannelDescRequest :: "pb_DeleteChannelDescRequest \<Rightarrow> bytes result"
  ac_ListClanDescRequest :: "pb_ListClanDescRequest \<Rightarrow> bytes result"
  ac_ListChannelDetailRequest :: "pb_ListChannelDetailRequest \<Rightarrow> bytes result"
  ac_ListChannelDescsRequest :: "pb_ListChannelDescsRequest \<Rightarrow> bytes result"
  ac_ListChannelUsersRequest :: "pb_ListChannelUsersRequest \<Rightarrow> bytes result"
  ac_RoleListEventRequest :: "pb_RoleListEventRequest \<Rightarrow> bytes result"
  ac_UpdateRoleRequest :: "pb_UpdateRoleRequest \<Rightarrow> bytes result"
  ac_CreateRoleRequest :: "pb_CreateRoleRequest \<Rightarrow> bytes result"
  ac_DeleteRoleRequest :: "pb_DeleteRoleRequest \<Rightarrow> bytes result"
  ac_ChangeChannelPrivateRequest :: "pb_ChangeChannelPrivateRequest \<Rightarrow> bytes result"
  ac_AddRoleChannelDescRequest :: "pb_AddRoleChannelDescRequest \<Rightarrow> bytes result"
  ac_UpdateRoleChannelRequest :: "pb_UpdateRoleChannelRequest \<Rightarrow> bytes result"
  ac_QuickMenuAccess :: "pb_QuickMenuAccess \<Rightarrow> bytes result"
  ac_ListQuickMenuAccessRequest :: "pb_ListQuickMenuAccessRequest \<Rightarrow> bytes result"
  ac_u_ChannelMessageAck :: "bytes \<Rightarrow> pb_ChannelMessageAck result"
  ac_u_ChannelDescription :: "bytes \<Rightarrow> pb_ChannelDescription result"
  ac_u_ClanDescList :: "bytes \<Rightarrow> pb_ClanDescList result"
  ac_u_ChannelDescList :: "bytes \<Rightarrow> pb_ChannelDescList result"
  ac_u_VoiceChannelUserList :: "bytes \<Rightarrow> pb_VoiceChannelUserList result"
  ac_u_RoleListEventResponse :: "bytes \<Rightarrow> pb_RoleListEventResponse result"
  ac_u_Role :: "bytes \<Rightarrow> pb_Role result"
  ac_u_PermissionList :: "bytes \<Rightarrow> pb_PermissionList result"
  ac_u_QuickMenuAccessList :: "bytes \<Rightarrow> pb_QuickMenuAccessList result"
  ac_u_Session :: "bytes \<Rightarrow> pb_Session result"

definition auth_body :: "string \<Rightarrow> string \<Rightarrow> bytes" where
  "auth_body botID apiKey = bytes_of_string (json_encode True
     (JObject [(''account'', JObject [(''appid'', JString botID), (''token'', JString apiKey)])]))"

definition MezonAuthenticate :: "api_codec \<Rightarrow> 's MezonApi \<Rightarrow> string \<Rightarrow> string \<Rightarrow> ('s, pb_Session) call" where
  "MezonAuthenticate ac a botID apiKey =
     and_then (ma_client a \<lparr>hq_url = ma_BasePath a @ ''/v2/apps/authenticate/token'',
       hq_header = [(''Content-Type'', ''application/json''), (''Accept'', ''application/x-protobuf'')] @
         (if apiKey \<noteq> []
          then [(''Authorization'', ''Basic '' @ EncodeToString StdEncoding (bytes_of_string (apiKey @ '':'')))] else []),
       hq_body = auth_body botID apiKey, hq_timeout = ma_Timeout a\<rparr>) (\<lambda>res.
       case hp_body res of
         Inl e \<Rightarrow> fail e
       | Inr data \<Rightarrow>
           if 400 \<le> hp_status res
           then fail (ErrNew (''authenticate: status '' @ FormatInt (hp_status res) @ '': '' @ string_of_bytes data))
           else (case ac_u_Session ac data of Inl e \<Rightarrow> fail e | Inr sess \<Rightarrow> ret sess))"

definition Call :: "'s MezonApi \<Rightarrow> string \<Rightarrow> string \<Rightarrow> bytes result option \<Rightarrow> 'm target \<Rightarrow> ('s, 'm) call" where
  "Call a bearer apiName req resp = doProto a bearer (''/mezon.api.Mezon/'' @ apiName) req resp"

definition SendChannelMessage ::
  "api_codec \<Rightarrow> 's MezonApi \<Rightarrow> string \<Rightarrow> pb_ChannelMessageSend \<Rightarrow> ('s, pb_ChannelMessageAck) call" where
  "SendChannelMessage ac a bearer req =
     doProto a bearer ''/mezon.api.Mezon/SendChannelMessage'' (Some (ac_ChannelMessageSend ac req))
       (zero_ChannelMessageAck, Some (ac_u_ChannelMessageAck ac))"

definition CreateChannelDesc ::
  "api_codec \<Rightarrow> 's MezonApi \<Rightarrow> string \<Rightarrow> pb_CreateChannelDescRequest \<Rightarrow> ('s, pb_ChannelDescription) call" where
  "CreateChannelDesc ac a bearer req =
     doProto a bearer ''/mezon.api.Mezon/CreateChannelDesc'' (Some (ac_CreateChannelDescRequest ac req))
       (zero_ChannelDescription, Some (ac_u_ChannelDescription ac))"

definition DeleteChannelDesc ::
  "api_codec \<Rightarrow> 's MezonApi \<Rightarrow> string \<Rightarrow> string \<Rightarrow> string \<Rightarrow> ('s, unit) call" where
  "DeleteChannelDesc ac a bearer clanID channelID =
     doProto a bearer ''/mezon.api.Mezon/DeleteChannelDesc'' (Some (ac_DeleteChannelDescRequest ac (zero_DeleteChannelDescRequest\<lparr>dcd_ClanId := atoiID clanID, dcd_ChannelId := atoiID channelID\<rparr>)))
       ((), None)"

definition ListClanDescs ::
  "api_codec \<Rightarrow> 's MezonApi \<Rightarrow> string \<Rightarrow> int32 \<Rightarrow> int32 \<Rightarrow> string \<Rightarrow> ('s, pb_ClanDescList) call" where
  "ListClanDescs ac a bearer limit state cursor =
     doProto a bearer ''/mezon.api.Mezon/ListClanDescs'' (Some (ac_ListClanDescRequest ac (zero_ListClanDescRequest\<lparr>lcl_Limit := limit, lcl_State := state, lcl_Cursor := cursor\<rparr>)))
       (zero_ClanDescList, Some (ac_u_ClanDescList ac))"

definition ListChannelDetail ::
  "api_codec \<Rightarrow> 's MezonApi \<Rightarrow> string \<Rightarrow> string \<Rightarrow> ('s, pb_ChannelDescription) call" where
  "ListChannelDetail ac a bearer channelID =
     doProto a bearer ''/mezon.api.Mezon/ListChannelDetail'' (Some (ac_ListChannelDetailRequest ac (zero_ListChannelDetailRequest\<lparr>lde_ChannelId := atoiID channelID\<rparr>)))
       (zero_ChannelDescription, Some (ac_u_ChannelDescription ac))"

definition ListChannelDescs ::
  "api_codec \<Rightarrow> 's MezonApi \<Rightarrow> string \<Rightarrow> int32 \<Rightarrow> string \<Rightarrow> int32 \<Rightarrow> int32 \<Rightarrow> string \<Rightarrow> bool \<Rightarrow> ('s, pb_ChannelDescList) call" where
  "ListChannelDescs ac a bearer channelType clanID limit state cursor isMobile =
     doProto a bearer ''/mezon.api.Mezon/ListChannelDescs'' (Some (ac_ListChannelDescsRequest ac (zero_ListChannelDescsRequest\<lparr>lcd_Limit := limit, lcd_State := state,
       lcd_Cursor := cursor, lcd_ClanId := atoiID clanID, lcd_ChannelType := channelType, lcd_IsMobile := isMobile\<rparr>)))
       (zero_ChannelDescList, Some (ac_u_ChannelDescList ac))"

definition ListChannelVoiceUsers ::
  "api_codec \<Rightarrow> 's MezonApi \<Rightarrow> string \<Rightarrow> string \<Rightarrow> int32 \<Rightarrow> ('s, pb_VoiceChannelUserList) call" where
  "ListChannelVoiceUsers ac a bearer clanID limit =
     doProto a bearer ''/mezon.api.Mezon/ListChannelVoiceUsers'' (Some (ac_ListChannelUsersRequest ac (zero_ListChannelUsersRequest\<lparr>lcu_ClanId := atoiID clanID, lcu_Limit := limit\<rparr>)))
       (zero_VoiceChannelUserList, Some (ac_u_VoiceChannelUserList ac))"

definition ListRoles ::
  "api_codec \<Rightarrow> 's MezonApi \<Rightarrow> string \<Rightarrow> string \<Rightarrow> int32 \<Rightarrow> int32 \<Rightarrow> string \<Rightarrow> ('s, pb_RoleListEventResponse) call" where
  "ListRoles ac a bearer clanID limit state cursor =
     doProto a bearer ''/mezon.api.Mezon/ListRoles'' (Some (ac_RoleListEventRequest ac (zero_RoleListEventRequest\<lparr>rlq_ClanId := atoiID clanID, rlq_Limit := limit,
       rlq_State := state, rlq_Cursor := cursor\<rparr>)))
       (zero_RoleListEventResponse, Some (ac_u_RoleListEventResponse ac))"

definition UpdateRole ::
  "api_codec \<Rightarrow> 's MezonApi \<Rightarrow> string \<Rightarrow> pb_UpdateRoleRequest \<Rightarrow> ('s, unit) call" where
  "UpdateRole ac a bearer req =
     doProto a bearer ''/mezon.api.Mezon/UpdateRole'' (Some (ac_UpdateRoleRequest ac req))
       ((), None)"

definition CreateRole ::
  "api_codec \<Rightarrow> 's MezonApi \<Rightarrow> string \<Rightarrow> pb_CreateRoleRequest \<Rightarrow> ('s, pb_Role) call" where
  "CreateRole ac a bearer req =
     doProto a bearer ''/mezon.api.Mezon/CreateRole'' (Some (ac_CreateRoleRequest ac req))
       (zero_Role, Some (ac_u_Role ac))"

definition DeleteRole ::
  "api_codec \<Rightarrow> 's MezonApi \<Rightarrow> string \<Rightarrow> string \<Rightarrow> string \<Rightarrow> ('s, unit) call" where
  "DeleteRole ac a bearer roleID clanID =
     doProto a bearer ''/mezon.api.Mezon/DeleteRole'' (Some (ac_DeleteRoleRequest ac (zero_DeleteRoleRequest\<lparr>drr_RoleId := atoiID roleID, drr_ClanId := atoiID clanID\<rparr>)))
       ((), None)"

definition UpdateChannelPrivate ::
  "api_codec \<Rightarrow> 's MezonApi \<Rightarrow> string \<Rightarrow> pb_ChangeChannelPrivateRequest \<Rightarrow> ('s, unit) call" where
  "UpdateChannelPrivate ac a bearer req =
     doProto a bearer ''/mezon.api.Mezon/UpdateChannelPrivate'' (Some (ac_ChangeChannelPrivateRequest ac req))
       ((), None)"

definition AddRolesChannelDesc ::
  "api_codec \<Rightarrow> 's MezonApi \<Rightarrow> string \<Rightarrow> pb_AddRoleChannelDescRequest \<Rightarrow> ('s, unit) call" where
  "AddRolesChannelDesc ac a bearer req =
     doProto a bearer ''/mezon.api.Mezon/AddRolesChannelDesc'' (Some (ac_AddRoleChannelDescRequest ac req))
       ((), None)"

definition SetRoleChannelPermission ::
  "api_codec \<Rightarrow> 's MezonApi \<Rightarrow> string \<Rightarrow> pb_UpdateRoleChannelRequest \<Rightarrow> ('s, unit) call" where
  "SetRoleChannelPermission ac a bearer req =
     doProto a bearer ''/mezon.api.Mezon/SetRoleChannelPermission'' (Some (ac_UpdateRoleChannelRequest ac req))
       ((), None)"

definition GetListPermission ::
  "api_codec \<Rightarrow> 's MezonApi \<Rightarrow> string \<Rightarrow> ('s, pb_PermissionList) call" where
  "GetListPermission ac a bearer =
     doProto a bearer ''/mezon.api.Mezon/GetListPermission'' (None)
       (zero_PermissionList, Some (ac_u_PermissionList ac))"

definition AddQuickMenuAccess ::
  "api_codec \<Rightarrow> 's MezonApi \<Rightarrow> string \<Rightarrow> pb_QuickMenuAccess \<Rightarrow> ('s, unit) call" where
  "AddQuickMenuAccess ac a bearer req =
     doProto a bearer ''/mezon.api.Mezon/AddQuickMenuAccess'' (Some (ac_QuickMenuAccess ac req))
       ((), None)"

definition ListQuickMenuAccess ::
  "api_codec \<Rightarrow> 's MezonApi \<Rightarrow> string \<Rightarrow> string \<Rightarrow> string \<Rightarrow> int32 \<Rightarrow> ('s, pb_QuickMenuAccessList) call" where
  "ListQuickMenuAccess ac a bearer botID channelID menuType =
     doProto a bearer ''/mezon.api.Mezon/ListQuickMenuAccess'' (Some (ac_ListQuickMenuAccessRequest ac (zero_ListQuickMenuAccessRequest\<lparr>lqm_BotId := atoiID botID,
       lqm_ChannelId := atoiID channelID, lqm_MenuType := menuType\<rparr>)))
       (zero_QuickMenuAccessList, Some (ac_u_QuickMenuAccessList ac))"

section \<open>Routing\<close>

text \<open>The requests of a client, in order.\<close>

datatype sent = OverSocket string bytes | OverHttp http_request

definition logged_api :: "'s MezonApi \<Rightarrow> (sent list \<times> 's) MezonApi" where
  "logged_api a = \<lparr>ma_APIKey = ma_APIKey a, ma_BasePath = ma_BasePath a, ma_Timeout = ma_Timeout a,
     ma_client = \<lambda>q (log, s). (case ma_client a q s of (r, s') \<Rightarrow> (r, (log @ [OverHttp q], s'))),
     ma_socket = map_option (\<lambda>p. \<lparr>sp_IsOpen = \<lambda>(log, s). sp_IsOpen p s,
       sp_request = \<lambda>n b (log, s). (case sp_request p n b s of (r, s') \<Rightarrow> (r, (log @ [OverSocket n b], s')))\<rparr>) (ma_socket a)\<rparr>"

text \<open>The socket and the API name when a request can go over the socket.\<close>

definition on_socket :: "'s MezonApi \<Rightarrow> string \<Rightarrow> 's \<Rightarrow> ('s socket_port \<times> string) option" where
  "on_socket a path s = (case ma_socket a of
      None \<Rightarrow> None
    | Some p \<Rightarrow> (case strip_prefix api_prefix path of
        None \<Rightarrow> None
      | Some name \<Rightarrow> if sp_IsOpen p s \<and> apiIndexFromName name \<noteq> None then Some (p, name) else None))"

definition transport_error :: "go_error \<Rightarrow> bool" where
  "transport_error e \<longleftrightarrow> errors_is e ErrSocketClosed \<or> errors_is e ErrSendTimeout"

lemma doProtoHttp_logged:
  "doProtoHttp (logged_api a) bearer path body target (log, s) =
     (case doProtoHttp a bearer path body target s of
        (r, s') \<Rightarrow> (r, (log @ [OverHttp (proto_request a bearer path body)], s')))"
proof -
  have "proto_request (logged_api a) bearer path body = proto_request a bearer path body"
    by (simp add: proto_request_def logged_api_def)
  then show ?thesis
    by (auto simp: doProtoHttp_def logged_api_def and_then_def split: prod.splits sum.splits)
qed

lemma doProtoSocket_logged:
  "doProtoSocket (logged_api a) path body target (log, s) = (case on_socket a path s of
      None \<Rightarrow> (None, (log, s))
    | Some (p, name) \<Rightarrow> (case sp_request p name body s of
        (Inr resp, s1) \<Rightarrow> (Some (decode_into target resp), (log @ [OverSocket name body], s1))
      | (Inl e, s1) \<Rightarrow> (if transport_error e then None else Some (Inl e), (log @ [OverSocket name body], s1))))"
  by (auto simp: doProtoSocket_def logged_api_def on_socket_def transport_error_def
      split: option.splits prod.splits sum.splits)

lemma doProtoSocket_eq:
  "doProtoSocket a path body target s = (case on_socket a path s of
      None \<Rightarrow> (None, s)
    | Some (p, name) \<Rightarrow> (case sp_request p name body s of
        (Inr resp, s1) \<Rightarrow> (Some (decode_into target resp), s1)
      | (Inl e, s1) \<Rightarrow> (if transport_error e then None else Some (Inl e), s1)))"
  by (auto simp: doProtoSocket_def on_socket_def transport_error_def split: option.splits prod.splits sum.splits)

lemma doProto_routed:
  "doProto (logged_api a) bearer path (Some (Inr body)) target ([], s) = (case on_socket a path s of
      None \<Rightarrow> (case doProtoHttp a bearer path body target s of
        (r, s') \<Rightarrow> (r, ([OverHttp (proto_request a bearer path body)], s')))
    | Some (p, name) \<Rightarrow> (case sp_request p name body s of
        (Inr resp, s1) \<Rightarrow> (decode_into target resp, ([OverSocket name body], s1))
      | (Inl e, s1) \<Rightarrow>
          if transport_error e
          then (case doProtoHttp a bearer path body target s1 of
            (r, s') \<Rightarrow> (r, ([OverSocket name body, OverHttp (proto_request a bearer path body)], s')))
          else (Inl e, ([OverSocket name body], s1))))"
  by (auto simp: doProto_def doProtoSocket_logged doProtoHttp_logged split: option.splits prod.splits sum.splits)

text \<open>
  C28. How a request travels: over the socket once when the socket is attached and open and the endpoint
  has an API index, and the answer of the server, a failure included, is final; over HTTP once, with
  the same body, when the request cannot go over the socket, or after the socket reported that the
  connection is closed or that no response came in time. Nothing else is ever sent.
\<close>

theorem doProto_routing:
  "doProto (logged_api a) bearer path (Some (Inr body)) target ([], s) = (case on_socket a path s of
      None \<Rightarrow> (case doProtoHttp a bearer path body target s of
        (r, s') \<Rightarrow> (r, ([OverHttp (proto_request a bearer path body)], s')))
    | Some (p, name) \<Rightarrow> (case sp_request p name body s of
        (Inr resp, s1) \<Rightarrow> (decode_into target resp, ([OverSocket name body], s1))
      | (Inl e, s1) \<Rightarrow>
          if transport_error e
          then (case doProtoHttp a bearer path body target s1 of
            (r, s') \<Rightarrow> (r, ([OverSocket name body, OverHttp (proto_request a bearer path body)], s')))
          else (Inl e, ([OverSocket name body], s1))))"
  by (rule doProto_routed)

text \<open>The endpoints are known to the API table.\<close>

lemma endpoint_known:
  assumes "name \<in> set apiNames" "ma_socket a = Some p" "sp_IsOpen p s"
  shows "on_socket a (''/mezon.api.Mezon/'' @ name) s = Some (p, name)"
  using assms apiIndexFromName_known [OF assms(1)] by (simp add: on_socket_def strip_prefix_def api_prefix_def)

lemma socket_answer_final:
  assumes "name \<in> set apiNames" "ma_socket a = Some p" "sp_IsOpen p s"
    and "\<And>body. (\<exists>e s'. sp_request p name body s = (Inl e, s') \<and> transport_error e) \<Longrightarrow> False"
  shows "doProto (a\<lparr>ma_client := http1\<rparr>) bearer (''/mezon.api.Mezon/'' @ name) req target s =
    doProto (a\<lparr>ma_client := http2\<rparr>) bearer (''/mezon.api.Mezon/'' @ name) req target s"
proof -
  have "on_socket (a\<lparr>ma_client := h\<rparr>) (''/mezon.api.Mezon/'' @ name) s = Some (p, name)" for h
    using assms(1-3) by (intro endpoint_known) simp_all
  then show ?thesis
    using assms(4) by (auto simp: doProto_def doProtoSocket_eq split: option.splits prod.splits sum.splits)
qed

lemma endpoints_in_table:
  "''SendChannelMessage'' \<in> set apiNames"
  "''CreateChannelDesc'' \<in> set apiNames"
  "''DeleteChannelDesc'' \<in> set apiNames"
  "''ListClanDescs'' \<in> set apiNames"
  "''ListChannelDetail'' \<in> set apiNames"
  "''ListChannelDescs'' \<in> set apiNames"
  "''ListChannelVoiceUsers'' \<in> set apiNames"
  "''ListRoles'' \<in> set apiNames"
  "''UpdateRole'' \<in> set apiNames"
  "''CreateRole'' \<in> set apiNames"
  "''DeleteRole'' \<in> set apiNames"
  "''UpdateChannelPrivate'' \<in> set apiNames"
  "''AddRolesChannelDesc'' \<in> set apiNames"
  "''SetRoleChannelPermission'' \<in> set apiNames"
  "''GetListPermission'' \<in> set apiNames"
  "''AddQuickMenuAccess'' \<in> set apiNames"
  "''ListQuickMenuAccess'' \<in> set apiNames"
  by (simp_all add: apiNames_def)

text \<open>
  While the socket is open and answers, no endpoint of the SDK uses HTTP: every wrapper names an API
  that the socket knows, so that exchanging the HTTP client makes no difference to what it returns
  or does.
\<close>

theorem wrappers_ride_the_socket:
  assumes "ma_socket a = Some p" "sp_IsOpen p s"
    and "\<And>name body e s'. sp_request p name body s = (Inl e, s') \<Longrightarrow> \<not> transport_error e"
  shows "SendChannelMessage ac (a\<lparr>ma_client := http1\<rparr>) bearer req0 s = SendChannelMessage ac (a\<lparr>ma_client := http2\<rparr>) bearer req0 s \<and>
    CreateChannelDesc ac (a\<lparr>ma_client := http1\<rparr>) bearer req1 s = CreateChannelDesc ac (a\<lparr>ma_client := http2\<rparr>) bearer req1 s \<and>
    DeleteChannelDesc ac (a\<lparr>ma_client := http1\<rparr>) bearer clanID channelID s = DeleteChannelDesc ac (a\<lparr>ma_client := http2\<rparr>) bearer clanID channelID s \<and>
    ListClanDescs ac (a\<lparr>ma_client := http1\<rparr>) bearer limit state cursor s = ListClanDescs ac (a\<lparr>ma_client := http2\<rparr>) bearer limit state cursor s \<and>
    ListChannelDetail ac (a\<lparr>ma_client := http1\<rparr>) bearer channelID s = ListChannelDetail ac (a\<lparr>ma_client := http2\<rparr>) bearer channelID s \<and>
    ListChannelDescs ac (a\<lparr>ma_client := http1\<rparr>) bearer channelType clanID limit state cursor isMobile s = ListChannelDescs ac (a\<lparr>ma_client := http2\<rparr>) bearer channelType clanID limit state cursor isMobile s \<and>
    ListChannelVoiceUsers ac (a\<lparr>ma_client := http1\<rparr>) bearer clanID limit s = ListChannelVoiceUsers ac (a\<lparr>ma_client := http2\<rparr>) bearer clanID limit s \<and>
    ListRoles ac (a\<lparr>ma_client := http1\<rparr>) bearer clanID limit state cursor s = ListRoles ac (a\<lparr>ma_client := http2\<rparr>) bearer clanID limit state cursor s \<and>
    UpdateRole ac (a\<lparr>ma_client := http1\<rparr>) bearer req8 s = UpdateRole ac (a\<lparr>ma_client := http2\<rparr>) bearer req8 s \<and>
    CreateRole ac (a\<lparr>ma_client := http1\<rparr>) bearer req9 s = CreateRole ac (a\<lparr>ma_client := http2\<rparr>) bearer req9 s \<and>
    DeleteRole ac (a\<lparr>ma_client := http1\<rparr>) bearer roleID clanID s = DeleteRole ac (a\<lparr>ma_client := http2\<rparr>) bearer roleID clanID s \<and>
    UpdateChannelPrivate ac (a\<lparr>ma_client := http1\<rparr>) bearer req11 s = UpdateChannelPrivate ac (a\<lparr>ma_client := http2\<rparr>) bearer req11 s \<and>
    AddRolesChannelDesc ac (a\<lparr>ma_client := http1\<rparr>) bearer req12 s = AddRolesChannelDesc ac (a\<lparr>ma_client := http2\<rparr>) bearer req12 s \<and>
    SetRoleChannelPermission ac (a\<lparr>ma_client := http1\<rparr>) bearer req13 s = SetRoleChannelPermission ac (a\<lparr>ma_client := http2\<rparr>) bearer req13 s \<and>
    GetListPermission ac (a\<lparr>ma_client := http1\<rparr>) bearer s = GetListPermission ac (a\<lparr>ma_client := http2\<rparr>) bearer s \<and>
    AddQuickMenuAccess ac (a\<lparr>ma_client := http1\<rparr>) bearer req15 s = AddQuickMenuAccess ac (a\<lparr>ma_client := http2\<rparr>) bearer req15 s \<and>
    ListQuickMenuAccess ac (a\<lparr>ma_client := http1\<rparr>) bearer botID channelID menuType s = ListQuickMenuAccess ac (a\<lparr>ma_client := http2\<rparr>) bearer botID channelID menuType s"
proof -
  have final: "doProto (a\<lparr>ma_client := http1\<rparr>) bearer path req target s = doProto (a\<lparr>ma_client := http2\<rparr>) bearer path req target s"
    if "path = ''/mezon.api.Mezon/'' @ name" "name \<in> set apiNames" for path name req target
    unfolding that(1) by (rule socket_answer_final [OF that(2) assms(1,2)]) (use assms(3) in blast)
  show ?thesis
    unfolding SendChannelMessage_def CreateChannelDesc_def DeleteChannelDesc_def ListClanDescs_def ListChannelDetail_def ListChannelDescs_def ListChannelVoiceUsers_def ListRoles_def UpdateRole_def CreateRole_def DeleteRole_def UpdateChannelPrivate_def AddRolesChannelDesc_def SetRoleChannelPermission_def GetListPermission_def AddQuickMenuAccess_def ListQuickMenuAccess_def
    by (intro conjI)
      (rule final [OF _ endpoints_in_table(1)], simp,
       rule final [OF _ endpoints_in_table(2)], simp,
       rule final [OF _ endpoints_in_table(3)], simp,
       rule final [OF _ endpoints_in_table(4)], simp,
       rule final [OF _ endpoints_in_table(5)], simp,
       rule final [OF _ endpoints_in_table(6)], simp,
       rule final [OF _ endpoints_in_table(7)], simp,
       rule final [OF _ endpoints_in_table(8)], simp,
       rule final [OF _ endpoints_in_table(9)], simp,
       rule final [OF _ endpoints_in_table(10)], simp,
       rule final [OF _ endpoints_in_table(11)], simp,
       rule final [OF _ endpoints_in_table(12)], simp,
       rule final [OF _ endpoints_in_table(13)], simp,
       rule final [OF _ endpoints_in_table(14)], simp,
       rule final [OF _ endpoints_in_table(15)], simp,
       rule final [OF _ endpoints_in_table(16)], simp,
       rule final [OF _ endpoints_in_table(17)], simp)
qed

theorem wrappers_ride_the_socket_witness:
  "\<forall>ac bearer http1 http2. DeleteRole ac \<lparr>ma_APIKey = [], ma_BasePath = [], ma_Timeout = 1, ma_client = http1,
       ma_socket = Some \<lparr>sp_IsOpen = \<lambda>_. True, sp_request = \<lambda>name b n. (Inr [], Suc n)\<rparr>\<rparr> bearer ''7'' ''8'' 0 =
     DeleteRole ac \<lparr>ma_APIKey = [], ma_BasePath = [], ma_Timeout = 1, ma_client = http2,
       ma_socket = Some \<lparr>sp_IsOpen = \<lambda>_. True, sp_request = \<lambda>name b n. (Inr [], Suc n)\<rparr>\<rparr> bearer ''7'' ''8'' 0"
proof (intro allI)
  fix ac :: api_codec and bearer :: string and http1 http2 :: "http_request \<Rightarrow> (nat, http_response) call"
  let ?p = "\<lparr>sp_IsOpen = \<lambda>_. True, sp_request = \<lambda>name b n. (Inr [], Suc n)\<rparr>"
  let ?a = "\<lparr>ma_APIKey = [], ma_BasePath = [], ma_Timeout = 1, ma_client = http1, ma_socket = Some ?p\<rparr>"
  show "DeleteRole ac ?a bearer ''7'' ''8'' 0 = DeleteRole ac \<lparr>ma_APIKey = [], ma_BasePath = [], ma_Timeout = 1, ma_client = http2,
       ma_socket = Some ?p\<rparr> bearer ''7'' ''8'' 0"
    using wrappers_ride_the_socket [where a = ?a and p = ?p and s = 0 and ac = ac and bearer = bearer and
        roleID = "''7''" and clanID = "''8''" and ?http1.0 = http1 and ?http2.0 = http2] by simp
qed

section \<open>Over the socket\<close>

definition port_of_socket :: "socket_env \<Rightarrow> socket_state socket_port" where
  "port_of_socket se = \<lparr>sp_IsOpen = IsOpen, sp_request = socket_request se\<rparr>"

definition api_envelope :: "int32 \<Rightarrow> string \<Rightarrow> bytes \<Rightarrow> pb_Envelope" where
  "api_envelope i name body =
     zero_Envelope\<lparr>env_ApiRequestEvent := Some \<lparr>are_ApiIndex = i, are_ApiName = name, are_Body = body\<rparr>\<rparr>"

lemma socket_request_outcome:
  assumes "apiIndexFromName name = Some i"
    and "send_request (se_marshal se) (se_io se) (se_kind se) (api_envelope i name body) s = (Inr (cid, ch), s1)"
    and "se_park se cid ch s1 = (w, s2)"
  shows "w = TimedOut \<Longrightarrow> socket_request se name body s = (Inl ErrSendTimeout, clearCid cid s2)"
    and "w = ConnDone \<Longrightarrow> socket_request se name body s = (Inl ErrSocketClosed, s2)"
    and "w = GotResponse (api_response code data) \<Longrightarrow> socket_request se name body s =
      (if code = 0 then Inr data
       else Inl (ErrNew (''mezon: API '' @ name @ '' failed with code '' @ FormatInt (uint code))), s2)"
  using assms
  by (simp_all add: socket_request_def sendApiRequest_def sendResponse_def api_envelope_def await_response_def api_response_def)

text \<open>
  A request whose response does not come in time is sent again over HTTP, with the same body, while
  the server may still be executing the first one: an endpoint that creates something (a channel, a
  role, a message) may create it twice. A response of the server, also one with a failure code, is
  never followed by a second request.
\<close>

theorem timeout_repeats_the_request:
  assumes "ma_socket a = Some (port_of_socket se)" "IsOpen s" "apiIndexFromName name = Some i"
    and "send_request (se_marshal se) (se_io se) (se_kind se) (api_envelope i name body) s = (Inr (cid, ch), s1)"
    and "se_park se cid ch s1 = (w, s2)"
    and "doProto (logged_api a) bearer (api_prefix @ name) (Some (Inr body)) target ([], s) = (r, (log, s'))"
  shows "(w = TimedOut \<longrightarrow> log = [OverSocket name body, OverHttp (proto_request a bearer (api_prefix @ name) body)]) \<and>
    (\<forall>code data. w = GotResponse (api_response code data) \<longrightarrow> log = [OverSocket name body] \<and> s' = s2 \<and>
       r = (if code = 0 then decode_into target data
            else Inl (ErrNew (''mezon: API '' @ name @ '' failed with code '' @ FormatInt (uint code)))))"
proof -
  have on: "on_socket a (api_prefix @ name) s = Some (port_of_socket se, name)"
    using assms(1-3) by (simp add: on_socket_def strip_prefix_def port_of_socket_def)
  note out = socket_request_outcome [OF assms(3-5)]
  have errs: "transport_error ErrSendTimeout" "\<not> transport_error (ErrNew m)" for m
    by (simp_all add: transport_error_def)
  show ?thesis
    using assms(6) out errs
    by (auto simp: doProto_routed on port_of_socket_def split: prod.splits if_splits)
qed

definition demo_env :: socket_env where
  "demo_env = \<lparr>se_quote = id, se_marshal = \<lambda>_. Inr [1], se_io = \<lambda>_. None, se_kind = TransportWebSocket,
     se_park = \<lambda>cid ch s. (TimedOut, s)\<rparr>"

theorem timeout_repeats_the_request_witness:
  "\<exists>r s'. doProto (logged_api (AttachSocket (NewMezonApi (\<lambda>q s. (Inr \<lparr>hp_status = 204, hp_body = Inr []\<rparr>, s)) [] ''https://h'' 0) (port_of_socket demo_env)))
     ''t'' (api_prefix @ ''CreateRole'') (Some (Inr [9])) ((), None) ([], new_socket_state\<lparr>connected := True\<rparr>) =
     (r, ([OverSocket ''CreateRole'' [9],
       OverHttp \<lparr>hq_url = ''https://h'' @ api_prefix @ ''CreateRole'',
         hq_header = [(''Content-Type'', ''application/proto''), (''Accept'', ''application/proto''), (''Authorization'', ''Bearer t'')],
         hq_body = [9], hq_timeout = 7 * 1000000000\<rparr>], s'))"
proof -
  let ?a = "AttachSocket (NewMezonApi (\<lambda>q s. (Inr \<lparr>hp_status = 204, hp_body = Inr []\<rparr>, s)) [] ''https://h'' 0) (port_of_socket demo_env)"
  let ?s = "new_socket_state\<lparr>connected := True\<rparr>"
  obtain i where i: "apiIndexFromName ''CreateRole'' = Some i"
    using apiIndexFromName_known [OF endpoints_in_table(10)] by blast
  obtain cid ch s1 where sr: "send_request (se_marshal demo_env) (se_io demo_env) (se_kind demo_env) (api_envelope i ''CreateRole'' [9]) ?s = (Inr (cid, ch), s1)"
    by (simp add: send_request_def demo_env_def IsOpen_def write_request_def generateCid_def Let_def)
  have park: "se_park demo_env cid ch s1 = (TimedOut, s1)" by (simp add: demo_env_def)
  obtain r log s' where run: "doProto (logged_api ?a) ''t'' (api_prefix @ ''CreateRole'') (Some (Inr [9])) ((), None) ([], ?s) = (r, (log, s'))"
    by (metis prod.exhaust)
  have "log = [OverSocket ''CreateRole'' [9], OverHttp (proto_request ?a ''t'' (api_prefix @ ''CreateRole'') [9])]"
    using timeout_repeats_the_request [OF _ _ i sr park run] by (simp add: AttachSocket_def IsOpen_def)
  then show ?thesis using run
    by (simp add: proto_request_def AttachSocket_def NewMezonApi_def)
qed

end
