(* ===== verification/Message_Db.thy ===== *)
theory Message_Db
  imports Types
begin

text \<open>
  The persistent message store: the interface of \<^verbatim>\<open>messagestore.go\<close> as a locale and the SQLite database of
  \<^verbatim>\<open>messagedb/messagedb.go\<close>, which implements it. The database is its table \<^verbatim>\<open>messages_v2\<close>, rows under the
  primary key (id, channel\_id, clan\_id); a statement that fails leaves the table as it was.
\<close>

section \<open>messagedb.go\<close>

type_synonym message_key = "string \<times> string \<times> string"

record message_row =
  row_sender_id :: string
  row_content :: string
  row_mentions :: string
  row_attachments :: string
  row_reactions :: string
  row_msg_references :: string
  row_topic_id :: string
  row_create_time_seconds :: int64

type_synonym message_table = "(message_key \<times> message_row) list"

definition DefaultPath :: string where
  "DefaultPath = ''./mezon-cache/mezon-messages-cache.db''"

text \<open>The id under which a message is stored.\<close>

definition message_id :: "ChannelMessage \<Rightarrow> string" where
  "message_id msg = (if chm_MessageID msg = [] then chm_ID msg else chm_MessageID msg)"

definition message_row_of :: "ChannelMessage \<Rightarrow> message_row" where
  "message_row_of msg = \<lparr>
     row_sender_id = chm_SenderID msg,
     row_content = (if 0 < length (chm_Content msg) then chm_Content msg else ''{}''),
     row_mentions = marshal_slice mention_tags (chm_Mentions msg),
     row_attachments = marshal_slice attachment_tags (chm_Attachments msg),
     row_reactions = marshal_slice reaction_tags (chm_Reactions msg),
     row_msg_references = marshal_slice ref_tags (chm_References msg),
     row_topic_id = chm_TopicID msg,
     row_create_time_seconds = ucast (chm_CreateTimeSeconds msg)\<rparr>"

text \<open>\<^verbatim>\<open>INSERT OR REPLACE\<close>; \<open>fault\<close> is the error of the statement, if it fails.\<close>

definition SaveMessage ::
  "go_error option \<Rightarrow> ChannelMessage option \<Rightarrow> message_table \<Rightarrow> unit result \<times> message_table" where
  "SaveMessage fault p t = (case p of
      None \<Rightarrow> (Inr (), t)
    | Some msg \<Rightarrow>
        (let i = message_id msg
         in case fault of
              Some e \<Rightarrow> (Inl (ErrWrap (''messagedb: save '' @ i @ '': '') e []), t)
            | None \<Rightarrow> (Inr (), AList.update (i, chm_ChannelID msg, chm_ClanID msg) (message_row_of msg) t)))"

definition message_of_row :: "message_key \<Rightarrow> message_row \<Rightarrow> ChannelMessage" where
  "message_of_row k r = (case k of (i, ch, cl) \<Rightarrow>
     (let cm = zero_go_ChannelMessage\<lparr>
            chm_ID := i,
            chm_MessageID := i,
            chm_ChannelID := ch,
            chm_ClanID := cl,
            chm_SenderID := row_sender_id r,
            chm_TopicID := row_topic_id r,
            chm_CreateTimeSeconds := ucast (row_create_time_seconds r)\<rparr>;
          cm = (if row_content r \<noteq> [] then cm\<lparr>chm_Content := row_content r\<rparr> else cm)
      in cm\<lparr>chm_Mentions := unmarshal_slice mention_tags zero_go_Mention (row_mentions r),
            chm_Attachments := unmarshal_slice attachment_tags zero_go_Attachment (row_attachments r),
            chm_Reactions := unmarshal_slice reaction_tags zero_go_Reaction (row_reactions r),
            chm_References := unmarshal_slice ref_tags zero_go_MessageRef (row_msg_references r)\<rparr>))"

definition GetMessageByID ::
  "go_error option \<Rightarrow> string \<Rightarrow> string \<Rightarrow> string \<Rightarrow> message_table \<Rightarrow> ChannelMessage option result" where
  "GetMessageByID fault messageID channelID clanID t = (case fault of
      Some e \<Rightarrow> Inl (ErrWrap (''messagedb: get '' @ messageID @ '': '') e [])
    | None \<Rightarrow> Inr (map_option (message_of_row (messageID, channelID, clanID)) (map_of t (messageID, channelID, clanID))))"

section \<open>messagestore.go\<close>

text \<open>The key of a message.\<close>

definition has_key :: "string \<Rightarrow> string \<Rightarrow> string \<Rightarrow> ChannelMessage \<Rightarrow> bool" where
  "has_key i ch cl m \<longleftrightarrow> message_id m = i \<and> chm_ChannelID m = ch \<and> chm_ClanID m = cl"

text \<open>What the client relies on: \<open>save\<close> and \<open>get\<close> are the store without faults, \<open>view\<close> is what the store
  keeps of a message, \<open>good\<close> says which messages it can keep.\<close>

locale message_store =
  fixes save :: "ChannelMessage \<Rightarrow> 't \<Rightarrow> 't"
    and get :: "string \<Rightarrow> string \<Rightarrow> string \<Rightarrow> 't \<Rightarrow> ChannelMessage option"
    and view :: "ChannelMessage \<Rightarrow> ChannelMessage"
    and good :: "ChannelMessage \<Rightarrow> bool"
  assumes get_save: "good m \<Longrightarrow> get (message_id m) (chm_ChannelID m) (chm_ClanID m) (save m t) = Some (view m)"
    and get_other: "(i, ch, cl) \<noteq> (message_id m, chm_ChannelID m, chm_ClanID m) \<Longrightarrow> get i ch cl (save m t) = get i ch cl t"
begin

lemma get_saves:
  assumes "list_all good ms"
  shows "get i ch cl (fold save ms t) = (case filter (has_key i ch cl) ms of
     [] \<Rightarrow> get i ch cl t | xs \<Rightarrow> Some (view (last xs)))"
  using assms
proof (induction ms rule: rev_induct)
  case (snoc m ms)
  show ?case
  proof (cases "has_key i ch cl m")
    case True
    then show ?thesis using snoc get_save [of m] by (auto simp: has_key_def split: list.splits)
  next
    case False
    then show ?thesis using snoc get_other [of i ch cl m] by (auto simp: has_key_def split: list.splits)
  qed
qed simp

end

section \<open>The database is a message store\<close>

text \<open>What a row keeps of a message.\<close>

definition stored_view :: "ChannelMessage \<Rightarrow> ChannelMessage" where
  "stored_view m = zero_go_ChannelMessage\<lparr>
     chm_ID := message_id m, chm_MessageID := message_id m, chm_ChannelID := chm_ChannelID m, chm_ClanID := chm_ClanID m,
     chm_SenderID := chm_SenderID m, chm_TopicID := chm_TopicID m, chm_CreateTimeSeconds := chm_CreateTimeSeconds m,
     chm_Content := (if chm_Content m = [] then ''{}'' else chm_Content m),
     chm_Mentions := chm_Mentions m, chm_Attachments := chm_Attachments m, chm_Reactions := chm_Reactions m,
     chm_References := chm_References m\<rparr>"

definition message_utf8 :: "ChannelMessage \<Rightarrow> bool" where
  "message_utf8 m \<longleftrightarrow> list_all mention_utf8 (elems (chm_Mentions m)) \<and> list_all attachment_utf8 (elems (chm_Attachments m)) \<and>
     list_all ref_utf8 (elems (chm_References m)) \<and> list_all reaction_utf8 (elems (chm_Reactions m))"

definition db_save :: "ChannelMessage \<Rightarrow> message_table \<Rightarrow> message_table" where
  "db_save m t = snd (SaveMessage None (Some m) t)"

definition db_get :: "string \<Rightarrow> string \<Rightarrow> string \<Rightarrow> message_table \<Rightarrow> ChannelMessage option" where
  "db_get i ch cl t = (case GetMessageByID None i ch cl t of Inr r \<Rightarrow> r | Inl _ \<Rightarrow> None)"

lemma ucast_uint32_int64 [simp]: "ucast (ucast (v :: uint32) :: int64) = v"
  by (rule bit_word_eqI) (auto simp: bit_simps)

lemma message_of_row_of:
  assumes "message_utf8 m"
  shows "message_of_row (message_id m, chm_ChannelID m, chm_ClanID m) (message_row_of m) = stored_view m"
proof -
  have "\<forall>x\<in>set (elems (chm_Mentions m)). struct_ok mention_tags x" "\<forall>x\<in>set (elems (chm_Attachments m)). struct_ok attachment_tags x"
    "\<forall>x\<in>set (elems (chm_References m)). struct_ok ref_tags x" "\<forall>x\<in>set (elems (chm_Reactions m)). struct_ok reaction_tags x"
    using assms by (auto simp: message_utf8_def list_all_iff struct_ok_structs)
  note parts = this(1) [THEN unmarshal_marshal_structs(1)] this(2) [THEN unmarshal_marshal_structs(2)]
    this(3) [THEN unmarshal_marshal_structs(3)] this(4) [THEN unmarshal_marshal_structs(4)]
  show ?thesis
    by (simp add: message_of_row_def message_row_of_def stored_view_def zero_go_ChannelMessage_def parts)
qed

interpretation mdb: message_store db_save db_get stored_view message_utf8
proof
  show "db_get (message_id m) (chm_ChannelID m) (chm_ClanID m) (db_save m t) = Some (stored_view m)" if "message_utf8 m" for m t
    using message_of_row_of [OF that]
    by (simp add: db_get_def db_save_def GetMessageByID_def SaveMessage_def update_conv' Let_def)
  show "db_get i ch cl (db_save m t) = db_get i ch cl t"
    if "(i, ch, cl) \<noteq> (message_id m, chm_ChannelID m, chm_ClanID m)" for i ch cl m t
    using that by (auto simp: db_get_def db_save_def GetMessageByID_def SaveMessage_def update_conv' Let_def)
qed

text \<open>Saves that come after one, some of which may fail: the row holds the last one that succeeded under its key.\<close>

definition later_saves :: "(go_error option \<times> ChannelMessage) list \<Rightarrow> message_table \<Rightarrow> message_table" where
  "later_saves fms = fold (\<lambda>(fault, m) t. snd (SaveMessage fault (Some m) t)) fms"

definition kept_message :: "ChannelMessage \<Rightarrow> (go_error option \<times> ChannelMessage) list \<Rightarrow> ChannelMessage" where
  "kept_message e fms =
     last (e # map snd (filter (\<lambda>(fault, m). fault = None \<and> has_key (message_id e) (chm_ChannelID e) (chm_ClanID e) m) fms))"

lemma later_saves_db_save: "later_saves fms t = fold db_save (map snd (filter (\<lambda>(fault, m). fault = None) fms)) t"
  by (induction fms arbitrary: t) (auto simp: later_saves_def db_save_def SaveMessage_def Let_def split: option.splits)

lemma db_get_later:
  assumes "message_utf8 e" "list_all (\<lambda>(fault, m). message_utf8 m) fms"
  shows "db_get (message_id e) (chm_ChannelID e) (chm_ClanID e) (later_saves fms (db_save e t)) = Some (stored_view (kept_message e fms))"
proof -
  let ?ms = "e # map snd (filter (\<lambda>(fault, m). fault = None) fms)"
  have "list_all message_utf8 ?ms" using assms by (auto simp: list_all_iff)
  from mdb.get_saves [OF this, of "message_id e" "chm_ChannelID e" "chm_ClanID e" t]
  show ?thesis
    by (simp add: later_saves_db_save kept_message_def has_key_def [of _ _ _ e] filter_map o_def case_prod_unfold conj_commute split: list.splits)
qed

lemma kept_message_key:
  "message_id (kept_message e fms) = message_id e" "chm_ChannelID (kept_message e fms) = chm_ChannelID e"
  "chm_ClanID (kept_message e fms) = chm_ClanID e"
proof -
  let ?xs = "map snd (filter (\<lambda>(fault, m). fault = None \<and> has_key (message_id e) (chm_ChannelID e) (chm_ClanID e) m) fms)"
  have "last (e # ?xs) \<in> set (e # ?xs)" by (rule last_in_set) simp
  then have "has_key (message_id e) (chm_ChannelID e) (chm_ClanID e) (kept_message e fms)"
    unfolding kept_message_def by (auto simp: has_key_def)
  then show "message_id (kept_message e fms) = message_id e" "chm_ChannelID (kept_message e fms) = chm_ChannelID e"
    "chm_ClanID (kept_message e fms) = chm_ClanID e" by (simp_all add: has_key_def)
qed

lemma kept_message_untouched: "\<forall>(fault, m)\<in>set fms. fault = None \<longrightarrow> \<not> has_key (message_id e) (chm_ChannelID e) (chm_ClanID e) m \<Longrightarrow> kept_message e fms = e"
  by (auto simp: kept_message_def filter_empty_conv)

text \<open>
  What was saved is found: after any sequence of saved messages, looking up a key gives the last
  message saved under it (its ids, sender, topic, time, content and all its mentions, attachments,
  references and reactions exactly, the other fields empty), and a key under which nothing was saved
  has no message; a statement that fails leaves the table unchanged.
\<close>

theorem messagedb_returns_last_saved:
  assumes "list_all message_utf8 ms"
  shows "GetMessageByID None i ch cl (fold (\<lambda>m t. snd (SaveMessage None (Some m) t)) ms []) =
      Inr (case filter (\<lambda>m. message_id m = i \<and> chm_ChannelID m = ch \<and> chm_ClanID m = cl) ms of
             [] \<Rightarrow> None | xs \<Rightarrow> Some (stored_view (last xs))) \<and>
    (\<forall>e m t. snd (SaveMessage (Some e) m t) = t)"
proof -
  have "(\<lambda>m t. snd (SaveMessage None (Some m) t)) = db_save" by (simp add: db_save_def fun_eq_iff)
  moreover have "db_get i ch cl [] = None" by (simp add: db_get_def GetMessageByID_def)
  moreover have "GetMessageByID None i ch cl t = Inr (db_get i ch cl t)" for t by (simp add: db_get_def GetMessageByID_def)
  moreover have "has_key i ch cl = (\<lambda>m. message_id m = i \<and> chm_ChannelID m = ch \<and> chm_ClanID m = cl)"
    by (simp add: has_key_def fun_eq_iff)
  moreover have "\<forall>e m t. snd (SaveMessage (Some e) m t) = t"
    by (simp add: SaveMessage_def split: option.splits)
  ultimately show ?thesis
    using mdb.get_saves [OF assms, of i ch cl "[]"] by (simp split: list.splits)
qed

theorem messagedb_returns_last_saved_witness:
  "GetMessageByID None ''1'' ''2'' ''3'' (fold (\<lambda>m t. snd (SaveMessage None (Some m) t))
     [zero_go_ChannelMessage\<lparr>chm_MessageID := ''1'', chm_ChannelID := ''2'', chm_ClanID := ''3'', chm_Content := ''{}''\<rparr>,
      zero_go_ChannelMessage\<lparr>chm_MessageID := ''1'', chm_ChannelID := ''2'', chm_ClanID := ''3'', chm_Content := ''[]''\<rparr>] []) =
   Inr (Some (zero_go_ChannelMessage\<lparr>chm_ID := ''1'', chm_MessageID := ''1'', chm_ChannelID := ''2'', chm_ClanID := ''3'', chm_Content := ''[]''\<rparr>))"
  using messagedb_returns_last_saved [of "[zero_go_ChannelMessage\<lparr>chm_MessageID := ''1'', chm_ChannelID := ''2'', chm_ClanID := ''3'', chm_Content := ''{}''\<rparr>,
      zero_go_ChannelMessage\<lparr>chm_MessageID := ''1'', chm_ChannelID := ''2'', chm_ClanID := ''3'', chm_Content := ''[]''\<rparr>]" "''1''" "''2''" "''3''"]
  by (simp add: message_utf8_def message_id_def stored_view_def zero_go_ChannelMessage_def)

end
