(* ===== verification/Client_State.thy ===== *)
theory Client_State
  imports Rest_Api Message_Db Events Cache
begin

text \<open>
  The state of a client: the structs of \<^verbatim>\<open>clan.go\<close>, \<^verbatim>\<open>channel.go\<close>, \<^verbatim>\<open>message.go\<close>, \<^verbatim>\<open>user.go\<close>,
  \<^verbatim>\<open>channelmanager.go\<close> and \<^verbatim>\<open>client.go\<close>. The objects refer to each other by pointers, are shared between
  caches and updated in place, so that a pointer is an address into a heap of objects of its type, and nil
  is \<^const>\<open>None\<close>. Every object belongs to one client with its one queue, so that the pointers to these two
  are left out. Constructing, reading and updating objects is here; the operations are in the theories
  that follow.
\<close>

section \<open>Structs\<close>

type_synonym addr = nat

record Clan =
  cn_ID :: string
  cn_Name :: string
  cn_WelcomeChannelID :: string
  cn_ClanName :: string
  cn_Channels :: "(string, addr) CacheManager"
  cn_SessionToken :: string
  cn_ClientID :: string
  cn_apiClient :: "addr option"
  cn_socket :: "addr option"
  cn_channelsLoaded :: bool

record TextChannel =
  tc_ID :: string
  tc_Name :: string
  tc_IsPrivate :: bool
  tc_ChannelType :: int64
  tc_CategoryID :: string
  tc_CategoryName :: string
  tc_ParentID :: string
  tc_MeetingCode :: string
  tc_Clan :: "addr option"
  tc_Messages :: "(string, addr) CacheManager"
  tc_socket :: "addr option"

record Message =
  ms_ID :: string
  ms_ClanID :: string
  ms_ChannelID :: string
  ms_SenderID :: string
  ms_Content :: string
  ms_Mentions :: "Mention slice"
  ms_Attachments :: "Attachment slice"
  ms_References :: "MessageRef slice"
  ms_Reactions :: "Reaction slice"
  ms_TopicID :: string
  ms_CreateTimeSeconds :: uint32
  ms_UpdateTimeSeconds :: uint32
  ms_Code :: int64
  ms_Username :: string
  ms_CreateTime :: string
  ms_UpdateTime :: string
  ms_Persistent :: bool
  ms_Mode :: int64
  ms_Channel :: "addr option"
  ms_socket :: "addr option"

record User =
  us_ID :: string
  us_Username :: string
  us_ClanNick :: string
  us_ClanAvatar :: string
  us_DisplayName :: string
  us_Avatar :: string
  us_DmChannelID :: string
  us_socket :: "addr option"
  us_channelManager :: "addr option"

record ChannelManager =
  chn_apiClient :: "addr option"
  chn_socket :: "addr option"
  chn_dmByUser :: "(string \<times> string) list"
  chn_dmDescs :: "pb_ChannelDescription list"

text \<open>The settings of a \<^verbatim>\<open>DefaultSocket\<close>; its connection is outside the client.\<close>

record socket_settings =
  sk_wsURL :: string
  sk_host :: string
  sk_port :: string
  sk_useSSL :: bool
  sk_Transport :: TransportKind
  sk_TLSInsecureSkipVerify :: bool
  sk_TcpURL :: string

text \<open>\<^verbatim>\<open>MezonClient\<close> with the heaps its objects live in. \<open>mc_panicked\<close> says that a nil pointer was
  dereferenced, which ends the program; \<open>mc_out\<close> is the outside: sockets, HTTP, stores.\<close>

record 'x MezonClient =
  mc_Token :: string
  mc_ClientID :: string
  mc_Host :: string
  mc_Port :: string
  mc_UseSSL :: bool
  mc_Timeout :: int64
  mc_Transport :: TransportKind
  mc_TLSInsecureSkipVerify :: bool
  mc_Clans :: "(string, addr) CacheManager"
  mc_Channels :: "(string, addr) CacheManager"
  mc_Users :: "(string, addr) CacheManager"
  mc_loginBasePath :: string
  mc_apiClient :: "addr option"
  mc_socket :: "addr option"
  mc_channelManager :: "addr option"
  mc_session :: "Session option"
  mc_events :: emitter
  mc_cacheTTL :: int64
  mc_internalsBound :: bool
  mc_hardDisconnect :: bool
  h_clans :: "Clan list"
  h_channels :: "TextChannel list"
  h_messages :: "Message list"
  h_users :: "User list"
  h_managers :: "ChannelManager list"
  h_apis :: "'x MezonApi list"
  h_sockets :: "socket_settings list"
  mc_panicked :: bool
  mc_out :: 'x

section \<open>The outside\<close>

text \<open>The two interfaces of \<^verbatim>\<open>sharedcache.go\<close> and \<^verbatim>\<open>messagestore.go\<close>.\<close>

record 'x SharedStore =
  ss_Get :: "string \<Rightarrow> ('x, bytes option) call"
  ss_Set :: "string \<Rightarrow> bytes \<Rightarrow> int64 \<Rightarrow> ('x, unit) call"
  ss_Delete :: "string \<Rightarrow> ('x, unit) call"

record 'x MessageStore =
  mst_SaveMessage :: "ChannelMessage \<Rightarrow> ('x, unit) call"
  mst_GetMessageByID :: "string \<Rightarrow> string \<Rightarrow> string \<Rightarrow> ('x, ChannelMessage option) call"

text \<open>What the client is connected to: for the socket at an address its connection, \<^verbatim>\<open>send\<close>, \<^verbatim>\<open>sendApiRequest\<close>
  and \<^verbatim>\<open>Close\<close> (theories \<open>Socket\<close> and \<open>Socket_Lifecycle\<close>), the HTTP client, the codecs, the configured stores, the
  clock and the URL parser.\<close>

record 'x client_env =
  ce_connect :: "addr \<Rightarrow> socket_settings \<Rightarrow> Session \<Rightarrow> bool \<Rightarrow> ('x, unit) call"
  ce_transmit :: "addr \<Rightarrow> 'x transmit"
  ce_port :: "addr \<Rightarrow> 'x socket_port"
  ce_close :: "addr \<Rightarrow> 'x \<Rightarrow> 'x"
  ce_http :: "http_request \<Rightarrow> ('x, http_response) call"
  ce_api :: api_codec
  ce_marshal_desc :: "pb_ChannelDescription \<Rightarrow> bytes result"
  ce_update :: "pb_ChannelMessageUpdate codec"
  ce_remove :: "pb_ChannelMessageRemove codec"
  ce_store :: "'x SharedStore option"
  ce_messageDB :: "'x MessageStore option"
  ce_now :: "'x \<Rightarrow> int64"
  ce_json_error :: "bytes \<Rightarrow> go_error"
  ce_url_Parse :: "string \<Rightarrow> parsed_url result"

definition outside :: "('x, 'a) call \<Rightarrow> ('x MezonClient, 'a) call" where
  "outside m w = (case m (mc_out w) of (r, x) \<Rightarrow> (r, w\<lparr>mc_out := x\<rparr>))"

text \<open>Following a pointer that may be nil.\<close>

definition deref :: "'p option \<Rightarrow> ('p \<Rightarrow> ('x MezonClient, 'a) call) \<Rightarrow> ('x MezonClient, 'a) call" where
  "deref p f w = (case p of Some a \<Rightarrow> f a w | None \<Rightarrow> (Inl nil_dereference, w\<lparr>mc_panicked := True\<rparr>))"

text \<open>A request of the API client at an address.\<close>

definition on_api :: "addr option \<Rightarrow> ('x MezonApi \<Rightarrow> ('x, 'a) call) \<Rightarrow> ('x MezonClient, 'a) call" where
  "on_api p f = deref p (\<lambda>a. gets (\<lambda>w. h_apis w ! a) (\<lambda>api. outside (f api)))"

definition on_transmit :: "'x client_env \<Rightarrow> addr option \<Rightarrow> ('x transmit \<Rightarrow> ('x, 'a) call) \<Rightarrow> ('x MezonClient, 'a) call" where
  "on_transmit env p f = deref p (\<lambda>s. outside (f (ce_transmit env s)))"

definition on_request :: "'x client_env \<Rightarrow> addr option \<Rightarrow> ('x api_request \<Rightarrow> ('x, 'a) call) \<Rightarrow> ('x MezonClient, 'a) call" where
  "on_request env p f = deref p (\<lambda>s. outside (f (sp_request (ce_port env s))))"

section \<open>Objects\<close>

definition clan_at :: "'x MezonClient \<Rightarrow> addr \<Rightarrow> Clan" where
  "clan_at w a = h_clans w ! a"

definition channel_at :: "'x MezonClient \<Rightarrow> addr \<Rightarrow> TextChannel" where
  "channel_at w a = h_channels w ! a"

definition message_at :: "'x MezonClient \<Rightarrow> addr \<Rightarrow> Message" where
  "message_at w a = h_messages w ! a"

definition user_at :: "'x MezonClient \<Rightarrow> addr \<Rightarrow> User" where
  "user_at w a = h_users w ! a"

definition manager_at :: "'x MezonClient \<Rightarrow> addr \<Rightarrow> ChannelManager" where
  "manager_at w a = h_managers w ! a"

definition upd_clan :: "addr \<Rightarrow> (Clan \<Rightarrow> Clan) \<Rightarrow> 'x MezonClient \<Rightarrow> 'x MezonClient" where
  "upd_clan a f w = w\<lparr>h_clans := (h_clans w)[a := f (h_clans w ! a)]\<rparr>"

definition upd_channel :: "addr \<Rightarrow> (TextChannel \<Rightarrow> TextChannel) \<Rightarrow> 'x MezonClient \<Rightarrow> 'x MezonClient" where
  "upd_channel a f w = w\<lparr>h_channels := (h_channels w)[a := f (h_channels w ! a)]\<rparr>"

definition upd_message :: "addr \<Rightarrow> (Message \<Rightarrow> Message) \<Rightarrow> 'x MezonClient \<Rightarrow> 'x MezonClient" where
  "upd_message a f w = w\<lparr>h_messages := (h_messages w)[a := f (h_messages w ! a)]\<rparr>"

definition upd_user :: "addr \<Rightarrow> (User \<Rightarrow> User) \<Rightarrow> 'x MezonClient \<Rightarrow> 'x MezonClient" where
  "upd_user a f w = w\<lparr>h_users := (h_users w)[a := f (h_users w ! a)]\<rparr>"

definition upd_manager :: "addr \<Rightarrow> (ChannelManager \<Rightarrow> ChannelManager) \<Rightarrow> 'x MezonClient \<Rightarrow> 'x MezonClient" where
  "upd_manager a f w = w\<lparr>h_managers := (h_managers w)[a := f (h_managers w ! a)]\<rparr>"

definition alloc_clan :: "Clan \<Rightarrow> 'x MezonClient \<Rightarrow> addr \<times> 'x MezonClient" where
  "alloc_clan c w = (length (h_clans w), w\<lparr>h_clans := h_clans w @ [c]\<rparr>)"

definition alloc_channel :: "TextChannel \<Rightarrow> 'x MezonClient \<Rightarrow> addr \<times> 'x MezonClient" where
  "alloc_channel c w = (length (h_channels w), w\<lparr>h_channels := h_channels w @ [c]\<rparr>)"

definition alloc_message :: "Message \<Rightarrow> 'x MezonClient \<Rightarrow> addr \<times> 'x MezonClient" where
  "alloc_message m w = (length (h_messages w), w\<lparr>h_messages := h_messages w @ [m]\<rparr>)"

definition alloc_user :: "User \<Rightarrow> 'x MezonClient \<Rightarrow> addr \<times> 'x MezonClient" where
  "alloc_user u w = (length (h_users w), w\<lparr>h_users := h_users w @ [u]\<rparr>)"

text \<open>Writing the caches.\<close>

definition set_Clans :: "string \<Rightarrow> addr \<Rightarrow> 'x MezonClient \<Rightarrow> 'x MezonClient" where
  "set_Clans k a w = w\<lparr>mc_Clans := cache_Set (mc_Clans w) k a\<rparr>"

definition set_Channels :: "string \<Rightarrow> addr \<Rightarrow> 'x MezonClient \<Rightarrow> 'x MezonClient" where
  "set_Channels k a w = w\<lparr>mc_Channels := cache_Set (mc_Channels w) k a\<rparr>"

definition set_Users :: "string \<Rightarrow> addr \<Rightarrow> 'x MezonClient \<Rightarrow> 'x MezonClient" where
  "set_Users k a w = w\<lparr>mc_Users := cache_Set (mc_Users w) k a\<rparr>"

definition delete_Channels :: "string \<Rightarrow> 'x MezonClient \<Rightarrow> 'x MezonClient" where
  "delete_Channels k w = w\<lparr>mc_Channels := snd (cache_Delete (mc_Channels w) k)\<rparr>"

definition set_clan_channel :: "addr \<Rightarrow> string \<Rightarrow> addr \<Rightarrow> 'x MezonClient \<Rightarrow> 'x MezonClient" where
  "set_clan_channel cl k a = upd_clan cl (\<lambda>c. c\<lparr>cn_Channels := cache_Set (cn_Channels c) k a\<rparr>)"

definition delete_clan_channel :: "addr \<Rightarrow> string \<Rightarrow> 'x MezonClient \<Rightarrow> 'x MezonClient" where
  "delete_clan_channel cl k = upd_clan cl (\<lambda>c. c\<lparr>cn_Channels := snd (cache_Delete (cn_Channels c) k)\<rparr>)"

definition set_message :: "addr \<Rightarrow> string \<Rightarrow> addr \<Rightarrow> 'x MezonClient \<Rightarrow> 'x MezonClient" where
  "set_message ch k a = upd_channel ch (\<lambda>c. c\<lparr>tc_Messages := cache_Set (tc_Messages c) k a\<rparr>)"

section \<open>Constructors\<close>

definition newClan :: "string \<Rightarrow> string \<Rightarrow> string \<Rightarrow> string \<Rightarrow> string \<Rightarrow> 'x MezonClient \<Rightarrow> addr \<times> 'x MezonClient" where
  "newClan i name welcomeChannelID clanName sessionToken w = alloc_clan \<lparr>
     cn_ID = i,
     cn_Name = name,
     cn_WelcomeChannelID = welcomeChannelID,
     cn_ClanName = clanName,
     cn_Channels = NewCacheManager 0,
     cn_SessionToken = sessionToken,
     cn_ClientID = mc_ClientID w,
     cn_apiClient = mc_apiClient w,
     cn_socket = mc_socket w,
     cn_channelsLoaded = False\<rparr> w"

definition clan_updateFromDesc :: "string \<Rightarrow> string \<Rightarrow> string \<Rightarrow> Clan \<Rightarrow> Clan" where
  "clan_updateFromDesc name welcomeChannelID sessionToken c =
     (let c = (if name \<noteq> [] then c\<lparr>cn_Name := name, cn_ClanName := name\<rparr> else c);
          c = (if welcomeChannelID \<noteq> [] then c\<lparr>cn_WelcomeChannelID := welcomeChannelID\<rparr> else c)
      in c\<lparr>cn_SessionToken := sessionToken\<rparr>)"

definition channel_updateFromDesc :: "pb_ChannelDescription \<Rightarrow> TextChannel \<Rightarrow> TextChannel" where
  "channel_updateFromDesc d c = c\<lparr>
     tc_Name := cd_ChannelLabel d,
     tc_ChannelType := of_int32 (cd_Type d),
     tc_IsPrivate := cd_ChannelPrivate d \<noteq> 0,
     tc_CategoryID := itoaID (cd_CategoryId d),
     tc_CategoryName := cd_CategoryName d,
     tc_ParentID := itoaID (cd_ParentId d),
     tc_MeetingCode := cd_MeetingCode d\<rparr>"

definition newTextChannel :: "pb_ChannelDescription \<Rightarrow> addr option \<Rightarrow> addr option \<Rightarrow> 'x MezonClient \<Rightarrow> addr \<times> 'x MezonClient" where
  "newTextChannel d clan socket = alloc_channel (channel_updateFromDesc d \<lparr>
     tc_ID = itoaID (cd_ChannelId d), tc_Name = [], tc_IsPrivate = False, tc_ChannelType = 0, tc_CategoryID = [],
     tc_CategoryName = [], tc_ParentID = [], tc_MeetingCode = [], tc_Clan = clan, tc_Messages = NewCacheManager 200,
     tc_socket = socket\<rparr>)"

definition newMessageFromChannelMessage ::
  "ChannelMessage \<Rightarrow> addr option \<Rightarrow> addr option \<Rightarrow> 'x MezonClient \<Rightarrow> addr \<times> 'x MezonClient" where
  "newMessageFromChannelMessage cm channel socket = alloc_message \<lparr>
     ms_ID = chm_MessageID cm,
     ms_ClanID = chm_ClanID cm,
     ms_ChannelID = chm_ChannelID cm,
     ms_SenderID = chm_SenderID cm,
     ms_Content = chm_Content cm,
     ms_Mentions = chm_Mentions cm,
     ms_Attachments = chm_Attachments cm,
     ms_References = chm_References cm,
     ms_Reactions = chm_Reactions cm,
     ms_TopicID = chm_TopicID cm,
     ms_CreateTimeSeconds = chm_CreateTimeSeconds cm,
     ms_UpdateTimeSeconds = chm_UpdateTimeSeconds cm,
     ms_Code = of_int32 (chm_Code cm),
     ms_Username = chm_Username cm,
     ms_CreateTime = [],
     ms_UpdateTime = [],
     ms_Persistent = False,
     ms_Mode = of_int32 (chm_Mode cm),
     ms_Channel = channel,
     ms_socket = socket\<rparr>"

definition newChannelManager :: "addr option \<Rightarrow> addr option \<Rightarrow> 'x MezonClient \<Rightarrow> addr \<times> 'x MezonClient" where
  "newChannelManager apiClient socket w = (length (h_managers w),
     w\<lparr>h_managers := h_managers w @ [\<lparr>chn_apiClient = apiClient, chn_socket = socket, chn_dmByUser = [], chn_dmDescs = []\<rparr>]\<rparr>)"

end
