(* ===== verification/Shared_Cache.thy ===== *)
theory Shared_Cache
  imports Client_State
begin

text \<open>
  Loading channels and users (\<^verbatim>\<open>sharedcache.go\<close>) and the manager of direct-message channels
  (\<^verbatim>\<open>channelmanager.go\<close>): the caches of the client in front, then the store shared between processes, then
  the API. An object that is cached already is updated in place.
\<close>

section \<open>The shared store\<close>

definition defaultCacheTTL :: int64 where "defaultCacheTTL = 5 * 60 * 1000000000"
definition defaultMaxCache :: int where "defaultMaxCache = 5000"
definition l2ChannelPrefix :: string where "l2ChannelPrefix = ''mezon:ch:''"
definition l2UserPrefix :: string where "l2UserPrefix = ''mezon:user:''"

text \<open>A missing store and every error count as a miss.\<close>

definition l2Get :: "'x client_env \<Rightarrow> string \<Rightarrow> ('x MezonClient, bytes option) call" where
  "l2Get env key = (case ce_store env of
      None \<Rightarrow> ret None
    | Some store \<Rightarrow> and_then (attempt (outside (ss_Get store key)))
        (\<lambda>r. ret (case r of Inl _ \<Rightarrow> None | Inr v \<Rightarrow> v)))"

definition l2Set :: "'x client_env \<Rightarrow> string \<Rightarrow> bytes \<Rightarrow> 'x MezonClient \<Rightarrow> 'x MezonClient" where
  "l2Set env key value w = (case ce_store env of
      None \<Rightarrow> w
    | Some store \<Rightarrow> snd (outside (ss_Set store key value (mc_cacheTTL w)) w))"

definition l2Delete :: "'x client_env \<Rightarrow> string \<Rightarrow> 'x MezonClient \<Rightarrow> 'x MezonClient" where
  "l2Delete env key w = (case ce_store env of
      None \<Rightarrow> w
    | Some store \<Rightarrow> snd (outside (ss_Delete store key) w))"

section \<open>The manager of direct-message channels\<close>

definition dm_request :: "string \<Rightarrow> pb_CreateChannelDescRequest" where
  "dm_request userID = zero_CreateChannelDescRequest\<lparr>
     ccd_ClanId := 0,
     ccd_ChannelId := 0,
     ccd_CategoryId := 0,
     ccd_Type := to_int32 ChannelTypeDM,
     ccd_UserIds := [atoiID userID],
     ccd_ChannelPrivate := 1\<rparr>"

text \<open>The result of joining the chat of the new channel is ignored.\<close>

definition CreateDMChannel :: "'x client_env \<Rightarrow> addr \<Rightarrow> string \<Rightarrow> ('x MezonClient, pb_ChannelDescription) call" where
  "CreateDMChannel env m userID =
     (if \<not> IsValidUserID userID then fail ErrNotFound
      else gets mc_session (\<lambda>session. case session of
          None \<Rightarrow> fail ErrNotFound
        | Some session \<Rightarrow> gets (\<lambda>w. manager_at w m) (\<lambda>mgr.
            and_then (on_api (chn_apiClient mgr) (\<lambda>a. CreateChannelDesc (ce_api env) a (ses_Token session) (dm_request userID)))
              (\<lambda>ch. and_then (attempt (on_transmit env (chn_socket mgr)
                  (\<lambda>t. JoinChat t (itoaID (cd_ClanId ch)) (itoaID (cd_ChannelId ch)) (of_int32 (cd_Type ch)) False)))
                (\<lambda>_. ret ch)))))"

text \<open>A description that takes part in the discovery, and what it adds.\<close>

definition is_dm :: "pb_ChannelDescription \<Rightarrow> bool" where
  "is_dm ch \<longleftrightarrow> \<not> (cd_ChannelId ch = 0 \<or> cd_Type ch \<noteq> to_int32 ChannelTypeDM \<or> cd_UserIds ch = [])"

definition add_dm :: "pb_ChannelDescription \<Rightarrow> ChannelManager \<Rightarrow> ChannelManager" where
  "add_dm ch m = (if \<not> is_dm ch then m
     else m\<lparr>chn_dmDescs := chn_dmDescs m @ [ch],
            chn_dmByUser := AList.update (itoaID (hd (cd_UserIds ch))) (itoaID (cd_ChannelId ch)) (chn_dmByUser m)\<rparr>)"

definition InitAllDMChannels :: "'x client_env \<Rightarrow> addr \<Rightarrow> string \<Rightarrow> ('x MezonClient, unit) call" where
  "InitAllDMChannels env m sessionToken =
     (if sessionToken = [] then ret ()
      else gets (\<lambda>w. manager_at w m) (\<lambda>mgr.
        and_then (on_api (chn_apiClient mgr)
            (\<lambda>a. ListChannelDescs (ce_api env) a sessionToken (to_int32 ChannelTypeDM) [] 0 0 [] False))
          (\<lambda>channels. modify (upd_manager m (\<lambda>mgr.
            foldl (\<lambda>mgr ch. add_dm ch mgr) (mgr\<lparr>chn_dmByUser := [], chn_dmDescs := []\<rparr>) (cdl_Channeldesc channels))))))"

definition GetAllDMChannels :: "'x MezonClient \<Rightarrow> addr \<Rightarrow> (string \<times> string) list" where
  "GetAllDMChannels w m = chn_dmByUser (manager_at w m)"

definition GetAllDMChannelDescs :: "'x MezonClient \<Rightarrow> addr \<Rightarrow> pb_ChannelDescription list" where
  "GetAllDMChannelDescs w m = chn_dmDescs (manager_at w m)"

section \<open>Channels\<close>

definition upsertChannel :: "addr \<Rightarrow> pb_ChannelDescription \<Rightarrow> 'x MezonClient \<Rightarrow> addr \<times> 'x MezonClient" where
  "upsertChannel clan desc w =
     (let i = itoaID (cd_ChannelId desc);
          cached = (case cache_Get (cn_Channels (clan_at w clan)) i of
              Some a \<Rightarrow> Some a
            | None \<Rightarrow> cache_Get (mc_Channels w) i);
          (channel, w) = (case cached of
              Some a \<Rightarrow> (a, upd_channel a (channel_updateFromDesc desc) w)
            | None \<Rightarrow> newTextChannel desc (Some clan) (mc_socket w) w);
          w = set_clan_channel clan i channel w;
          w = set_Channels i channel w
      in (channel, w))"

definition buildChannel :: "pb_ChannelDescription \<Rightarrow> 'x MezonClient \<Rightarrow> addr \<times> 'x MezonClient" where
  "buildChannel detail w =
     (let clanID = itoaID (cd_ClanId detail);
          (clan, w) = (case cache_Get (mc_Clans w) clanID of
              Some a \<Rightarrow> (a, w)
            | None \<Rightarrow>
                (let token = (case mc_session w of Some s \<Rightarrow> ses_Token s | None \<Rightarrow> []);
                     (a, w) = newClan clanID ''unknown'' [] [] token w
                 in (a, set_Clans clanID a w)))
      in upsertChannel clan detail w)"

text \<open>Putting a description into the store, unless it cannot be marshalled.\<close>

definition store_channel :: "'x client_env \<Rightarrow> string \<Rightarrow> pb_ChannelDescription \<Rightarrow> 'x MezonClient \<Rightarrow> 'x MezonClient" where
  "store_channel env i detail w =
     (case ce_marshal_desc env detail of Inr b \<Rightarrow> l2Set env (l2ChannelPrefix @ i) b w | Inl _ \<Rightarrow> w)"

definition stored_channel :: "'x client_env \<Rightarrow> bytes option \<Rightarrow> pb_ChannelDescription option" where
  "stored_channel env hit = (case hit of
      None \<Rightarrow> None
    | Some b \<Rightarrow> (case ac_u_ChannelDescription (ce_api env) b of Inl _ \<Rightarrow> None | Inr detail \<Rightarrow> Some detail))"

definition build_call :: "pb_ChannelDescription \<Rightarrow> ('x MezonClient, addr) call" where
  "build_call detail w = (case buildChannel detail w of (a, w) \<Rightarrow> (Inr a, w))"

text \<open>The second half of \<^verbatim>\<open>fetchChannel\<close>, over the API; the detail is never nil.\<close>

definition fetch_detail :: "'x client_env \<Rightarrow> string \<Rightarrow> string \<Rightarrow> ('x MezonClient, addr) call" where
  "fetch_detail env token i = gets mc_apiClient (\<lambda>api.
     and_then (on_api api (\<lambda>a. ListChannelDetail (ce_api env) a token i)) (\<lambda>detail.
       if cd_ChannelId detail = 0 then fail (ErrNew (''invalid channel detail response for '' @ i))
       else and_then (modify (store_channel env i detail)) (\<lambda>_. build_call detail)))"

definition fetchChannel :: "'x client_env \<Rightarrow> string \<Rightarrow> ('x MezonClient, addr) call" where
  "fetchChannel env i = gets mc_session (\<lambda>session. case session of
      None \<Rightarrow> fail ErrNotFound
    | Some session \<Rightarrow> and_then (l2Get env (l2ChannelPrefix @ i)) (\<lambda>hit.
        case stored_channel env hit of
          Some detail \<Rightarrow> build_call detail
        | None \<Rightarrow> fetch_detail env (ses_Token session) i))"

definition cacheDmChannel :: "pb_ChannelDescription \<Rightarrow> 'x MezonClient \<Rightarrow> addr option \<times> 'x MezonClient" where
  "cacheDmChannel desc w =
     (if cd_ChannelId desc = 0 then (None, w)
      else case buildChannel desc w of (a, w) \<Rightarrow> (Some a, w))"

definition initDmChannelCache :: "'x MezonClient \<Rightarrow> 'x MezonClient" where
  "initDmChannelCache w = (case mc_channelManager w of
      None \<Rightarrow> w
    | Some m \<Rightarrow> for_each (\<lambda>desc w. snd (cacheDmChannel desc w)) (GetAllDMChannelDescs w m) w)"

text \<open>\<^verbatim>\<open>Channels.Fetch\<close> of the client and of a clan.\<close>

definition Channels_Fetch :: "'x client_env \<Rightarrow> string \<Rightarrow> ('x MezonClient, addr) call" where
  "Channels_Fetch env = cache_Fetch mc_Channels (\<lambda>c. mc_Channels_update (\<lambda>_. c)) (Some (fetchChannel env))"

definition Clan_Channels_Fetch :: "'x client_env \<Rightarrow> addr \<Rightarrow> string \<Rightarrow> ('x MezonClient, addr) call" where
  "Clan_Channels_Fetch env cl = cache_Fetch (\<lambda>w. cn_Channels (clan_at w cl))
     (\<lambda>c. upd_clan cl (cn_Channels_update (\<lambda>_. c))) (Some (Channels_Fetch env))"

section \<open>Users\<close>

record userDTO =
  dto_ID :: string
  dto_DmChannelID :: string

text \<open>\<^verbatim>\<open>json.Marshal\<close> of the struct and \<^verbatim>\<open>json.Unmarshal\<close> into it, where a value that is not a string is an
  error, reported after the rest was decoded.\<close>

definition marshal_userDTO :: "userDTO \<Rightarrow> bytes" where
  "marshal_userDTO d = bytes_of_string (json_encode True
     (JObject [(''id'', JString (dto_ID d)), (''dm_channel_id'', JString (dto_DmChannelID d))]))"

definition set_userDTO :: "string \<Rightarrow> json \<Rightarrow> userDTO \<Rightarrow> userDTO option" where
  "set_userDTO k v d =
     (if key_matches ''id'' k
      then (case v of JString s \<Rightarrow> Some (d\<lparr>dto_ID := s\<rparr>) | JNull \<Rightarrow> Some d | _ \<Rightarrow> None)
      else if key_matches ''dm_channel_id'' k
      then (case v of JString s \<Rightarrow> Some (d\<lparr>dto_DmChannelID := s\<rparr>) | JNull \<Rightarrow> Some d | _ \<Rightarrow> None)
      else Some d)"

fun set_userDTOs :: "(string \<times> json) list \<Rightarrow> userDTO \<Rightarrow> userDTO option" where
  "set_userDTOs [] d = Some d"
| "set_userDTOs ((k, v) # kvs) d = (case set_userDTO k v d of Some d' \<Rightarrow> set_userDTOs kvs d' | None \<Rightarrow> None)"

definition unmarshal_userDTO :: "bytes \<Rightarrow> userDTO option" where
  "unmarshal_userDTO b = (case json_parse (string_of_bytes b) of
      Some (JObject kvs) \<Rightarrow> set_userDTOs kvs \<lparr>dto_ID = [], dto_DmChannelID = []\<rparr>
    | Some JNull \<Rightarrow> Some \<lparr>dto_ID = [], dto_DmChannelID = []\<rparr>
    | _ \<Rightarrow> None)"

definition buildUser :: "userDTO \<Rightarrow> 'x MezonClient \<Rightarrow> addr \<times> 'x MezonClient" where
  "buildUser dto w = alloc_user \<lparr>
     us_ID = dto_ID dto,
     us_Username = [], us_ClanNick = [], us_ClanAvatar = [], us_DisplayName = [], us_Avatar = [],
     us_DmChannelID = dto_DmChannelID dto,
     us_socket = mc_socket w,
     us_channelManager = mc_channelManager w\<rparr> w"

definition cache_user :: "string \<Rightarrow> userDTO \<Rightarrow> ('x MezonClient, addr) call" where
  "cache_user i dto w = (case buildUser dto w of (u, w) \<Rightarrow> (Inr u, set_Users i u w))"

definition stored_user :: "bytes option \<Rightarrow> userDTO option" where
  "stored_user hit = (case hit of
      None \<Rightarrow> None
    | Some b \<Rightarrow> (case unmarshal_userDTO b of
        Some dto \<Rightarrow> if dto_DmChannelID dto \<noteq> [] then Some dto else None
      | None \<Rightarrow> None))"

definition fetchUser :: "'x client_env \<Rightarrow> string \<Rightarrow> ('x MezonClient, addr) call" where
  "fetchUser env i = gets mc_session (\<lambda>session. case session of
      None \<Rightarrow> fail ErrNotFound
    | Some _ \<Rightarrow> and_then (l2Get env (l2UserPrefix @ i)) (\<lambda>hit.
        case stored_user hit of
          Some dto \<Rightarrow> cache_user i dto
        | None \<Rightarrow> gets mc_channelManager (\<lambda>m.
            and_then (attempt (deref m (\<lambda>m. CreateDMChannel env m i))) (\<lambda>r. case r of
              Inl _ \<Rightarrow> fail ErrNotFound
            | Inr dm \<Rightarrow>
                (let dto = \<lparr>dto_ID = i, dto_DmChannelID = itoaID (cd_ChannelId dm)\<rparr>
                 in (\<lambda>w. cache_user i dto (l2Set env (l2UserPrefix @ i) (marshal_userDTO dto) w)))))))"

definition Users_Fetch :: "'x client_env \<Rightarrow> string \<Rightarrow> ('x MezonClient, addr) call" where
  "Users_Fetch env = cache_Fetch mc_Users (\<lambda>c. mc_Users_update (\<lambda>_. c)) (Some (fetchUser env))"

end
