(* ===== verification/Structures.thy ===== *)
theory Structures
  imports Shared_Cache
begin

text \<open>
  The operations of the objects a bot works with: clans (\<^verbatim>\<open>clan.go\<close>), text channels (\<^verbatim>\<open>channel.go\<close>), messages
  (\<^verbatim>\<open>message.go\<close>) and users (\<^verbatim>\<open>user.go\<close>). An operation that the source enqueues is the closure the queue runs
  (theory \<open>Queue\<close>), applied to what the source computed before.
\<close>

section \<open>Clans\<close>

definition reloadChannelsLocked :: "'x client_env \<Rightarrow> addr \<Rightarrow> ('x MezonClient, unit) call" where
  "reloadChannelsLocked env cl = gets (\<lambda>w. clan_at w cl) (\<lambda>c.
     and_then (on_api (cn_apiClient c)
         (\<lambda>a. ListChannelDescs (ce_api env) a (cn_SessionToken c) (to_int32 ChannelTypeChannel) (cn_ID c) 0 0 [] False))
       (\<lambda>channels. modify (\<lambda>w. upd_clan cl (\<lambda>c. c\<lparr>cn_channelsLoaded := True\<rparr>)
          (for_each (\<lambda>ch w. if cd_ChannelId ch = 0 then w else snd (upsertChannel cl ch w)) (cdl_Channeldesc channels) w))))"

definition LoadChannels :: "'x client_env \<Rightarrow> addr \<Rightarrow> ('x MezonClient, unit) call" where
  "LoadChannels env cl = gets (\<lambda>w. cn_channelsLoaded (clan_at w cl)) (\<lambda>loaded.
     if loaded then ret () else reloadChannelsLocked env cl)"

definition ReloadChannels :: "'x client_env \<Rightarrow> addr \<Rightarrow> ('x MezonClient, unit) call" where
  "ReloadChannels env cl = reloadChannelsLocked env cl"

record CreateChannelData =
  ccr_Label :: string
  ccr_Type :: int64
  ccr_Private :: bool
  ccr_CategoryID :: string
  ccr_UserIDs :: "string list"
  ccr_ParentID :: string

definition create_request :: "Clan \<Rightarrow> CreateChannelData \<Rightarrow> pb_CreateChannelDescRequest" where
  "create_request c d = zero_CreateChannelDescRequest\<lparr>
     ccd_ClanId := atoiID (cn_ID c),
     ccd_ParentId := atoiID (ccr_ParentID d),
     ccd_CategoryId := atoiID (ccr_CategoryID d),
     ccd_Type := to_int32 (if ccr_Type d = 0 then ChannelTypeChannel else ccr_Type d),
     ccd_ChannelLabel := ccr_Label d,
     ccd_ChannelPrivate := (if ccr_Private d then 1 else 0),
     ccd_UserIds := map atoiID (ccr_UserIDs d)\<rparr>"

definition CreateChannel :: "'x client_env \<Rightarrow> addr \<Rightarrow> CreateChannelData \<Rightarrow> ('x MezonClient, pb_ChannelDescription) call" where
  "CreateChannel env cl d =
     (if ccr_Label d = [] then fail (ErrNew ''mezon: channel label is required'')
      else gets (\<lambda>w. clan_at w cl) (\<lambda>c.
        and_then (on_api (cn_apiClient c) (\<lambda>a. CreateChannelDesc (ce_api env) a (cn_SessionToken c) (create_request c d)))
          (\<lambda>ch w. case newTextChannel ch (Some cl) (cn_socket c) w of
             (channel, w) \<Rightarrow>
               (let i = tc_ID (channel_at w channel)
                in (Inr ch, set_Channels i channel (set_clan_channel cl i channel w))))))"

definition DeleteChannel :: "'x client_env \<Rightarrow> addr \<Rightarrow> string \<Rightarrow> ('x MezonClient, unit) call" where
  "DeleteChannel env cl channelID = gets (\<lambda>w. clan_at w cl) (\<lambda>c.
     and_then (on_api (cn_apiClient c) (\<lambda>a. DeleteChannelDesc (ce_api env) a (cn_SessionToken c) (cn_ID c) channelID))
       (\<lambda>_. modify (\<lambda>w. delete_Channels channelID (delete_clan_channel cl channelID w))))"

text \<open>A request in the name of the clan.\<close>

definition clan_request :: "addr \<Rightarrow> (Clan \<Rightarrow> 'x MezonApi \<Rightarrow> ('x, 'a) call) \<Rightarrow> ('x MezonClient, 'a) call" where
  "clan_request cl f = gets (\<lambda>w. clan_at w cl) (\<lambda>c. on_api (cn_apiClient c) (f c))"

definition clan_ListRoles :: "'x client_env \<Rightarrow> addr \<Rightarrow> int32 \<Rightarrow> int32 \<Rightarrow> string \<Rightarrow> ('x MezonClient, pb_RoleListEventResponse) call" where
  "clan_ListRoles env cl limit state cursor = clan_request cl (\<lambda>c a. ListRoles (ce_api env) a (cn_SessionToken c) (cn_ID c) limit state cursor)"

definition clan_UpdateRole :: "'x client_env \<Rightarrow> addr \<Rightarrow> pb_UpdateRoleRequest \<Rightarrow> ('x MezonClient, unit) call" where
  "clan_UpdateRole env cl req = clan_request cl (\<lambda>c a. UpdateRole (ce_api env) a (cn_SessionToken c) req)"

definition clan_CreateRole :: "'x client_env \<Rightarrow> addr \<Rightarrow> pb_CreateRoleRequest \<Rightarrow> ('x MezonClient, pb_Role) call" where
  "clan_CreateRole env cl req = clan_request cl (\<lambda>c a.
     CreateRole (ce_api env) a (cn_SessionToken c) (if crr_ClanId req = 0 then req\<lparr>crr_ClanId := atoiID (cn_ID c)\<rparr> else req))"

definition clan_DeleteRole :: "'x client_env \<Rightarrow> addr \<Rightarrow> string \<Rightarrow> ('x MezonClient, unit) call" where
  "clan_DeleteRole env cl roleID = clan_request cl (\<lambda>c a. DeleteRole (ce_api env) a (cn_SessionToken c) roleID (cn_ID c))"

definition clan_UpdateChannelPrivate ::
  "'x client_env \<Rightarrow> addr \<Rightarrow> string \<Rightarrow> bool \<Rightarrow> string list \<Rightarrow> string list \<Rightarrow> ('x MezonClient, unit) call" where
  "clan_UpdateChannelPrivate env cl channelID private roleIDs userIDs = clan_request cl (\<lambda>c a.
     UpdateChannelPrivate (ce_api env) a (cn_SessionToken c) (zero_ChangeChannelPrivateRequest\<lparr>
       ccp_ClanId := atoiID (cn_ID c),
       ccp_ChannelId := atoiID channelID,
       ccp_ChannelPrivate := (if private then 1 else 0),
       ccp_RoleIds := map atoiID roleIDs,
       ccp_UserIds := map atoiID userIDs\<rparr>))"

definition clan_AddRolesToChannel :: "'x client_env \<Rightarrow> addr \<Rightarrow> string \<Rightarrow> string list \<Rightarrow> ('x MezonClient, unit) call" where
  "clan_AddRolesToChannel env cl channelID roleIDs = clan_request cl (\<lambda>c a.
     AddRolesChannelDesc (ce_api env) a (cn_SessionToken c)
       (zero_AddRoleChannelDescRequest\<lparr>arc_ChannelId := atoiID channelID, arc_RoleIds := map atoiID roleIDs\<rparr>))"

definition clan_SetRoleChannelPermission :: "'x client_env \<Rightarrow> addr \<Rightarrow> pb_UpdateRoleChannelRequest \<Rightarrow> ('x MezonClient, unit) call" where
  "clan_SetRoleChannelPermission env cl req = clan_request cl (\<lambda>c a. SetRoleChannelPermission (ce_api env) a (cn_SessionToken c) req)"

definition clan_ListPermissions :: "'x client_env \<Rightarrow> addr \<Rightarrow> ('x MezonClient, pb_PermissionList) call" where
  "clan_ListPermissions env cl = clan_request cl (\<lambda>c a. GetListPermission (ce_api env) a (cn_SessionToken c))"

definition clan_ListChannelVoiceUsers :: "'x client_env \<Rightarrow> addr \<Rightarrow> int32 \<Rightarrow> ('x MezonClient, pb_VoiceChannelUserList) call" where
  "clan_ListChannelVoiceUsers env cl limit =
     (if sint limit \<le> 0 \<or> sint limit > 500 then fail (ErrNew ''0 < limit <= 500'')
      else clan_request cl (\<lambda>c a. ListChannelVoiceUsers (ce_api env) a (cn_SessionToken c) (cn_ID c) limit))"

section \<open>Text channels\<close>

definition loadMessageFromStore :: "'x client_env \<Rightarrow> addr \<Rightarrow> string \<Rightarrow> ('x MezonClient, addr) call" where
  "loadMessageFromStore env ch messageID = gets (\<lambda>w. channel_at w ch) (\<lambda>c.
     case (tc_Clan c, ce_messageDB env) of
       (Some cl, Some db) \<Rightarrow> gets (\<lambda>w. cn_ID (clan_at w cl)) (\<lambda>clanID.
         and_then (attempt (outside (mst_GetMessageByID db messageID (tc_ID c) clanID))) (\<lambda>r. case r of
             Inr (Some cm) \<Rightarrow> (\<lambda>w. case newMessageFromChannelMessage cm (Some ch) (tc_socket c) w of (m, w) \<Rightarrow> (Inr m, w))
           | _ \<Rightarrow> fail ErrNotFound))
     | _ \<Rightarrow> fail ErrNotFound)"

definition Messages_Fetch :: "'x client_env \<Rightarrow> addr \<Rightarrow> string \<Rightarrow> ('x MezonClient, addr) call" where
  "Messages_Fetch env ch = cache_Fetch (\<lambda>w. tc_Messages (channel_at w ch))
     (\<lambda>c. upd_channel ch (tc_Messages_update (\<lambda>_. c))) (Some (loadMessageFromStore env ch))"

record SendOptions =
  so_Mentions :: "Mention slice"
  so_Attachments :: "Attachment slice"
  so_References :: "MessageRef slice"
  so_MentionEveryone :: bool
  so_Anonymous :: bool
  so_TopicID :: string
  so_Code :: int64

definition zero_SendOptions :: SendOptions where
  "zero_SendOptions = \<lparr>so_Mentions = None, so_Attachments = None, so_References = None, so_MentionEveryone = False,
     so_Anonymous = False, so_TopicID = [], so_Code = 0\<rparr>"

definition options :: "SendOptions option \<Rightarrow> SendOptions" where
  "options opts = (case opts of None \<Rightarrow> zero_SendOptions | Some o' \<Rightarrow> o')"

definition clan_id :: "'x MezonClient \<Rightarrow> TextChannel \<Rightarrow> string" where
  "clan_id w c = (case tc_Clan c of Some cl \<Rightarrow> cn_ID (clan_at w cl) | None \<Rightarrow> [])"

definition send_data :: "'x MezonClient \<Rightarrow> TextChannel \<Rightarrow> content \<Rightarrow> SendOptions \<Rightarrow> ReplyMessageData" where
  "send_data w c content opts = \<lparr>
     rmd_ClanID = clan_id w c,
     rmd_ChannelID = tc_ID c,
     rmd_ChannelType = tc_ChannelType c,
     rmd_Mode = ConvertChannelTypeToChannelMode (tc_ChannelType c),
     rmd_IsPublic = (\<not> tc_IsPrivate c),
     rmd_Content = content,
     rmd_Mentions = so_Mentions opts,
     rmd_Attachments = so_Attachments opts,
     rmd_References = so_References opts,
     rmd_AnonymousMessage = so_Anonymous opts,
     rmd_MentionEveryone = so_MentionEveryone opts,
     rmd_Avatar = [],
     rmd_Code = so_Code opts,
     rmd_TopicID = so_TopicID opts\<rparr>"

definition message_of_ack :: "'x MezonClient \<Rightarrow> addr \<Rightarrow> pb_ChannelMessageAck option \<Rightarrow> ReplyMessageData \<Rightarrow> Message" where
  "message_of_ack w ch ack data =
     (let c = channel_at w ch;
          channelID = (case ack of
              Some a \<Rightarrow> if ack_ChannelId a \<noteq> 0 then itoaID (ack_ChannelId a) else rmd_ChannelID data
            | None \<Rightarrow> rmd_ChannelID data);
          senderID = (case tc_Clan c of Some cl \<Rightarrow> cn_ClientID (clan_at w cl) | None \<Rightarrow> []);
          msg = \<lparr>ms_ID = [], ms_ClanID = rmd_ClanID data, ms_ChannelID = channelID, ms_SenderID = senderID, ms_Content = [],
             ms_Mentions = rmd_Mentions data, ms_Attachments = rmd_Attachments data, ms_References = rmd_References data,
             ms_Reactions = None, ms_TopicID = rmd_TopicID data, ms_CreateTimeSeconds = 0, ms_UpdateTimeSeconds = 0,
             ms_Code = 0, ms_Username = [], ms_CreateTime = [], ms_UpdateTime = [], ms_Persistent = False,
             ms_Mode = rmd_Mode data, ms_Channel = Some ch, ms_socket = tc_socket c\<rparr>;
          msg = (case ack of
              None \<Rightarrow> msg
            | Some a \<Rightarrow>
                (let msg = (if ack_MessageId a \<noteq> 0 then msg\<lparr>ms_ID := itoaID (ack_MessageId a)\<rparr> else msg);
                     msg = msg\<lparr>ms_CreateTimeSeconds := ack_CreateTimeSeconds a, ms_UpdateTimeSeconds := ack_UpdateTimeSeconds a,
                        ms_Code := of_int32 (ack_Code a), ms_Username := ack_Username a\<rparr>
                 in case ack_Persistent a of Some v \<Rightarrow> msg\<lparr>ms_Persistent := v\<rparr> | None \<Rightarrow> msg))
      in case marshalContent (rmd_Content data) of Inr raw \<Rightarrow> msg\<lparr>ms_Content := raw\<rparr> | Inl _ \<Rightarrow> msg)"

definition createMessageFromAck ::
  "addr \<Rightarrow> pb_ChannelMessageAck option \<Rightarrow> ReplyMessageData \<Rightarrow> 'x MezonClient \<Rightarrow> addr \<times> 'x MezonClient" where
  "createMessageFromAck ch ack data w =
     (let msg = message_of_ack w ch ack data;
          (m, w) = alloc_message msg w
      in (m, if ms_ID msg \<noteq> [] then set_message ch (ms_ID msg) m w else w))"

text \<open>What the queue runs for \<^verbatim>\<open>Send\<close>, with the data computed when it was called.\<close>

definition send_job :: "'x client_env \<Rightarrow> addr \<Rightarrow> ReplyMessageData \<Rightarrow> ('x MezonClient, addr) call" where
  "send_job env ch data = gets (\<lambda>w. channel_at w ch) (\<lambda>c.
     and_then (on_transmit env (tc_socket c) (\<lambda>t. WriteChatMessage t data))
       (\<lambda>ack w. case createMessageFromAck ch ack data w of (m, w) \<Rightarrow> (Inr m, w)))"

definition Send :: "'x client_env \<Rightarrow> addr \<Rightarrow> content \<Rightarrow> SendOptions option \<Rightarrow> ('x MezonClient, addr) call" where
  "Send env ch content opts = gets (\<lambda>w. send_data w (channel_at w ch) content (options opts)) (send_job env ch)"

definition ephemeral_data :: "'x MezonClient \<Rightarrow> TextChannel \<Rightarrow> string list \<Rightarrow> content \<Rightarrow> SendOptions \<Rightarrow> EphemeralMessageData" where
  "ephemeral_data w c receiverIDs content opts = \<lparr>
     emd_ReceiverIDs = receiverIDs,
     emd_ClanID = clan_id w c,
     emd_ChannelID = tc_ID c,
     emd_ChannelType = tc_ChannelType c,
     emd_Mode = ConvertChannelTypeToChannelMode (tc_ChannelType c),
     emd_IsPublic = (\<not> tc_IsPrivate c),
     emd_Content = content,
     emd_Mentions = so_Mentions opts,
     emd_Attachments = so_Attachments opts,
     emd_References = so_References opts,
     emd_AnonymousMessage = so_Anonymous opts,
     emd_MentionEveryone = so_MentionEveryone opts,
     emd_Avatar = [],
     emd_Code = TypeMessageEphemeral,
     emd_TopicID = (if so_TopicID opts = [] then ''0'' else so_TopicID opts),
     emd_MessageID = []\<rparr>"

definition SendEphemeral ::
  "'x client_env \<Rightarrow> addr \<Rightarrow> string list \<Rightarrow> content \<Rightarrow> SendOptions option \<Rightarrow> ('x MezonClient, pb_ChannelMessage option) call" where
  "SendEphemeral env ch receiverIDs content opts =
     gets (\<lambda>w. (channel_at w ch, ephemeral_data w (channel_at w ch) receiverIDs content (options opts))) (\<lambda>(c, data).
       on_transmit env (tc_socket c) (\<lambda>t. WriteEphemeralMessage t data))"

section \<open>Messages\<close>

definition firstNonEmpty :: "string list \<Rightarrow> string" where
  "firstNonEmpty vals = (case dropWhile (\<lambda>v. v = []) vals of v # _ \<Rightarrow> v | [] \<Rightarrow> [])"

text \<open>The channel of a message and its clan.\<close>

definition in_channel :: "Message \<Rightarrow> (addr \<Rightarrow> TextChannel \<Rightarrow> Clan \<Rightarrow> ('x MezonClient, 'a) call) \<Rightarrow> ('x MezonClient, 'a) call" where
  "in_channel m f = deref (ms_Channel m) (\<lambda>ch. gets (\<lambda>w. channel_at w ch) (\<lambda>c.
     deref (tc_Clan c) (\<lambda>cl. gets (\<lambda>w. clan_at w cl) (\<lambda>clan. f ch c clan))))"

definition message_mode :: "TextChannel \<Rightarrow> int64" where
  "message_mode c = ConvertChannelTypeToChannelMode (tc_ChannelType c)"

definition reply_ref :: "Message \<Rightarrow> User option \<Rightarrow> MessageRef" where
  "reply_ref m user = zero_go_MessageRef\<lparr>
     ref_MessageRefID := ms_ID m,
     ref_MessageSenderID := ms_SenderID m,
     ref_MessageSenderUsername := (case user of Some u \<Rightarrow> firstNonEmpty [us_ClanNick u, us_DisplayName u, us_Username u] | None \<Rightarrow> []),
     ref_MessageSenderAvatar := (case user of Some u \<Rightarrow> firstNonEmpty [us_ClanAvatar u, us_Avatar u] | None \<Rightarrow> []),
     ref_Content := ms_Content m\<rparr>"

definition reply_data :: "Message \<Rightarrow> TextChannel \<Rightarrow> Clan \<Rightarrow> User option \<Rightarrow> content \<Rightarrow> SendOptions \<Rightarrow> ReplyMessageData" where
  "reply_data m c clan user content opts = \<lparr>
     rmd_ClanID = cn_ID clan,
     rmd_ChannelID = tc_ID c,
     rmd_ChannelType = tc_ChannelType c,
     rmd_Mode = message_mode c,
     rmd_IsPublic = (\<not> tc_IsPrivate c),
     rmd_Content = content,
     rmd_Mentions = so_Mentions opts,
     rmd_Attachments = so_Attachments opts,
     rmd_References = Some [reply_ref m user],
     rmd_AnonymousMessage = so_Anonymous opts,
     rmd_MentionEveryone = so_MentionEveryone opts,
     rmd_Avatar = [],
     rmd_Code = so_Code opts,
     rmd_TopicID = (if so_TopicID opts = [] then ms_TopicID m else so_TopicID opts)\<rparr>"

definition Reply :: "'x client_env \<Rightarrow> addr \<Rightarrow> content \<Rightarrow> SendOptions option \<Rightarrow> ('x MezonClient, addr) call" where
  "Reply env m content opts = gets (\<lambda>w. message_at w m) (\<lambda>msg.
     in_channel msg (\<lambda>_ _ _.
       and_then (attempt (Users_Fetch env (ms_SenderID msg))) (\<lambda>r.
         gets (\<lambda>w. case r of Inr u \<Rightarrow> Some (user_at w u) | Inl _ \<Rightarrow> None) (\<lambda>user.
           in_channel msg (\<lambda>ch c clan.
             let data = reply_data msg c clan user content (options opts)
             in and_then (on_transmit env (ms_socket msg) (\<lambda>t. WriteChatMessage t data))
                  (\<lambda>ack w. case createMessageFromAck ch ack data w of (m', w) \<Rightarrow> (Inr m', w)))))))"

definition update_data :: "Message \<Rightarrow> TextChannel \<Rightarrow> Clan \<Rightarrow> content \<Rightarrow> Mention slice \<Rightarrow> Attachment slice \<Rightarrow> UpdateMessageData" where
  "update_data m c clan content mentions attachments = \<lparr>
     umd_ClanID = cn_ID clan,
     umd_ChannelID = tc_ID c,
     umd_ChannelType = tc_ChannelType c,
     umd_Mode = message_mode c,
     umd_IsPublic = (\<not> tc_IsPrivate c),
     umd_MessageID = ms_ID m,
     umd_Content = content,
     umd_Mentions = mentions,
     umd_Attachments = attachments,
     umd_CreateTimeSeconds = ms_CreateTimeSeconds m,
     umd_HideEditted = False,
     umd_TopicID = (if ms_TopicID m = [] then ''0'' else ms_TopicID m),
     umd_IsUpdateMsgTopic = (ms_TopicID m \<noteq> [])\<rparr>"

definition edited :: "content \<Rightarrow> Mention slice \<Rightarrow> Attachment slice \<Rightarrow> Message \<Rightarrow> Message" where
  "edited content mentions attachments m =
     (let m = (case marshalContent content of Inr raw \<Rightarrow> m\<lparr>ms_Content := raw\<rparr> | Inl _ \<Rightarrow> m);
          m = (if mentions \<noteq> None then m\<lparr>ms_Mentions := mentions\<rparr> else m)
      in if attachments \<noteq> None then m\<lparr>ms_Attachments := attachments\<rparr> else m)"

definition Update :: "'x client_env \<Rightarrow> addr \<Rightarrow> content \<Rightarrow> Mention slice \<Rightarrow> Attachment slice \<Rightarrow> ('x MezonClient, addr) call" where
  "Update env m content mentions attachments = gets (\<lambda>w. message_at w m) (\<lambda>msg.
     in_channel msg (\<lambda>ch c clan.
       and_then (on_request env (ms_socket msg)
           (\<lambda>req. UpdateChannelMessage (ce_update env) req (update_data msg c clan content mentions attachments)))
         (\<lambda>_ w. (Inr m, set_message ch (ms_ID msg) m (upd_message m (edited content mentions attachments) w)))))"

definition react_data :: "Message \<Rightarrow> TextChannel \<Rightarrow> Clan \<Rightarrow> ReactPayload \<Rightarrow> ReactMessageData" where
  "react_data m c clan p = \<lparr>
     rad_ID = (if rp_ID p = [] then ''0'' else rp_ID p),
     rad_ClanID = cn_ID clan,
     rad_ChannelID = tc_ID c,
     rad_ChannelType = tc_ChannelType c,
     rad_Mode = message_mode c,
     rad_IsPublic = (\<not> tc_IsPrivate c),
     rad_MessageID = ms_ID m,
     rad_EmojiID = (if rp_EmojiID p = [] then ''0'' else rp_EmojiID p),
     rad_Emoji = rp_Emoji p,
     rad_Count = rp_Count p,
     rad_MessageSenderID = ms_SenderID m,
     rad_ActionDelete = rp_ActionDelete p\<rparr>"

definition React :: "'x client_env \<Rightarrow> addr \<Rightarrow> ReactPayload \<Rightarrow> ('x MezonClient, pb_MessageReaction option) call" where
  "React env m p = gets (\<lambda>w. message_at w m) (\<lambda>msg.
     in_channel msg (\<lambda>ch c clan. on_transmit env (ms_socket msg) (\<lambda>t. WriteMessageReaction t (react_data msg c clan p))))"

definition remove_data :: "Message \<Rightarrow> TextChannel \<Rightarrow> Clan \<Rightarrow> RemoveMessageData" where
  "remove_data m c clan = \<lparr>
     rvd_ClanID = cn_ID clan,
     rvd_ChannelID = tc_ID c,
     rvd_ChannelType = tc_ChannelType c,
     rvd_Mode = message_mode c,
     rvd_IsPublic = (\<not> tc_IsPrivate c),
     rvd_MessageID = ms_ID m,
     rvd_TopicID = (if ms_TopicID m = [] then ''0'' else ms_TopicID m),
     rvd_HasAttachment = False\<rparr>"

definition Delete :: "'x client_env \<Rightarrow> addr \<Rightarrow> ('x MezonClient, pb_ChannelMessageAck) call" where
  "Delete env m = gets (\<lambda>w. message_at w m) (\<lambda>msg.
     in_channel msg (\<lambda>ch c clan. on_request env (ms_socket msg)
       (\<lambda>req. DeleteChannelMessage (ce_remove env) req (remove_data msg c clan))))"

section \<open>Users\<close>

text \<open>The channel of the user, created when it is not known yet.\<close>

definition ensure_dm :: "'x client_env \<Rightarrow> addr \<Rightarrow> ('x MezonClient, unit) call" where
  "ensure_dm env u = gets (\<lambda>w. user_at w u) (\<lambda>user.
     if us_DmChannelID user \<noteq> [] then ret ()
     else and_then (attempt (deref (us_channelManager user) (\<lambda>m. CreateDMChannel env m (us_ID user)))) (\<lambda>r. case r of
         Inl _ \<Rightarrow> ret ()
       | Inr ch \<Rightarrow> modify (\<lambda>w. snd (cacheDmChannel ch
           (upd_user u (\<lambda>user. user\<lparr>us_DmChannelID := itoaID (cd_ChannelId ch)\<rparr>) w)))))"

definition dm_data :: "User \<Rightarrow> content \<Rightarrow> int64 \<Rightarrow> Attachment slice \<Rightarrow> ReplyMessageData" where
  "dm_data user content code attachments = \<lparr>
     rmd_ClanID = ''0'',
     rmd_ChannelID = us_DmChannelID user,
     rmd_ChannelType = ChannelTypeDM,
     rmd_Mode = StreamModeDM,
     rmd_IsPublic = False,
     rmd_Content = content,
     rmd_Mentions = None,
     rmd_Attachments = attachments,
     rmd_References = None,
     rmd_AnonymousMessage = False,
     rmd_MentionEveryone = False,
     rmd_Avatar = [],
     rmd_Code = code,
     rmd_TopicID = []\<rparr>"

definition SendDM :: "'x client_env \<Rightarrow> addr \<Rightarrow> content \<Rightarrow> int64 \<Rightarrow> Attachment slice \<Rightarrow> ('x MezonClient, addr) call" where
  "SendDM env u content code attachments = and_then (ensure_dm env u) (\<lambda>_. gets (\<lambda>w. user_at w u) (\<lambda>user.
     if us_DmChannelID user = [] then fail (ErrNew (''can not get dmChannelId for user '' @ us_ID user))
     else (let data = dm_data user content code attachments
           in and_then (on_transmit env (us_socket user) (\<lambda>t. WriteChatMessage t data)) (\<lambda>ack.
                deref (us_channelManager user) (\<lambda>_.
                  and_then (Channels_Fetch env (us_DmChannelID user)) (\<lambda>channel w.
                    case createMessageFromAck channel ack data w of (m, w) \<Rightarrow> (Inr m, w)))))))"

end
