(* ===== verification/Client.thy ===== *)
theory Client
  imports Structures
begin

text \<open>
  The client (\<^verbatim>\<open>client.go\<close>, \<^verbatim>\<open>client_internal.go\<close>): construction from a configuration, the handlers that keep
  the caches up to date, login, joining the clans with its retry rounds, and one attempt of the
  reconnection loop whose control is in theory \<open>Reconnect\<close>. Pauses are left out: nothing depends on them
  but the pace.
\<close>

section \<open>Construction\<close>

definition DefaultHost :: string where "DefaultHost = ''gw.mezon.ai''"
definition DefaultPort :: string where "DefaultPort = ''443''"
definition DefaultUseSSL :: bool where "DefaultUseSSL = True"
definition DefaultTimeoutMs :: int64 where "DefaultTimeoutMs = 7000"

text \<open>The two stores of a configuration are part of the environment.\<close>

record ClientConfig =
  cfg_BotID :: string
  cfg_Token :: string
  cfg_Host :: string
  cfg_Port :: string
  cfg_UseSSL :: "bool option"
  cfg_Timeout :: int64
  cfg_Transport :: TransportKind
  cfg_TLSInsecureSkipVerify :: bool
  cfg_CacheTTL :: int64
  cfg_MaxUsersCache :: int64
  cfg_MaxChannelsCache :: int64

definition scheme :: "bool \<Rightarrow> string" where
  "scheme useSSL = (if useSSL then ''https://'' else ''http://'')"

definition cache_limit :: "int64 \<Rightarrow> int" where
  "cache_limit n = (if sint n \<le> 0 then defaultMaxCache else sint n)"

definition NewMezonClient :: "ClientConfig \<Rightarrow> 'x \<Rightarrow> 'x MezonClient result" where
  "NewMezonClient cfg x =
     (if cfg_BotID cfg = [] then Inl (ErrNew ''botId is required'')
      else if cfg_Token cfg = [] then Inl (ErrNew ''token is required'')
      else
        (let host = (if cfg_Host cfg = [] then DefaultHost else cfg_Host cfg);
             port = (if cfg_Port cfg = [] then DefaultPort else cfg_Port cfg);
             useSSL = (case cfg_UseSSL cfg of None \<Rightarrow> DefaultUseSSL | Some b \<Rightarrow> b)
         in Inr \<lparr>mc_Token = cfg_Token cfg, mc_ClientID = cfg_BotID cfg, mc_Host = host, mc_Port = port, mc_UseSSL = useSSL,
              mc_Timeout = (if sint (cfg_Timeout cfg) \<le> 0 then DefaultTimeoutMs * 1000000 else cfg_Timeout cfg),
              mc_Transport = cfg_Transport cfg, mc_TLSInsecureSkipVerify = cfg_TLSInsecureSkipVerify cfg,
              mc_Clans = NewCacheManager 0,
              mc_Channels = NewCacheManager (cache_limit (cfg_MaxChannelsCache cfg)),
              mc_Users = NewCacheManager (cache_limit (cfg_MaxUsersCache cfg)),
              mc_loginBasePath = scheme useSSL @ host @ '':'' @ port,
              mc_apiClient = None, mc_socket = None, mc_channelManager = None, mc_session = None,
              mc_events = newEmitter,
              mc_cacheTTL = (if sint (cfg_CacheTTL cfg) \<le> 0 then defaultCacheTTL else cfg_CacheTTL cfg),
              mc_internalsBound = False, mc_hardDisconnect = False,
              h_clans = [], h_channels = [], h_messages = [], h_users = [], h_managers = [], h_apis = [], h_sockets = [],
              mc_panicked = False, mc_out = x\<rparr>))"

section \<open>Handlers of the client\<close>

definition save_message :: "'x client_env \<Rightarrow> ChannelMessage \<Rightarrow> 'x MezonClient \<Rightarrow> 'x MezonClient" where
  "save_message env e w = (case ce_messageDB env of
      None \<Rightarrow> w
    | Some db \<Rightarrow> snd (outside (mst_SaveMessage db e) w))"

definition load_clan_of :: "'x client_env \<Rightarrow> ChannelMessage \<Rightarrow> 'x MezonClient \<Rightarrow> 'x MezonClient" where
  "load_clan_of env e w =
     (if chm_ClanID e \<noteq> [] \<and> chm_ClanID e \<noteq> ''0''
      then (case cache_Get (mc_Clans w) (chm_ClanID e) of Some cl \<Rightarrow> snd (LoadChannels env cl w) | None \<Rightarrow> w)
      else w)"

definition cacheChannelMessage :: "'x client_env \<Rightarrow> ChannelMessage \<Rightarrow> 'x MezonClient \<Rightarrow> 'x MezonClient" where
  "cacheChannelMessage env e w =
     (case Channels_Fetch env (chm_ChannelID e) (load_clan_of env e (save_message env e w)) of
        (Inl _, w) \<Rightarrow> w
      | (Inr channel, w) \<Rightarrow>
          if chm_MessageID e = [] then w
          else (case newMessageFromChannelMessage e (Some channel) (mc_socket w) w of
                  (msg, w) \<Rightarrow> set_message channel (chm_MessageID e) msg w))"

definition or_string :: "string \<Rightarrow> string \<Rightarrow> string" where
  "or_string v fallback = (if v = [] then fallback else v)"

definition enrich_user :: "ChannelMessage \<Rightarrow> string \<Rightarrow> User \<Rightarrow> User" where
  "enrich_user e dmID u = u\<lparr>
     us_Username := or_string (chm_Username e) (us_Username u),
     us_ClanNick := or_string (chm_ClanNick e) (us_ClanNick u),
     us_ClanAvatar := or_string (chm_ClanAvatar e) (us_ClanAvatar u),
     us_DisplayName := or_string (chm_DisplayName e) (us_DisplayName u),
     us_Avatar := or_string (chm_Avatar e) (us_Avatar u),
     us_DmChannelID := or_string dmID (us_DmChannelID u)\<rparr>"

definition cacheUserFromMessage :: "ChannelMessage \<Rightarrow> 'x MezonClient \<Rightarrow> 'x MezonClient" where
  "cacheUserFromMessage e w =
     (if chm_SenderID e = [] then w
      else case mc_channelManager w of
        None \<Rightarrow> w\<lparr>mc_panicked := True\<rparr>
      | Some m \<Rightarrow>
          (let dmID = (case map_of (GetAllDMChannels w m) (chm_SenderID e) of Some d \<Rightarrow> d | None \<Rightarrow> [])
           in case cache_Get (mc_Users w) (chm_SenderID e) of
                Some u \<Rightarrow> upd_user u (enrich_user e dmID) w
              | None \<Rightarrow> (case alloc_user \<lparr>us_ID = chm_SenderID e, us_Username = chm_Username e, us_ClanNick = chm_ClanNick e,
                    us_ClanAvatar = chm_ClanAvatar e, us_DisplayName = chm_DisplayName e, us_Avatar = chm_Avatar e,
                    us_DmChannelID = dmID, us_socket = mc_socket w, us_channelManager = Some m\<rparr> w of
                  (u, w) \<Rightarrow> set_Users (chm_SenderID e) u w)))"

text \<open>The common body of the handlers for deleted and updated channels.\<close>

definition drop_channel :: "'x client_env \<Rightarrow> int64 \<Rightarrow> int64 \<Rightarrow> 'x MezonClient \<Rightarrow> 'x MezonClient" where
  "drop_channel env channel clan w =
     (let channelID = itoaID channel;
          w = delete_Channels channelID w;
          w = l2Delete env (l2ChannelPrefix @ channelID) w
      in case cache_Get (mc_Clans w) (itoaID clan) of
           Some cl \<Rightarrow> delete_clan_channel cl channelID w
         | None \<Rightarrow> w)"

text \<open>
  Handlers are numbered: 0, 1 and 2 are those of the client, then come those of the application by
  registration with \<^verbatim>\<open>On\<close>, \<^verbatim>\<open>OnChannelMessage\<close> or \<^verbatim>\<open>OnReady\<close>, in turn.
\<close>

record 'x application =
  app_on :: "nat \<Rightarrow> payload \<Rightarrow> 'x MezonClient \<Rightarrow> 'x MezonClient"
  app_message :: "nat \<Rightarrow> ChannelMessage \<Rightarrow> 'x MezonClient \<Rightarrow> 'x MezonClient"
  app_ready :: "nat \<Rightarrow> 'x MezonClient \<Rightarrow> 'x MezonClient"

definition run_handler :: "'x client_env \<Rightarrow> 'x application \<Rightarrow> handler_id \<Rightarrow> payload \<Rightarrow> 'x MezonClient \<Rightarrow> 'x MezonClient" where
  "run_handler env app h p w =
     (if h = 0 then (case p of PayloadChannelMessage m \<Rightarrow> cacheUserFromMessage m (cacheChannelMessage env m w) | _ \<Rightarrow> w)
      else if h = 1 then (case p of PayloadChannelDeleted e \<Rightarrow> drop_channel env (cde_ChannelId e) (cde_ClanId e) w | _ \<Rightarrow> w)
      else if h = 2 then (case p of PayloadChannelUpdated e \<Rightarrow> drop_channel env (cue_ChannelId e) (cue_ClanId e) w | _ \<Rightarrow> w)
      else if h mod 3 = 0 then app_on app (h div 3 - 1) p w
      else if h mod 3 = 1 then (case p of PayloadChannelMessage m \<Rightarrow> app_message app (h div 3 - 1) m w | _ \<Rightarrow> w)
      else app_ready app (h div 3 - 1) w)"

definition register :: "string \<Rightarrow> handler_id \<Rightarrow> 'x MezonClient \<Rightarrow> 'x MezonClient" where
  "register event h w = w\<lparr>mc_events := emitter_on event h (mc_events w)\<rparr>"

definition On :: "string \<Rightarrow> nat \<Rightarrow> 'x MezonClient \<Rightarrow> 'x MezonClient" where
  "On event n = register event (3 * n + 3)"

definition OnChannelMessage :: "nat \<Rightarrow> 'x MezonClient \<Rightarrow> 'x MezonClient" where
  "OnChannelMessage n = register EventChannelMessage (3 * n + 4)"

definition OnReady :: "nat \<Rightarrow> 'x MezonClient \<Rightarrow> 'x MezonClient" where
  "OnReady n = register EventReady (3 * n + 5)"

definition bindInternalListeners :: "'x MezonClient \<Rightarrow> 'x MezonClient" where
  "bindInternalListeners w =
     (if mc_internalsBound w then w
      else (let w = w\<lparr>mc_internalsBound := True\<rparr>;
                w = register EventChannelMessage 0 w;
                w = register EventChannelDeleted 1 w
            in register EventChannelUpdated 2 w))"

text \<open>Emitting an event, and dispatching a pushed envelope, which emits at most one.\<close>

definition emit :: "'x client_env \<Rightarrow> 'x application \<Rightarrow> string \<Rightarrow> payload \<Rightarrow> 'x MezonClient \<Rightarrow> 'x MezonClient" where
  "emit env app event p w = emitter_emit (run_handler env app) (mc_events w) event p w"

section \<open>Joining the clans\<close>

record clanInfo =
  ci_id :: string
  ci_name :: string
  ci_welcome :: string

definition clan_infos :: "pb_ClanDescList \<Rightarrow> clanInfo list" where
  "clan_infos clans = \<lparr>ci_id = ''0'', ci_name = [], ci_welcome = []\<rparr> #
     map (\<lambda>cl. \<lparr>ci_id = itoaID (cld_ClanId cl), ci_name = cld_ClanName cl, ci_welcome = itoaID (cld_WelcomeChannelId cl)\<rparr>)
       (cldl_Clandesc clans)"

definition ensure_clan :: "string \<Rightarrow> clanInfo \<Rightarrow> 'x MezonClient \<Rightarrow> 'x MezonClient" where
  "ensure_clan sessionToken cl w = (case cache_Get (mc_Clans w) (ci_id cl) of
      Some existing \<Rightarrow> upd_clan existing (clan_updateFromDesc (ci_name cl) (ci_welcome cl) sessionToken) w
    | None \<Rightarrow> (case newClan (ci_id cl) (or_string (ci_name cl) ''unknown'') (ci_welcome cl) (ci_name cl) sessionToken w of
        (clanObj, w) \<Rightarrow> set_Clans (ci_id cl) clanObj w))"

definition join_clan :: "'x client_env \<Rightarrow> clanInfo \<Rightarrow> 'x MezonClient \<Rightarrow> bool \<times> 'x MezonClient" where
  "join_clan env cl w = (case on_transmit env (mc_socket w) (\<lambda>t. JoinClanChat t (ci_id cl)) w of
      (Inl _, w) \<Rightarrow> (False, w)
    | (Inr _, w) \<Rightarrow> (True, w))"

definition initClan :: "'x client_env \<Rightarrow> clanInfo \<Rightarrow> 'x MezonClient \<Rightarrow> bool \<times> 'x MezonClient" where
  "initClan env cl w =
     (if ci_id cl \<noteq> ''0''
      then (case cache_Get (mc_Clans w) (ci_id cl) of
          None \<Rightarrow> (False, w)
        | Some clanObj \<Rightarrow> (case ReloadChannels env clanObj w of
            (Inl _, w) \<Rightarrow> (False, w)
          | (Inr _, w) \<Rightarrow> join_clan env cl w))
      else join_clan env cl w)"

fun init_round :: "'x client_env \<Rightarrow> clanInfo list \<Rightarrow> 'x MezonClient \<Rightarrow> clanInfo list \<times> 'x MezonClient" where
  "init_round env [] w = ([], w)"
| "init_round env (cl # cls) w =
     (let (ok, w) = initClan env cl w;
          (failed, w) = init_round env cls w
      in (if ok then failed else cl # failed, w))"

primrec retry_rounds :: "'x client_env \<Rightarrow> nat \<Rightarrow> clanInfo list \<Rightarrow> 'x MezonClient \<Rightarrow> clanInfo list \<times> 'x MezonClient" where
  "retry_rounds env 0 failed w = (failed, w)"
| "retry_rounds env (Suc k) failed w =
     (if failed = [] then (failed, w)
      else (case init_round env failed w of (still, w) \<Rightarrow> retry_rounds env k still w))"

definition init_clans :: "'x client_env \<Rightarrow> clanInfo list \<Rightarrow> 'x MezonClient \<Rightarrow> clanInfo list \<times> 'x MezonClient" where
  "init_clans env list w = (case init_round env list w of (failed, w) \<Rightarrow> retry_rounds env 5 failed w)"

definition connectSocket :: "'x client_env \<Rightarrow> string \<Rightarrow> ('x MezonClient, unit) call" where
  "connectSocket env sessionToken = gets mc_apiClient (\<lambda>api.
     and_then (attempt (on_api api (\<lambda>a. ListClanDescs (ce_api env) a sessionToken 0 0 []))) (\<lambda>r. case r of
         Inl e \<Rightarrow> fail (ErrWrap ''listClanDescs failed: '' e [])
       | Inr clans \<Rightarrow> modify (\<lambda>w.
           let list = clan_infos clans
           in snd (init_clans env list (for_each (ensure_clan sessionToken) list w)))))"

definition postConnectInit :: "'x client_env \<Rightarrow> string \<Rightarrow> ('x MezonClient, unit) call" where
  "postConnectInit env sessionToken =
     and_then (connectSocket env sessionToken) (\<lambda>_.
       and_then (attempt (gets mc_channelManager (\<lambda>m. deref m (\<lambda>m. InitAllDMChannels env m sessionToken)))) (\<lambda>_.
         modify initDmChannelCache))"

section \<open>Login, reconnection, closing\<close>

definition initManagers :: "'x client_env \<Rightarrow> string \<Rightarrow> Session option \<Rightarrow> 'x MezonClient \<Rightarrow> 'x MezonClient" where
  "initManagers env basePath session w =
     (let a = length (h_apis w);
          s = length (h_sockets w);
          api = AttachSocket (NewMezonApi (ce_http env) (mc_Token w) basePath (mc_Timeout w)) (ce_port env s);
          socket = \<lparr>sk_wsURL = (case session of Some ses \<Rightarrow> ses_WsURL ses | None \<Rightarrow> []), sk_host = mc_Host w, sk_port = mc_Port w,
             sk_useSSL = mc_UseSSL w, sk_Transport = mc_Transport w, sk_TLSInsecureSkipVerify = mc_TLSInsecureSkipVerify w,
             sk_TcpURL = (case session of Some ses \<Rightarrow> ses_TcpURL ses | None \<Rightarrow> [])\<rparr>;
          w = w\<lparr>h_apis := h_apis w @ [api], mc_apiClient := Some a, h_sockets := h_sockets w @ [socket], mc_socket := Some s\<rparr>;
          (m, w) = newChannelManager (mc_apiClient w) (mc_socket w) w
      in bindInternalListeners (w\<lparr>mc_channelManager := Some m\<rparr>))"

definition connect :: "'x client_env \<Rightarrow> Session \<Rightarrow> ('x MezonClient, unit) call" where
  "connect env session = gets mc_socket (\<lambda>p. deref p (\<lambda>s.
     gets (\<lambda>w. h_sockets w ! s) (\<lambda>settings. outside (ce_connect env s settings session True))))"

text \<open>The API address of the session, when it can be parsed, replaces the one of the configuration.\<close>

definition use_api_url :: "'x client_env \<Rightarrow> string \<Rightarrow> 'x MezonClient \<Rightarrow> string \<times> 'x MezonClient" where
  "use_api_url env apiUrl w =
     (if apiUrl = [] then (mc_loginBasePath w, w)
      else case ParseURLToHostAndSSL (ce_url_Parse env) apiUrl of
        Inl _ \<Rightarrow> (mc_loginBasePath w, w)
      | Inr (host, port, useSSL) \<Rightarrow>
          (scheme useSSL @ host @ '':'' @ port, w\<lparr>mc_Host := host, mc_Port := port, mc_UseSSL := useSSL\<rparr>))"

definition authenticate :: "'x client_env \<Rightarrow> ('x MezonClient, pb_Session) call" where
  "authenticate env = gets (\<lambda>w. w) (\<lambda>w.
     outside (MezonAuthenticate (ce_api env) (NewMezonApi (ce_http env) (mc_Token w) (mc_loginBasePath w) (mc_Timeout w))
       (mc_ClientID w) (mc_Token w)))"

definition Login :: "'x client_env \<Rightarrow> 'x application \<Rightarrow> ('x MezonClient, unit) call" where
  "Login env app =
     and_then (modify (\<lambda>w. w\<lparr>mc_hardDisconnect := False\<rparr>)) (\<lambda>_.
     and_then (authenticate env) (\<lambda>sess.
       if ps_Token sess = [] then fail (ErrNew ''authenticate returned empty session'')
       else gets (\<lambda>w. ce_now env (mc_out w)) (\<lambda>now.
         case NewSession (ce_json_error env) now (ps_Token sess) (ps_RefreshToken sess) (itoaID (ps_UserId sess))
                (ps_ApiUrl sess) (ps_IdToken sess) (ps_WsUrl sess) of
           Inl e \<Rightarrow> fail e
         | Inr session \<Rightarrow>
             (let session = session\<lparr>ses_TcpURL := ps_TcpUrl sess\<rparr>
              in and_then (modify (\<lambda>w. case use_api_url env (ps_ApiUrl sess) (w\<lparr>mc_session := Some session\<rparr>) of
                     (basePath, w) \<Rightarrow> initManagers env basePath (Some session) w)) (\<lambda>_.
                 and_then (connect env session) (\<lambda>_.
                 and_then (postConnectInit env (ses_Token session)) (\<lambda>_.
                 modify (emit env app EventReady PayloadNil))))))))"

text \<open>One attempt of the loop in \<^verbatim>\<open>retryConnect\<close>, after its pause.\<close>

definition reconnect_attempt :: "'x client_env \<Rightarrow> ('x MezonClient, unit) call" where
  "reconnect_attempt env = gets mc_session (\<lambda>session. case session of
      None \<Rightarrow> ret ()
    | Some session \<Rightarrow> and_then (connect env session) (\<lambda>_. postConnectInit env (ses_Token session)))"

definition client_Close :: "'x client_env \<Rightarrow> 'x MezonClient \<Rightarrow> 'x MezonClient" where
  "client_Close env w =
     (let w = w\<lparr>mc_hardDisconnect := True\<rparr>
      in case mc_socket w of None \<Rightarrow> w | Some s \<Rightarrow> w\<lparr>mc_out := ce_close env s (mc_out w)\<rparr>)"

end
