(* ===== verification/Client_Invariant.thy ===== *)
theory Client_Invariant
  imports Client
begin

text \<open>
  The invariant of the client state: every pointer of the caches and of the objects leads to an object, no
  nil pointer is ever followed, the caches are well formed and keep their bounds. Every operation keeps
  it and never changes the identity of an object (its id, its clan or channel, its connection).
\<close>

section \<open>Well-formed states\<close>

definition within :: "nat option \<Rightarrow> nat \<Rightarrow> bool" where
  "within p n \<longleftrightarrow> (case p of Some a \<Rightarrow> a < n | None \<Rightarrow> False)"

definition pointers :: "nat \<Rightarrow> ('k, addr) CacheManager \<Rightarrow> bool" where
  "pointers n c \<longleftrightarrow> cache_inv c \<and> list_all (\<lambda>(k, a). a < n) (items c)"

definition clan_ok :: "nat \<Rightarrow> nat \<Rightarrow> nat \<Rightarrow> Clan \<Rightarrow> bool" where
  "clan_ok channels apis sockets c \<longleftrightarrow> within (cn_apiClient c) apis \<and> within (cn_socket c) sockets \<and>
     pointers channels (cn_Channels c) \<and> maxSize (cn_Channels c) = 0"

definition channel_ok :: "nat \<Rightarrow> nat \<Rightarrow> nat \<Rightarrow> TextChannel \<Rightarrow> bool" where
  "channel_ok clans messages sockets c \<longleftrightarrow> within (tc_Clan c) clans \<and> within (tc_socket c) sockets \<and>
     pointers messages (tc_Messages c) \<and> maxSize (tc_Messages c) = 200"

definition message_ok :: "nat \<Rightarrow> nat \<Rightarrow> Message \<Rightarrow> bool" where
  "message_ok channels sockets m \<longleftrightarrow> within (ms_Channel m) channels \<and> within (ms_socket m) sockets"

definition user_ok :: "nat \<Rightarrow> nat \<Rightarrow> User \<Rightarrow> bool" where
  "user_ok managers sockets u \<longleftrightarrow> within (us_channelManager u) managers \<and> within (us_socket u) sockets"

definition manager_ok :: "nat \<Rightarrow> nat \<Rightarrow> ChannelManager \<Rightarrow> bool" where
  "manager_ok apis sockets m \<longleftrightarrow> within (chn_apiClient m) apis \<and> within (chn_socket m) sockets"

text \<open>The API client, the socket and the manager of direct messages come together, with the first login.\<close>

definition linked :: "'x MezonClient \<Rightarrow> bool" where
  "linked w \<longleftrightarrow> within (mc_apiClient w) (length (h_apis w)) \<and> within (mc_socket w) (length (h_sockets w)) \<and>
     within (mc_channelManager w) (length (h_managers w))"

definition unlinked :: "'x MezonClient \<Rightarrow> bool" where
  "unlinked w \<longleftrightarrow> mc_apiClient w = None \<and> mc_socket w = None \<and> mc_channelManager w = None \<and> mc_session w = None \<and>
     h_apis w = [] \<and> h_sockets w = [] \<and> h_managers w = [] \<and> list_all (\<lambda>(ev, hs). 0 \<notin> set hs) (handlers (mc_events w))"

definition heap_ok :: "'x MezonClient \<Rightarrow> bool" where
  "heap_ok w \<longleftrightarrow>
     list_all (clan_ok (length (h_channels w)) (length (h_apis w)) (length (h_sockets w))) (h_clans w) \<and>
     list_all (channel_ok (length (h_clans w)) (length (h_messages w)) (length (h_sockets w))) (h_channels w) \<and>
     list_all (message_ok (length (h_channels w)) (length (h_sockets w))) (h_messages w) \<and>
     list_all (user_ok (length (h_managers w)) (length (h_sockets w))) (h_users w) \<and>
     list_all (manager_ok (length (h_apis w)) (length (h_sockets w))) (h_managers w)"

definition caches_ok :: "'x MezonClient \<Rightarrow> bool" where
  "caches_ok w \<longleftrightarrow>
     pointers (length (h_clans w)) (mc_Clans w) \<and> maxSize (mc_Clans w) = 0 \<and>
     pointers (length (h_channels w)) (mc_Channels w) \<and> 0 < maxSize (mc_Channels w) \<and>
     pointers (length (h_users w)) (mc_Users w) \<and> 0 < maxSize (mc_Users w)"

definition world_ok :: "'x MezonClient \<Rightarrow> bool" where
  "world_ok w \<longleftrightarrow> \<not> mc_panicked w \<and> heap_ok w \<and> caches_ok w \<and> (linked w \<or> unlinked w)"

section \<open>Identity of objects\<close>

definition clan_ident :: "Clan \<Rightarrow> string \<times> string \<times> addr option \<times> addr option" where
  "clan_ident c = (cn_ID c, cn_ClientID c, cn_apiClient c, cn_socket c)"

definition channel_ident :: "TextChannel \<Rightarrow> string \<times> addr option \<times> addr option" where
  "channel_ident c = (tc_ID c, tc_Clan c, tc_socket c)"

definition message_ident :: "Message \<Rightarrow> string \<times> string \<times> addr option \<times> addr option" where
  "message_ident m = (ms_ID m, ms_SenderID m, ms_Channel m, ms_socket m)"

definition user_ident :: "User \<Rightarrow> string \<times> addr option \<times> addr option" where
  "user_ident u = (us_ID u, us_channelManager u, us_socket u)"

definition manager_ident :: "ChannelManager \<Rightarrow> addr option \<times> addr option" where
  "manager_ident m = (chn_apiClient m, chn_socket m)"

text \<open>A later state: the heaps have grown, the old objects have kept their identity, and the socket of the client
  is the same or a new one.\<close>

definition hext :: "'x MezonClient \<Rightarrow> 'x MezonClient \<Rightarrow> bool" where
  "hext w w' \<longleftrightarrow>
     prefix (map clan_ident (h_clans w)) (map clan_ident (h_clans w')) \<and>
     prefix (map channel_ident (h_channels w)) (map channel_ident (h_channels w')) \<and>
     prefix (map message_ident (h_messages w)) (map message_ident (h_messages w')) \<and>
     prefix (map user_ident (h_users w)) (map user_ident (h_users w')) \<and>
     prefix (map manager_ident (h_managers w)) (map manager_ident (h_managers w')) \<and>
     prefix (h_apis w) (h_apis w') \<and> prefix (h_sockets w) (h_sockets w') \<and>
     maxSize (mc_Channels w') = maxSize (mc_Channels w) \<and> maxSize (mc_Users w') = maxSize (mc_Users w) \<and>
     (mc_socket w' = mc_socket w \<or> (case mc_socket w' of Some s \<Rightarrow> length (h_sockets w) \<le> s | None \<Rightarrow> False))"

lemma hext_refl [simp]: "hext w w"
  by (simp add: hext_def)

lemma hext_trans: "hext w w' \<Longrightarrow> hext w' w'' \<Longrightarrow> hext w w''"
  by (auto simp: hext_def intro: prefix_order.trans dest: prefix_length_le split: option.splits)

lemma hext_length:
  assumes "hext w w'"
  shows "length (h_clans w) \<le> length (h_clans w')" "length (h_channels w) \<le> length (h_channels w')"
    "length (h_messages w) \<le> length (h_messages w')" "length (h_users w) \<le> length (h_users w')"
    "length (h_managers w) \<le> length (h_managers w')" "length (h_apis w) \<le> length (h_apis w')"
    "length (h_sockets w) \<le> length (h_sockets w')"
  using assms by (auto simp: hext_def dest: prefix_length_le)

lemmas hext_less = hext_length [THEN less_le_trans [rotated]]

lemma prefix_nth_eq: "prefix xs ys \<Longrightarrow> a < length xs \<Longrightarrow> ys ! a = xs ! a"
  by (auto simp: prefix_def nth_append)

lemma prefix_map_nth: "prefix (map f xs) (map f ys) \<Longrightarrow> a < length xs \<Longrightarrow> f (ys ! a) = f (xs ! a)"
  using prefix_nth_eq [of "map f xs" "map f ys" a] prefix_length_le [of "map f xs" "map f ys"] by simp

lemma hext_ident:
  assumes "hext w w'"
  shows "a < length (h_clans w) \<Longrightarrow> clan_ident (clan_at w' a) = clan_ident (clan_at w a)"
    "a < length (h_channels w) \<Longrightarrow> channel_ident (channel_at w' a) = channel_ident (channel_at w a)"
    "a < length (h_messages w) \<Longrightarrow> message_ident (message_at w' a) = message_ident (message_at w a)"
    "a < length (h_users w) \<Longrightarrow> user_ident (user_at w' a) = user_ident (user_at w a)"
    "a < length (h_apis w) \<Longrightarrow> h_apis w' ! a = h_apis w ! a"
  using assms by (auto simp: hext_def clan_at_def channel_at_def message_at_def user_at_def
      intro: prefix_map_nth prefix_nth_eq)

section \<open>Caches of pointers\<close>

lemma within_Some [simp]: "within (Some a) n \<longleftrightarrow> a < n" and within_None [simp]: "\<not> within None n"
  by (simp_all add: within_def)

lemma within_mono: "within p n \<Longrightarrow> n \<le> n' \<Longrightarrow> within p n'"
  by (auto simp: within_def split: option.splits)

lemma pointers_mono: "pointers n c \<Longrightarrow> n \<le> n' \<Longrightarrow> pointers n' c"
  by (auto simp: pointers_def list_all_iff)

lemma pointers_Get: "pointers n c \<Longrightarrow> cache_Get c k = Some a \<Longrightarrow> a < n"
  by (auto simp: pointers_def cache_Get_def list_all_iff dest: map_of_SomeD)

lemma set_update_subset: "set (AList.update k v xs) \<subseteq> insert (k, v) (set xs)"
  by (induction xs) auto

lemma set_delete_subset: "set (AList.delete k xs) \<subseteq> set xs"
  by (auto simp: AList.delete_eq)

lemma evict_subset: "set (items (evict_oldest c)) \<subseteq> set (items c)"
  using set_delete_subset [of "hd (order c)" "items c"] by (auto simp: evict_oldest_def)

lemma pointers_Set:
  assumes "pointers n c" "a < n"
  shows "pointers n (cache_Set c k a)"
proof -
  have "set (items (cache_Set c k a)) \<subseteq> insert (k, a) (set (items c))"
    using set_update_subset [of k a "items c"] set_update_subset [of k a "items (evict_oldest c)"] evict_subset [of c]
    by (auto simp: cache_Set_def Let_def split: if_splits)
  then show ?thesis
    using assms cache_inv_Set [of c k a] by (fastforce simp: pointers_def list_all_iff)
qed

lemma pointers_Delete: "pointers n c \<Longrightarrow> pointers n (snd (cache_Delete c k))"
  using cache_inv_Delete [of c k] set_delete_subset [of k "items c"]
  by (fastforce simp: pointers_def list_all_iff cache_Delete_def)

lemma pointers_New [simp]: "pointers n (NewCacheManager m)"
  using cache_inv_new [of m] by (simp add: pointers_def) (simp add: NewCacheManager_def)

lemma cache_Delete_maxSize [simp]: "maxSize (snd (cache_Delete c k)) = maxSize c"
  by (simp add: cache_Delete_def)

section \<open>Elementary changes of the state\<close>

text \<open>A state that is well formed and later than \<open>w\<close>.\<close>

definition grown :: "'x MezonClient \<Rightarrow> 'x MezonClient \<Rightarrow> bool" where
  "grown w w' \<longleftrightarrow> world_ok w' \<and> hext w w'"

lemma grown_refl: "world_ok w \<Longrightarrow> grown w w"
  by (simp add: grown_def)

lemma grown_trans: "grown w w' \<Longrightarrow> grown w' w'' \<Longrightarrow> grown w w''"
  by (auto simp: grown_def intro: hext_trans)

named_theorems grown_intros \<open>changes that keep the invariant\<close>

lemmas ok_defs = world_ok_def heap_ok_def caches_ok_def linked_def unlinked_def

lemma list_all_update: "list_all P xs \<Longrightarrow> (P (xs ! a) \<Longrightarrow> P y) \<Longrightarrow> list_all P (xs[a := y])"
  by (cases "a < length xs") (auto simp: list_all_length nth_list_update)

lemma map_update_same: "f y = f (xs ! a) \<Longrightarrow> map f (xs[a := y]) = map f xs"
  by (cases "a < length xs") (simp_all add: map_update list_update_same_conv list_update_beyond)

lemma grown_out [grown_intros]: "world_ok w \<Longrightarrow> grown w (w\<lparr>mc_out := x\<rparr>)"
  by (simp add: grown_def ok_defs hext_def)

lemma grown_upd_clan:
  assumes "world_ok w" "clan_ident (f (clan_at w a)) = clan_ident (clan_at w a)"
    and "maxSize (cn_Channels (f (clan_at w a))) = maxSize (cn_Channels (clan_at w a))"
    and "pointers (length (h_channels w)) (cn_Channels (clan_at w a)) \<Longrightarrow>
      pointers (length (h_channels w)) (cn_Channels (f (clan_at w a)))"
  shows "grown w (upd_clan a f w)"
proof -
  have "map clan_ident ((h_clans w)[a := f (h_clans w ! a)]) = map clan_ident (h_clans w)"
    using assms(2) by (intro map_update_same) (simp add: clan_at_def)
  then show ?thesis
    using assms by (auto simp: grown_def ok_defs hext_def upd_clan_def clan_at_def clan_ident_def clan_ok_def intro!: list_all_update)
qed

lemma grown_upd_channel:
  assumes "world_ok w" "channel_ident (f (channel_at w a)) = channel_ident (channel_at w a)"
    and "maxSize (tc_Messages (f (channel_at w a))) = maxSize (tc_Messages (channel_at w a))"
    and "pointers (length (h_messages w)) (tc_Messages (channel_at w a)) \<Longrightarrow>
      pointers (length (h_messages w)) (tc_Messages (f (channel_at w a)))"
  shows "grown w (upd_channel a f w)"
proof -
  have "map channel_ident ((h_channels w)[a := f (h_channels w ! a)]) = map channel_ident (h_channels w)"
    using assms(2) by (intro map_update_same) (simp add: channel_at_def)
  then show ?thesis
    using assms by (auto simp: grown_def ok_defs hext_def upd_channel_def channel_at_def channel_ident_def channel_ok_def intro!: list_all_update)
qed

lemma grown_upd_message:
  assumes "world_ok w" "message_ident (f (message_at w a)) = message_ident (message_at w a)"
  shows "grown w (upd_message a f w)"
proof -
  have "map message_ident ((h_messages w)[a := f (h_messages w ! a)]) = map message_ident (h_messages w)"
    using assms(2) by (intro map_update_same) (simp add: message_at_def)
  then show ?thesis
    using assms by (auto simp: grown_def ok_defs hext_def upd_message_def message_at_def message_ident_def message_ok_def intro!: list_all_update)
qed

lemma grown_upd_user:
  assumes "world_ok w" "user_ident (f (user_at w a)) = user_ident (user_at w a)"
  shows "grown w (upd_user a f w)"
proof -
  have "map user_ident ((h_users w)[a := f (h_users w ! a)]) = map user_ident (h_users w)"
    using assms(2) by (intro map_update_same) (simp add: user_at_def)
  then show ?thesis
    using assms by (auto simp: grown_def ok_defs hext_def upd_user_def user_at_def user_ident_def user_ok_def intro!: list_all_update)
qed

lemma grown_upd_manager:
  assumes "world_ok w" "manager_ident (f (manager_at w a)) = manager_ident (manager_at w a)"
  shows "grown w (upd_manager a f w)"
proof -
  have "map manager_ident ((h_managers w)[a := f (h_managers w ! a)]) = map manager_ident (h_managers w)"
    using assms(2) by (intro map_update_same) (simp add: manager_at_def)
  moreover have "(h_managers w)[a := f (h_managers w ! a)] = [] \<longleftrightarrow> h_managers w = []" by simp
  ultimately show ?thesis
    using assms by (auto simp: grown_def ok_defs hext_def upd_manager_def manager_at_def manager_ident_def manager_ok_def intro!: list_all_update)
qed

text \<open>Allocation: the heaps grow, and what was in bounds stays so.\<close>

lemma clan_ok_mono: "clan_ok a b c x \<Longrightarrow> a \<le> a' \<Longrightarrow> b \<le> b' \<Longrightarrow> c \<le> c' \<Longrightarrow> clan_ok a' b' c' x"
  and channel_ok_mono: "channel_ok a b c y \<Longrightarrow> a \<le> a' \<Longrightarrow> b \<le> b' \<Longrightarrow> c \<le> c' \<Longrightarrow> channel_ok a' b' c' y"
  and message_ok_mono: "message_ok a b m \<Longrightarrow> a \<le> a' \<Longrightarrow> b \<le> b' \<Longrightarrow> message_ok a' b' m"
  and user_ok_mono: "user_ok a b u \<Longrightarrow> a \<le> a' \<Longrightarrow> b \<le> b' \<Longrightarrow> user_ok a' b' u"
  and manager_ok_mono: "manager_ok a b g \<Longrightarrow> a \<le> a' \<Longrightarrow> b \<le> b' \<Longrightarrow> manager_ok a' b' g"
  by (auto simp: clan_ok_def channel_ok_def message_ok_def user_ok_def manager_ok_def intro: within_mono pointers_mono)

lemmas ok_mono = clan_ok_mono channel_ok_mono message_ok_mono user_ok_mono manager_ok_mono pointers_mono within_mono

lemma heap_ok_mono:
  assumes "heap_ok w"
    and "length (h_clans w) \<le> cl" "length (h_channels w) \<le> ch" "length (h_messages w) \<le> ms" "length (h_managers w) \<le> mg"
    "length (h_apis w) \<le> ap" "length (h_sockets w) \<le> sk"
  shows "list_all (clan_ok ch ap sk) (h_clans w)" "list_all (channel_ok cl ms sk) (h_channels w)"
    "list_all (message_ok ch sk) (h_messages w)" "list_all (user_ok mg sk) (h_users w)"
    "list_all (manager_ok ap sk) (h_managers w)"
  using assms by (auto simp: heap_ok_def list_all_iff intro: ok_mono)

lemma grown_alloc_clan:
  assumes ok: "world_ok w" and new: "clan_ok (length (h_channels w)) (length (h_apis w)) (length (h_sockets w)) x"
  shows "grown w (snd (alloc_clan x w))"
proof -
  let ?w = "snd (alloc_clan x w)"
  have "heap_ok w" "caches_ok w" "linked w \<or> unlinked w" using ok by (simp_all add: world_ok_def)
  have "heap_ok ?w"
    using heap_ok_mono [OF \<open>heap_ok w\<close>, of "Suc (length (h_clans w))" "length (h_channels w)" "length (h_messages w)" "length (h_managers w)" "length (h_apis w)" "length (h_sockets w)"] new
    by (simp add: heap_ok_def alloc_clan_def)
  moreover have "caches_ok ?w"
    using \<open>caches_ok w\<close> by (auto simp: caches_ok_def alloc_clan_def intro: pointers_mono)
  moreover have "linked ?w \<or> unlinked ?w"
    using \<open>linked w \<or> unlinked w\<close> by (simp add: linked_def unlinked_def alloc_clan_def)
  ultimately show ?thesis
    using ok by (simp add: grown_def world_ok_def hext_def alloc_clan_def)
qed

lemma grown_alloc_channel:
  assumes ok: "world_ok w" and new: "channel_ok (length (h_clans w)) (length (h_messages w)) (length (h_sockets w)) x"
  shows "grown w (snd (alloc_channel x w))"
proof -
  let ?w = "snd (alloc_channel x w)"
  have "heap_ok w" "caches_ok w" "linked w \<or> unlinked w" using ok by (simp_all add: world_ok_def)
  have "heap_ok ?w"
    using heap_ok_mono [OF \<open>heap_ok w\<close>, of "length (h_clans w)" "Suc (length (h_channels w))" "length (h_messages w)" "length (h_managers w)" "length (h_apis w)" "length (h_sockets w)"] new
    by (simp add: heap_ok_def alloc_channel_def)
  moreover have "caches_ok ?w"
    using \<open>caches_ok w\<close> by (auto simp: caches_ok_def alloc_channel_def intro: pointers_mono)
  moreover have "linked ?w \<or> unlinked ?w"
    using \<open>linked w \<or> unlinked w\<close> by (simp add: linked_def unlinked_def alloc_channel_def)
  ultimately show ?thesis
    using ok by (simp add: grown_def world_ok_def hext_def alloc_channel_def)
qed

lemma grown_alloc_message:
  assumes ok: "world_ok w" and new: "message_ok (length (h_channels w)) (length (h_sockets w)) x"
  shows "grown w (snd (alloc_message x w))"
proof -
  let ?w = "snd (alloc_message x w)"
  have "heap_ok w" "caches_ok w" "linked w \<or> unlinked w" using ok by (simp_all add: world_ok_def)
  have "heap_ok ?w"
    using heap_ok_mono [OF \<open>heap_ok w\<close>, of "length (h_clans w)" "length (h_channels w)" "Suc (length (h_messages w))" "length (h_managers w)" "length (h_apis w)" "length (h_sockets w)"] new
    by (simp add: heap_ok_def alloc_message_def)
  moreover have "caches_ok ?w"
    using \<open>caches_ok w\<close> by (auto simp: caches_ok_def alloc_message_def intro: pointers_mono)
  moreover have "linked ?w \<or> unlinked ?w"
    using \<open>linked w \<or> unlinked w\<close> by (simp add: linked_def unlinked_def alloc_message_def)
  ultimately show ?thesis
    using ok by (simp add: grown_def world_ok_def hext_def alloc_message_def)
qed

lemma grown_alloc_user:
  assumes ok: "world_ok w" and new: "user_ok (length (h_managers w)) (length (h_sockets w)) x"
  shows "grown w (snd (alloc_user x w))"
proof -
  let ?w = "snd (alloc_user x w)"
  have "heap_ok w" "caches_ok w" "linked w \<or> unlinked w" using ok by (simp_all add: world_ok_def)
  have "heap_ok ?w"
    using heap_ok_mono [OF \<open>heap_ok w\<close>, of "length (h_clans w)" "length (h_channels w)" "length (h_messages w)" "length (h_managers w)" "length (h_apis w)" "length (h_sockets w)"] new
    by (simp add: heap_ok_def alloc_user_def)
  moreover have "caches_ok ?w"
    using \<open>caches_ok w\<close> by (auto simp: caches_ok_def alloc_user_def intro: pointers_mono)
  moreover have "linked ?w \<or> unlinked ?w"
    using \<open>linked w \<or> unlinked w\<close> by (simp add: linked_def unlinked_def alloc_user_def)
  ultimately show ?thesis
    using ok by (simp add: grown_def world_ok_def hext_def alloc_user_def)
qed

text \<open>The caches.\<close>

lemma grown_set_Clans: "world_ok w \<Longrightarrow> a < length (h_clans w) \<Longrightarrow> grown w (set_Clans k a w)"
  by (simp add: grown_def ok_defs hext_def set_Clans_def pointers_Set)

lemma grown_set_Channels: "world_ok w \<Longrightarrow> a < length (h_channels w) \<Longrightarrow> grown w (set_Channels k a w)"
  by (simp add: grown_def ok_defs hext_def set_Channels_def pointers_Set)

lemma grown_set_Users: "world_ok w \<Longrightarrow> a < length (h_users w) \<Longrightarrow> grown w (set_Users k a w)"
  by (simp add: grown_def ok_defs hext_def set_Users_def pointers_Set)

lemma grown_delete_Channels: "world_ok w \<Longrightarrow> grown w (delete_Channels k w)"
  by (simp add: grown_def ok_defs hext_def delete_Channels_def pointers_Delete)

lemma grown_set_clan_channel: "world_ok w \<Longrightarrow> a < length (h_channels w) \<Longrightarrow> grown w (set_clan_channel cl k a w)"
  unfolding set_clan_channel_def by (rule grown_upd_clan) (simp_all add: clan_ident_def pointers_Set)

lemma grown_delete_clan_channel: "world_ok w \<Longrightarrow> grown w (delete_clan_channel cl k w)"
  unfolding delete_clan_channel_def by (rule grown_upd_clan) (simp_all add: clan_ident_def pointers_Delete)

lemma grown_set_message: "world_ok w \<Longrightarrow> a < length (h_messages w) \<Longrightarrow> grown w (set_message ch k a w)"
  unfolding set_message_def by (rule grown_upd_channel) (simp_all add: channel_ident_def pointers_Set)

text \<open>Reading.\<close>

lemma ok_not_panicked: "world_ok w \<Longrightarrow> \<not> mc_panicked w"
  by (simp add: world_ok_def)

lemma ok_clan: "world_ok w \<Longrightarrow> a < length (h_clans w) \<Longrightarrow>
    clan_ok (length (h_channels w)) (length (h_apis w)) (length (h_sockets w)) (clan_at w a)"
  and ok_channel: "world_ok w \<Longrightarrow> a < length (h_channels w) \<Longrightarrow>
    channel_ok (length (h_clans w)) (length (h_messages w)) (length (h_sockets w)) (channel_at w a)"
  and ok_message: "world_ok w \<Longrightarrow> a < length (h_messages w) \<Longrightarrow> message_ok (length (h_channels w)) (length (h_sockets w)) (message_at w a)"
  and ok_user: "world_ok w \<Longrightarrow> a < length (h_users w) \<Longrightarrow> user_ok (length (h_managers w)) (length (h_sockets w)) (user_at w a)"
  and ok_manager: "world_ok w \<Longrightarrow> a < length (h_managers w) \<Longrightarrow> manager_ok (length (h_apis w)) (length (h_sockets w)) (manager_at w a)"
  by (simp_all add: ok_defs list_all_length clan_at_def channel_at_def message_at_def user_at_def manager_at_def)

lemma ok_caches:
  assumes "world_ok w"
  shows "cache_Get (mc_Clans w) k = Some a \<Longrightarrow> a < length (h_clans w)"
    "cache_Get (mc_Channels w) k = Some a \<Longrightarrow> a < length (h_channels w)"
    "cache_Get (mc_Users w) k = Some a \<Longrightarrow> a < length (h_users w)"
    "cl < length (h_clans w) \<Longrightarrow> cache_Get (cn_Channels (clan_at w cl)) k = Some a \<Longrightarrow> a < length (h_channels w)"
    "ch < length (h_channels w) \<Longrightarrow> cache_Get (tc_Messages (channel_at w ch)) k = Some a \<Longrightarrow> a < length (h_messages w)"
  using assms ok_clan [OF assms] ok_channel [OF assms]
  by (auto simp: world_ok_def caches_ok_def clan_ok_def channel_ok_def intro: pointers_Get)

text \<open>Once an object exists the client is linked.\<close>

lemma ok_linked:
  assumes "world_ok w" "mc_session w \<noteq> None \<or> mc_channelManager w \<noteq> None \<or> mc_apiClient w \<noteq> None \<or> h_sockets w \<noteq> [] \<or>
    h_managers w \<noteq> [] \<or> h_apis w \<noteq> []"
  shows "linked w"
  using assms by (auto simp: world_ok_def unlinked_def)

end
