(* ===== verification/Client_Safety.thy ===== *)
theory Client_Safety
  imports Client_Invariant
begin

text \<open>
  Every operation of the client keeps the invariant: a small logic of calls, one lemma per operation over
  it, and the reachable states of a client.
\<close>

section \<open>A logic of calls\<close>

text \<open>From a well-formed state the call leads to a later well-formed state, and a result satisfies \<open>Q\<close>.\<close>

definition safe :: "('x MezonClient, 'a) call \<Rightarrow> 'x MezonClient \<Rightarrow> ('a \<Rightarrow> 'x MezonClient \<Rightarrow> bool) \<Rightarrow> bool" where
  "safe m w Q \<longleftrightarrow> grown w (snd (m w)) \<and> (\<forall>x. fst (m w) = Inr x \<longrightarrow> Q x (snd (m w)))"

named_theorems safe_intros \<open>rules of the logic\<close>

lemma safe_ret [safe_intros]: "world_ok w \<Longrightarrow> Q x w \<Longrightarrow> safe (ret x) w Q"
  by (simp add: safe_def grown_refl)

lemma safe_fail [safe_intros]: "world_ok w \<Longrightarrow> safe (fail e) w Q"
  by (simp add: safe_def grown_refl)

lemma safe_gets [safe_intros]: "safe (m (f w)) w Q \<Longrightarrow> safe (gets f m) w Q"
  by (simp add: safe_def)

lemma safe_modify [safe_intros]: "grown w (f w) \<Longrightarrow> Q () (f w) \<Longrightarrow> safe (modify f) w Q"
  by (simp add: safe_def)

lemma safe_conseq: "safe m w Q \<Longrightarrow> (\<And>x w'. grown w w' \<Longrightarrow> Q x w' \<Longrightarrow> Q' x w') \<Longrightarrow> safe m w Q'"
  by (auto simp: safe_def)

lemma linked_grown: "grown w w' \<Longrightarrow> linked w \<Longrightarrow> linked w'"
  using hext_length(7) [of w w'] by (auto simp: grown_def world_ok_def linked_def unlinked_def within_def split: option.splits)

lemma safe_and_then:
  assumes m: "safe m w R"
    and f: "\<And>x w'. grown w w' \<Longrightarrow> world_ok w' \<Longrightarrow> (linked w \<longrightarrow> linked w') \<Longrightarrow> R x w' \<Longrightarrow> safe (f x) w' Q"
  shows "safe (and_then m f) w Q"
proof (cases "m w")
  case (Pair r w')
  then have g: "grown w w'" using m by (simp add: safe_def)
  then have "world_ok w'" "linked w \<longrightarrow> linked w'" by (auto simp: grown_def intro: linked_grown)
  with g f [of w'] m Pair show ?thesis
    by (cases r) (auto simp: safe_def and_then_def intro: grown_trans)
qed

lemma safe_attempt:
  assumes "safe m w R" "\<And>x w'. grown w w' \<Longrightarrow> R x w' \<Longrightarrow> Q (Inr x) w'" "\<And>e w'. grown w w' \<Longrightarrow> Q (Inl e) w'"
  shows "safe (attempt m) w Q"
  using assms by (cases "fst (m w)") (auto simp: safe_def attempt_def split: prod.splits)

lemma safe_attempt_True: "safe m w R \<Longrightarrow> safe (attempt m) w (\<lambda>_ _. True)"
  by (rule safe_attempt) auto

lemma safe_deref [safe_intros]: "within p n \<Longrightarrow> (\<And>a. p = Some a \<Longrightarrow> a < n \<Longrightarrow> safe (f a) w Q) \<Longrightarrow> safe (deref p f) w Q"
  by (cases p) (auto simp: safe_def deref_def)

lemma safe_outside: "world_ok w \<Longrightarrow> safe (outside m) w (\<lambda>_ _. True)"
  by (auto simp: safe_def outside_def intro: grown_out split: prod.splits)

lemma safe_on_api [safe_intros]: "world_ok w \<Longrightarrow> within p (length (h_apis w)) \<Longrightarrow> safe (on_api p f) w (\<lambda>_ _. True)"
  unfolding on_api_def by (intro safe_intros safe_outside)

lemma safe_on_transmit [safe_intros]: "world_ok w \<Longrightarrow> within p (length (h_sockets w)) \<Longrightarrow> safe (on_transmit env p f) w (\<lambda>_ _. True)"
  unfolding on_transmit_def by (intro safe_intros safe_outside)

lemma safe_on_request [safe_intros]: "world_ok w \<Longrightarrow> within p (length (h_sockets w)) \<Longrightarrow> safe (on_request env p f) w (\<lambda>_ _. True)"
  unfolding on_request_def by (intro safe_intros safe_outside)

lemmas and_then_api = safe_and_then [OF safe_on_api]
lemmas and_then_transmit = safe_and_then [OF safe_on_transmit]
lemmas and_then_request = safe_and_then [OF safe_on_request]
lemmas attempt_transmit = safe_and_then [OF safe_attempt_True [OF safe_on_transmit]]
lemmas attempt_outside = safe_and_then [OF safe_attempt_True [OF safe_outside]]

lemma grown_ok: "grown w w' \<Longrightarrow> world_ok w'"
  by (simp add: grown_def)

lemma grown_less:
  assumes "grown w w'"
  shows "a < length (h_clans w) \<Longrightarrow> a < length (h_clans w')" "a < length (h_channels w) \<Longrightarrow> a < length (h_channels w')"
    "a < length (h_messages w) \<Longrightarrow> a < length (h_messages w')" "a < length (h_users w) \<Longrightarrow> a < length (h_users w')"
    "a < length (h_managers w) \<Longrightarrow> a < length (h_managers w')" "a < length (h_sockets w) \<Longrightarrow> a < length (h_sockets w')"
    "within p (length (h_sockets w)) \<Longrightarrow> within p (length (h_sockets w'))" "within p (length (h_apis w)) \<Longrightarrow> within p (length (h_apis w'))"
    "within p (length (h_managers w)) \<Longrightarrow> within p (length (h_managers w'))" "within p (length (h_clans w)) \<Longrightarrow> within p (length (h_clans w'))"
    "within p (length (h_channels w)) \<Longrightarrow> within p (length (h_channels w'))"
  using assms hext_length [of w w'] by (auto simp: grown_def intro: within_mono)

text \<open>A call that changes the state and returns a pointer.\<close>

definition yields :: "('x MezonClient \<Rightarrow> nat) \<Rightarrow> 'x MezonClient \<Rightarrow> nat \<times> 'x MezonClient \<Rightarrow> bool" where
  "yields bound w r \<longleftrightarrow> grown w (snd r) \<and> fst r < bound (snd r)"

lemma safe_yields:
  assumes "yields bound w (f w)" "\<And>a w'. grown w w' \<Longrightarrow> a < bound w' \<Longrightarrow> Q a w'"
  shows "safe (\<lambda>w. case f w of (a, w) \<Rightarrow> (Inr a, w)) w Q"
  using assms by (cases "f w") (auto simp: safe_def yields_def)

section \<open>Constructors and caches\<close>

lemma newClan_ok:
  assumes "world_ok w" "linked w"
  shows "yields (\<lambda>w. length (h_clans w)) w (newClan i n wc cn t w)"
  using assms unfolding yields_def newClan_def
  by (auto intro!: grown_alloc_clan simp: clan_ok_def linked_def) (simp_all add: alloc_clan_def NewCacheManager_def)

lemma newTextChannel_ok:
  assumes "world_ok w" "within cl (length (h_clans w))" "within s (length (h_sockets w))"
  shows "yields (\<lambda>w. length (h_channels w)) w (newTextChannel d cl s w)"
  using assms unfolding yields_def newTextChannel_def
  by (auto intro!: grown_alloc_channel simp: channel_ok_def channel_updateFromDesc_def)
    (simp_all add: alloc_channel_def NewCacheManager_def)

lemma newMessage_ok:
  assumes "world_ok w" "within ch (length (h_channels w))" "within s (length (h_sockets w))"
  shows "yields (\<lambda>w. length (h_messages w)) w (newMessageFromChannelMessage cm ch s w)"
  using assms unfolding yields_def newMessageFromChannelMessage_def
  by (auto intro!: grown_alloc_message simp: message_ok_def) (simp_all add: alloc_message_def)

lemma linked_socket: "linked w \<Longrightarrow> within (mc_socket w) (length (h_sockets w))"
  by (simp add: linked_def)

lemma upsertChannel_ok:
  assumes ok: "world_ok w" and cl: "cl < length (h_clans w)" and "linked w"
  shows "yields (\<lambda>w. length (h_channels w)) w (upsertChannel cl desc w)"
proof -
  define cached where "cached = (case cache_Get (cn_Channels (clan_at w cl)) (itoaID (cd_ChannelId desc)) of
      Some a \<Rightarrow> Some a | None \<Rightarrow> cache_Get (mc_Channels w) (itoaID (cd_ChannelId desc)))"
  define r where "r = (case cached of
      Some a \<Rightarrow> (a, upd_channel a (channel_updateFromDesc desc) w)
    | None \<Rightarrow> newTextChannel desc (Some cl) (mc_socket w) w)"
  have "a < length (h_channels w)" if "cached = Some a" for a
    using that ok_caches [OF ok] cl by (auto simp: cached_def split: option.splits)
  then have r: "grown w (snd r)" "fst r < length (h_channels (snd r))"
    using newTextChannel_ok [of w "Some cl" "mc_socket w" desc] ok cl linked_socket [OF \<open>linked w\<close>]
    by (auto simp: r_def yields_def upd_channel_def [of _ _ w] split: option.splits
        intro!: grown_upd_channel [unfolded upd_channel_def] simp: channel_updateFromDesc_def channel_ident_def)
  define w1 where "w1 = set_clan_channel cl (itoaID (cd_ChannelId desc)) (fst r) (snd r)"
  have w1: "grown w w1" "fst r < length (h_channels w1)"
    using r grown_set_clan_channel [OF grown_ok [OF r(1)] r(2)] by (auto simp: w1_def set_clan_channel_def upd_clan_def intro: grown_trans)
  have "upsertChannel cl desc w = (fst r, set_Channels (itoaID (cd_ChannelId desc)) (fst r) w1)"
    by (simp add: upsertChannel_def Let_def cached_def r_def w1_def split: prod.splits)
  then show ?thesis
    using w1 grown_set_Channels [OF grown_ok [OF w1(1)] w1(2)] by (auto simp: yields_def set_Channels_def intro: grown_trans)
qed

lemma buildChannel_ok:
  assumes "world_ok w" "linked w"
  shows "yields (\<lambda>w. length (h_channels w)) w (buildChannel detail w)"
proof (cases "cache_Get (mc_Clans w) (itoaID (cd_ClanId detail))")
  case None
  define r where "r = newClan (itoaID (cd_ClanId detail)) ''unknown'' [] [] (case mc_session w of Some s \<Rightarrow> ses_Token s | None \<Rightarrow> []) w"
  have r: "grown w (snd r)" "fst r < length (h_clans (snd r))"
    using newClan_ok [OF assms] by (auto simp: r_def yields_def)
  define w1 where "w1 = set_Clans (itoaID (cd_ClanId detail)) (fst r) (snd r)"
  have w1: "grown w w1" "fst r < length (h_clans w1)"
    using r grown_set_Clans [OF grown_ok [OF r(1)] r(2)] by (auto simp: w1_def set_Clans_def intro: grown_trans)
  have "buildChannel detail w = upsertChannel (fst r) detail w1"
    by (simp add: buildChannel_def None Let_def r_def w1_def split: prod.splits)
  then show ?thesis
    using upsertChannel_ok [OF grown_ok [OF w1(1)] w1(2) linked_grown [OF w1(1) assms(2)]] w1(1)
    by (auto simp: yields_def intro: grown_trans)
next
  case (Some a)
  then show ?thesis
    using upsertChannel_ok [OF assms(1) ok_caches(1) [OF assms(1) Some] assms(2)] by (simp add: buildChannel_def)
qed

lemma safe_Fetch:
  assumes "world_ok w" "\<And>a. cache_Get (get w) k = Some a \<Longrightarrow> Q a w" "safe (f k) w Q"
    and "\<And>a w'. grown w w' \<Longrightarrow> Q a w' \<Longrightarrow> grown w' (upd (cache_Set (get w') k a) w') \<and> Q a (upd (cache_Set (get w') k a) w')"
  shows "safe (cache_Fetch get upd (Some f) k) w Q"
proof (cases "cache_Get (get w) k")
  case None
  have "safe (cache_Fetch get upd (Some f) k) w Q =
    safe (and_then (f k) (\<lambda>v w'. (Inr v, upd (cache_Set (get w') k v) w'))) w Q"
    by (simp add: safe_def cache_Fetch_def and_then_def None)
  moreover have "safe (and_then (f k) (\<lambda>v w'. (Inr v, upd (cache_Set (get w') k v) w'))) w Q"
    using assms(4) by (intro safe_and_then [OF assms(3)]) (simp add: safe_def)
  ultimately show ?thesis by simp
qed (use assms in \<open>auto simp: safe_def cache_Fetch_def intro: grown_refl\<close>)

section \<open>Loading channels and users\<close>

lemma l2Get_safe: "world_ok w \<Longrightarrow> safe (l2Get env k) w (\<lambda>_ _. True)"
  unfolding l2Get_def by (cases "ce_store env") (auto intro!: safe_intros attempt_outside)

lemma l2Set_grown: "world_ok w \<Longrightarrow> grown w (l2Set env k v w)" and l2Delete_grown: "world_ok w \<Longrightarrow> grown w (l2Delete env k w)"
  by (auto simp: l2Set_def l2Delete_def outside_def grown_refl split: option.splits prod.splits intro: grown_out)

lemma CreateDMChannel_safe: "world_ok w \<Longrightarrow> m < length (h_managers w) \<Longrightarrow> safe (CreateDMChannel env m u) w (\<lambda>_ _. True)"
  unfolding CreateDMChannel_def
  using ok_manager [of w m]
  by (auto simp: manager_ok_def split: option.splits
      intro!: safe_intros and_then_api attempt_transmit intro: grown_less)

lemma add_dms_ident: "manager_ident (foldl (\<lambda>mgr ch. add_dm ch mgr) mgr chs) = manager_ident mgr"
  by (induction chs arbitrary: mgr) (auto simp: add_dm_def manager_ident_def)

lemma InitAllDMChannels_safe: "world_ok w \<Longrightarrow> m < length (h_managers w) \<Longrightarrow> safe (InitAllDMChannels env m t) w (\<lambda>_ _. True)"
  unfolding InitAllDMChannels_def
  using ok_manager [of w m]
  by (auto simp: manager_ok_def add_dms_ident intro!: safe_intros and_then_api grown_upd_manager)
    (simp_all add: manager_ident_def)

lemma build_call_safe:
  assumes "world_ok w" "linked w"
  shows "safe (build_call detail) w (\<lambda>a w. a < length (h_channels w))"
  using buildChannel_ok [OF assms, of detail] by (auto simp: safe_def build_call_def yields_def split: prod.splits)

lemma ok_session: "mc_session w = Some s \<Longrightarrow> world_ok w \<Longrightarrow> linked w"
  and ok_mgr: "mc_channelManager w = Some m \<Longrightarrow> world_ok w \<Longrightarrow> linked w"
  by (auto intro: ok_linked)

lemma linked_api: "linked w \<Longrightarrow> within (mc_apiClient w) (length (h_apis w))"
  and linked_manager: "linked w \<Longrightarrow> within (mc_channelManager w) (length (h_managers w))"
  by (simp_all add: linked_def)

lemma store_channel_grown: "world_ok w \<Longrightarrow> grown w (store_channel env i d w)"
  by (auto simp: store_channel_def intro: l2Set_grown grown_refl split: sum.splits)

lemma fetch_detail_safe:
  assumes "world_ok w" "linked w"
  shows "safe (fetch_detail env t i) w (\<lambda>a w. a < length (h_channels w))"
  unfolding fetch_detail_def using assms
  by (auto intro!: safe_gets and_then_api safe_fail linked_api safe_and_then [OF safe_modify [of _ _ "\<lambda>_ _. True"]]
      build_call_safe store_channel_grown)

lemma fetchChannel_safe:
  assumes "world_ok w"
  shows "safe (fetchChannel env i) w (\<lambda>a w. a < length (h_channels w))"
  unfolding fetchChannel_def using assms
  by (auto intro!: safe_gets safe_fail safe_and_then [OF l2Get_safe] build_call_safe fetch_detail_safe
      dest: ok_session split: option.splits)

lemma Channels_Fetch_safe:
  assumes "world_ok w"
  shows "safe (Channels_Fetch env i) w (\<lambda>a w. a < length (h_channels w))"
  unfolding Channels_Fetch_def using assms
  by (intro safe_Fetch fetchChannel_safe) (auto intro: ok_caches grown_set_Channels [unfolded set_Channels_def, OF grown_ok])

lemma Clan_Channels_Fetch_safe:
  assumes "world_ok w" "cl < length (h_clans w)"
  shows "safe (Clan_Channels_Fetch env cl i) w (\<lambda>a w. a < length (h_channels w))"
proof -
  have set: "upd_clan cl (cn_Channels_update (\<lambda>_. cache_Set (cn_Channels (clan_at w cl)) k a)) w = set_clan_channel cl k a w" for w :: "'a MezonClient" and k a
    by (simp add: set_clan_channel_def upd_clan_def clan_at_def)
  show ?thesis
    unfolding Clan_Channels_Fetch_def using assms
    by (intro safe_Fetch Channels_Fetch_safe)
      (auto intro: ok_caches grown_set_clan_channel [OF grown_ok] simp: set, simp add: set_clan_channel_def upd_clan_def)
qed

lemma cacheDmChannel_grown: "world_ok w \<Longrightarrow> linked w \<Longrightarrow> grown w (snd (cacheDmChannel d w))"
  using buildChannel_ok [of w d] by (auto simp: cacheDmChannel_def yields_def grown_refl split: prod.splits)

text \<open>A loop whose body keeps the invariant of a linked client.\<close>

lemma grown_for_each:
  assumes "world_ok w" "linked w" "\<And>x w'. grown w w' \<Longrightarrow> linked w' \<Longrightarrow> grown w' (f x w')"
  shows "grown w (for_each f xs w)"
proof -
  have "grown w (for_each f xs w')" if "grown w w'" for w'
    using that assms(3) linked_grown [OF _ assms(2)] by (intro for_each_keeps [where P = "grown w"]) (auto intro: grown_trans)
  then show ?thesis using grown_refl [OF assms(1)] by simp
qed

lemma initDmChannelCache_grown: "world_ok w \<Longrightarrow> grown w (initDmChannelCache w)"
  unfolding initDmChannelCache_def
  by (auto simp: grown_refl split: option.splits
      intro!: grown_for_each cacheDmChannel_grown intro: ok_mgr grown_ok)

lemma buildUser_ok: "world_ok w \<Longrightarrow> linked w \<Longrightarrow> yields (\<lambda>w. length (h_users w)) w (buildUser dto w)"
  unfolding yields_def buildUser_def
  by (auto intro!: grown_alloc_user simp: user_ok_def linked_def) (simp_all add: alloc_user_def)

lemma cache_user_safe:
  assumes "world_ok w" "linked w"
  shows "safe (cache_user i dto) w (\<lambda>a w. a < length (h_users w))"
  using buildUser_ok [OF assms, of dto] grown_set_Users [of "snd (buildUser dto w)" "fst (buildUser dto w)" i]
  by (auto simp: safe_def cache_user_def yields_def grown_def split: prod.splits intro: hext_trans) (simp add: set_Users_def)

lemma CreateDM_attempt_safe:
  "world_ok w \<Longrightarrow> within p (length (h_managers w)) \<Longrightarrow> safe (attempt (deref p (\<lambda>m. CreateDMChannel env m i))) w (\<lambda>_ _. True)"
  by (rule safe_attempt_True [OF safe_deref]) (auto intro: CreateDMChannel_safe)

lemma fetchUser_safe:
  assumes "world_ok w"
  shows "safe (fetchUser env i) w (\<lambda>a w. a < length (h_users w))"
proof (cases "mc_session w")
  case (Some s)
  have new: "safe (\<lambda>w. cache_user i dto (l2Set env k b w)) w' (\<lambda>a w. a < length (h_users w))"
    if "world_ok w'" "linked w'" for w' :: "'a MezonClient" and dto k b
    using cache_user_safe [of "l2Set env k b w'" i dto] l2Set_grown [of w' env k b] that linked_grown
    by (auto simp: safe_def grown_def intro: hext_trans)
  have "linked w" using Some assms by (rule ok_session)
  then show ?thesis
    unfolding fetchUser_def Let_def using assms Some
    by (auto intro!: safe_gets safe_fail safe_and_then [OF l2Get_safe] cache_user_safe new
        safe_and_then [OF CreateDM_attempt_safe] linked_manager split: option.splits sum.splits)
qed (use assms in \<open>auto simp: fetchUser_def intro!: safe_gets safe_fail\<close>)

lemma Users_Fetch_safe:
  assumes "world_ok w"
  shows "safe (Users_Fetch env i) w (\<lambda>a w. a < length (h_users w))"
  unfolding Users_Fetch_def using assms
  by (intro safe_Fetch fetchUser_safe) (auto intro: ok_caches grown_set_Users [unfolded set_Users_def, OF grown_ok])

section \<open>Clans\<close>

lemma nonempty_linked:
  assumes "world_ok w"
  shows "within p (length (h_sockets w)) \<Longrightarrow> linked w" "within p (length (h_apis w)) \<Longrightarrow> linked w"
    "within p (length (h_managers w)) \<Longrightarrow> linked w"
  using assms by (auto simp: within_def world_ok_def unlinked_def split: option.splits)

lemma clan_parts:
  assumes "world_ok w" "cl < length (h_clans w)"
  shows "within (cn_apiClient (clan_at w cl)) (length (h_apis w))" "within (cn_socket (clan_at w cl)) (length (h_sockets w))" "linked w"
  using ok_clan [OF assms] nonempty_linked [OF assms(1)] by (auto simp: clan_ok_def)

lemma channel_parts:
  assumes "world_ok w" "ch < length (h_channels w)"
  shows "within (tc_Clan (channel_at w ch)) (length (h_clans w))" "within (tc_socket (channel_at w ch)) (length (h_sockets w))" "linked w"
  using ok_channel [OF assms] nonempty_linked [OF assms(1)] by (auto simp: channel_ok_def)

lemma message_parts:
  assumes "world_ok w" "m < length (h_messages w)"
  shows "within (ms_Channel (message_at w m)) (length (h_channels w))" "within (ms_socket (message_at w m)) (length (h_sockets w))" "linked w"
  using ok_message [OF assms] nonempty_linked [OF assms(1)] by (auto simp: message_ok_def)

lemma user_parts:
  assumes "world_ok w" "u < length (h_users w)"
  shows "within (us_channelManager (user_at w u)) (length (h_managers w))" "within (us_socket (user_at w u)) (length (h_sockets w))" "linked w"
  using ok_user [OF assms] nonempty_linked [OF assms(1)] by (auto simp: user_ok_def)

lemma reload_step_grown:
  assumes "world_ok w" "cl < length (h_clans w)"
  shows "grown w (upd_clan cl (\<lambda>c. c\<lparr>cn_channelsLoaded := True\<rparr>)
    (for_each (\<lambda>ch w. if cd_ChannelId ch = 0 then w else snd (upsertChannel cl ch w)) chs w))" (is "grown w (upd_clan cl _ ?w)")
proof -
  have "grown w ?w"
    using assms clan_parts(3) [OF assms] upsertChannel_ok
    by (intro grown_for_each) (auto simp: yields_def dest: grown_ok grown_less(1) [OF _ assms(2)] intro: grown_refl)
  moreover from this have "grown ?w (upd_clan cl (\<lambda>c. c\<lparr>cn_channelsLoaded := True\<rparr>) ?w)"
    by (intro grown_upd_clan) (auto simp: clan_ident_def grown_def)
  ultimately show ?thesis by (rule grown_trans)
qed

lemma reloadChannelsLocked_safe:
  assumes "world_ok w" "cl < length (h_clans w)"
  shows "safe (reloadChannelsLocked env cl) w (\<lambda>_ _. True)"
  unfolding reloadChannelsLocked_def using assms clan_parts [OF assms]
  by (auto intro!: safe_gets and_then_api safe_modify reload_step_grown intro: grown_less)

lemma LoadChannels_safe:
  assumes "world_ok w" "cl < length (h_clans w)"
  shows "safe (LoadChannels env cl) w (\<lambda>_ _. True)" "safe (ReloadChannels env cl) w (\<lambda>_ _. True)"
  using assms by (auto simp: LoadChannels_def ReloadChannels_def intro!: safe_gets safe_ret reloadChannelsLocked_safe)

lemma CreateChannel_safe:
  assumes "world_ok w" "cl < length (h_clans w)"
  shows "safe (CreateChannel env cl d) w (\<lambda>_ _. True)"
proof -
  have "safe (\<lambda>w. case newTextChannel ch (Some cl) s w of (channel, w) \<Rightarrow>
       (let i = tc_ID (channel_at w channel) in (Inr ch, set_Channels i channel (set_clan_channel cl i channel w)))) w' (\<lambda>_ _. True)"
    if w': "world_ok w'" "cl < length (h_clans w')" "within s (length (h_sockets w'))" for ch s and w' :: "'a MezonClient"
  proof -
    define r where "r = newTextChannel ch (Some cl) s w'"
    have r: "grown w' (snd r)" "fst r < length (h_channels (snd r))"
      using newTextChannel_ok [of w' "Some cl" s ch] w' by (simp_all add: r_def yields_def)
    define w1 where "w1 = set_clan_channel cl (tc_ID (channel_at (snd r) (fst r))) (fst r) (snd r)"
    have w1: "grown w' w1" "fst r < length (h_channels w1)"
      using r grown_set_clan_channel [OF grown_ok [OF r(1)] r(2)] by (auto simp: w1_def set_clan_channel_def upd_clan_def intro: grown_trans)
    have "grown w' (set_Channels (tc_ID (channel_at (snd r) (fst r))) (fst r) w1)"
      using w1(1) grown_set_Channels [OF grown_ok [OF w1(1)] w1(2)] by (rule grown_trans)
    then show ?thesis by (simp add: safe_def Let_def w1_def r_def case_prod_unfold)
  qed
  then show ?thesis
    unfolding CreateChannel_def using assms clan_parts [OF assms]
    by (auto intro!: safe_gets safe_fail and_then_api intro: grown_less)
qed

lemma DeleteChannel_safe:
  assumes "world_ok w" "cl < length (h_clans w)"
  shows "safe (DeleteChannel env cl k) w (\<lambda>_ _. True)"
  unfolding DeleteChannel_def using assms clan_parts [OF assms]
  by (auto intro!: safe_gets and_then_api safe_modify
      intro: grown_trans [OF grown_delete_clan_channel grown_delete_Channels [OF grown_ok [OF grown_delete_clan_channel]]])

lemma clan_request_safe:
  assumes "world_ok w" "cl < length (h_clans w)"
  shows "safe (clan_request cl f) w (\<lambda>_ _. True)"
  unfolding clan_request_def using assms clan_parts [OF assms] by (auto intro!: safe_gets safe_on_api)

lemma clan_requests_safe:
  assumes "world_ok w" "cl < length (h_clans w)"
  shows "safe (clan_ListRoles env cl limit state cursor) w (\<lambda>_ _. True)"
    "safe (clan_UpdateRole env cl req1) w (\<lambda>_ _. True)"
    "safe (clan_CreateRole env cl req2) w (\<lambda>_ _. True)"
    "safe (clan_DeleteRole env cl roleID) w (\<lambda>_ _. True)"
    "safe (clan_UpdateChannelPrivate env cl i private roleIDs userIDs) w (\<lambda>_ _. True)"
    "safe (clan_AddRolesToChannel env cl i roleIDs) w (\<lambda>_ _. True)"
    "safe (clan_SetRoleChannelPermission env cl req6) w (\<lambda>_ _. True)"
    "safe (clan_ListPermissions env cl) w (\<lambda>_ _. True)"
    "safe (clan_ListChannelVoiceUsers env cl limit) w (\<lambda>_ _. True)"
  by (auto simp: clan_ListRoles_def clan_UpdateRole_def clan_CreateRole_def clan_DeleteRole_def clan_UpdateChannelPrivate_def clan_AddRolesToChannel_def clan_SetRoleChannelPermission_def clan_ListPermissions_def clan_ListChannelVoiceUsers_def
      intro!: clan_request_safe [OF assms] safe_fail [OF assms(1)])

section \<open>Channels and messages\<close>

lemma alloc_message_simps [simp]:
  "fst (alloc_message x w) = length (h_messages w)" "length (h_messages (snd (alloc_message x w))) = Suc (length (h_messages w))"
  "h_messages (set_message ch k a w) = h_messages w" "h_channels (snd (alloc_message x w)) = h_channels w"
  by (simp_all add: alloc_message_def set_message_def upd_channel_def)


lemma loadMessageFromStore_safe:
  assumes "world_ok w" "ch < length (h_channels w)"
  shows "safe (loadMessageFromStore env ch i) w (\<lambda>a w. a < length (h_messages w))"
proof -
  have new: "safe (\<lambda>w. case newMessageFromChannelMessage cm (Some ch) s w of (m, w) \<Rightarrow> (Inr m, w)) w' (\<lambda>a w. a < length (h_messages w))"
    if "world_ok w'" "ch < length (h_channels w')" "within s (length (h_sockets w'))" for cm s and w' :: "'a MezonClient"
    using newMessage_ok [of w' "Some ch" s cm] that by (intro safe_yields) auto
  show ?thesis
    unfolding loadMessageFromStore_def using assms channel_parts [OF assms]
    by (auto intro!: safe_gets safe_fail attempt_outside new split: option.splits sum.splits)
      (blast intro: grown_less)+
qed

lemma Messages_Fetch_safe:
  assumes "world_ok w" "ch < length (h_channels w)"
  shows "safe (Messages_Fetch env ch i) w (\<lambda>a w. a < length (h_messages w))"
proof -
  have set: "upd_channel ch (tc_Messages_update (\<lambda>_. cache_Set (tc_Messages (channel_at w ch)) k a)) w = set_message ch k a w" for w :: "'a MezonClient" and k a
    by (simp add: set_message_def upd_channel_def channel_at_def)
  show ?thesis
    unfolding Messages_Fetch_def using assms
    by (intro safe_Fetch loadMessageFromStore_safe)
      (auto intro: ok_caches grown_set_message [OF grown_ok] simp: set)
qed

lemma createMessageFromAck_ok:
  assumes "world_ok w" "ch < length (h_channels w)"
  shows "yields (\<lambda>w. length (h_messages w)) w (createMessageFromAck ch ack data w)"
proof -
  define msg where "msg = message_of_ack w ch ack data"
  have "ms_Channel msg = Some ch" "ms_socket msg = tc_socket (channel_at w ch)"
    by (auto simp: msg_def message_of_ack_def Let_def split: option.splits sum.splits)
  then have g: "grown w (snd (alloc_message msg w))"
    using assms channel_parts [OF assms] by (intro grown_alloc_message) (auto simp: message_ok_def)
  then show ?thesis
    using grown_set_message [OF grown_ok [OF g], of "length (h_messages w)" ch "ms_ID msg"]
    by (auto simp: yields_def createMessageFromAck_def msg_def [symmetric] Let_def case_prod_unfold intro: grown_trans)
qed

lemma ack_call_safe:
  assumes "world_ok w" "ch < length (h_channels w)"
  shows "safe (\<lambda>w. case createMessageFromAck ch ack data w of (m, w) \<Rightarrow> (Inr m, w)) w (\<lambda>a w. a < length (h_messages w))"
  using createMessageFromAck_ok [OF assms] by (intro safe_yields) auto

lemma Send_safe:
  assumes "world_ok w" "ch < length (h_channels w)"
  shows "safe (send_job env ch data) w (\<lambda>a w. a < length (h_messages w))" "safe (Send env ch c opts) w (\<lambda>a w. a < length (h_messages w))"
  unfolding Send_def send_job_def using assms channel_parts [OF assms]
  by (auto intro!: safe_gets and_then_transmit ack_call_safe intro: grown_less)

lemma SendEphemeral_safe:
  assumes "world_ok w" "ch < length (h_channels w)"
  shows "safe (SendEphemeral env ch rs c opts) w (\<lambda>_ _. True)"
  unfolding SendEphemeral_def using assms channel_parts [OF assms] by (auto intro!: safe_gets safe_on_transmit)

lemma in_channel_safe:
  assumes "world_ok w" "within (ms_Channel m) (length (h_channels w))"
    and "\<And>ch. ch < length (h_channels w) \<Longrightarrow> ms_Channel m = Some ch \<Longrightarrow> (\<And>clan. safe (f ch (channel_at w ch) clan) w Q)"
  shows "safe (in_channel m f) w Q"
  unfolding in_channel_def
  by (rule safe_deref [OF assms(2)], rule safe_gets, rule safe_deref [OF channel_parts(1) [OF assms(1)]], assumption, rule safe_gets)
    (auto intro: assms(3))

lemma Reply_safe:
  assumes "world_ok w" "m < length (h_messages w)"
  shows "safe (Reply env m c opts) w (\<lambda>a w. a < length (h_messages w))"
  unfolding Reply_def Let_def using assms message_parts [OF assms]
  by (auto intro!: safe_gets in_channel_safe safe_and_then [OF safe_attempt_True [OF Users_Fetch_safe]] and_then_transmit ack_call_safe
      intro: grown_less)

lemma edited_ident: "message_ident (edited c mn at m) = message_ident m"
  by (auto simp: edited_def message_ident_def Let_def split: sum.splits)

lemma Update_safe:
  assumes "world_ok w" "m < length (h_messages w)"
  shows "safe (Update env m c mn at) w (\<lambda>a w. a < length (h_messages w))"
proof -
  have "safe (\<lambda>w. (Inr m, set_message ch k m (upd_message m (edited c mn at) w))) w' (\<lambda>a w. a < length (h_messages w))"
    if "world_ok w'" "m < length (h_messages w')" for ch k and w' :: "'a MezonClient"
    using that grown_upd_message [of w' "edited c mn at" m] grown_set_message [of "upd_message m (edited c mn at) w'" m ch k]
    by (auto simp: safe_def edited_ident upd_message_def [of m] set_message_def upd_channel_def grown_def intro: hext_trans)
  then show ?thesis
    unfolding Update_def using assms message_parts [OF assms]
    by (auto intro!: safe_gets in_channel_safe and_then_request intro: grown_less)
qed

lemma React_safe:
  assumes "world_ok w" "m < length (h_messages w)"
  shows "safe (React env m p) w (\<lambda>_ _. True)" "safe (Delete env m) w (\<lambda>_ _. True)"
  unfolding React_def Delete_def using assms message_parts [OF assms]
  by (auto intro!: safe_gets in_channel_safe safe_on_transmit safe_on_request)

section \<open>Users\<close>

lemma ensure_dm_safe:
  assumes "world_ok w" "u < length (h_users w)"
  shows "safe (ensure_dm env u) w (\<lambda>_ _. True)"
proof -
  have "grown w' (snd (cacheDmChannel ch (upd_user u (\<lambda>user. user\<lparr>us_DmChannelID := d\<rparr>) w')))"
    if "world_ok w'" "linked w'" for ch d and w' :: "'a MezonClient"
  proof -
    have "grown w' (upd_user u (\<lambda>user. user\<lparr>us_DmChannelID := d\<rparr>) w')"
      using that(1) by (rule grown_upd_user) (simp add: user_ident_def)
    with that show ?thesis by (meson cacheDmChannel_grown grown_ok grown_trans linked_grown)
  qed
  then show ?thesis
    unfolding ensure_dm_def using assms user_parts [OF assms]
    by (auto intro!: safe_gets safe_ret safe_modify safe_and_then [OF CreateDM_attempt_safe] split: sum.splits)
qed

lemma SendDM_safe:
  assumes "world_ok w" "u < length (h_users w)"
  shows "safe (SendDM env u c code at) w (\<lambda>a w. a < length (h_messages w))"
proof -
  have parts: "within (us_channelManager (user_at w' u)) (length (h_managers w'))" "within (us_socket (user_at w' u)) (length (h_sockets w'))"
    if "grown w w'" for w'
    using user_parts [OF grown_ok [OF that] grown_less(4) [OF that assms(2)]] by auto
  show ?thesis
    unfolding SendDM_def Let_def
    by (rule safe_and_then [OF ensure_dm_safe [OF assms]])
      (auto intro!: safe_gets safe_fail and_then_transmit safe_deref parts ack_call_safe safe_and_then [OF Channels_Fetch_safe]
        intro: grown_less(9))
qed

section \<open>Handlers\<close>

lemma safe_grown: "safe m w Q \<Longrightarrow> grown w (snd (m w))"
  by (simp add: safe_def)

lemma save_message_grown: "world_ok w \<Longrightarrow> grown w (save_message env e w)"
  by (auto simp: save_message_def outside_def grown_refl split: option.splits prod.splits intro: grown_out)

lemma load_clan_of_grown: "world_ok w \<Longrightarrow> grown w (load_clan_of env e w)"
  by (auto simp: load_clan_of_def grown_refl split: option.splits intro!: safe_grown [OF LoadChannels_safe(1)] dest: ok_caches(1))

lemma cacheChannelMessage_grown:
  assumes "world_ok w"
  shows "grown w (cacheChannelMessage env e w)"
proof -
  define w1 where "w1 = load_clan_of env e (save_message env e w)"
  have w1: "grown w w1"
    unfolding w1_def by (meson assms grown_ok grown_trans load_clan_of_grown save_message_grown)
  obtain r w2 where f: "Channels_Fetch env (chm_ChannelID e) w1 = (r, w2)" by fastforce
  have w2: "grown w1 w2" "r = Inr ch \<Longrightarrow> ch < length (h_channels w2)" for ch
    using Channels_Fetch_safe [OF grown_ok [OF w1], of env "chm_ChannelID e"] f by (simp_all add: safe_def)
  have "grown w2 (case newMessageFromChannelMessage e (Some ch) (mc_socket w2) w2 of (msg, w) \<Rightarrow> set_message ch (chm_MessageID e) msg w)"
    if "ch < length (h_channels w2)" for ch
    using newMessage_ok [of w2 "Some ch" "mc_socket w2" e] that grown_ok [OF w2(1)] channel_parts(3) [of w2 ch]
    by (auto simp: yields_def linked_socket case_prod_unfold intro: grown_trans grown_set_message [OF grown_ok])
  then show ?thesis
    using w1 w2 by (auto simp: cacheChannelMessage_def w1_def [symmetric] f split: sum.splits intro: grown_trans)
qed

lemma cacheUserFromMessage_grown:
  assumes "world_ok w" "linked w"
  shows "grown w (cacheUserFromMessage e w)"
proof -
  obtain m where m: "mc_channelManager w = Some m" "m < length (h_managers w)"
    using assms(2) by (auto simp: linked_def within_def split: option.splits)
  have "user_ident (enrich_user e d u) = user_ident u" for d u
    by (simp add: enrich_user_def user_ident_def)
  then have upd: "grown w (upd_user u (enrich_user e d) w)" for u d
    using assms(1) by (intro grown_upd_user) auto
  have new: "grown w (case alloc_user x w of (u, w) \<Rightarrow> set_Users k u w)"
    if "us_channelManager x = Some m" "us_socket x = mc_socket w" for x k
  proof -
    have g: "grown w (snd (alloc_user x w))"
      using assms m that by (intro grown_alloc_user) (auto simp: user_ok_def linked_def)
    have "length (h_users w) < length (h_users (snd (alloc_user x w)))" by (simp add: alloc_user_def)
    from grown_set_Users [OF grown_ok [OF g] this] g show ?thesis
      by (auto simp: alloc_user_def intro: grown_trans)
  qed
  show ?thesis
    using upd new assms(1) by (auto simp: cacheUserFromMessage_def m Let_def grown_refl split: option.splits)
qed

lemma drop_channel_grown:
  assumes "world_ok w"
  shows "grown w (drop_channel env ch cl w)"
proof -
  let ?i = "itoaID ch"
  let ?w = "l2Delete env (l2ChannelPrefix @ ?i) (delete_Channels ?i w)"
  have "grown w ?w" by (meson assms grown_delete_Channels grown_ok grown_trans l2Delete_grown)
  then show ?thesis
    by (auto simp: drop_channel_def Let_def split: option.splits intro: grown_trans grown_delete_clan_channel [OF grown_ok])
qed

text \<open>Handlers of the application may use the client as they like, within its interface.\<close>

definition app_safe :: "'x application \<Rightarrow> bool" where
  "app_safe app \<longleftrightarrow> (\<forall>n w. world_ok w \<longrightarrow> grown w (app_ready app n w) \<and> (\<forall>p. grown w (app_on app n p w)) \<and>
     (\<forall>m. grown w (app_message app n m w)))"

lemma run_handler_grown:
  assumes "app_safe app" "world_ok w" "h = 0 \<Longrightarrow> linked w"
  shows "grown w (run_handler env app h p w)"
proof (cases "h \<le> 2")
  case True
  have "grown w (cacheUserFromMessage m (cacheChannelMessage env m w))" if "linked w" for m
    by (meson assms(2) cacheChannelMessage_grown cacheUserFromMessage_grown grown_ok grown_trans linked_grown that)
  then show ?thesis
    using True assms(2,3) by (auto simp: run_handler_def grown_refl drop_channel_grown split: payload.splits)
next
  case False
  then show ?thesis
    using assms(1,2) by (auto simp: run_handler_def app_safe_def grown_refl split: payload.splits)
qed

lemma handlers_of_mem: "h \<in> set (handlers_of e ev) \<Longrightarrow> \<exists>hs. (ev, hs) \<in> set (handlers e) \<and> h \<in> set hs"
  by (cases "map_of (handlers e) ev") (auto simp: handlers_of_def dest: map_of_SomeD)

lemma internal_linked: "world_ok w \<Longrightarrow> 0 \<in> set (handlers_of (mc_events w) ev) \<Longrightarrow> linked w"
  by (auto simp: world_ok_def unlinked_def list_all_iff dest!: handlers_of_mem)

lemma emit_grown:
  assumes "app_safe app" "world_ok w"
  shows "grown w (emit env app ev p w)"
proof -
  have "grown w (foldl (\<lambda>s h. run_handler env app h p s) w' hs)"
    if "grown w w'" "0 \<in> set hs \<longrightarrow> linked w'" for w' hs
    using that
  proof (induction hs arbitrary: w')
    case (Cons h hs)
    have "grown w' (run_handler env app h p w')"
      using Cons.prems by (intro run_handler_grown [OF assms(1)]) (auto dest: grown_ok)
    then show ?case
      using Cons by (auto intro: grown_trans linked_grown)
  qed simp
  then show ?thesis
    using internal_linked [OF assms(2)] grown_refl [OF assms(2)] by (auto simp: emit_def emitter_emit_def)
qed

section \<open>Joining, login and reconnection\<close>

lemma grown_step:
  assumes "grown w w1" "linked w" "world_ok w1 \<Longrightarrow> linked w1 \<Longrightarrow> grown w1 w2"
  shows "grown w w2"
  using assms by (meson grown_ok grown_trans linked_grown)

lemma ensure_clan_grown:
  assumes "world_ok w" "linked w"
  shows "grown w (ensure_clan t cl w)"
proof (cases "cache_Get (mc_Clans w) (ci_id cl)")
  case None
  let ?r = "newClan (ci_id cl) (or_string (ci_name cl) ''unknown'') (ci_welcome cl) (ci_name cl) t w"
  have "grown w (snd ?r)" "fst ?r < length (h_clans (snd ?r))"
    using newClan_ok [OF assms] by (simp_all add: yields_def)
  then show ?thesis
    using assms(2) by (auto simp: ensure_clan_def None case_prod_unfold intro: grown_step grown_set_Clans)
next
  case (Some a)
  then show ?thesis
    using assms(1) by (auto simp: ensure_clan_def intro!: grown_upd_clan) (auto simp: clan_updateFromDesc_def clan_ident_def Let_def)
qed

lemma join_clan_grown: "world_ok w \<Longrightarrow> linked w \<Longrightarrow> grown w (snd (join_clan env cl w))"
  using safe_grown [OF safe_on_transmit [of w "mc_socket w" env "\<lambda>t. JoinClanChat t (ci_id cl)"]]
  by (auto simp: join_clan_def linked_socket split: prod.splits sum.splits)

lemma initClan_grown:
  assumes "world_ok w" "linked w"
  shows "grown w (snd (initClan env cl w))"
proof -
  have "grown w (snd (case ReloadChannels env a w of (Inl _, w) \<Rightarrow> (False, w) | (Inr _, w) \<Rightarrow> join_clan env cl w))"
    if "a < length (h_clans w)" for a
  proof (cases "ReloadChannels env a w")
    case (Pair r w')
    then have "grown w w'" using safe_grown [OF LoadChannels_safe(2) [OF assms(1) that], of env] by simp
    moreover from this have "grown w (snd (join_clan env cl w'))"
      using assms(2) join_clan_grown by (rule grown_step)
    ultimately show ?thesis using Pair by (cases r) auto
  qed
  then show ?thesis
    using assms join_clan_grown [OF assms] ok_caches(1) [OF assms(1)] by (auto simp: initClan_def grown_refl split: option.splits)
qed

lemma init_round_grown: "world_ok w \<Longrightarrow> linked w \<Longrightarrow> grown w (snd (init_round env cls w))"
proof (induction cls arbitrary: w)
  case (Cons cl cls)
  have "grown w (snd (init_round env cls (snd (initClan env cl w))))"
    using initClan_grown [OF Cons.prems] Cons.prems(2) Cons.IH by (rule grown_step)
  then show ?case by (simp add: Let_def case_prod_unfold)
qed (simp add: grown_refl)

lemma retry_rounds_grown: "world_ok w \<Longrightarrow> linked w \<Longrightarrow> grown w (snd (retry_rounds env k cls w))"
proof (induction k arbitrary: cls w)
  case (Suc k)
  have "grown w (snd (init_round env cls w))" using Suc.prems by (rule init_round_grown)
  with Suc show ?case
    by (auto simp: case_prod_unfold grown_refl intro: grown_trans grown_ok linked_grown)
qed (simp add: grown_refl)

lemma init_clans_grown: "world_ok w \<Longrightarrow> linked w \<Longrightarrow> grown w (snd (init_clans env cls w))"
  using init_round_grown [of w env cls] retry_rounds_grown [of "snd (init_round env cls w)" env 5]
  by (auto simp: init_clans_def case_prod_unfold intro: grown_trans grown_ok linked_grown)

lemma connectSocket_safe:
  assumes "world_ok w" "linked w"
  shows "safe (connectSocket env t) w (\<lambda>_ _. True)"
proof -
  have "grown w' (snd (init_clans env cls (for_each (ensure_clan t) cls w')))" if "world_ok w'" "linked w'" for cls and w' :: "'a MezonClient"
  proof -
    have "grown w' (for_each (ensure_clan t) cls w')"
      using that by (intro grown_for_each ensure_clan_grown) (auto intro: grown_ok)
    with that show ?thesis by (meson grown_ok grown_trans init_clans_grown linked_grown)
  qed
  then show ?thesis
    unfolding connectSocket_def using assms
    by (auto simp: Let_def intro!: safe_gets safe_fail safe_modify safe_and_then [OF safe_attempt_True [OF safe_on_api]] linked_api split: sum.splits)
qed

lemma postConnectInit_safe:
  assumes "world_ok w" "linked w"
  shows "safe (postConnectInit env t) w (\<lambda>_ _. True)"
proof -
  have "safe (attempt (gets mc_channelManager (\<lambda>m. deref m (\<lambda>m. InitAllDMChannels env m t)))) w' (\<lambda>_ _. True)"
    if "world_ok w'" "linked w'" for w' :: "'a MezonClient"
    by (rule safe_attempt_True, rule safe_gets, rule safe_deref [OF linked_manager [OF that(2)]])
      (rule InitAllDMChannels_safe [OF that(1)])
  note dm = safe_and_then [OF this]
  show ?thesis
    unfolding postConnectInit_def using assms
    by (auto intro!: safe_and_then [OF connectSocket_safe] dm safe_modify initDmChannelCache_grown)
qed

lemma handlers_emitter_on: "set (handlers (emitter_on ev h e)) \<subseteq> insert (ev, handlers_of e ev @ [h]) (set (handlers e))"
  using set_update_subset [of ev "handlers_of e ev @ [h]" "handlers e"] by (simp add: emitter_on_def)

lemma register_grown:
  assumes "world_ok w" "h = 0 \<Longrightarrow> linked w"
  shows "grown w (register ev h w)"
proof -
  have "unlinked (register ev h w)" if "unlinked w" "h \<noteq> 0"
    using that handlers_emitter_on [of ev h "mc_events w"] handlers_of_mem [of 0 "mc_events w" ev]
    by (fastforce simp: unlinked_def register_def list_all_iff)
  moreover have "linked (register ev h w) = linked w" by (simp add: linked_def register_def)
  ultimately show ?thesis
    using assms by (cases "h = 0") (auto simp: grown_def world_ok_def heap_ok_def caches_ok_def hext_def register_def)
qed

lemma bindInternalListeners_grown:
  assumes "world_ok w" "linked w"
  shows "grown w (bindInternalListeners w)"
proof -
  have "grown w (w\<lparr>mc_internalsBound := True\<rparr>)"
    using assms(1) by (simp add: grown_def world_ok_def heap_ok_def caches_ok_def hext_def linked_def unlinked_def)
  then have "grown w (register EventChannelMessage 0 (w\<lparr>mc_internalsBound := True\<rparr>))"
    using assms(2) by (rule grown_step) (rule register_grown)
  then have "grown w (register EventChannelDeleted 1 (register EventChannelMessage 0 (w\<lparr>mc_internalsBound := True\<rparr>)))"
    using assms(2) by (rule grown_step) (rule register_grown)
  then have "grown w (register EventChannelUpdated 2 (register EventChannelDeleted 1 (register EventChannelMessage 0
      (w\<lparr>mc_internalsBound := True\<rparr>))))"
    using assms(2) by (rule grown_step) (rule register_grown)
  then show ?thesis
    using assms by (simp add: bindInternalListeners_def Let_def grown_refl)
qed

text \<open>Login links the client: whatever it was before, the new managers are in place.\<close>

lemma initManagers_grown:
  assumes "\<not> mc_panicked w" "heap_ok w" "caches_ok w"
  shows "grown w (initManagers env basePath session w)" "linked (initManagers env basePath session w)"
proof -
  obtain api sk mgr where w1: "initManagers env basePath session w = bindInternalListeners (w\<lparr>
      h_apis := h_apis w @ [api], mc_apiClient := Some (length (h_apis w)),
      h_sockets := h_sockets w @ [sk], mc_socket := Some (length (h_sockets w)),
      h_managers := h_managers w @ [mgr], mc_channelManager := Some (length (h_managers w))\<rparr>)"
    and mgr: "chn_apiClient mgr = Some (length (h_apis w))" "chn_socket mgr = Some (length (h_sockets w))"
    by (simp add: initManagers_def newChannelManager_def Let_def)
  let ?w = "w\<lparr>h_apis := h_apis w @ [api], mc_apiClient := Some (length (h_apis w)),
      h_sockets := h_sockets w @ [sk], mc_socket := Some (length (h_sockets w)),
      h_managers := h_managers w @ [mgr], mc_channelManager := Some (length (h_managers w))\<rparr>"
  have "heap_ok ?w"
    using heap_ok_mono [OF assms(2), of "length (h_clans w)" "length (h_channels w)" "length (h_messages w)"
        "Suc (length (h_managers w))" "Suc (length (h_apis w))" "Suc (length (h_sockets w))"] mgr
    by (simp add: heap_ok_def manager_ok_def)
  moreover have "caches_ok ?w" "linked ?w" using assms(3) by (simp_all add: caches_ok_def linked_def)
  ultimately have g: "grown w ?w" "linked ?w"
    using assms(1) by (simp_all add: grown_def world_ok_def hext_def)
  have "grown ?w (bindInternalListeners ?w)"
    using grown_ok [OF g(1)] g(2) by (rule bindInternalListeners_grown)
  with g show "grown w (initManagers env basePath session w)" "linked (initManagers env basePath session w)"
    unfolding w1 by (auto intro: grown_trans linked_grown)
qed

lemma connect_safe: "world_ok w \<Longrightarrow> linked w \<Longrightarrow> safe (connect env session) w (\<lambda>_ _. True)"
  unfolding connect_def by (auto intro!: safe_gets safe_deref [OF linked_socket] safe_outside)

lemma session_managers:
  assumes "world_ok w"
  shows "grown w (case use_api_url env url (w\<lparr>mc_session := Some s\<rparr>) of (basePath, w) \<Rightarrow> initManagers env basePath (Some s) w)" (is ?G)
    and "linked (case use_api_url env url (w\<lparr>mc_session := Some s\<rparr>) of (basePath, w) \<Rightarrow> initManagers env basePath (Some s) w)" (is ?L)
proof -
  obtain basePath w1 where u: "use_api_url env url (w\<lparr>mc_session := Some s\<rparr>) = (basePath, w1)" by fastforce
  then have "\<not> mc_panicked w1" "heap_ok w1" "caches_ok w1" "hext w w1"
    using assms by (auto simp: use_api_url_def world_ok_def heap_ok_def caches_ok_def hext_def split: if_splits sum.splits)
  with initManagers_grown [of w1 env basePath "Some s"] u show ?G ?L
    by (auto simp: grown_def intro: hext_trans)
qed

lemma Login_safe:
  assumes "app_safe app" "world_ok w"
  shows "safe (Login env app) w (\<lambda>_ _. True)"
proof -
  have hd: "safe (modify (\<lambda>w. w\<lparr>mc_hardDisconnect := False\<rparr>)) w' (\<lambda>_ _. True)" if "world_ok w'" for w' :: "'a MezonClient"
    using that by (intro safe_modify) (simp_all add: grown_def world_ok_def heap_ok_def caches_ok_def hext_def linked_def unlinked_def)
  have auth: "safe (authenticate env) w' (\<lambda>_ _. True)" if "world_ok w'" for w' :: "'a MezonClient"
    unfolding authenticate_def using that by (intro safe_gets safe_outside)
  have managers: "safe (modify (\<lambda>w. case use_api_url env url (w\<lparr>mc_session := Some s\<rparr>) of
       (basePath, w) \<Rightarrow> initManagers env basePath (Some s) w)) w' (\<lambda>_ w. linked w)" if "world_ok w'" for url s and w' :: "'a MezonClient"
    using session_managers [OF that] by (intro safe_modify)
  show ?thesis
    unfolding Login_def Let_def using assms
    by (auto intro!: safe_and_then [OF hd] safe_and_then [OF auth] safe_fail safe_gets safe_and_then [OF managers]
        safe_and_then [OF connect_safe] safe_and_then [OF postConnectInit_safe] safe_modify emit_grown split: sum.splits)
qed

lemma reconnect_attempt_safe: "world_ok w \<Longrightarrow> safe (reconnect_attempt env) w (\<lambda>_ _. True)"
  unfolding reconnect_attempt_def
  by (auto intro!: safe_gets safe_ret safe_and_then [OF connect_safe] postConnectInit_safe dest: ok_session split: option.splits)

lemma client_Close_grown:
  assumes "world_ok w"
  shows "grown w (client_Close env w)"
proof -
  have "grown w (w\<lparr>mc_hardDisconnect := True\<rparr>)"
    using assms by (simp add: grown_def ok_defs hext_def)
  then show ?thesis
    by (auto simp: client_Close_def Let_def split: option.splits intro: grown_trans grown_out [OF grown_ok])
qed

lemma NewMezonClient_ok:
  assumes "NewMezonClient cfg x = Inr w"
  shows "world_ok w"
proof -
  have limit: "0 < cache_limit n" for n by (simp add: cache_limit_def defaultMaxCache_def)
  have new: "maxSize (NewCacheManager n) = n" for n by (simp add: NewCacheManager_def)
  have "cfg_BotID cfg \<noteq> []" using assms by (cases "cfg_BotID cfg = []") (simp_all add: NewMezonClient_def)
  moreover from this have "cfg_Token cfg \<noteq> []" using assms by (cases "cfg_Token cfg = []") (simp_all add: NewMezonClient_def)
  ultimately show ?thesis
    using assms by (auto simp: NewMezonClient_def Let_def ok_defs newEmitter_def limit new)
qed

section \<open>Reachable states\<close>

text \<open>What a program can do with a client: the operations on the client and on the objects it has got hold
  of, the events that arrive, and the reconnection.\<close>

inductive client_step :: "'x client_env \<Rightarrow> 'x application \<Rightarrow> 'x MezonClient \<Rightarrow> 'x MezonClient \<Rightarrow> bool"
  for env :: "'x client_env" and app :: "'x application" where
  step_On: "client_step env app w (On ev n w)"
| step_OnChannelMessage: "client_step env app w (OnChannelMessage n w)"
| step_OnReady: "client_step env app w (OnReady n w)"
| step_Login: "client_step env app w (snd (Login env app w))"
| step_reconnect: "client_step env app w (snd (reconnect_attempt env w))"
| step_Close: "client_step env app w (client_Close env w)"
| step_emit: "client_step env app w (emit env app ev p w)"
| step_outside: "client_step env app w (w\<lparr>mc_out := x\<rparr>)"
| step_fetch_channel: "client_step env app w (snd (Channels_Fetch env i w))"
| step_fetch_user: "client_step env app w (snd (Users_Fetch env i w))"
| step_clan_fetch: "cl < length (h_clans w) \<Longrightarrow> client_step env app w (snd (Clan_Channels_Fetch env cl i w))"
| step_load: "cl < length (h_clans w) \<Longrightarrow> client_step env app w (snd (LoadChannels env cl w))"
| step_reload: "cl < length (h_clans w) \<Longrightarrow> client_step env app w (snd (ReloadChannels env cl w))"
| step_create: "cl < length (h_clans w) \<Longrightarrow> client_step env app w (snd (CreateChannel env cl d w))"
| step_delete: "cl < length (h_clans w) \<Longrightarrow> client_step env app w (snd (DeleteChannel env cl i w))"
| step_ListRoles: "cl < length (h_clans w) \<Longrightarrow> client_step env app w (snd (clan_ListRoles env cl limit state cursor w))"
| step_UpdateRole: "cl < length (h_clans w) \<Longrightarrow> client_step env app w (snd (clan_UpdateRole env cl req w))"
| step_CreateRole: "cl < length (h_clans w) \<Longrightarrow> client_step env app w (snd (clan_CreateRole env cl req w))"
| step_DeleteRole: "cl < length (h_clans w) \<Longrightarrow> client_step env app w (snd (clan_DeleteRole env cl roleID w))"
| step_UpdateChannelPrivate: "cl < length (h_clans w) \<Longrightarrow> client_step env app w (snd (clan_UpdateChannelPrivate env cl i private roleIDs userIDs w))"
| step_AddRolesToChannel: "cl < length (h_clans w) \<Longrightarrow> client_step env app w (snd (clan_AddRolesToChannel env cl i roleIDs w))"
| step_SetRoleChannelPermission: "cl < length (h_clans w) \<Longrightarrow> client_step env app w (snd (clan_SetRoleChannelPermission env cl req w))"
| step_ListPermissions: "cl < length (h_clans w) \<Longrightarrow> client_step env app w (snd (clan_ListPermissions env cl w))"
| step_ListChannelVoiceUsers: "cl < length (h_clans w) \<Longrightarrow> client_step env app w (snd (clan_ListChannelVoiceUsers env cl limit w))"
| step_fetch_message: "ch < length (h_channels w) \<Longrightarrow> client_step env app w (snd (Messages_Fetch env ch i w))"
| step_send: "ch < length (h_channels w) \<Longrightarrow> client_step env app w (snd (send_job env ch data w))"
| step_ephemeral: "ch < length (h_channels w) \<Longrightarrow> client_step env app w (snd (SendEphemeral env ch rs c opts w))"
| step_reply: "m < length (h_messages w) \<Longrightarrow> client_step env app w (snd (Reply env m c opts w))"
| step_update: "m < length (h_messages w) \<Longrightarrow> client_step env app w (snd (Update env m c mns ats w))"
| step_react: "m < length (h_messages w) \<Longrightarrow> client_step env app w (snd (React env m rp w))"
| step_delete_message: "m < length (h_messages w) \<Longrightarrow> client_step env app w (snd (Delete env m w))"
| step_dm: "u < length (h_users w) \<Longrightarrow> client_step env app w (snd (SendDM env u c code ats w))"

lemma client_step_grown:
  assumes "client_step env app w w'" "app_safe app" "world_ok w"
  shows "grown w w'"
  using assms
proof (cases rule: client_step.cases)
  case (step_On ev n)
  then show ?thesis using assms(3) by (simp add: On_def register_grown)
next
  case (step_OnChannelMessage n)
  then show ?thesis using assms(3) by (simp add: OnChannelMessage_def register_grown)
next
  case (step_OnReady n)
  then show ?thesis using assms(3) by (simp add: OnReady_def register_grown)
qed (use assms(2,3) in \<open>auto intro: safe_grown Login_safe reconnect_attempt_safe client_Close_grown emit_grown grown_out
    Channels_Fetch_safe Users_Fetch_safe Clan_Channels_Fetch_safe LoadChannels_safe CreateChannel_safe DeleteChannel_safe
    clan_requests_safe Messages_Fetch_safe Send_safe SendEphemeral_safe Reply_safe Update_safe React_safe SendDM_safe\<close>)

lemma client_steps_grown:
  assumes "(client_step env app)\<^sup>*\<^sup>* w w'" "app_safe app" "world_ok w"
  shows "grown w w'"
  using assms(1)
proof (induction rule: rtranclp_induct)
  case (step w1 w2)
  then show ?case using client_step_grown [OF step.hyps(2) assms(2) grown_ok] by (blast intro: grown_trans)
qed (simp add: grown_refl assms(3))

end
