(* ===== verification/Client_Properties.thy ===== *)
theory Client_Properties
  imports Client_Safety
begin

text \<open>
  What the client promises: its state stays well formed, a reconnection updates the objects in place, sent
  and received messages are found again; and where it does not keep its word: a second login, a deleted
  channel in the shared store, the order of the handlers.
\<close>

section \<open>Well-formedness\<close>

lemma cache_inv_size: "cache_inv c \<Longrightarrow> 0 < maxSize c \<Longrightarrow> int (cache_Size c) \<le> maxSize c"
  by (simp add: cache_inv_def cache_Size_def)

lemma world_bounds:
  assumes "world_ok w"
  shows "int (cache_Size (mc_Channels w)) \<le> maxSize (mc_Channels w)" "int (cache_Size (mc_Users w)) \<le> maxSize (mc_Users w)"
    "list_all (\<lambda>c. cache_Size (tc_Messages c) \<le> 200) (h_channels w)"
proof -
  show "int (cache_Size (mc_Channels w)) \<le> maxSize (mc_Channels w)" "int (cache_Size (mc_Users w)) \<le> maxSize (mc_Users w)"
    using assms by (simp_all add: world_ok_def caches_ok_def pointers_def cache_inv_size)
  have "cache_Size (tc_Messages c) \<le> 200" if "channel_ok n k s c" for n k s c
    using that cache_inv_size [of "tc_Messages c"] by (simp add: channel_ok_def pointers_def)
  then show "list_all (\<lambda>c. cache_Size (tc_Messages c) \<le> 200) (h_channels w)"
    using assms by (auto simp: world_ok_def heap_ok_def list_all_iff)
qed

lemma NewMezonClient_limits:
  assumes "NewMezonClient cfg x = Inr w"
  shows "maxSize (mc_Channels w) = cache_limit (cfg_MaxChannelsCache cfg)" "maxSize (mc_Users w) = cache_limit (cfg_MaxUsersCache cfg)"
  using assms by (cases "cfg_BotID cfg = []"; cases "cfg_Token cfg = []"; auto simp: NewMezonClient_def Let_def NewCacheManager_def)+

text \<open>
  C7. Whatever a program does with a client, in every state it reaches each pointer of a cache or an object
  leads to an object of the right kind and no nil pointer has been followed, so that no operation of the
  SDK panics; the caches of channels and users keep the limits of the configuration, and a channel keeps at
  most 200 messages.
\<close>

theorem client_well_formed:
  assumes "NewMezonClient cfg x = Inr w0" "(client_step env app)\<^sup>*\<^sup>* w0 w" "app_safe app"
  shows "world_ok w \<and> \<not> mc_panicked w \<and>
    int (cache_Size (mc_Channels w)) \<le> cache_limit (cfg_MaxChannelsCache cfg) \<and>
    int (cache_Size (mc_Users w)) \<le> cache_limit (cfg_MaxUsersCache cfg) \<and>
    list_all (\<lambda>c. cache_Size (tc_Messages c) \<le> 200) (h_channels w)"
proof -
  have g: "grown w0 w" using client_steps_grown [OF assms(2,3) NewMezonClient_ok [OF assms(1)]] .
  then have "maxSize (mc_Channels w) = cache_limit (cfg_MaxChannelsCache cfg)" "maxSize (mc_Users w) = cache_limit (cfg_MaxUsersCache cfg)"
    using NewMezonClient_limits [OF assms(1)] by (simp_all add: grown_def hext_def)
  with world_bounds [OF grown_ok [OF g]] grown_ok [OF g] show ?thesis
    by (simp add: ok_not_panicked)
qed

section \<open>A reconnection\<close>

text \<open>What a later state keeps: the clans and channels under their ids, and the messages of the channels.\<close>

definition reuses :: "'x MezonClient \<Rightarrow> 'x MezonClient \<Rightarrow> bool" where
  "reuses w w' \<longleftrightarrow> grown w w' \<and>
     (\<forall>k a. cache_Get (mc_Clans w) k = Some a \<longrightarrow> cache_Get (mc_Clans w') k = Some a) \<and>
     (\<forall>cl k a. cl < length (h_clans w) \<longrightarrow> cache_Get (cn_Channels (clan_at w cl)) k = Some a \<longrightarrow>
        cache_Get (cn_Channels (clan_at w' cl)) k = Some a) \<and>
     (\<forall>ch. ch < length (h_channels w) \<longrightarrow> tc_Messages (channel_at w' ch) = tc_Messages (channel_at w ch)) \<and>
     h_messages w' = h_messages w \<and> h_users w' = h_users w \<and> mc_Users w' = mc_Users w"

lemma reuses_refl: "world_ok w \<Longrightarrow> reuses w w"
  by (simp add: reuses_def grown_refl)

lemma reuses_trans:
  assumes "reuses w w1" "reuses w1 w2"
  shows "reuses w w2"
proof -
  have "grown w w1" "grown w w2" using assms by (auto simp: reuses_def intro: grown_trans)
  with assms show ?thesis
    using grown_less(1,2) [OF \<open>grown w w1\<close>] by (simp add: reuses_def)
qed

lemma reuses_ok: "reuses w w' \<Longrightarrow> world_ok w'"
  by (auto simp: reuses_def dest: grown_ok)

lemma reuses_linked: "reuses w w' \<Longrightarrow> linked w \<Longrightarrow> linked w'"
  by (auto simp: reuses_def intro: linked_grown)

lemma reuses_less: "reuses w w' \<Longrightarrow> cl < length (h_clans w) \<Longrightarrow> cl < length (h_clans w')"
  by (auto simp: reuses_def intro: grown_less(1))

lemma reuses_step:
  assumes "reuses w w1" "linked w" "world_ok w1 \<Longrightarrow> linked w1 \<Longrightarrow> reuses w1 w2"
  shows "reuses w w2"
  using assms by (meson reuses_ok reuses_trans reuses_linked)

lemma reuses_out: "world_ok w \<Longrightarrow> reuses w (w\<lparr>mc_out := x\<rparr>)"
  by (simp add: reuses_def grown_out clan_at_def channel_at_def)

lemma cache_Get_Set_unbounded:
  "maxSize c = 0 \<Longrightarrow> cache_Get (cache_Set c k v) k' = (if k' = k then Some v else cache_Get c k')"
  by (auto simp: cache_Get_def cache_Set_def evict_oldest_def Let_def update_conv)

lemma reuses_outside: "world_ok w \<Longrightarrow> reuses w (snd (outside m w))"
  by (auto simp: outside_def reuses_out split: prod.splits)

lemma reuses_on_api: "world_ok w \<Longrightarrow> within p (length (h_apis w)) \<Longrightarrow> reuses w (snd (on_api p f w))"
  and reuses_on_transmit: "world_ok w \<Longrightarrow> within q (length (h_sockets w)) \<Longrightarrow> reuses w (snd (on_transmit env q g w))"
  by (auto simp: on_api_def on_transmit_def deref_def within_def reuses_outside split: option.splits)

lemma reuses_and_then:
  assumes "reuses w (snd (m w))" "linked w"
    and "\<And>x w'. world_ok w' \<Longrightarrow> linked w' \<Longrightarrow> reuses w w' \<Longrightarrow> m w = (Inr x, w') \<Longrightarrow> reuses w' (snd (f x w'))"
  shows "reuses w (snd (and_then m f w))"
proof (cases "m w")
  case (Pair r w')
  then show ?thesis
    using assms reuses_ok [of w w'] reuses_linked [of w w'] by (cases r) (auto simp: and_then_def intro: reuses_trans)
qed

lemma reuses_for_each:
  assumes "world_ok w" "linked w" "\<And>x w'. reuses w w' \<Longrightarrow> linked w' \<Longrightarrow> reuses w' (f x w')"
  shows "reuses w (for_each f xs w)"
proof -
  have "reuses w (for_each f xs w')" if "reuses w w'" for w'
    using that assms(2,3) by (intro for_each_keeps [where P = "reuses w"]) (auto intro: reuses_trans reuses_linked)
  then show ?thesis using reuses_refl [OF assms(1)] by simp
qed

text \<open>The clan caches have no limit, so that nothing is evicted.\<close>

lemma ok_unbounded: "world_ok w \<Longrightarrow> maxSize (mc_Clans w) = 0" "world_ok w \<Longrightarrow> cl < length (h_clans w) \<Longrightarrow> maxSize (cn_Channels (clan_at w cl)) = 0"
  using ok_clan [of w cl] by (simp_all add: world_ok_def caches_ok_def clan_ok_def)

lemma nth_update_field: "j < length xs \<Longrightarrow> f (g (xs ! i)) = f (xs ! i) \<Longrightarrow> f (xs[i := g (xs ! i)] ! j) = f (xs ! j)"
  by (cases "i = j") simp_all

lemma reuses_new_clan:
  assumes "world_ok w" "linked w" "cache_Get (mc_Clans w) k = None"
  shows "reuses w (case newClan i n wc cn t w of (a, w) \<Rightarrow> set_Clans k a w)"
proof -
  let ?r = "newClan i n wc cn t w"
  have r: "grown w (snd ?r)" "fst ?r < length (h_clans (snd ?r))"
    using newClan_ok [OF assms(1,2)] by (simp_all add: yields_def)
  then have "grown w (set_Clans k (fst ?r) (snd ?r))"
    using assms(2) by (auto intro: grown_step grown_set_Clans)
  then show ?thesis
    using assms(3) ok_unbounded(1) [OF assms(1)]
    by (auto simp: reuses_def newClan_def alloc_clan_def set_Clans_def cache_Get_Set_unbounded clan_at_def channel_at_def nth_append)
qed

lemma reuses_ensure_clan:
  assumes "world_ok w" "linked w"
  shows "reuses w (ensure_clan t cl w)"
proof (cases "cache_Get (mc_Clans w) (ci_id cl)")
  case None
  then show ?thesis using reuses_new_clan [OF assms None] by (simp add: ensure_clan_def)
next
  case (Some a)
  have "cn_Channels (clan_updateFromDesc n wc t c) = cn_Channels c" for n wc c
    by (simp add: clan_updateFromDesc_def Let_def)
  then have "cn_Channels (clan_at (ensure_clan t cl w) k) = cn_Channels (clan_at w k)" if "k < length (h_clans w)" for k
    using that by (simp add: ensure_clan_def Some upd_clan_def clan_at_def nth_update_field)
  then show ?thesis
    using ensure_clan_grown [OF assms, of t cl] by (simp add: reuses_def) (simp add: ensure_clan_def Some upd_clan_def channel_at_def)
qed

text \<open>An upsert keeps what is cached: the object found is the one that is written back.\<close>

lemma reuses_upsert:
  assumes "world_ok w" "linked w" "cl < length (h_clans w)"
  shows "reuses w (snd (upsertChannel cl d w))"
proof -
  let ?i = "itoaID (cd_ChannelId d)"
  define cached where "cached = (case cache_Get (cn_Channels (clan_at w cl)) ?i of Some a \<Rightarrow> Some a | None \<Rightarrow> cache_Get (mc_Channels w) ?i)"
  define r where "r = (case cached of Some a \<Rightarrow> (a, upd_channel a (channel_updateFromDesc d) w)
    | None \<Rightarrow> newTextChannel d (Some cl) (mc_socket w) w)"
  have u: "upsertChannel cl d w = (fst r, set_Channels ?i (fst r) (set_clan_channel cl ?i (fst r) (snd r)))"
    by (simp add: upsertChannel_def Let_def cached_def r_def split: prod.splits)
  have same: "h_clans (snd r) = h_clans w" "mc_Clans (snd r) = mc_Clans w" "h_messages (snd r) = h_messages w"
    "h_users (snd r) = h_users w" "mc_Users (snd r) = mc_Users w"
    by (auto simp: r_def upd_channel_def newTextChannel_def alloc_channel_def split: option.splits)
  have msgs: "tc_Messages (channel_at (snd r) ch) = tc_Messages (channel_at w ch)" if "ch < length (h_channels w)" for ch
    using that by (auto simp: r_def upd_channel_def newTextChannel_def alloc_channel_def channel_at_def nth_append split: option.splits
        intro!: nth_update_field) (simp add: channel_updateFromDesc_def)
  have chans: "cache_Get (cn_Channels (clan_at (set_clan_channel cl ?i (fst r) (snd r)) c)) k = Some a"
    if "c < length (h_clans w)" "cache_Get (cn_Channels (clan_at w c)) k = Some a" for c k a
    using that assms(3) ok_unbounded(2) [OF assms(1)] same(1)
    by (cases "c = cl"; cases "k = ?i")
      (auto simp: set_clan_channel_def upd_clan_def clan_at_def cache_Get_Set_unbounded r_def cached_def)
  have "grown w (snd (upsertChannel cl d w))"
    using upsertChannel_ok [OF assms(1,3,2)] by (simp add: yields_def)
  then show ?thesis
    using chans msgs by (simp add: reuses_def u) (simp add: set_Channels_def set_clan_channel_def upd_clan_def clan_at_def channel_at_def same)
qed

lemma reuses_build:
  assumes "world_ok w" "linked w"
  shows "reuses w (snd (buildChannel d w))"
proof (cases "cache_Get (mc_Clans w) (itoaID (cd_ClanId d))")
  case None
  let ?t = "case mc_session w of Some s \<Rightarrow> ses_Token s | None \<Rightarrow> []"
  let ?r = "newClan (itoaID (cd_ClanId d)) ''unknown'' [] [] ?t w"
  have w1: "reuses w (set_Clans (itoaID (cd_ClanId d)) (fst ?r) (snd ?r))"
    using reuses_new_clan [OF assms None, of "itoaID (cd_ClanId d)" "''unknown''" "[]" "[]" ?t] by (simp add: case_prod_unfold)
  have "fst ?r < length (h_clans (set_Clans (itoaID (cd_ClanId d)) (fst ?r) (snd ?r)))"
    using newClan_ok [OF assms] by (simp add: yields_def set_Clans_def)
  then have "reuses w (snd (upsertChannel (fst ?r) d (set_Clans (itoaID (cd_ClanId d)) (fst ?r) (snd ?r))))"
    by (intro reuses_step [OF w1 assms(2)] reuses_upsert)
  then show ?thesis by (simp add: buildChannel_def None Let_def case_prod_unfold)
next
  case (Some a)
  then show ?thesis
    using reuses_upsert [OF assms ok_caches(1) [OF assms(1) Some]] by (simp add: buildChannel_def)
qed

lemma reuses_loaded: "world_ok w \<Longrightarrow> linked w \<Longrightarrow> reuses w (upd_clan cl (\<lambda>c. c\<lparr>cn_channelsLoaded := True\<rparr>) w)"
proof -
  assume "world_ok w" "linked w"
  then have "grown w (upd_clan cl (\<lambda>c. c\<lparr>cn_channelsLoaded := True\<rparr>) w)" by (intro grown_upd_clan) (simp_all add: clan_ident_def)
  then show ?thesis by (auto simp: reuses_def upd_clan_def clan_at_def channel_at_def nth_update_field)
qed

lemma reuses_reload:
  assumes "world_ok w" "linked w" "cl < length (h_clans w)"
  shows "reuses w (snd (ReloadChannels env cl w))"
proof -
  have body: "reuses w' (upd_clan cl (\<lambda>c. c\<lparr>cn_channelsLoaded := True\<rparr>)
     (for_each (\<lambda>ch w. if cd_ChannelId ch = 0 then w else snd (upsertChannel cl ch w)) chs w'))"
    if "world_ok w'" "linked w'" "cl < length (h_clans w')" for chs and w' :: "'a MezonClient"
  proof (rule reuses_step [OF _ that(2) reuses_loaded])
    show "reuses w' (for_each (\<lambda>ch w. if cd_ChannelId ch = 0 then w else snd (upsertChannel cl ch w)) chs w')"
      using that by (intro reuses_for_each) (auto intro: reuses_refl reuses_upsert reuses_ok reuses_less)
  qed
  show ?thesis
    unfolding ReloadChannels_def reloadChannelsLocked_def using assms clan_parts [OF assms(1,3)]
    by (auto intro!: reuses_and_then reuses_on_api body intro: reuses_less split del: if_split)
qed

lemma reuses_join: "world_ok w \<Longrightarrow> linked w \<Longrightarrow> reuses w (snd (join_clan env cl w))"
  using reuses_on_transmit [of w "mc_socket w" env "\<lambda>t. JoinClanChat t (ci_id cl)"]
  by (auto simp: join_clan_def linked_socket split: prod.splits sum.splits)

lemma reuses_initClan:
  assumes "world_ok w" "linked w"
  shows "reuses w (snd (initClan env cl w))"
proof -
  have "reuses w (snd (case ReloadChannels env a w of (Inl _, w) \<Rightarrow> (False, w) | (Inr _, w) \<Rightarrow> join_clan env cl w))"
    if "a < length (h_clans w)" for a
  proof (cases "ReloadChannels env a w")
    case (Pair r w')
    then have "reuses w w'" using reuses_reload [OF assms that, of env] by simp
    moreover from this have "reuses w (snd (join_clan env cl w'))" using assms(2) reuses_join by (rule reuses_step)
    ultimately show ?thesis using Pair by (cases r) auto
  qed
  then show ?thesis
    using assms reuses_join [OF assms] ok_caches(1) [OF assms(1)] by (auto simp: initClan_def reuses_refl split: option.splits)
qed

lemma reuses_init_round: "world_ok w \<Longrightarrow> linked w \<Longrightarrow> reuses w (snd (init_round env cls w))"
proof (induction cls arbitrary: w)
  case (Cons cl cls)
  have "reuses w (snd (init_round env cls (snd (initClan env cl w))))"
    using reuses_initClan [OF Cons.prems] Cons.prems(2) Cons.IH by (rule reuses_step)
  then show ?case by (simp add: Let_def case_prod_unfold)
qed (simp add: reuses_refl)

lemma reuses_retry_rounds: "world_ok w \<Longrightarrow> linked w \<Longrightarrow> reuses w (snd (retry_rounds env k cls w))"
proof (induction k arbitrary: cls w)
  case (Suc k)
  have "reuses w (snd (retry_rounds env k (fst (init_round env cls w)) (snd (init_round env cls w))))"
    using reuses_init_round [OF Suc.prems] Suc.prems(2) Suc.IH by (rule reuses_step)
  then show ?case using Suc.prems by (auto simp: case_prod_unfold reuses_refl)
qed (simp add: reuses_refl)

lemma reuses_connectSocket:
  assumes "world_ok w" "linked w"
  shows "reuses w (snd (connectSocket env t w))"
proof -
  have body: "reuses w' (snd (init_clans env cls (for_each (ensure_clan t) cls w')))"
    if "world_ok w'" "linked w'" for cls and w' :: "'a MezonClient"
  proof -
    have "reuses w' (for_each (ensure_clan t) cls w')"
      using that by (intro reuses_for_each reuses_ensure_clan) (auto dest: reuses_ok)
    then have "reuses w' (snd (init_round env cls (for_each (ensure_clan t) cls w')))"
      using that(2) reuses_init_round by (rule reuses_step)
    then show ?thesis
      unfolding init_clans_def case_prod_unfold using that(2) reuses_retry_rounds by (rule reuses_step)
  qed
  have "reuses w (snd (attempt (on_api (mc_apiClient w) f) w))" for f :: "'a MezonApi \<Rightarrow> ('a, pb_ClanDescList) call"
    using reuses_on_api [OF assms(1) linked_api [OF assms(2)], of f] by (simp add: attempt_def case_prod_unfold)
  then show ?thesis
    unfolding connectSocket_def using assms
    by (auto simp: Let_def reuses_refl intro!: reuses_and_then body split: sum.splits)
qed

lemma reuses_dm:
  assumes "world_ok w" "linked w" "m < length (h_managers w)"
  shows "reuses w (snd (InitAllDMChannels env m t w))"
proof -
  have body: "reuses w' (upd_manager m f w')" if "world_ok w'" "\<And>g. manager_ident (f g) = manager_ident g" for f and w' :: "'a MezonClient"
    using grown_upd_manager [OF that(1), of f m] that(2) by (simp add: reuses_def) (simp add: upd_manager_def clan_at_def channel_at_def)
  have "within (chn_apiClient (manager_at w m)) (length (h_apis w))"
    using ok_manager [OF assms(1,3)] by (simp add: manager_ok_def)
  then show ?thesis
    unfolding InitAllDMChannels_def using assms
    by (auto simp: reuses_refl add_dms_ident intro!: reuses_and_then reuses_on_api body) (simp add: manager_ident_def)
qed

lemma reuses_initDm:
  assumes "world_ok w"
  shows "reuses w (initDmChannelCache w)"
proof -
  have "reuses w' (snd (cacheDmChannel d w'))" if "world_ok w'" "linked w'" for d and w' :: "'a MezonClient"
    using reuses_build [OF that, of d] that by (auto simp: cacheDmChannel_def reuses_refl split: prod.splits)
  then show ?thesis
    unfolding initDmChannelCache_def using assms
    by (auto simp: reuses_refl split: option.splits intro!: reuses_for_each intro: ok_mgr dest: reuses_ok)
qed

lemma reuses_postConnectInit:
  assumes "world_ok w" "linked w"
  shows "reuses w (snd (postConnectInit env t w))"
proof -
  have dm: "reuses w' (snd (attempt (gets mc_channelManager (\<lambda>m. deref m (\<lambda>m. InitAllDMChannels env m t))) w'))"
    if "world_ok w'" "linked w'" for w' :: "'a MezonClient"
    using reuses_dm [OF that] linked_manager [OF that(2)]
    by (auto simp: attempt_def deref_def within_def case_prod_unfold split: option.splits)
  show ?thesis
    unfolding postConnectInit_def using assms
    by (auto intro!: reuses_and_then reuses_connectSocket dm reuses_initDm)
qed

lemma reuses_reconnect:
  assumes "world_ok w"
  shows "reuses w (snd (reconnect_attempt env w))"
proof (cases "mc_session w")
  case (Some s)
  then have l: "linked w" using assms by (rule ok_session)
  have "reuses w (snd (connect env s w))"
    using l assms by (auto simp: connect_def deref_def linked_def within_def reuses_outside split: option.splits)
  then show ?thesis
    unfolding reconnect_attempt_def using assms Some l by (auto intro!: reuses_and_then reuses_postConnectInit)
qed (simp add: reconnect_attempt_def reuses_refl assms)

text \<open>
  C8. A reconnection refreshes the state in place: a clan and a channel that were cached are still the same
  objects under the same ids, with the messages they had, so that references a bot holds stay valid;
  this holds also for a reconnection that fails half way.
\<close>

theorem reconnect_keeps_objects:
  assumes "world_ok w" "cache_Get (mc_Clans w) c = Some cl" "cache_Get (cn_Channels (clan_at w cl)) i = Some ch"
    and "reconnect_attempt env w = (r, w')"
  shows "cache_Get (mc_Clans w') c = Some cl \<and> cn_ID (clan_at w' cl) = cn_ID (clan_at w cl) \<and>
    cache_Get (cn_Channels (clan_at w' cl)) i = Some ch \<and> tc_ID (channel_at w' ch) = tc_ID (channel_at w ch) \<and>
    tc_Clan (channel_at w' ch) = tc_Clan (channel_at w ch) \<and>
    tc_Messages (channel_at w' ch) = tc_Messages (channel_at w ch) \<and> h_messages w' = h_messages w \<and> world_ok w'"
proof -
  have r: "reuses w w'" using reuses_reconnect [OF assms(1), of env] assms(4) by simp
  have b: "cl < length (h_clans w)" "ch < length (h_channels w)"
    using ok_caches(1) [OF assms(1,2)] ok_caches(4) [OF assms(1) _ assms(3)] by auto
  have "hext w w'" using r by (simp add: reuses_def grown_def)
  from hext_ident(1,2) [OF this] b r assms(2,3) show ?thesis
    by (simp add: reuses_def clan_ident_def channel_ident_def grown_def)
qed

section \<open>A small environment\<close>

text \<open>An API that knows one channel \<open>d\<close>, a socket that accepts everything, and a shared store in memory: used to
  evaluate the properties.\<close>

definition sample_token :: string where
  "sample_token = token_of StdEncoding True ''h'' (claims_json 0 []) ''s''"

definition sample_codec :: "pb_ChannelDescription \<Rightarrow> api_codec" where
  "sample_codec d = \<lparr>ac_ChannelMessageSend = \<lambda>_. Inr [0], ac_CreateChannelDescRequest = \<lambda>_. Inr [0],
     ac_DeleteChannelDescRequest = \<lambda>_. Inr [0], ac_ListClanDescRequest = \<lambda>_. Inr [0],
     ac_ListChannelDetailRequest = \<lambda>_. Inr [0], ac_ListChannelDescsRequest = \<lambda>_. Inr [0],
     ac_ListChannelUsersRequest = \<lambda>_. Inr [0], ac_RoleListEventRequest = \<lambda>_. Inr [0],
     ac_UpdateRoleRequest = \<lambda>_. Inr [0], ac_CreateRoleRequest = \<lambda>_. Inr [0],
     ac_DeleteRoleRequest = \<lambda>_. Inr [0], ac_ChangeChannelPrivateRequest = \<lambda>_. Inr [0],
     ac_AddRoleChannelDescRequest = \<lambda>_. Inr [0], ac_UpdateRoleChannelRequest = \<lambda>_. Inr [0],
     ac_QuickMenuAccess = \<lambda>_. Inr [0], ac_ListQuickMenuAccessRequest = \<lambda>_. Inr [0],
     ac_u_ChannelMessageAck = \<lambda>_. Inr zero_ChannelMessageAck, ac_u_ChannelDescription = \<lambda>_. Inr d,
     ac_u_ClanDescList = \<lambda>_. Inr zero_ClanDescList, ac_u_ChannelDescList = \<lambda>_. Inr \<lparr>cdl_Channeldesc = [d]\<rparr>,
     ac_u_VoiceChannelUserList = \<lambda>_. Inr zero_VoiceChannelUserList, ac_u_RoleListEventResponse = \<lambda>_. Inr zero_RoleListEventResponse,
     ac_u_Role = \<lambda>_. Inr zero_Role, ac_u_PermissionList = \<lambda>_. Inr zero_PermissionList,
     ac_u_QuickMenuAccessList = \<lambda>_. Inr zero_QuickMenuAccessList, ac_u_Session = \<lambda>_. Inr (zero_Session\<lparr>ps_Token := sample_token\<rparr>)\<rparr>"

definition mem_store :: "(string \<times> bytes) list SharedStore" where
  "mem_store = \<lparr>ss_Get = \<lambda>k x. (Inr (map_of x k), x), ss_Set = \<lambda>k v ttl x. (Inr (), AList.update k v x),
     ss_Delete = \<lambda>k x. (Inr (), AList.delete k x)\<rparr>"

definition sample_env :: "pb_ChannelDescription \<Rightarrow> (string \<times> bytes) list client_env" where
  "sample_env d = \<lparr>ce_connect = \<lambda>_ _ _ _. ret (), ce_transmit = \<lambda>_ _. ret (zero_Envelope\<lparr>env_ChannelMessageAck := Some (zero_ChannelMessageAck\<lparr>ack_MessageId := 1\<rparr>)\<rparr>),
     ce_port = \<lambda>_. \<lparr>sp_IsOpen = \<lambda>_. False, sp_request = \<lambda>_ _. fail ErrSocketClosed\<rparr>, ce_close = \<lambda>_ x. x,
     ce_http = \<lambda>_. ret \<lparr>hp_status = 200, hp_body = Inr [0]\<rparr>, ce_api = sample_codec d, ce_marshal_desc = \<lambda>_. Inr [0],
     ce_update = (\<lambda>_. Inr [0], \<lambda>_. Inl EOF), ce_remove = (\<lambda>_. Inr [0], \<lambda>_. Inl EOF),
     ce_store = Some mem_store, ce_messageDB = None, ce_now = \<lambda>_. 0, ce_json_error = \<lambda>_. EOF, ce_url_Parse = \<lambda>_. Inl EOF\<rparr>"

definition sample_config :: ClientConfig where
  "sample_config = \<lparr>cfg_BotID = ''1'', cfg_Token = ''t'', cfg_Host = [], cfg_Port = [], cfg_UseSSL = None, cfg_Timeout = 0,
     cfg_Transport = TransportTCP, cfg_TLSInsecureSkipVerify = False, cfg_CacheTTL = 0, cfg_MaxUsersCache = 0, cfg_MaxChannelsCache = 0\<rparr>"

definition sample_session :: Session where
  "sample_session = \<lparr>ses_Token = ''s'', ses_RefreshToken = [], ses_CreatedAt = 0, ses_ExpiresAt = 0, ses_RefreshExpiresAt = 0,
     ses_UserID = ''1'', ses_Vars = None, ses_APIURL = [], ses_IDToken = [], ses_WsURL = [], ses_TcpURL = []\<rparr>"

text \<open>A client after its first login with the channel cached.\<close>

definition new_client :: "'x \<Rightarrow> 'x MezonClient" where
  "new_client x = projr (NewMezonClient sample_config x)"

definition logged_in :: "'x client_env \<Rightarrow> 'x \<Rightarrow> 'x MezonClient" where
  "logged_in env x = initManagers env ''https://gw'' (Some sample_session) (new_client x\<lparr>mc_session := Some sample_session\<rparr>)"

definition client_with :: "'x client_env \<Rightarrow> 'x \<Rightarrow> pb_ChannelDescription \<Rightarrow> 'x MezonClient" where
  "client_with env x d = snd (buildChannel d (logged_in env x))"

definition sample_client :: "pb_ChannelDescription \<Rightarrow> (string \<times> bytes) list MezonClient" where
  "sample_client d = client_with (sample_env d) [] d"

lemma new_client: "NewMezonClient sample_config x = Inr (new_client x)"
  by (simp add: new_client_def NewMezonClient_def sample_config_def Let_def)

lemma logged_in_ok: "world_ok (logged_in env x)" "linked (logged_in env x)"
proof -
  have "\<not> mc_panicked (new_client x\<lparr>mc_session := Some sample_session\<rparr>)" "heap_ok (new_client x\<lparr>mc_session := Some sample_session\<rparr>)"
    "caches_ok (new_client x\<lparr>mc_session := Some sample_session\<rparr>)"
    using NewMezonClient_ok [OF new_client, of x] by (simp_all add: world_ok_def heap_ok_def caches_ok_def)
  from initManagers_grown [OF this] show "world_ok (logged_in env x)" "linked (logged_in env x)"
    by (simp_all add: logged_in_def grown_def)
qed

lemma client_with_ok: "world_ok (client_with env x d)"
  using buildChannel_ok [OF logged_in_ok, of env x d] by (simp add: client_with_def yields_def grown_def)

lemma sample_client_ok: "world_ok (sample_client d)"
  by (simp add: sample_client_def client_with_ok)

lemma logged_in_caches: "mc_Clans (logged_in env x) = NewCacheManager 0" "mc_Channels (logged_in env x) = NewCacheManager 5000" "h_clans (logged_in env x) = []"
  "h_channels (logged_in env x) = []" "h_messages (logged_in env x) = []" "mc_socket (logged_in env x) = Some 0" "mc_session (logged_in env x) = Some sample_session"
  "mc_out (logged_in env x) = x"
  by (simp_all add: logged_in_def new_client_def NewMezonClient_def sample_config_def Let_def initManagers_def newChannelManager_def
      bindInternalListeners_def register_def cache_limit_def defaultMaxCache_def)

lemma cache_Get_New [simp]: "cache_Get (NewCacheManager n) k = None"
  by (simp add: cache_Get_def NewCacheManager_def)

lemma cache_Get_Set_same [simp]: "cache_Get (cache_Set c k v) k = Some v"
  by (simp add: cache_Get_def cache_Set_def Let_def update_conv)

lemmas client_with_simps = client_with_def buildChannel_def logged_in_caches newClan_def alloc_clan_def Let_def upsertChannel_def
  set_Clans_def newTextChannel_def alloc_channel_def set_clan_channel_def upd_clan_def set_Channels_def clan_at_def channel_at_def
  channel_updateFromDesc_def

lemma client_with_caches:
  "cache_Get (mc_Clans (client_with env x d)) (itoaID (cd_ClanId d)) = Some 0"
  "cache_Get (cn_Channels (clan_at (client_with env x d) 0)) (itoaID (cd_ChannelId d)) = Some 0"
  "cache_Get (mc_Channels (client_with env x d)) (itoaID (cd_ChannelId d)) = Some 0"
  "length (h_channels (client_with env x d)) = 1" "length (h_clans (client_with env x d)) = 1"
  "tc_ID (channel_at (client_with env x d) 0) = itoaID (cd_ChannelId d)" "cn_ID (clan_at (client_with env x d) 0) = itoaID (cd_ClanId d)"
  "tc_Clan (channel_at (client_with env x d) 0) = Some 0" "tc_Messages (channel_at (client_with env x d) 0) = NewCacheManager 200"
  "tc_socket (channel_at (client_with env x d) 0) = Some 0" "mc_session (client_with env x d) = Some sample_session"
  "mc_out (client_with env x d) = x" "h_messages (client_with env x d) = []" "h_apis (client_with env x d) = h_apis (logged_in env x)"
  "cn_apiClient (clan_at (client_with env x d) 0) = mc_apiClient (logged_in env x)"
  by (simp_all add: client_with_simps)

definition idle :: "'x application" where
  "idle = \<lparr>app_on = \<lambda>_ _ w. w, app_message = \<lambda>_ _ w. w, app_ready = \<lambda>_ w. w\<rparr>"

lemma idle_safe: "app_safe idle"
  by (simp add: app_safe_def idle_def grown_refl)

theorem client_well_formed_witness:
  "let env = sample_env zero_ChannelDescription; w = client_Close env (snd (Channels_Fetch env ''5'' (snd (Login env idle (OnReady 0 (new_client []))))))
   in world_ok w \<and> \<not> mc_panicked w \<and> int (cache_Size (mc_Channels w)) \<le> 5000"
proof -
  let ?env = "sample_env zero_ChannelDescription"
  let ?w = "client_Close ?env (snd (Channels_Fetch ?env ''5'' (snd (Login ?env idle (OnReady 0 (new_client []))))))"
  have "(client_step ?env idle)\<^sup>*\<^sup>* (new_client []) ?w"
    by (meson client_step.intros(3,4,6,9) rtranclp.rtrancl_refl rtranclp.rtrancl_into_rtrancl)
  from client_well_formed [OF new_client this idle_safe] show ?thesis
    by (simp add: Let_def sample_config_def cache_limit_def defaultMaxCache_def)
qed

theorem reconnect_keeps_objects_witness:
  "let d = zero_ChannelDescription\<lparr>cd_ChannelId := 5, cd_ClanId := 7\<rparr>; w = sample_client d; w' = snd (reconnect_attempt (sample_env d) w)
   in cache_Get (mc_Clans w') (itoaID 7) = Some 0 \<and> cache_Get (cn_Channels (clan_at w' 0)) (itoaID 5) = Some 0 \<and>
      tc_Messages (channel_at w' 0) = tc_Messages (channel_at w 0)"
proof -
  define d where "d = zero_ChannelDescription\<lparr>cd_ChannelId := 5, cd_ClanId := 7\<rparr>"
  have "cache_Get (mc_Clans (sample_client d)) (itoaID 7) = Some 0"
    "cache_Get (cn_Channels (clan_at (sample_client d) 0)) (itoaID 5) = Some 0"
    using client_with_caches(1,2) [where env = "sample_env d" and x = "[]" and d = d] by (simp_all add: d_def sample_client_def)
  from reconnect_keeps_objects [OF sample_client_ok this prod.collapse [symmetric]] show ?thesis
    by (simp add: Let_def d_def [symmetric])
qed

section \<open>Logging in again\<close>

definition newer_socket :: "nat \<Rightarrow> 'x MezonClient \<Rightarrow> bool" where
  "newer_socket n w \<longleftrightarrow> linked w \<and> (case mc_socket w of Some s \<Rightarrow> n \<le> s | None \<Rightarrow> False)"

lemma newer_socket_grown:
  assumes "grown w w'" "newer_socket n w"
  shows "newer_socket n w'"
proof -
  have "linked w'" using assms by (auto simp: newer_socket_def intro: linked_grown)
  moreover have "n \<le> length (h_sockets w)" using assms(2) by (auto simp: newer_socket_def linked_def within_def split: option.splits)
  ultimately show ?thesis
    using assms by (auto simp: newer_socket_def grown_def hext_def split: option.splits)
qed

lemma initManagers_socket: "mc_socket (initManagers env basePath session w) = Some (length (h_sockets w))"
  by (simp add: initManagers_def newChannelManager_def bindInternalListeners_def register_def Let_def)

lemma session_managers_newer:
  assumes "world_ok w" "n \<le> length (h_sockets w)"
  shows "newer_socket n (case use_api_url env url (w\<lparr>mc_session := Some s\<rparr>) of (basePath, w) \<Rightarrow> initManagers env basePath (Some s) w)"
proof -
  have "h_sockets (snd (use_api_url env url w')) = h_sockets w'" for w' :: "'a MezonClient"
    by (auto simp: use_api_url_def split: sum.splits)
  then show ?thesis
    using session_managers(2) [OF assms(1), where env = env and url = url and s = s] assms(2)
    by (simp add: newer_socket_def case_prod_unfold initManagers_socket)
qed

lemma Login_newer_socket:
  assumes "app_safe app" "world_ok w"
  shows "safe (Login env app) w (\<lambda>_. newer_socket (length (h_sockets w)))"
proof -
  let ?n = "length (h_sockets w)"
  have hd: "safe (modify (\<lambda>w. w\<lparr>mc_hardDisconnect := False\<rparr>)) w' (\<lambda>_ w. ?n \<le> length (h_sockets w))"
    if "world_ok w'" "?n \<le> length (h_sockets w')" for w' :: "'a MezonClient"
    using that by (intro safe_modify) (simp_all add: grown_def world_ok_def heap_ok_def caches_ok_def hext_def linked_def unlinked_def)
  have auth: "safe (authenticate env) w' (\<lambda>_ w. ?n \<le> length (h_sockets w))" if "world_ok w'" "?n \<le> length (h_sockets w')" for w' :: "'a MezonClient"
    unfolding authenticate_def using that
    by (intro safe_gets safe_conseq [OF safe_outside]) (auto dest: hext_length(7) simp: grown_def)
  have managers: "safe (modify (\<lambda>w. case use_api_url env url (w\<lparr>mc_session := Some s\<rparr>) of
       (basePath, w) \<Rightarrow> initManagers env basePath (Some s) w)) w' (\<lambda>_ w. linked w \<and> newer_socket ?n w)" if "world_ok w'" "?n \<le> length (h_sockets w')" for url s and w' :: "'a MezonClient"
    using session_managers [OF that(1)] session_managers_newer [OF that] by (intro safe_modify conjI)
  show ?thesis
    unfolding Login_def Let_def using assms
    by (auto intro!: safe_and_then [OF hd] safe_and_then [OF auth] safe_fail safe_gets safe_and_then [OF managers]
        safe_and_then [OF connect_safe] safe_and_then [OF postConnectInit_safe] safe_modify emit_grown split: sum.splits)
      (meson newer_socket_grown emit_grown)+
qed

text \<open>
  A second login gives the client a new socket, but the channels that are cached keep the old one: also
  after the login a message to such a channel goes out on the connection from before, which fails when
  the client was closed in between.
\<close>

theorem relogin_keeps_old_socket:
  assumes "world_ok w" "app_safe app" "ch < length (h_channels w)" "Login env app w = (Inr (), w')"
  shows "\<exists>old. tc_socket (channel_at w ch) = Some old \<and> mc_socket w' \<noteq> Some old \<and>
    send_job env ch data w' = and_then (outside (WriteChatMessage (ce_transmit env old) data))
      (\<lambda>ack w. case createMessageFromAck ch ack data w of (m, w) \<Rightarrow> (Inr m, w)) w'"
proof -
  obtain old where old: "tc_socket (channel_at w ch) = Some old" "old < length (h_sockets w)"
    using channel_parts(2) [OF assms(1,3)] by (auto simp: within_def split: option.splits)
  have login: "grown w w'" "newer_socket (length (h_sockets w)) w'"
    using Login_newer_socket [OF assms(2,1), of env] assms(4) by (auto simp: safe_def)
  then have "tc_socket (channel_at w' ch) = Some old"
    using hext_ident(2) [of w w' ch] assms(3) old(1) by (simp add: grown_def channel_ident_def)
  moreover have "mc_socket w' \<noteq> Some old" using login(2) old(2) by (auto simp: newer_socket_def)
  ultimately show ?thesis
    using old(1) by (auto simp: send_job_def on_transmit_def deref_def and_then_def fun_eq_iff)
qed

lemma sample_NewSession: "\<exists>ses. NewSession jerr now sample_token [] u au it ws = Inr ses"
proof -
  have "decodeJWT jerr sample_token = Inr (0, Some [])"
    unfolding sample_token_def by (rule decodeJWT_token) (simp_all add: b64_ok_def max_nesting_def StdEncoding_def)
  then show ?thesis by (simp add: NewSession_def session_update_def)
qed

lemma sample_api:
  "a = AttachSocket (NewMezonApi (ce_http (sample_env d)) t u n) (ce_port (sample_env d) k) \<Longrightarrow>
   fst (ListClanDescs (ce_api (sample_env d)) a b 0 0 [] x) = Inr zero_ClanDescList"
  by (simp add: ListClanDescs_def doProto_def doProtoSocket_def doProtoHttp_def decode_into_def sample_env_def sample_codec_def
      AttachSocket_def NewMezonApi_def Let_def)

lemma fst_and_then: "fst (and_then m f w) = (case fst (m w) of Inl e \<Rightarrow> Inl e | Inr x \<Rightarrow> fst (f x (snd (m w))))"
  by (simp add: and_then_def case_prod_unfold split: sum.splits)

lemma initManagers_api:
  "mc_apiClient (initManagers env basePath session w) = Some (length (h_apis w))"
  "h_apis (initManagers env basePath session w) ! length (h_apis w) =
     AttachSocket (NewMezonApi (ce_http env) (mc_Token w) basePath (mc_Timeout w)) (ce_port env (length (h_sockets w)))"
  by (simp_all add: initManagers_def newChannelManager_def bindInternalListeners_def register_def Let_def)

lemma sample_postConnectInit:
  assumes "mc_apiClient w = Some a" "h_apis w ! a = AttachSocket (NewMezonApi (ce_http (sample_env d)) t u n) (ce_port (sample_env d) k)"
  shows "fst (postConnectInit (sample_env d) tok w) = Inr ()"
  using assms sample_api [of "h_apis w ! a" d t u n k tok "mc_out w"]
  by (simp add: postConnectInit_def connectSocket_def fst_and_then on_api_def deref_def attempt_def outside_def case_prod_unfold)

lemma sample_Login: "fst (Login (sample_env d) app w) = Inr ()"
proof -
  obtain ses where ses: "NewSession (ce_json_error (sample_env d)) 0 sample_token [] (itoaID 0) [] [] [] = Inr ses"
    using sample_NewSession by blast
  let ?w = "initManagers (sample_env d) (mc_loginBasePath w) (Some (ses\<lparr>ses_TcpURL := []\<rparr>))
    (w\<lparr>mc_hardDisconnect := False, mc_session := Some (ses\<lparr>ses_TcpURL := []\<rparr>)\<rparr>)"
  have auth: "authenticate (sample_env d) w' = (Inr (zero_Session\<lparr>ps_Token := sample_token\<rparr>), w')" for w'
    by (simp add: authenticate_def outside_def MezonAuthenticate_def sample_env_def sample_codec_def NewMezonApi_def Let_def)
  have conn: "connect (sample_env d) s ?w = (Inr (), ?w)" for s
    by (simp add: connect_def deref_def initManagers_socket outside_def sample_env_def)
  have post: "fst (postConnectInit (sample_env d) tok ?w) = Inr ()" for tok
    by (rule sample_postConnectInit [OF initManagers_api])
  have "sample_token \<noteq> []" by (simp add: sample_token_def token_of_def)
  then show ?thesis
    using ses post by (simp add: Login_def Let_def fst_and_then auth use_api_url_def zero_Session_def conn sample_env_def [of d, THEN arg_cong [where f = ce_now]])
qed

theorem relogin_keeps_old_socket_witness:
  "\<exists>old. tc_socket (channel_at (sample_client zero_ChannelDescription) 0) = Some old \<and>
     mc_socket (snd (Login (sample_env zero_ChannelDescription) idle (sample_client zero_ChannelDescription))) \<noteq> Some old"
proof -
  let ?d = zero_ChannelDescription
  have "Login (sample_env ?d) idle (sample_client ?d) = (Inr (), snd (Login (sample_env ?d) idle (sample_client ?d)))"
    using sample_Login [of ?d idle "sample_client ?d"] by (metis prod.collapse)
  moreover have "0 < length (h_channels (sample_client ?d))" by (simp add: sample_client_def client_with_caches)
  ultimately show ?thesis
    using relogin_keeps_old_socket [OF sample_client_ok idle_safe] by blast
qed

section \<open>Deleting a channel\<close>

lemma cache_Get_Delete_same: "cache_Get (snd (cache_Delete c k)) k = None"
  by (simp add: cache_Get_def cache_Delete_def delete_conv)

text \<open>
  \<^verbatim>\<open>Clan.DeleteChannel\<close> evicts the channel from the caches in memory but not from the shared store: as long
  as the store has a description for the id, the next lookup finds the deleted channel again, as a new
  object made from that description, without asking the server. The handler of the event the server sends
  does remove the entry.
\<close>

theorem deleted_channel_returns_from_store:
  assumes "world_ok w" "cl < length (h_clans w)" "DeleteChannel env cl i w = (Inr (), w1)"
    and "ce_store env = Some store" "ss_Get store (l2ChannelPrefix @ i) (mc_out w1) = (Inr (Some b), x)"
    and "ac_u_ChannelDescription (ce_api env) b = Inr d" "itoaID (cd_ChannelId d) = i" "mc_session w \<noteq> None"
    and "cache_Get (mc_Clans w) (itoaID (cd_ClanId d)) = Some cl"
  shows "cache_Get (mc_Channels w1) i = None \<and>
    (\<exists>w2. Channels_Fetch env i w1 = (Inr (length (h_channels w1)), w2) \<and> tc_ID (channel_at w2 (length (h_channels w1))) = i \<and>
       cache_Get (mc_Channels w2) i = Some (length (h_channels w1)) \<and> mc_out w2 = x)"
proof -
  obtain y where w1: "w1 = delete_Channels i (delete_clan_channel cl i (w\<lparr>mc_out := y\<rparr>))"
    using assms(3) by (auto simp: DeleteChannel_def on_api_def deref_def outside_def dest!: and_then_InrD split: option.splits prod.splits)
  have gone: "cache_Get (mc_Channels w1) i = None" "cache_Get (cn_Channels (clan_at w1 cl)) i = None"
    using assms(2) by (simp_all add: w1 delete_Channels_def delete_clan_channel_def upd_clan_def clan_at_def cache_Get_Delete_same)
  have same: "mc_session w1 = mc_session w" "mc_Clans w1 = mc_Clans w" "length (h_clans w1) = length (h_clans w)"
    by (simp_all add: w1 delete_Channels_def delete_clan_channel_def upd_clan_def)
  have hit: "l2Get env (l2ChannelPrefix @ i) w1 = (Inr (Some b), w1\<lparr>mc_out := x\<rparr>)"
    using assms(4,5) by (simp add: l2Get_def outside_def attempt_def and_then_def)
  obtain s where s: "mc_session w = Some s" using assms(8) by blast
  let ?w = "w1\<lparr>mc_out := x\<rparr>" and ?n = "length (h_channels w1)"
  obtain w3 where build: "buildChannel d ?w = (?n, w3)" "channel_at w3 ?n = channel_updateFromDesc d (channel_at w3 ?n)"
    "tc_ID (channel_at w3 ?n) = i" "mc_out w3 = x"
    using gone assms(2,7,9) same
    by (simp add: buildChannel_def upsertChannel_def clan_at_def newTextChannel_def alloc_channel_def set_clan_channel_def
        upd_clan_def set_Channels_def channel_at_def Let_def channel_updateFromDesc_def)
  have "fetchChannel env i w1 = (Inr ?n, w3)"
    using s assms(6) build(1) by (simp add: fetchChannel_def same hit and_then_def stored_channel_def build_call_def)
  then have "Channels_Fetch env i w1 = (Inr ?n, mc_Channels_update (\<lambda>_. cache_Set (mc_Channels w3) i ?n) w3)"
    using gone(1) by (simp add: Channels_Fetch_def cache_Fetch_def)
  then show ?thesis
    using gone(1) build(3,4) by (simp add: channel_at_def)
qed

lemma sample_clan_api:
  "cn_apiClient (clan_at (sample_client d) 0) = Some 0"
  "\<exists>t u n k. h_apis (sample_client d) ! 0 = AttachSocket (NewMezonApi (ce_http (sample_env d)) t u n) (ce_port (sample_env d) k)"
proof -
  have l: "h_apis (logged_in (sample_env d) []) ! 0 =
      AttachSocket (NewMezonApi (ce_http (sample_env d)) (mc_Token (new_client [])) ''https://gw'' (mc_Timeout (new_client []))) (ce_port (sample_env d) 0)"
    "mc_apiClient (logged_in (sample_env d) []) = Some 0"
    using initManagers_api [of "sample_env d" "''https://gw''" "Some sample_session" "new_client []\<lparr>mc_session := Some sample_session\<rparr>"]
    by (simp_all add: logged_in_def new_client_def NewMezonClient_def sample_config_def Let_def)
  show "cn_apiClient (clan_at (sample_client d) 0) = Some 0"
    by (simp add: sample_client_def client_with_caches l)
  show "\<exists>t u n k. h_apis (sample_client d) ! 0 = AttachSocket (NewMezonApi (ce_http (sample_env d)) t u n) (ce_port (sample_env d) k)"
    using l(1) by (auto simp: sample_client_def client_with_caches)
qed

theorem deleted_channel_returns_from_store_witness:
  "let d = zero_ChannelDescription\<lparr>cd_ChannelId := 5, cd_ClanId := 7\<rparr>; env = sample_env d;
       w1 = snd (DeleteChannel env 0 (itoaID 5) (sample_client d\<lparr>mc_out := [(l2ChannelPrefix @ itoaID 5, [0])]\<rparr>))
   in cache_Get (mc_Channels w1) (itoaID 5) = None \<and> (\<exists>a w2. Channels_Fetch env (itoaID 5) w1 = (Inr a, w2) \<and> tc_ID (channel_at w2 a) = itoaID 5)"
proof -
  define d where "d = zero_ChannelDescription\<lparr>cd_ChannelId := 5, cd_ClanId := 7\<rparr>"
  let ?x = "[(l2ChannelPrefix @ itoaID 5, [0])]"
  define w where "w = sample_client d\<lparr>mc_out := ?x\<rparr>"
  define w1 where "w1 = snd (DeleteChannel (sample_env d) 0 (itoaID 5) w)"
  have ok: "world_ok w" using grown_out [OF sample_client_ok] by (simp add: w_def grown_def)
  obtain t u n k where a: "h_apis w ! 0 = AttachSocket (NewMezonApi (ce_http (sample_env d)) t u n) (ce_port (sample_env d) k)"
    using sample_clan_api(2) [of d] by (auto simp: w_def)
  have "cn_apiClient (clan_at w 0) = Some 0" using sample_clan_api(1) [of d] by (simp add: w_def clan_at_def)
  with a have del: "fst (DeleteChannel (sample_env d) 0 (itoaID 5) w) = Inr ()" "mc_out w1 = ?x"
    by (simp_all add: w1_def DeleteChannel_def fst_and_then on_api_def deref_def outside_def DeleteChannelDesc_def doProto_def doProtoSocket_def
        doProtoHttp_def decode_into_def sample_env_def sample_codec_def AttachSocket_def NewMezonApi_def Let_def and_then_def
        delete_Channels_def delete_clan_channel_def upd_clan_def w_def)
  have c: "0 < length (h_clans w)" "mc_session w \<noteq> None" "cache_Get (mc_Clans w) (itoaID (cd_ClanId d)) = Some 0" "itoaID (cd_ChannelId d) = itoaID 5"
    using client_with_caches [where env = "sample_env d" and x = "[]" and d = d] by (simp_all add: w_def d_def sample_client_def)
  have "DeleteChannel (sample_env d) 0 (itoaID 5) w = (Inr (), w1)" using del(1) by (metis prod.collapse w1_def)
  moreover have "ce_store (sample_env d) = Some mem_store" "ac_u_ChannelDescription (ce_api (sample_env d)) [0] = Inr d"
    by (simp_all add: sample_env_def sample_codec_def)
  moreover have "ss_Get mem_store (l2ChannelPrefix @ itoaID 5) (mc_out w1) = (Inr (Some [0]), ?x)"
    by (simp add: mem_store_def del(2))
  ultimately have "cache_Get (mc_Channels w1) (itoaID 5) = None \<and> (\<exists>a w2. Channels_Fetch (sample_env d) (itoaID 5) w1 = (Inr a, w2) \<and> tc_ID (channel_at w2 a) = itoaID 5)"
    using deleted_channel_returns_from_store [OF ok c(1) _ _ _ _ c(4) c(2,3)] by blast
  then show ?thesis by (simp add: Let_def d_def w_def w1_def)
qed

end
