(* ===== verification/Client_Messages.thy ===== *)
theory Client_Messages
  imports Client_Properties
begin

text \<open>
  Messages that are sent, received and looked up, across the client, the write operations of the socket,
  the caches and the message database; and the order of the handlers.
\<close>

section \<open>Sending\<close>

lemma set_message_at: "ch < length (h_channels w) \<Longrightarrow>
    tc_Messages (channel_at (set_message ch k a w) ch) = cache_Set (tc_Messages (channel_at w ch)) k a"
  and set_message_others [simp]: "message_at (set_message ch k a w) = message_at w" "mc_out (set_message ch k a w) = mc_out w"
    "length (h_channels (set_message ch k a w)) = length (h_channels w)"
  by (simp_all add: set_message_def upd_channel_def channel_at_def message_at_def fun_eq_iff)

lemma alloc_message_at [simp]: "message_at (snd (alloc_message x w)) (length (h_messages w)) = x"
  "channel_at (snd (alloc_message x w)) ch = channel_at w ch" "mc_out (snd (alloc_message x w)) = mc_out w"
  by (simp_all add: alloc_message_def message_at_def channel_at_def)

lemma message_of_ack_fields:
  "ms_ID (message_of_ack w ch ack data) = (case ack of Some a \<Rightarrow> if ack_MessageId a \<noteq> 0 then itoaID (ack_MessageId a) else [] | None \<Rightarrow> [])"
  "ms_Channel (message_of_ack w ch ack data) = Some ch" "ms_socket (message_of_ack w ch ack data) = tc_socket (channel_at w ch)"
  "ms_Content (message_of_ack w ch ack data) = (case marshalContent (rmd_Content data) of Inr raw \<Rightarrow> raw | Inl _ \<Rightarrow> [])"
  by (auto simp: message_of_ack_def Let_def split: option.splits sum.splits)

lemma createMessageFromAck_eq:
  "createMessageFromAck ch ack data w = (let msg = message_of_ack w ch ack data; w1 = snd (alloc_message msg w)
     in (length (h_messages w), if ms_ID msg = [] then w1 else set_message ch (ms_ID msg) (length (h_messages w)) w1))"
  by (simp add: createMessageFromAck_def Let_def alloc_message_def)

lemma cached_Messages_Fetch:
  "cache_Get (tc_Messages (channel_at w ch)) k = Some m \<Longrightarrow> Messages_Fetch env ch k w = (Inr m, w)"
  by (simp add: Messages_Fetch_def cache_Fetch_def)

lemma send_job_outcome:
  assumes "ch < length (h_channels w)" "tc_socket (channel_at w ch) = Some s"
    and "WriteChatMessage (ce_transmit env s) data (mc_out w) = (r, x)"
  shows "case r of
      Inl e \<Rightarrow> send_job env ch data w = (Inl e, w\<lparr>mc_out := x\<rparr>)
    | Inr ack \<Rightarrow> \<exists>m w'. send_job env ch data w = (Inr m, w') \<and> mc_out w' = x \<and> m = length (h_messages w) \<and>
        ms_Channel (message_at w' m) = Some ch \<and>
        marshalContent (rmd_Content data) = Inr (ms_Content (message_at w' m)) \<and>
        (if ack \<noteq> None \<and> ack_MessageId (the ack) \<noteq> 0
         then ms_ID (message_at w' m) = itoaID (ack_MessageId (the ack)) \<and>
           Messages_Fetch env ch (itoaID (ack_MessageId (the ack))) w' = (Inr m, w') \<and>
           (\<forall>c cl txt mns ats. cmu_MessageId (update_message (update_data (message_at w' m) c cl txt mns ats) (ms_Content (message_at w' m))) = ack_MessageId (the ack)) \<and>
           (\<forall>c cl. cmr_MessageId (remove_message (remove_data (message_at w' m) c cl)) = ack_MessageId (the ack))
         else ms_ID (message_at w' m) = [] \<and> tc_Messages (channel_at w' ch) = tc_Messages (channel_at w ch))"
proof (cases r)
  case (Inl e)
  then show ?thesis
    using assms(2,3) by (simp add: send_job_def on_transmit_def deref_def outside_def and_then_def)
next
  case (Inr ack)
  obtain raw where raw: "marshalContent (rmd_Content data) = Inr raw"
    using assms(3) Inr by (auto simp: WriteChatMessage_def checked_content_def split: sum.splits)
  define w0 where "w0 = w\<lparr>mc_out := x\<rparr>"
  define msg where "msg = message_of_ack w0 ch ack data"
  define w' where "w' = snd (createMessageFromAck ch ack data w0)"
  have msgf: "ms_ID msg = (case ack of Some a \<Rightarrow> if ack_MessageId a \<noteq> 0 then itoaID (ack_MessageId a) else [] | None \<Rightarrow> [])"
    "ms_Channel msg = Some ch" "ms_Content msg = raw"
    using raw by (simp_all add: msg_def message_of_ack_fields)
  have n: "h_messages w0 = h_messages w" "length (h_channels w0) = length (h_channels w)" "channel_at w0 ch = channel_at w ch"
    by (simp_all add: w0_def channel_at_def)
  have w': "w' = (if ms_ID msg = [] then snd (alloc_message msg w0)
      else set_message ch (ms_ID msg) (length (h_messages w)) (snd (alloc_message msg w0)))"
    by (simp add: w'_def createMessageFromAck_eq msg_def [symmetric] Let_def n)
  have run: "send_job env ch data w = (Inr (length (h_messages w)), w')"
    using assms(2,3) Inr
    by (simp add: send_job_def on_transmit_def deref_def outside_def and_then_def w'_def w0_def createMessageFromAck_eq Let_def)
  have at: "message_at w' (length (h_messages w)) = msg" using n(1) alloc_message_at(1) [of msg w0] by (simp add: w')
  have out: "mc_out w' = x" by (simp add: w' w0_def)
  have cached: "cache_Get (tc_Messages (channel_at w' ch)) (ms_ID msg) = Some (length (h_messages w))" if "ms_ID msg \<noteq> []"
    using that assms(1) n by (simp add: w' set_message_at)
  have same: "tc_Messages (channel_at w' ch) = tc_Messages (channel_at w ch)" if "ms_ID msg = []"
    using that n by (simp add: w')
  show ?thesis
    using run out at msgf cached same raw Inr cached_Messages_Fetch [of w' ch]
    by (auto simp: update_data_def update_message_def remove_data_def remove_message_def split: option.splits)
qed

text \<open>
  C9. What \<^verbatim>\<open>Send\<close> returns. A write that fails fails the call and creates nothing. When the server has
  given the message an id, the message returned has that id and the content that was sent, it is found under
  the id in the channel without any request, and editing or deleting it addresses exactly that id on the
  server. A message without an id is returned but never cached, so that no later lookup finds it.
\<close>

theorem sent_message_found_by_id:
  assumes "ch < length (h_channels w)" "tc_socket (channel_at w ch) = Some s"
    and "WriteChatMessage (ce_transmit env s) data (mc_out w) = (r, x)"
  shows "case r of
      Inl e \<Rightarrow> send_job env ch data w = (Inl e, w\<lparr>mc_out := x\<rparr>)
    | Inr ack \<Rightarrow> \<exists>m w'. send_job env ch data w = (Inr m, w') \<and> mc_out w' = x \<and> m = length (h_messages w) \<and>
        ms_Channel (message_at w' m) = Some ch \<and>
        marshalContent (rmd_Content data) = Inr (ms_Content (message_at w' m)) \<and>
        (if ack \<noteq> None \<and> ack_MessageId (the ack) \<noteq> 0
         then ms_ID (message_at w' m) = itoaID (ack_MessageId (the ack)) \<and>
           Messages_Fetch env ch (itoaID (ack_MessageId (the ack))) w' = (Inr m, w') \<and>
           (\<forall>c cl txt mns ats. cmu_MessageId (update_message (update_data (message_at w' m) c cl txt mns ats) (ms_Content (message_at w' m))) = ack_MessageId (the ack)) \<and>
           (\<forall>c cl. cmr_MessageId (remove_message (remove_data (message_at w' m) c cl)) = ack_MessageId (the ack))
         else ms_ID (message_at w' m) = [] \<and> tc_Messages (channel_at w' ch) = tc_Messages (channel_at w ch))"
  using assms by (rule send_job_outcome)

theorem sent_message_found_by_id_witness:
  "\<exists>m w'. send_job (sample_env zero_ChannelDescription) 0 (send_data (sample_client zero_ChannelDescription)
       (channel_at (sample_client zero_ChannelDescription) 0) ContentNil zero_SendOptions) (sample_client zero_ChannelDescription) = (Inr m, w') \<and>
     Messages_Fetch (sample_env zero_ChannelDescription) 0 (itoaID 1) w' = (Inr m, w')"
proof -
  let ?d = zero_ChannelDescription
  define w where "w = sample_client ?d"
  define data where "data = send_data w (channel_at w 0) ContentNil zero_SendOptions"
  have c: "0 < length (h_channels w)" by (simp add: w_def sample_client_def client_with_caches)
  have "tc_socket (channel_at w 0) = Some 0"
    by (simp add: w_def sample_client_def client_with_caches)
  moreover have "WriteChatMessage (ce_transmit (sample_env ?d) 0) data (mc_out w) = (Inr (Some (zero_ChannelMessageAck\<lparr>ack_MessageId := 1\<rparr>)), mc_out w)"
    by (simp add: WriteChatMessage_def data_def send_data_def send_with_join_def sample_env_def demo_content)
  ultimately show ?thesis
    using sent_message_found_by_id [OF c] by (fastforce simp: w_def [symmetric] data_def [symmetric])
qed

section \<open>Receiving\<close>

text \<open>
  The order of the handlers is the order of registration, also for the handlers of the client, which
  are registered by the first login: a handler that was registered before it runs before the message is
  cached, one that is registered later runs after.
\<close>

theorem application_handlers_by_registration:
  assumes "handlers (mc_events w) = []" "\<not> mc_internalsBound w"
  shows "(let w1 = initManagers env basePath session (OnChannelMessage n w)
      in emit env app EventChannelMessage (PayloadChannelMessage m) w1 =
           cacheUserFromMessage m (cacheChannelMessage env m (app_message app n m w1))) \<and>
    (let w2 = OnChannelMessage n (initManagers env basePath session w)
      in emit env app EventChannelMessage (PayloadChannelMessage m) w2 =
           app_message app n m (cacheUserFromMessage m (cacheChannelMessage env m w2)))"
proof -
  have run: "run_handler env app 0 (PayloadChannelMessage m) = (\<lambda>w. cacheUserFromMessage m (cacheChannelMessage env m w))"
    "run_handler env app (3 * n + 4) (PayloadChannelMessage m) = app_message app n m"
    by (simp_all add: run_handler_def fun_eq_iff)
  have e: "handlers_of (mc_events w) ev = []" for ev by (simp add: handlers_of_def assms(1))
  have bound: "handlers_of (mc_events (initManagers env basePath session w')) EventChannelMessage = handlers_of (mc_events w') EventChannelMessage @ [0]"
    if "\<not> mc_internalsBound w'" for w'
    using that by (simp add: initManagers_def newChannelManager_def bindInternalListeners_def register_def Let_def handlers_of_on
        EventChannelMessage_def EventChannelDeleted_def EventChannelUpdated_def)
  have "handlers_of (mc_events (initManagers env basePath session (OnChannelMessage n w))) EventChannelMessage = [3 * n + 4, 0]"
    using assms(2) e by (subst bound) (simp_all add: OnChannelMessage_def register_def handlers_of_on)
  moreover have "handlers_of (mc_events (OnChannelMessage n (initManagers env basePath session w))) EventChannelMessage = [0, 3 * n + 4]"
    using bound [OF assms(2)] e by (simp add: OnChannelMessage_def register_def handlers_of_on)
  ultimately show ?thesis
    by (simp add: emit_def emitter_emit_def run Let_def)
qed

theorem application_handlers_by_registration_witness:
  "\<forall>env app m. (let w1 = initManagers env ''u'' None (OnChannelMessage 0 (new_client []))
      in emit env app EventChannelMessage (PayloadChannelMessage m) w1 =
           cacheUserFromMessage m (cacheChannelMessage env m (app_message app 0 m w1)))"
proof -
  have "handlers (mc_events (new_client [])) = []" "\<not> mc_internalsBound (new_client [])"
    by (simp_all add: new_client_def NewMezonClient_def sample_config_def Let_def newEmitter_def)
  from application_handlers_by_registration [OF this] show ?thesis by blast
qed

text \<open>The message database as the store of a client; \<open>tab\<close> and \<open>put\<close> say where the table is.\<close>

definition database :: "('x \<Rightarrow> message_table) \<Rightarrow> (message_table \<Rightarrow> 'x \<Rightarrow> 'x) \<Rightarrow> 'x MessageStore" where
  "database tab put = \<lparr>mst_SaveMessage = \<lambda>m x. (case SaveMessage None (Some m) (tab x) of (r, t) \<Rightarrow> (r, put t x)),
     mst_GetMessageByID = \<lambda>i ch cl x. (GetMessageByID None i ch cl (tab x), x)\<rparr>"

text \<open>
  C10. A message that arrives is not lost. The client saves it first; when its channel is known it is then found
  in the channel, as it was received. And from the database it is found again after any further saves, of this or another
  process, some of which may have failed, in any state in which the channel has no message cached under its id, as after an
  eviction or in a new process: with its content, sender, topic, time, mentions, attachments, references and
  reactions, or with those of the last message saved under the same key, if one replaced it.
\<close>

theorem received_message_found:
  assumes "ce_messageDB env = Some (database tab put)" "\<And>t x. tab (put t x) = t" "message_utf8 e" "chm_MessageID e \<noteq> []"
  shows "(\<forall>ch w1. Channels_Fetch env (chm_ChannelID e) (load_clan_of env e (save_message env e w)) = (Inr ch, w1) \<longrightarrow>
           ch < length (h_channels w1) \<longrightarrow>
           (let w' = cacheChannelMessage env e w; m = length (h_messages w1)
            in Messages_Fetch env ch (chm_MessageID e) w' = (Inr m, w') \<and>
               message_at w' m = message_at (snd (newMessageFromChannelMessage e (Some ch) (mc_socket w1) w1)) m \<and>
               ms_Content (message_at w' m) = chm_Content e \<and> ms_ID (message_at w' m) = chm_MessageID e)) \<and>
    (\<forall>fms ch cl w2. list_all (\<lambda>(fault, m). message_utf8 m) fms \<longrightarrow>
           tab (mc_out w2) = later_saves fms (tab (mc_out (save_message env e w))) \<longrightarrow> tc_Clan (channel_at w2 ch) = Some cl \<longrightarrow>
           cn_ID (clan_at w2 cl) = chm_ClanID e \<longrightarrow> tc_ID (channel_at w2 ch) = chm_ChannelID e \<longrightarrow>
           cache_Get (tc_Messages (channel_at w2 ch)) (chm_MessageID e) = None \<longrightarrow>
           (\<exists>w3. Messages_Fetch env ch (chm_MessageID e) w2 = (Inr (length (h_messages w2)), w3) \<and>
              (let m = message_at w3 (length (h_messages w2)); k = kept_message e fms
               in ms_ID m = chm_MessageID e \<and> ms_ChannelID m = chm_ChannelID e \<and> ms_ClanID m = chm_ClanID e \<and>
                  ms_SenderID m = chm_SenderID k \<and> ms_TopicID m = chm_TopicID k \<and> ms_CreateTimeSeconds m = chm_CreateTimeSeconds k \<and>
                  ms_Content m = (if chm_Content k = [] then ''{}'' else chm_Content k) \<and> ms_Mentions m = chm_Mentions k \<and>
                  ms_Attachments m = chm_Attachments k \<and> ms_References m = chm_References k \<and> ms_Reactions m = chm_Reactions k \<and>
                  ms_Channel m = Some ch)) \<and>
           ((\<forall>(fault, m)\<in>set fms. fault = None \<longrightarrow>
               \<not> (message_id m = chm_MessageID e \<and> chm_ChannelID m = chm_ChannelID e \<and> chm_ClanID m = chm_ClanID e)) \<longrightarrow>
             kept_message e fms = e))"
proof (intro conjI allI impI)
  fix ch w1
  assume f: "Channels_Fetch env (chm_ChannelID e) (load_clan_of env e (save_message env e w)) = (Inr ch, w1)"
    and b: "ch < length (h_channels w1)"
  let ?r = "newMessageFromChannelMessage e (Some ch) (mc_socket w1) w1"
  have r: "fst ?r = length (h_messages w1)" "length (h_channels (snd ?r)) = length (h_channels w1)"
    "ms_Content (message_at (snd ?r) (length (h_messages w1))) = chm_Content e"
    "ms_ID (message_at (snd ?r) (length (h_messages w1))) = chm_MessageID e"
    by (simp_all add: newMessageFromChannelMessage_def alloc_message_def message_at_def)
  have w': "cacheChannelMessage env e w = set_message ch (chm_MessageID e) (length (h_messages w1)) (snd ?r)"
    using assms(4) r(1) by (simp add: cacheChannelMessage_def f case_prod_unfold)
  have "cache_Get (tc_Messages (channel_at (cacheChannelMessage env e w) ch)) (chm_MessageID e) = Some (length (h_messages w1))"
    using b r(2) by (simp add: w' set_message_at)
  from cached_Messages_Fetch [OF this] r(3,4)
  show "let w' = cacheChannelMessage env e w; m = length (h_messages w1)
      in Messages_Fetch env ch (chm_MessageID e) w' = (Inr m, w') \<and>
         message_at w' m = message_at (snd ?r) m \<and> ms_Content (message_at w' m) = chm_Content e \<and> ms_ID (message_at w' m) = chm_MessageID e"
    by (simp add: Let_def w')
next
  fix fms ch cl w2
  assume w2: "list_all (\<lambda>(fault, m). message_utf8 m) fms" "tab (mc_out w2) = later_saves fms (tab (mc_out (save_message env e w)))"
    "tc_Clan (channel_at w2 ch) = Some cl" "cn_ID (clan_at w2 cl) = chm_ClanID e" "tc_ID (channel_at w2 ch) = chm_ChannelID e"
    "cache_Get (tc_Messages (channel_at w2 ch)) (chm_MessageID e) = None"
  define k where "k = kept_message e fms"
  have id: "message_id e = chm_MessageID e" using assms(4) by (simp add: message_id_def)
  have key: "message_id k = chm_MessageID e" "chm_ChannelID k = chm_ChannelID e" "chm_ClanID k = chm_ClanID e"
    using kept_message_key [of e fms] by (simp_all add: k_def id)
  have "mc_out (save_message env e w) = put (db_save e (tab (mc_out w))) (mc_out w)"
    using assms(1) by (simp add: save_message_def outside_def database_def db_save_def case_prod_unfold)
  then have "tab (mc_out w2) = later_saves fms (db_save e (tab (mc_out w)))" using w2(2) assms(2) by simp
  then have "GetMessageByID None (chm_MessageID e) (chm_ChannelID e) (chm_ClanID e) (tab (mc_out w2)) = Inr (Some (stored_view k))"
    using db_get_later [OF assms(3) w2(1)] id by (simp add: db_get_def GetMessageByID_def k_def)
  then have "loadMessageFromStore env ch (chm_MessageID e) w2 =
      (Inr (length (h_messages w2)), snd (newMessageFromChannelMessage (stored_view k) (Some ch) (tc_socket (channel_at w2 ch)) w2))"
    using assms(1) w2(3-5)
    by (simp add: loadMessageFromStore_def database_def attempt_def outside_def and_then_def newMessageFromChannelMessage_def alloc_message_def)
  then have "Messages_Fetch env ch (chm_MessageID e) w2 = (Inr (length (h_messages w2)),
      set_message ch (chm_MessageID e) (length (h_messages w2)) (snd (newMessageFromChannelMessage (stored_view k) (Some ch) (tc_socket (channel_at w2 ch)) w2)))"
    using w2(6) by (simp add: Messages_Fetch_def cache_Fetch_def set_message_def upd_channel_def channel_at_def)
  moreover have "message_at (snd (newMessageFromChannelMessage (stored_view k) (Some ch) s w2)) (length (h_messages w2)) =
      \<lparr>ms_ID = chm_MessageID e, ms_ClanID = chm_ClanID e, ms_ChannelID = chm_ChannelID e, ms_SenderID = chm_SenderID k,
       ms_Content = (if chm_Content k = [] then ''{}'' else chm_Content k), ms_Mentions = chm_Mentions k, ms_Attachments = chm_Attachments k,
       ms_References = chm_References k, ms_Reactions = chm_Reactions k, ms_TopicID = chm_TopicID k,
       ms_CreateTimeSeconds = chm_CreateTimeSeconds k, ms_UpdateTimeSeconds = 0, ms_Code = 0, ms_Username = [], ms_CreateTime = [],
       ms_UpdateTime = [], ms_Persistent = False, ms_Mode = 0, ms_Channel = Some ch, ms_socket = s\<rparr>" for s
    using key
    by (simp add: newMessageFromChannelMessage_def alloc_message_def message_at_def stored_view_def zero_go_ChannelMessage_def of_int32_def)
  ultimately show "\<exists>w3. Messages_Fetch env ch (chm_MessageID e) w2 = (Inr (length (h_messages w2)), w3) \<and>
      (let m = message_at w3 (length (h_messages w2)); k = kept_message e fms
       in ms_ID m = chm_MessageID e \<and> ms_ChannelID m = chm_ChannelID e \<and> ms_ClanID m = chm_ClanID e \<and>
          ms_SenderID m = chm_SenderID k \<and> ms_TopicID m = chm_TopicID k \<and> ms_CreateTimeSeconds m = chm_CreateTimeSeconds k \<and>
          ms_Content m = (if chm_Content k = [] then ''{}'' else chm_Content k) \<and> ms_Mentions m = chm_Mentions k \<and>
          ms_Attachments m = chm_Attachments k \<and> ms_References m = chm_References k \<and> ms_Reactions m = chm_Reactions k \<and>
          ms_Channel m = Some ch)"
    by (simp add: Let_def k_def)
  show "kept_message e fms = e" if "\<forall>(fault, m)\<in>set fms. fault = None \<longrightarrow>
      \<not> (message_id m = chm_MessageID e \<and> chm_ChannelID m = chm_ChannelID e \<and> chm_ClanID m = chm_ClanID e)"
    using that id by (intro kept_message_untouched) (simp add: has_key_def)
qed

text \<open>A client whose outside is the database alone.\<close>

definition db_env :: "message_table client_env" where
  "db_env = \<lparr>ce_connect = \<lambda>_ _ _ _. ret (), ce_transmit = \<lambda>_ _. fail ErrSocketClosed,
     ce_port = \<lambda>_. \<lparr>sp_IsOpen = \<lambda>_. False, sp_request = \<lambda>_ _. fail ErrSocketClosed\<rparr>, ce_close = \<lambda>_ x. x,
     ce_http = \<lambda>_. fail EOF, ce_api = sample_codec zero_ChannelDescription, ce_marshal_desc = \<lambda>_. Inl EOF,
     ce_update = (\<lambda>_. Inl EOF, \<lambda>_. Inl EOF), ce_remove = (\<lambda>_. Inl EOF, \<lambda>_. Inl EOF),
     ce_store = None, ce_messageDB = Some (database (\<lambda>x. x) (\<lambda>t _. t)), ce_now = \<lambda>_. 0, ce_json_error = \<lambda>_. EOF,
     ce_url_Parse = \<lambda>_. Inl EOF\<rparr>"

text \<open>The message arrives at one client and is read by another one that starts on the same database, after another message of the
  channel was saved and a third save failed.\<close>

theorem received_message_found_witness:
  "let d = zero_ChannelDescription\<lparr>cd_ChannelId := 5, cd_ClanId := 7\<rparr>;
       e = zero_go_ChannelMessage\<lparr>chm_MessageID := ''9'', chm_ChannelID := itoaID 5, chm_ClanID := itoaID 7, chm_Content := ''[]''\<rparr>;
       fms = [(None, e\<lparr>chm_MessageID := ''10''\<rparr>), (Some EOF, e\<lparr>chm_Content := ''{}''\<rparr>)];
       w2 = client_with db_env (later_saves fms (mc_out (save_message db_env e (new_client [])))) d
   in \<exists>w3. Messages_Fetch db_env 0 ''9'' w2 = (Inr 0, w3) \<and> ms_Content (message_at w3 0) = ''[]''"
proof -
  define d where "d = zero_ChannelDescription\<lparr>cd_ChannelId := 5, cd_ClanId := 7\<rparr>"
  define e where "e = zero_go_ChannelMessage\<lparr>chm_MessageID := ''9'', chm_ChannelID := itoaID 5, chm_ClanID := itoaID 7, chm_Content := ''[]''\<rparr>"
  define fms where "fms = [(None, e\<lparr>chm_MessageID := ''10''\<rparr>), (Some EOF, e\<lparr>chm_Content := ''{}''\<rparr>)]"
  define w2 where "w2 = client_with db_env (later_saves fms (mc_out (save_message db_env e (new_client [])))) d"
  have e: "message_utf8 e" "chm_MessageID e = ''9''" "chm_MessageID e \<noteq> []" "chm_ChannelID e = itoaID 5" "chm_ClanID e = itoaID 7" "chm_Content e = ''[]''"
    by (simp_all add: e_def message_utf8_def zero_go_ChannelMessage_def)
  have fms: "list_all (\<lambda>(fault, m). message_utf8 m) fms"
    using e(1) by (simp add: fms_def message_utf8_def)
  have other: "\<forall>(fault, m)\<in>set fms. fault = None \<longrightarrow>
      \<not> (message_id m = chm_MessageID e \<and> chm_ChannelID m = chm_ChannelID e \<and> chm_ClanID m = chm_ClanID e)"
    by (simp add: fms_def message_id_def e(2))
  have db: "ce_messageDB db_env = Some (database (\<lambda>x. x) (\<lambda>t _. t))" by (simp add: db_env_def)
  have w2: "mc_out w2 = later_saves fms (mc_out (save_message db_env e (new_client [])))" "tc_Clan (channel_at w2 0) = Some 0" "cn_ID (clan_at w2 0) = chm_ClanID e"
    "tc_ID (channel_at w2 0) = chm_ChannelID e" "cache_Get (tc_Messages (channel_at w2 0)) (chm_MessageID e) = None" "h_messages w2 = []"
    by (simp_all add: w2_def client_with_caches e d_def)
  note found = conjunct2 [OF received_message_found [OF db _ e(1,3), of "new_client []"], simplified, rule_format, OF fms w2(1-5)]
  have "kept_message e fms = e" using found other by (simp add: case_prod_unfold)
  moreover have "\<exists>w3. Messages_Fetch db_env 0 (chm_MessageID e) w2 = (Inr (length (h_messages w2)), w3) \<and>
      ms_Content (message_at w3 (length (h_messages w2))) = (if chm_Content (kept_message e fms) = [] then ''{}'' else chm_Content (kept_message e fms))"
    using found unfolding Let_def by blast
  ultimately show ?thesis
    using w2(6) e by (simp add: Let_def d_def [symmetric] e_def [symmetric] fms_def [symmetric] w2_def [symmetric])
qed

end
