(* ===== verification/Redis_Store.thy ===== *)
theory Redis_Store
  imports Client_Properties
begin

text \<open>
  The contract of the store that processes share (the interface of \<^verbatim>\<open>sharedcache.go\<close>) as a locale, with what the
  client gets from it, and the Redis store of \<^verbatim>\<open>redisstore/redis.go\<close>, which implements it over any server that
  keeps the documented laws of \<^verbatim>\<open>GET\<close>, \<^verbatim>\<open>SET\<close> and \<^verbatim>\<open>DEL\<close>.
\<close>

section \<open>The contract\<close>

text \<open>\<open>view\<close> is what the store holds; a store that does not fail.\<close>

locale shared_store =
  fixes store :: "'x SharedStore"
    and view :: "'x \<Rightarrow> string \<Rightarrow> bytes option"
  assumes get_view: "ss_Get store k x = (Inr (view x k), x)"
    and set_view: "view (snd (ss_Set store k v ttl x)) = (view x)(k \<mapsto> v)"
    and delete_view: "view (snd (ss_Delete store k x)) = (view x)(k := None)"
begin

text \<open>The store of a client, before and after its operations.\<close>

lemma l2Get_view: "ce_store env = Some store \<Longrightarrow> l2Get env k w = (Inr (view (mc_out w) k), w)"
  by (simp add: l2Get_def attempt_def outside_def and_then_def get_view)

lemma l2Set_view: "ce_store env = Some store \<Longrightarrow> view (mc_out (l2Set env k v w)) = (view (mc_out w))(k \<mapsto> v)"
  using set_view [of k v "mc_cacheTTL w" "mc_out w"] by (simp add: l2Set_def outside_def case_prod_unfold)

lemma l2Delete_view: "ce_store env = Some store \<Longrightarrow> view (mc_out (l2Delete env k w)) = (view (mc_out w))(k := None)"
  using delete_view [of k "mc_out w"] by (simp add: l2Delete_def outside_def case_prod_unfold)

text \<open>A channel that is in the store is built without asking the server.\<close>

lemma fetchChannel_stored:
  assumes "ce_store env = Some store" "mc_session w \<noteq> None"
    and "view (mc_out w) (l2ChannelPrefix @ i) = Some b" "ac_u_ChannelDescription (ce_api env) b = Inr d"
  shows "fetchChannel env i w = build_call d w"
  using assms by (auto simp: fetchChannel_def l2Get_view and_then_def stored_channel_def)

text \<open>Building a channel leaves the outside alone.\<close>

lemma build_out: "mc_out (snd (buildChannel d w)) = mc_out w"
proof -
  have "mc_out (snd (upsertChannel cl d w)) = mc_out w" for cl w
    by (auto simp: upsertChannel_def Let_def set_Channels_def set_clan_channel_def upd_clan_def upd_channel_def newTextChannel_def
        alloc_channel_def split: option.splits)
  then show ?thesis
    by (auto simp: buildChannel_def Let_def set_Clans_def newClan_def alloc_clan_def split: option.splits)
qed

lemma fetch_stores:
  assumes "ce_store env = Some store" "mc_session w = Some s" "view (mc_out w) (l2ChannelPrefix @ i) = None"
    and "on_api (mc_apiClient w) (\<lambda>a. ListChannelDetail (ce_api env) a (ses_Token s) i) w = (Inr d, w1)" "cd_ChannelId d \<noteq> 0"
    and "ce_marshal_desc env d = Inr b"
  shows "fetchChannel env i w = (Inr (fst (buildChannel d (store_channel env i d w1))), snd (buildChannel d (store_channel env i d w1))) \<and>
    view (mc_out (snd (fetchChannel env i w))) (l2ChannelPrefix @ i) = Some b"
proof -
  have "fetchChannel env i w = (case buildChannel d (store_channel env i d w1) of (a, w) \<Rightarrow> (Inr a, w))"
    using assms by (simp add: fetchChannel_def l2Get_view and_then_def stored_channel_def fetch_detail_def build_call_def)
  then show ?thesis
    using assms(1,6) by (simp add: case_prod_unfold build_out store_channel_def l2Set_view)
qed

end

section \<open>redis.go\<close>

text \<open>The commands of a go-redis client; a missing key is the error \<^verbatim>\<open>redis.Nil\<close>.\<close>

definition redis_Nil :: go_error where "redis_Nil = ErrNew ''redis: nil''"

record 'x redis_client =
  rc_Get :: "string \<Rightarrow> ('x, bytes) call"
  rc_Set :: "string \<Rightarrow> bytes \<Rightarrow> int64 \<Rightarrow> ('x, unit) call"
  rc_Del :: "string \<Rightarrow> ('x, unit) call"

record 'x Store =
  st_client :: "'x redis_client"
  st_prefix :: string

definition WithPrefix :: "string \<Rightarrow> 'x Store \<Rightarrow> 'x Store" where
  "WithPrefix pfx s = s\<lparr>st_prefix := pfx\<rparr>"

definition NewStore :: "'x redis_client \<Rightarrow> ('x Store \<Rightarrow> 'x Store) list \<Rightarrow> 'x Store" where
  "NewStore client opts = foldl (\<lambda>s opt. opt s) \<lparr>st_client = client, st_prefix = []\<rparr> opts"

definition redis_Get :: "'x Store \<Rightarrow> string \<Rightarrow> ('x, bytes option) call" where
  "redis_Get s key x = (case rc_Get (st_client s) (st_prefix s @ key) x of
      (Inl err, x) \<Rightarrow> if err = redis_Nil then (Inr None, x) else (Inl err, x)
    | (Inr b, x) \<Rightarrow> (Inr (Some b), x))"

definition redis_Set :: "'x Store \<Rightarrow> string \<Rightarrow> bytes \<Rightarrow> int64 \<Rightarrow> ('x, unit) call" where
  "redis_Set s key value ttl =
     (let ttl = (if sint ttl < 0 then 0 else ttl) in rc_Set (st_client s) (st_prefix s @ key) value ttl)"

definition redis_Delete :: "'x Store \<Rightarrow> string \<Rightarrow> ('x, unit) call" where
  "redis_Delete s key = rc_Del (st_client s) (st_prefix s @ key)"

text \<open>A \<^verbatim>\<open>Store\<close> as the interface of the client.\<close>

definition as_SharedStore :: "'x Store \<Rightarrow> 'x SharedStore" where
  "as_SharedStore s = \<lparr>ss_Get = redis_Get s, ss_Set = redis_Set s, ss_Delete = redis_Delete s\<rparr>"

section \<open>A Redis server\<close>

text \<open>The documented behaviour of the three commands; \<open>rview\<close> is what the server holds at the moment.\<close>

locale redis_server =
  fixes client :: "'x redis_client"
    and rview :: "'x \<Rightarrow> string \<Rightarrow> bytes option"
  assumes GET: "rc_Get client k x = (case rview x k of Some v \<Rightarrow> (Inr v, x) | None \<Rightarrow> (Inl redis_Nil, x))"
    and SET: "0 \<le> sint ttl \<Longrightarrow> rview (snd (rc_Set client k v ttl x)) = (rview x)(k \<mapsto> v)"
    and DEL: "rview (snd (rc_Del client k x)) = (rview x)(k := None)"

sublocale redis_server \<subseteq> rs: shared_store "as_SharedStore \<lparr>st_client = client, st_prefix = p\<rparr>" "\<lambda>x k. rview x (p @ k)" for p
proof
  show "ss_Get (as_SharedStore \<lparr>st_client = client, st_prefix = p\<rparr>) k x = (Inr (rview x (p @ k)), x)" for k x
    by (simp add: as_SharedStore_def redis_Get_def GET split: option.splits)
  show "(\<lambda>k'. rview (snd (ss_Set (as_SharedStore \<lparr>st_client = client, st_prefix = p\<rparr>) k v ttl x)) (p @ k')) = (\<lambda>k. rview x (p @ k))(k \<mapsto> v)" for k v ttl x
    by (simp add: as_SharedStore_def redis_Set_def SET fun_eq_iff)
  show "(\<lambda>k'. rview (snd (ss_Delete (as_SharedStore \<lparr>st_client = client, st_prefix = p\<rparr>) k x)) (p @ k')) = (\<lambda>k. rview x (p @ k))(k := None)" for k x
    by (simp add: as_SharedStore_def redis_Delete_def DEL fun_eq_iff)
qed

context redis_server
begin

lemma store_contract: "shared_store (as_SharedStore \<lparr>st_client = client, st_prefix = p\<rparr>) (\<lambda>x k. rview x (p @ k))"
  by (rule rs.shared_store_axioms)

lemma delete_all: "rview (snd (ss_Delete (as_SharedStore \<lparr>st_client = client, st_prefix = p\<rparr>) k x)) = (rview x)(p @ k := None)"
  by (simp add: as_SharedStore_def redis_Delete_def DEL)

end

text \<open>A server in memory with expiry: keys, their values and when they expire, and the time.\<close>

record redis_mem =
  rm_now :: int
  rm_keys :: "(string \<times> bytes \<times> int option) list"

definition mem_view :: "redis_mem \<Rightarrow> string \<Rightarrow> bytes option" where
  "mem_view x k = (case map_of (rm_keys x) k of
      None \<Rightarrow> None
    | Some (v, ex) \<Rightarrow> (case ex of None \<Rightarrow> Some v | Some t \<Rightarrow> if rm_now x < t then Some v else None))"

definition mem_client :: "redis_mem redis_client" where
  "mem_client = \<lparr>rc_Get = \<lambda>k x. (case mem_view x k of Some v \<Rightarrow> (Inr v, x) | None \<Rightarrow> (Inl redis_Nil, x)),
     rc_Set = \<lambda>k v ttl x. (Inr (), x\<lparr>rm_keys := AList.update k (v, if ttl = 0 then None else Some (rm_now x + sint ttl)) (rm_keys x)\<rparr>),
     rc_Del = \<lambda>k x. (Inr (), x\<lparr>rm_keys := AList.delete k (rm_keys x)\<rparr>)\<rparr>"

interpretation mem: redis_server mem_client mem_view
proof
  show "rc_Get mem_client k x = (case mem_view x k of Some v \<Rightarrow> (Inr v, x) | None \<Rightarrow> (Inl redis_Nil, x))" for k x
    by (simp add: mem_client_def)
  show "mem_view (snd (rc_Set mem_client k v ttl x)) = (mem_view x)(k \<mapsto> v)" if "0 \<le> sint ttl" for ttl k v x
  proof -
    have "ttl \<noteq> 0 \<Longrightarrow> 0 < sint ttl" using that by (metis order_le_less sint_0 signed_word_eqI)
    then show ?thesis by (auto simp: mem_client_def mem_view_def fun_eq_iff update_conv' split: option.splits)
  qed
  show "mem_view (snd (rc_Del mem_client k x)) = (mem_view x)(k := None)" for k x
    by (auto simp: mem_client_def mem_view_def fun_eq_iff delete_conv' split: option.splits)
qed

section \<open>Clients that share a store\<close>

lemma NewStore_prefix: "NewStore client [WithPrefix p] = \<lparr>st_client = client, st_prefix = p\<rparr>"
  by (simp add: NewStore_def WithPrefix_def)

text \<open>
  C11. What one process has fetched another one finds: when a client has loaded a channel from the server, a
  client of another process with the same Redis server and prefix builds the channel from the same description
  without a request to the server, and the event that a channel was deleted or updated removes the description
  for both. Stores with other prefixes are not touched as long as the keys differ.
\<close>

theorem channels_shared_over_redis:
  assumes "redis_server client rview"
    and "ce_store envA = Some (as_SharedStore (NewStore client [WithPrefix p]))" "ce_store envB = Some (as_SharedStore (NewStore client [WithPrefix p]))"
    and "mc_session wA = Some s" "mc_session wB \<noteq> None" "rview (mc_out wA) (p @ l2ChannelPrefix @ i) = None"
    and "on_api (mc_apiClient wA) (\<lambda>a. ListChannelDetail (ce_api envA) a (ses_Token s) i) wA = (Inr d, w1)" "cd_ChannelId d \<noteq> 0"
    and "ce_marshal_desc envA d = Inr b" "ac_u_ChannelDescription (ce_api envB) b = Inr d"
    and "mc_out wB = mc_out (snd (fetchChannel envA i wA))"
  shows "fetchChannel envB i wB = (Inr (fst (buildChannel d wB)), snd (buildChannel d wB)) \<and>
    mc_out (snd (fetchChannel envB i wB)) = mc_out wB \<and>
    (\<forall>ch cl. itoaID ch = i \<longrightarrow> rview (mc_out (drop_channel envB ch cl wB)) (p @ l2ChannelPrefix @ i) = None \<and>
      (\<forall>q k. q @ k \<noteq> p @ l2ChannelPrefix @ i \<longrightarrow> rview (mc_out (drop_channel envB ch cl wB)) (q @ k) = rview (mc_out wB) (q @ k)))"
proof -
  have store: "as_SharedStore (NewStore client [WithPrefix p]) = as_SharedStore \<lparr>st_client = client, st_prefix = p\<rparr>"
    by (simp add: NewStore_prefix)
  note sh = redis_server.store_contract [OF assms(1), of p]
  have miss: "rview (mc_out wA) (p @ (l2ChannelPrefix @ i)) = None" using assms(6) by simp
  have "rview (mc_out wB) (p @ (l2ChannelPrefix @ i)) = Some b"
    unfolding assms(11) by (rule shared_store.fetch_stores [OF sh assms(2) [unfolded store] assms(4) miss assms(7-9), THEN conjunct2])
  then have "fetchChannel envB i wB = build_call d wB"
    using shared_store.fetchChannel_stored [OF sh assms(3) [unfolded store] assms(5) _ assms(10)] by blast
  moreover have "rview (mc_out (drop_channel envB ch cl wB)) = (rview (mc_out wB))(p @ l2ChannelPrefix @ itoaID ch := None)" for ch cl
    using redis_server.delete_all [OF assms(1), of p "l2ChannelPrefix @ itoaID ch" "mc_out wB"] assms(3)
    by (simp add: drop_channel_def Let_def l2Delete_def outside_def case_prod_unfold store delete_clan_channel_def upd_clan_def delete_Channels_def
        split: option.splits)
  ultimately show ?thesis
    by (simp add: build_call_def case_prod_unfold shared_store.build_out [OF sh])
qed

text \<open>A client over the Redis server in memory.\<close>

definition redis_env :: "pb_ChannelDescription \<Rightarrow> redis_mem client_env" where
  "redis_env d = \<lparr>ce_connect = \<lambda>_ _ _ _. ret (), ce_transmit = \<lambda>_ _. fail ErrSocketClosed,
     ce_port = \<lambda>_. \<lparr>sp_IsOpen = \<lambda>_. False, sp_request = \<lambda>_ _. fail ErrSocketClosed\<rparr>, ce_close = \<lambda>_ x. x,
     ce_http = \<lambda>_. ret \<lparr>hp_status = 200, hp_body = Inr [0]\<rparr>, ce_api = sample_codec d, ce_marshal_desc = \<lambda>_. Inr [0],
     ce_update = (\<lambda>_. Inl EOF, \<lambda>_. Inl EOF), ce_remove = (\<lambda>_. Inl EOF, \<lambda>_. Inl EOF),
     ce_store = Some (as_SharedStore (NewStore mem_client [WithPrefix ''bot:''])), ce_messageDB = None, ce_now = \<lambda>_. 0,
     ce_json_error = \<lambda>_. EOF, ce_url_Parse = \<lambda>_. Inl EOF\<rparr>"

theorem channels_shared_over_redis_witness:
  "let d = zero_ChannelDescription\<lparr>cd_ChannelId := 5, cd_ClanId := 7\<rparr>; env = redis_env d;
       wA = logged_in env \<lparr>rm_now = 0, rm_keys = []\<rparr>; wB = logged_in env (mc_out (snd (fetchChannel env (itoaID 5) wA)))
   in fetchChannel env (itoaID 5) wB = (Inr (fst (buildChannel d wB)), snd (buildChannel d wB))"
proof -
  define d where "d = zero_ChannelDescription\<lparr>cd_ChannelId := 5, cd_ClanId := 7\<rparr>"
  define wA where "wA = logged_in (redis_env d) \<lparr>rm_now = 0, rm_keys = []\<rparr>"
  define wB where "wB = logged_in (redis_env d) (mc_out (snd (fetchChannel (redis_env d) (itoaID 5) wA)))"
  have api: "mc_apiClient wA = Some 0" "h_apis wA ! 0 = AttachSocket (NewMezonApi (ce_http (redis_env d)) (mc_Token (new_client \<lparr>rm_now = 0, rm_keys = []\<rparr>)) ''https://gw''
      (mc_Timeout (new_client \<lparr>rm_now = 0, rm_keys = []\<rparr>))) (ce_port (redis_env d) 0)"
    using initManagers_api [of "redis_env d" "''https://gw''" "Some sample_session" "new_client \<lparr>rm_now = 0, rm_keys = []\<rparr>\<lparr>mc_session := Some sample_session\<rparr>"]
    by (simp_all add: wA_def logged_in_def new_client_def NewMezonClient_def sample_config_def Let_def)
  have "on_api (mc_apiClient wA) (\<lambda>a. ListChannelDetail (ce_api (redis_env d)) a (ses_Token sample_session) (itoaID 5)) wA = (Inr d, wA)"
    by (simp add: on_api_def deref_def api outside_def ListChannelDetail_def doProto_def doProtoSocket_def doProtoHttp_def decode_into_def
        redis_env_def sample_codec_def AttachSocket_def NewMezonApi_def Let_def)
  moreover have "mc_session wA = Some sample_session" "mc_session wB \<noteq> None" "mc_out wB = mc_out (snd (fetchChannel (redis_env d) (itoaID 5) wA))"
    "mem_view (mc_out wA) (''bot:'' @ l2ChannelPrefix @ itoaID 5) = None" "cd_ChannelId d \<noteq> 0"
    "ce_marshal_desc (redis_env d) d = Inr [0]" "ac_u_ChannelDescription (ce_api (redis_env d)) [0] = Inr d"
    by (simp_all add: wA_def wB_def logged_in_caches mem_view_def d_def redis_env_def sample_codec_def)
  moreover have "ce_store (redis_env d) = Some (as_SharedStore (NewStore mem_client [WithPrefix ''bot:'']))"
    by (simp add: redis_env_def)
  ultimately have "fetchChannel (redis_env d) (itoaID 5) wB = (Inr (fst (buildChannel d wB)), snd (buildChannel d wB))"
    using channels_shared_over_redis [OF mem.redis_server_axioms] by blast
  then show ?thesis by (simp add: Let_def d_def wA_def wB_def)
qed

end
