(* ===== verification/Socket_Dial.thy ===== *)
theory Socket_Dial
  imports Client_State
begin

text \<open>
  Where a socket connects to (\<^verbatim>\<open>buildURL\<close>, \<^verbatim>\<open>tcpAddr\<close> and \<^verbatim>\<open>dial\<close> of \<^verbatim>\<open>socket.go\<close>), with the functions of the
  standard library they use: \<^verbatim>\<open>url.QueryEscape\<close>, \<^verbatim>\<open>url.Values.Encode\<close>, \<^verbatim>\<open>net.SplitHostPort\<close> and \<^verbatim>\<open>net.JoinHostPort\<close>, and
  opening the connection (\<^verbatim>\<open>dialTCP\<close> of \<^verbatim>\<open>transport.go\<close>) over a network that is a parameter.
\<close>

section \<open>Query strings\<close>

definition unreserved :: "char \<Rightarrow> bool" where
  "unreserved c \<longleftrightarrow> is_digit c \<or> (let n = (of_char c :: nat) in (65 \<le> n \<and> n \<le> 90) \<or> (97 \<le> n \<and> n \<le> 122)) \<or>
     c = CHR ''-'' \<or> c = CHR ''_'' \<or> c = CHR ''.'' \<or> c = CHR ''~''"

definition hex_upper :: "nat \<Rightarrow> char" where
  "hex_upper n = char_of (if n < 10 then 48 + n else 55 + n)"

definition QueryEscape :: "string \<Rightarrow> string" where
  "QueryEscape s = concat (map (\<lambda>c.
     if unreserved c then [c]
     else if c = CHR '' '' then ''+''
     else [CHR ''%'', hex_upper (of_char c div 16), hex_upper (of_char c mod 16)]) s)"

text \<open>\<^verbatim>\<open>Values.Encode\<close> of values with one entry per key writes the keys in order.\<close>

definition encode_pair :: "string \<times> string \<Rightarrow> string" where
  "encode_pair kv = QueryEscape (fst kv) @ ''='' @ QueryEscape (snd kv)"

fun join_with :: "string \<Rightarrow> string list \<Rightarrow> string" where
  "join_with sep [] = []"
| "join_with sep [x] = x"
| "join_with sep (x # y # xs) = x @ sep @ join_with sep (y # xs)"

definition Values_Encode :: "(string \<times> string) list \<Rightarrow> string" where
  "Values_Encode kvs = join_with ''&'' (map encode_pair kvs)"

section \<open>Host and port\<close>

definition last_index :: "char \<Rightarrow> string \<Rightarrow> nat option" where
  "last_index c s = (if c \<in> set s then Some (length s - 1 - length (takeWhile (\<lambda>x. x \<noteq> c) (rev s))) else None)"

definition first_index :: "char \<Rightarrow> string \<Rightarrow> nat option" where
  "first_index c s = (if c \<in> set s then Some (length (takeWhile (\<lambda>x. x \<noteq> c) s)) else None)"

text \<open>\<^verbatim>\<open>net.SplitHostPort\<close>; \<^const>\<open>None\<close> is an error.\<close>

definition SplitHostPort :: "string \<Rightarrow> (string \<times> string) option" where
  "SplitHostPort hostport = (case last_index CHR '':'' hostport of
      None \<Rightarrow> None
    | Some i \<Rightarrow>
        if hd hostport = CHR ''[''
        then (case first_index CHR '']'' hostport of
            None \<Rightarrow> None
          | Some e \<Rightarrow>
              if e + 1 \<noteq> i then None
              else if CHR ''['' \<in> set (drop 1 hostport) \<or> CHR '']'' \<in> set (drop (e + 1) hostport) then None
              else Some (take (e - 1) (drop 1 hostport), drop (i + 1) hostport))
        else
          (let host = take i hostport
           in if CHR '':'' \<in> set host \<or> CHR ''['' \<in> set hostport \<or> CHR '']'' \<in> set hostport then None
              else Some (host, drop (i + 1) hostport)))"

section \<open>socket.go\<close>

definition buildURL :: "socket_settings \<Rightarrow> string \<Rightarrow> bool \<Rightarrow> string" where
  "buildURL s token createStatus =
     (let scheme = (if sk_useSSL s then ''wss'' else ''ws'');
          wsHost = (if sk_wsURL s = []
            then (if sk_port s \<noteq> [] \<and> sk_port s \<noteq> ''443'' \<and> sk_port s \<noteq> ''80'' then sk_host s @ '':'' @ sk_port s else sk_host s)
            else sk_wsURL s);
          q = Values_Encode [(''format'', ''protobuf''), (''lang'', ''en''),
            (''status'', if createStatus then ''true'' else ''false''), (''token'', token)]
      in scheme @ ''://'' @ wsHost @ ''/ws?'' @ q)"

text \<open>The part behind the first \<^verbatim>\<open>://\<close>, if there is one.\<close>

fun without_scheme :: "string \<Rightarrow> string option" where
  "without_scheme [] = None"
| "without_scheme (c # cs) = (if prefix ''://'' (c # cs) then Some (drop 3 (c # cs)) else without_scheme cs)"

definition host_port :: "string \<Rightarrow> string \<times> string" where
  "host_port addr = (case SplitHostPort addr of Some hp \<Rightarrow> hp | None \<Rightarrow> (addr, ''443''))"

definition tcpAddr :: "socket_settings \<Rightarrow> string \<times> string" where
  "tcpAddr s =
     (if sk_TcpURL s \<noteq> []
      then host_port (case without_scheme (sk_TcpURL s) of Some rest \<Rightarrow> rest | None \<Rightarrow> sk_TcpURL s)
      else if sk_wsURL s \<noteq> [] then host_port (sk_wsURL s)
      else if sk_port s \<noteq> [] then (sk_host s, sk_port s)
      else (sk_host s, ''443''))"

section \<open>transport.go\<close>

text \<open>\<^verbatim>\<open>net.JoinHostPort\<close>.\<close>

definition JoinHostPort :: "string \<Rightarrow> string \<Rightarrow> string" where
  "JoinHostPort host port = (if CHR '':'' \<in> set host then ''['' @ host @ '']:'' @ port else host @ '':'' @ port)"

text \<open>The network: connecting to an address, with TLS for a server name and with or without a check of the
  certificate, and the WebSocket dialer. All writes have their deadline.\<close>

record ('x, 'c) network =
  nw_websocket :: "string \<Rightarrow> ('x, 'c) call"
  nw_tcp :: "string \<Rightarrow> ('x, 'c) call"
  nw_tls :: "string \<Rightarrow> string \<Rightarrow> bool \<Rightarrow> ('x, 'c) call"
  nw_write :: "'c \<Rightarrow> bytes \<Rightarrow> ('x, unit) call"
  nw_close :: "'c \<Rightarrow> 'x \<Rightarrow> 'x"

datatype 'c transportConn = wsConn 'c | tcpConn 'c

fun nativePing :: "'c transportConn \<Rightarrow> bool" where
  "nativePing (wsConn _) = False"
| "nativePing (tcpConn _) = True"

fun conn_close :: "('x, 'c) network \<Rightarrow> 'c transportConn \<Rightarrow> 'x \<Rightarrow> 'x" where
  "conn_close nw (wsConn c) = nw_close nw c"
| "conn_close nw (tcpConn c) = nw_close nw c"

definition dialTCP :: "('x, 'c) network \<Rightarrow> string \<Rightarrow> string \<Rightarrow> bool \<Rightarrow> bool \<Rightarrow> string \<Rightarrow> ('x, 'c transportConn) call" where
  "dialTCP nw host port useSSL insecureSkipVerify token =
     (let addr = JoinHostPort host port
      in and_then (if useSSL then nw_tls nw addr host insecureSkipVerify else nw_tcp nw addr) (\<lambda>conn x.
           case nw_write nw conn (tcpHandshakeFrame token) x of
             (Inl e, x) \<Rightarrow> (Inl e, nw_close nw conn x)
           | (Inr _, x) \<Rightarrow> (Inr (tcpConn conn), x)))"

definition dial :: "('x, 'c) network \<Rightarrow> socket_settings \<Rightarrow> string \<Rightarrow> bool \<Rightarrow> ('x, 'c transportConn) call" where
  "dial nw s token createStatus =
     (if sk_Transport s = TransportWebSocket
      then and_then (nw_websocket nw (buildURL s token createStatus)) (\<lambda>conn. ret (wsConn conn))
      else (case tcpAddr s of (host, port) \<Rightarrow> dialTCP nw host port (sk_useSSL s) (sk_TLSInsecureSkipVerify s) token))"

section \<open>Reading a query\<close>

text \<open>What a server does with the query of a URL: split at \<^verbatim>\<open>&\<close>, split at the first \<^verbatim>\<open>=\<close> and unescape.\<close>

definition hex_value :: "char \<Rightarrow> nat option" where
  "hex_value c = (let n = (of_char c :: nat) in
     if 48 \<le> n \<and> n \<le> 57 then Some (n - 48) else if 65 \<le> n \<and> n \<le> 70 then Some (n - 55)
     else if 97 \<le> n \<and> n \<le> 102 then Some (n - 87) else None)"

fun QueryUnescape :: "string \<Rightarrow> string option" where
  "QueryUnescape [] = Some []"
| "QueryUnescape (c # cs) =
     (if c = CHR ''%''
      then (case cs of
          h # l # rest \<Rightarrow> (case (hex_value h, hex_value l) of
              (Some a, Some b) \<Rightarrow> map_option (Cons (char_of (a * 16 + b))) (QueryUnescape rest)
            | _ \<Rightarrow> None)
        | _ \<Rightarrow> None)
      else map_option (Cons (if c = CHR ''+'' then CHR '' '' else c)) (QueryUnescape cs))"

lemma hex_value_upper: "n < 16 \<Longrightarrow> hex_value (hex_upper n) = Some n"
  by (simp add: hex_value_def hex_upper_def)

lemma unreserved_safe: "unreserved c \<Longrightarrow> c \<noteq> CHR ''%'' \<and> c \<noteq> CHR ''+'' \<and> c \<noteq> CHR ''&'' \<and> c \<noteq> CHR ''=''"
  by (auto simp: unreserved_def Let_def is_digit_def)

lemma QueryUnescape_Escape: "QueryUnescape (QueryEscape s) = Some s"
proof (induction s)
  case (Cons c s)
  have eq: "char_of ((of_char c :: nat) div 16 * 16 + of_char c mod 16) = c" by simp
  have "(of_char c :: nat) < 256" by simp
  then have "(of_char c :: nat) div 16 < 16" by linarith
  then show ?case
    using Cons unreserved_safe [of c] eq by (auto simp: QueryEscape_def hex_value_upper)
qed (simp add: QueryEscape_def)

lemma hex_upper_safe: "n < 16 \<Longrightarrow> hex_upper n \<noteq> CHR ''&'' \<and> hex_upper n \<noteq> CHR ''=''"
  using hex_value_upper [of n] by (auto simp: hex_value_def)

lemma QueryEscape_safe: "c \<in> set (QueryEscape s) \<Longrightarrow> c \<noteq> CHR ''&'' \<and> c \<noteq> CHR ''=''"
proof (induction s)
  case (Cons x s)
  have "(of_char x :: nat) < 256" by simp
  then have "(of_char x :: nat) div 16 < 16" by linarith
  then show ?case
    using Cons unreserved_safe [of x] hex_upper_safe [of "of_char x div 16"] hex_upper_safe [of "of_char x mod 16"]
    by (auto simp: QueryEscape_def split: if_splits)
qed (simp add: QueryEscape_def)

definition parse_pair :: "string \<Rightarrow> (string \<times> string) option" where
  "parse_pair s = (case (QueryUnescape (takeWhile (\<lambda>c. c \<noteq> CHR ''='') s), QueryUnescape (drop 1 (dropWhile (\<lambda>c. c \<noteq> CHR ''='') s))) of
      (Some k, Some v) \<Rightarrow> Some (k, v) | _ \<Rightarrow> None)"

definition ParseQuery :: "string \<Rightarrow> (string \<times> string) option list" where
  "ParseQuery q = map parse_pair (str_split CHR ''&'' q)"

lemma parse_encode_pair: "parse_pair (encode_pair kv) = Some kv"
proof -
  have "takeWhile (\<lambda>c. c \<noteq> CHR ''='') (QueryEscape k @ CHR ''='' # v) = QueryEscape k"
    "dropWhile (\<lambda>c. c \<noteq> CHR ''='') (QueryEscape k @ CHR ''='' # v) = CHR ''='' # v" for k v
    using QueryEscape_safe [of _ k] by (auto simp: takeWhile_append dropWhile_append)
  then show ?thesis by (simp add: parse_pair_def encode_pair_def QueryUnescape_Escape)
qed

lemma str_split_join:
  assumes "xs \<noteq> []" "\<forall>x\<in>set xs. d \<notin> set x"
  shows "str_split d (join_with [d] xs) = xs"
  using assms by (induction "[d]" xs rule: join_with.induct) (simp_all add: str_split_single str_split_append)

lemma ParseQuery_Encode: "kvs \<noteq> [] \<Longrightarrow> ParseQuery (Values_Encode kvs) = map Some kvs"
proof -
  assume "kvs \<noteq> []"
  have "CHR ''&'' \<notin> set (encode_pair kv)" for kv
    using QueryEscape_safe by (auto simp: encode_pair_def)
  then have "str_split CHR ''&'' (Values_Encode kvs) = map encode_pair kvs"
    using \<open>kvs \<noteq> []\<close> unfolding Values_Encode_def by (intro str_split_join) auto
  then show ?thesis by (simp add: ParseQuery_def parse_encode_pair)
qed

section \<open>Addresses\<close>

definition plain :: "string \<Rightarrow> bool" where
  "plain h \<longleftrightarrow> CHR '':'' \<notin> set h \<and> CHR ''['' \<notin> set h \<and> CHR '']'' \<notin> set h"

lemma last_index_colon:
  assumes "CHR '':'' \<notin> set p"
  shows "last_index CHR '':'' (h @ CHR '':'' # p) = Some (length h)"
proof -
  have "takeWhile (\<lambda>x. x \<noteq> CHR '':'') (rev p @ CHR '':'' # rev h) = rev p"
    using assms by (auto simp: takeWhile_append)
  then show ?thesis by (simp add: last_index_def)
qed

lemma SplitHostPort_plain:
  assumes "plain h" "plain p"
  shows "SplitHostPort (h @ '':'' @ p) = Some (h, p)"
proof -
  have "hd (h @ CHR '':'' # p) \<noteq> CHR ''[''" using assms(1) by (cases h) (auto simp: plain_def)
  then show ?thesis
    using assms last_index_colon [of p h] by (auto simp: SplitHostPort_def plain_def Let_def)
qed

lemma SplitHostPort_ipv6:
  assumes "CHR ''['' \<notin> set h" "CHR '']'' \<notin> set h" "plain p"
  shows "SplitHostPort (''['' @ h @ '']:'' @ p) = Some (h, p)"
proof -
  have "last_index CHR '':'' ((CHR ''['' # h @ [CHR '']'']) @ CHR '':'' # p) = Some (length h + 2)"
    using last_index_colon [of p "CHR ''['' # h @ [CHR '']'']"] assms(3) by (simp add: plain_def)
  moreover have "first_index CHR '']'' (CHR ''['' # h @ CHR '']'' # CHR '':'' # p) = Some (length h + 1)"
    using assms(2) by (auto simp: first_index_def takeWhile_append)
  ultimately show ?thesis
    using assms by (simp add: SplitHostPort_def plain_def)
qed

lemma without_scheme_append:
  "CHR '':'' \<notin> set sch \<Longrightarrow> without_scheme (sch @ ''://'' @ rest) = Some rest"
  by (induction sch) (auto simp: prefix_def)

lemma without_scheme_none: "CHR ''/'' \<notin> set a \<Longrightarrow> without_scheme a = None"
  by (induction a) (auto simp: prefix_def)

lemma SplitHostPort_no_port: "plain h \<Longrightarrow> SplitHostPort h = None"
  by (simp add: SplitHostPort_def last_index_def plain_def)

lemma SplitHostPort_bracketed_no_port:
  assumes "CHR ''['' \<notin> set v" "CHR '']'' \<notin> set v" "CHR '':'' \<in> set v"
  shows "SplitHostPort (''['' @ v @ '']'') = None"
proof -
  have "first_index CHR '']'' (CHR ''['' # v @ [CHR '']'']) = Some (length v + 1)"
    using assms(2) by (auto simp: first_index_def takeWhile_append)
  moreover have "\<exists>i. last_index CHR '':'' (CHR ''['' # v @ [CHR '']'']) = Some i \<and> i \<le> length v + 1"
    by (auto simp: last_index_def assms(3))
  ultimately show ?thesis by (auto simp: SplitHostPort_def)
qed

lemma SplitHostPort_double:
  assumes "CHR '']'' \<notin> set h"
  shows "SplitHostPort (''[['' @ h @ '']]:443'') = None"
proof -
  have "last_index CHR '':'' (CHR ''['' # CHR ''['' # h @ '']]:443'') = Some (length h + 4)"
    using last_index_colon [of "''443''" "''[['' @ h @ '']]''"] by simp
  moreover have "first_index CHR '']'' (CHR ''['' # CHR ''['' # h @ '']]:443'') = Some (length h + 2)"
    using assms by (auto simp: first_index_def takeWhile_append)
  ultimately show ?thesis by (simp add: SplitHostPort_def)
qed

text \<open>Hosts and ports that can stand in an address.\<close>

definition host_ok :: "string \<Rightarrow> bool" where
  "host_ok h \<longleftrightarrow> h \<noteq> [] \<and> CHR ''['' \<notin> set h \<and> CHR '']'' \<notin> set h \<and> CHR ''/'' \<notin> set h"

definition port_ok :: "string \<Rightarrow> bool" where
  "port_ok p \<longleftrightarrow> plain p \<and> CHR ''/'' \<notin> set p"

lemma SplitHostPort_Join: "host_ok h \<Longrightarrow> port_ok p \<Longrightarrow> SplitHostPort (JoinHostPort h p) = Some (h, p)"
  using SplitHostPort_plain [of h p] SplitHostPort_ipv6 [of h p]
  by (auto simp: JoinHostPort_def host_ok_def port_ok_def plain_def)

lemma JoinHostPort_no_scheme: "host_ok h \<Longrightarrow> port_ok p \<Longrightarrow> JoinHostPort h p \<noteq> [] \<and> CHR ''/'' \<notin> set (JoinHostPort h p)"
  by (auto simp: JoinHostPort_def host_ok_def port_ok_def)

text \<open>The three places an address comes from.\<close>

lemma tcpAddr_sources:
  "a \<noteq> [] \<Longrightarrow> CHR ''/'' \<notin> set a \<Longrightarrow> tcpAddr (s\<lparr>sk_TcpURL := a\<rparr>) = host_port a"
  "tcpAddr (s\<lparr>sk_TcpURL := ''tcp://'' @ a\<rparr>) = host_port a"
  "a \<noteq> [] \<Longrightarrow> tcpAddr (s\<lparr>sk_TcpURL := [], sk_wsURL := a\<rparr>) = host_port a"
  using without_scheme_append [of "''tcp''" a] by (simp_all add: tcpAddr_def without_scheme_none)

lemma host_port_no_port:
  "plain h \<Longrightarrow> host_port h = (h, ''443'')"
  "CHR ''['' \<notin> set v \<Longrightarrow> CHR '']'' \<notin> set v \<Longrightarrow> CHR '':'' \<in> set v \<Longrightarrow> host_port (''['' @ v @ '']'') = (''['' @ v @ '']'', ''443'')"
  using SplitHostPort_bracketed_no_port [of v] by (simp_all add: host_port_def SplitHostPort_no_port)

text \<open>A network on which everything succeeds and that records the address and what was written.\<close>

definition recorder :: "(string list \<times> bytes list, unit) network" where
  "recorder = \<lparr>nw_websocket = (\<lambda>u (as, bs). (Inr (), as @ [u], bs)), nw_tcp = (\<lambda>a (as, bs). (Inr (), as @ [a], bs)),
     nw_tls = (\<lambda>a _ _ (as, bs). (Inr (), as @ [a], bs)), nw_write = (\<lambda>_ b (as, bs). (Inr (), as, bs @ [b])), nw_close = (\<lambda>_ x. x)\<rparr>"

lemma dial_recorder:
  assumes "sk_Transport s \<noteq> TransportWebSocket"
  shows "dial recorder s token b ([], []) =
    (Inr (tcpConn ()), [case tcpAddr s of (h, p) \<Rightarrow> JoinHostPort h p], [tcpHandshakeFrame token])"
  using assms by (simp add: dial_def dialTCP_def and_then_def recorder_def Let_def split: prod.splits)

lemma dial_from:
  assumes "sk_Transport s \<noteq> TransportWebSocket" "host_port a = (h, p)"
  shows "a \<noteq> [] \<Longrightarrow> CHR ''/'' \<notin> set a \<Longrightarrow> dial recorder (s\<lparr>sk_TcpURL := a\<rparr>) token b ([], []) =
      (Inr (tcpConn ()), [JoinHostPort h p], [tcpHandshakeFrame token])"
    and "dial recorder (s\<lparr>sk_TcpURL := ''tcp://'' @ a\<rparr>) token b ([], []) =
      (Inr (tcpConn ()), [JoinHostPort h p], [tcpHandshakeFrame token])"
    and "a \<noteq> [] \<Longrightarrow> dial recorder (s\<lparr>sk_TcpURL := [], sk_wsURL := a\<rparr>) token b ([], []) =
      (Inr (tcpConn ()), [JoinHostPort h p], [tcpHandshakeFrame token])"
proof -
  have r: "dial recorder s' token b ([], []) = (Inr (tcpConn ()), [JoinHostPort h p], [tcpHandshakeFrame token])"
    if "sk_Transport s' = sk_Transport s" "tcpAddr s' = (h, p)" for s'
    using that assms(1) by (simp add: dial_recorder)
  have t: "tcpAddr (s\<lparr>sk_TcpURL := ''tcp://'' @ a\<rparr>) = (h, p)" using tcpAddr_sources(2) assms(2) by metis
  show "dial recorder (s\<lparr>sk_TcpURL := ''tcp://'' @ a\<rparr>) token b ([], []) =
      (Inr (tcpConn ()), [JoinHostPort h p], [tcpHandshakeFrame token])"
    by (rule r [OF _ t]) simp
  show "dial recorder (s\<lparr>sk_TcpURL := a\<rparr>) token b ([], []) =
      (Inr (tcpConn ()), [JoinHostPort h p], [tcpHandshakeFrame token])" if "a \<noteq> []" "CHR ''/'' \<notin> set a"
    by (rule r) (simp_all add: tcpAddr_sources(1) that assms(2))
  show "dial recorder (s\<lparr>sk_TcpURL := [], sk_wsURL := a\<rparr>) token b ([], []) =
      (Inr (tcpConn ()), [JoinHostPort h p], [tcpHandshakeFrame token])" if "a \<noteq> []"
    by (rule r) (simp_all add: tcpAddr_sources(3) that assms(2))
qed

text \<open>
  C30. Where a socket connects and what it says first. The token travels in the query of the WebSocket URL and is read
  back exactly, whatever bytes it has, with the other three parameters. Over TCP the address the server gave for
  TCP has precedence, then the WebSocket address, then the configured host: exactly this address is opened, with a
  scheme dropped and with the port 443 where it has none, for host names and for IPv6 addresses; the first write is the handshake with
  the token, and a connection on which it fails is closed. An IPv6 address in brackets without a port is the exception: it is put in
  brackets a second time, which is not an address.
\<close>

theorem dial_target_exact:
  assumes "sk_Transport s \<noteq> TransportWebSocket" "host_ok h" "port_ok p"
  shows "(\<exists>before query. (\<forall>nw. dial nw (s\<lparr>sk_Transport := TransportWebSocket\<rparr>) token b =
        and_then (nw_websocket nw (before @ ''/ws?'' @ query)) (\<lambda>c. ret (wsConn c))) \<and>
      ParseQuery query = [Some (''format'', ''protobuf''), Some (''lang'', ''en''), Some (''status'', if b then ''true'' else ''false''), Some (''token'', token)]) \<and>
   (\<forall>s'\<in>{s\<lparr>sk_TcpURL := JoinHostPort h p\<rparr>, s\<lparr>sk_TcpURL := ''tcp://'' @ JoinHostPort h p\<rparr>, s\<lparr>sk_TcpURL := [], sk_wsURL := JoinHostPort h p\<rparr>}.
      dial recorder s' token b ([], []) = (Inr (tcpConn ()), [JoinHostPort h p], [tcpHandshakeFrame token])) \<and>
   (CHR '':'' \<notin> set h \<longrightarrow> (\<forall>s'\<in>{s\<lparr>sk_TcpURL := h\<rparr>, s\<lparr>sk_TcpURL := ''tcp://'' @ h\<rparr>, s\<lparr>sk_TcpURL := [], sk_wsURL := h\<rparr>}.
      fst (snd (dial recorder s' token b ([], []))) = [h @ '':443''])) \<and>
   (CHR '':'' \<in> set h \<longrightarrow>
      (let a = hd (fst (snd (dial recorder (s\<lparr>sk_TcpURL := ''['' @ h @ '']''\<rparr>) token b ([], []))))
       in a = ''[['' @ h @ '']]:443'' \<and> SplitHostPort a = None)) \<and>
   (\<forall>nw c x e x'. nw_write nw c (tcpHandshakeFrame token) x = (Inl e, x') \<longrightarrow>
      nw_tls nw = (\<lambda>_ _ _ x. (Inr c, x)) \<longrightarrow> nw_tcp nw = (\<lambda>_ x. (Inr c, x)) \<longrightarrow> dial nw s token b x = (Inl e, nw_close nw c x'))"
  (is "?ws \<and> ?addr \<and> ?default \<and> ?ipv6 \<and> ?fail")
proof (intro conjI)
  let ?kvs = "[(''format'', ''protobuf''), (''lang'', ''en''), (''status'', if b then ''true'' else ''false''), (''token'', token)]"
  have parsed: "ParseQuery (Values_Encode ?kvs) = map Some ?kvs" by (rule ParseQuery_Encode) simp
  have "buildURL (s\<lparr>sk_Transport := TransportWebSocket\<rparr>) token b =
      ((if sk_useSSL s then ''wss'' else ''ws'') @ ''://'' @ (if sk_wsURL s = []
        then (if sk_port s \<noteq> [] \<and> sk_port s \<noteq> ''443'' \<and> sk_port s \<noteq> ''80'' then sk_host s @ '':'' @ sk_port s else sk_host s)
        else sk_wsURL s)) @ ''/ws?'' @ Values_Encode ?kvs"
    by (simp add: buildURL_def Let_def)
  then obtain u where "buildURL (s\<lparr>sk_Transport := TransportWebSocket\<rparr>) token b = u @ ''/ws?'' @ Values_Encode ?kvs" by blast
  then show ?ws
    using parsed by (intro exI [of _ u] exI [of _ "Values_Encode ?kvs"] conjI allI) (simp_all add: dial_def)
next
  have hp: "host_port (JoinHostPort h p) = (h, p)" using SplitHostPort_Join [OF assms(2,3)] by (simp add: host_port_def)
  note j = JoinHostPort_no_scheme [OF assms(2,3)]
  show ?addr
    using j dial_from [OF assms(1) hp] by (intro ballI) (elim insertE emptyE; simp only: simp_thms)
next
  show ?default
  proof (rule impI)
    assume c: "CHR '':'' \<notin> set h"
    then have hp: "host_port h = (h, ''443'')" using assms(2) by (intro host_port_no_port(1)) (simp add: plain_def host_ok_def)
    have "h \<noteq> []" "CHR ''/'' \<notin> set h" using assms(2) by (simp_all add: host_ok_def)
    moreover have "JoinHostPort h ''443'' = h @ '':443''" using c by (simp add: JoinHostPort_def)
    ultimately show "\<forall>s'\<in>{s\<lparr>sk_TcpURL := h\<rparr>, s\<lparr>sk_TcpURL := ''tcp://'' @ h\<rparr>, s\<lparr>sk_TcpURL := [], sk_wsURL := h\<rparr>}.
      fst (snd (dial recorder s' token b ([], []))) = [h @ '':443'']"
      using dial_from [OF assms(1) hp] by (intro ballI) (elim insertE emptyE; simp only: fst_conv snd_conv simp_thms)
  qed
next
  show ?ipv6
  proof (intro impI)
    assume c: "CHR '':'' \<in> set h"
    have b: "CHR ''['' \<notin> set h" "CHR '']'' \<notin> set h" "CHR ''/'' \<notin> set h" using assms(2) by (simp_all add: host_ok_def)
    have t: "tcpAddr (s\<lparr>sk_TcpURL := ''['' @ h @ '']''\<rparr>) = (''['' @ h @ '']'', ''443'')"
      using host_port_no_port(2) [OF b(1,2) c] b by (subst tcpAddr_sources(1)) simp_all
    have a: "fst (snd (dial recorder (s\<lparr>sk_TcpURL := ''['' @ h @ '']''\<rparr>) token b ([], []))) = [''[['' @ h @ '']]:443'']"
      using assms(1) t c by (subst dial_recorder) (simp_all add: JoinHostPort_def)
    have "SplitHostPort (''[['' @ h @ '']]:443'') = None" by (rule SplitHostPort_double) (use b in simp_all)
    with a show "let a = hd (fst (snd (dial recorder (s\<lparr>sk_TcpURL := ''['' @ h @ '']''\<rparr>) token b ([], []))))
       in a = ''[['' @ h @ '']]:443'' \<and> SplitHostPort a = None"
      by (simp only: Let_def list.sel simp_thms)
  qed
next
  show ?fail
    using assms(1) by (auto simp: dial_def dialTCP_def and_then_def Let_def split: prod.splits)
qed
definition sample_socket :: socket_settings where
  "sample_socket = \<lparr>sk_wsURL = [], sk_host = ''gw.mezon.ai'', sk_port = ''443'', sk_useSSL = True, sk_Transport = TransportTCP,
     sk_TLSInsecureSkipVerify = False, sk_TcpURL = []\<rparr>"

theorem dial_target_exact_witness:
  "fst (snd (dial recorder (sample_socket\<lparr>sk_TcpURL := ''tcp://'' @ ''tcp.mezon.ai''\<rparr>) ''t'' True ([], []))) = [''tcp.mezon.ai:443''] \<and>
   dial recorder (sample_socket\<lparr>sk_TcpURL := JoinHostPort ''::1'' ''4433''\<rparr>) ''t'' True ([], []) =
     (Inr (tcpConn ()), [''[::1]:4433''], [tcpHandshakeFrame ''t''])"
proof
  have "sk_Transport sample_socket \<noteq> TransportWebSocket" "host_ok ''tcp.mezon.ai''" "host_ok ''::1''" "port_ok ''443''" "port_ok ''4433''"
    by (simp_all add: sample_socket_def host_ok_def port_ok_def plain_def)
  note h = this
  show "fst (snd (dial recorder (sample_socket\<lparr>sk_TcpURL := ''tcp://'' @ ''tcp.mezon.ai''\<rparr>) ''t'' True ([], []))) = [''tcp.mezon.ai:443'']"
    using dial_target_exact [OF h(1,2,4), of "''t''" True, THEN conjunct2, THEN conjunct2, THEN conjunct1] by simp
  show "dial recorder (sample_socket\<lparr>sk_TcpURL := JoinHostPort ''::1'' ''4433''\<rparr>) ''t'' True ([], []) =
     (Inr (tcpConn ()), [''[::1]:4433''], [tcpHandshakeFrame ''t''])"
    using dial_target_exact [OF h(1,3,5), of "''t''" True, THEN conjunct2, THEN conjunct1] by (simp add: JoinHostPort_def)
qed

end
