(* ===== verification/Json_Fuel.thy ===== *)
theory Json_Fuel
  imports Json
begin

text \<open>
  The fuel of the JSON parser is only a measure: on every input, well formed or not, the amount that
  \<^const>\<open>json_parse\<close> provides gives the result that any larger amount gives.
\<close>

section \<open>Every construct consumes input\<close>

lemma skip_ws_length: "length (skip_ws s) \<le> length s"
  by (simp add: skip_ws_def length_dropWhile_le)

lemma skip_ws_Cons: "skip_ws s = c # cs \<Longrightarrow> length cs < length s"
  using skip_ws_length [of s] by simp

lemma cons_fst_SomeD: "cons_fst z m = Some (x, r) \<Longrightarrow> \<exists>y. m = Some (y, r)"
  by (auto simp: cons_fst_def)

definition continues :: "nat \<Rightarrow> string \<Rightarrow> bool" where
  "continues n r \<longleftrightarrow> (\<exists>t y. length t \<le> n \<and> parse_string t = Some (y, r))"

lemma continuesI: "cons_fst z (parse_string t) = Some (x, r) \<Longrightarrow> length t \<le> n \<Longrightarrow> continues n r"
  by (auto simp: continues_def dest: cons_fst_SomeD)

lemma parse_escape_continues:
  assumes "parse_string (CHR 0x5C # cs) = Some (x, r)"
  shows "continues (length cs) r"
proof (cases cs)
  case Nil
  then show ?thesis using assms by simp
next
  case (Cons e ds)
  then show ?thesis
    using assms by (auto split: option.splits if_splits bool.splits intro!: continuesI)
qed

lemma parse_string_continues:
  assumes "parse_string (c # cs) = Some (x, r)" "c \<noteq> CHR 0x22"
  shows "continues (length cs) r"
proof (cases "c = CHR 0x5C")
  case True
  then show ?thesis using assms parse_escape_continues by blast
next
  case False
  show ?thesis
  proof (cases "(of_char c :: nat) < 0x80")
    case True
    then show ?thesis using assms False by (auto split: if_splits intro: continuesI)
  next
    case big: False
    obtain z n where "first_rune (c # cs) = (z, n)" by fastforce
    then show ?thesis
      using assms False big drop_first_rune [of c cs z n] by (auto split: if_splits intro: continuesI)
  qed
qed

lemma parse_string_consumes: "parse_string s = Some (x, r) \<Longrightarrow> length r < length s"
proof (induction "length s" arbitrary: s x rule: less_induct)
  case less
  obtain c cs where s: "s = c # cs" using less.prems by (cases s) auto
  show ?case
  proof (cases "c = CHR 0x22")
    case False
    then have "continues (length cs) r" using parse_string_continues less.prems unfolding s by blast
    then obtain t y where "length t \<le> length cs" "parse_string t = Some (y, r)"
      unfolding continues_def by blast
    then show ?thesis using less.hyps [of t y] s by simp
  qed (use less.prems s in simp)
qed

lemma strip_prefix_consumes: "strip_prefix p s = Some r \<Longrightarrow> length r \<le> length s"
  by (auto simp: strip_prefix_def split: if_splits)

lemma span_digits_length: "span_digits s = (a, r) \<Longrightarrow> length r \<le> length s"
  by (auto simp: span_digits_def length_dropWhile_le)

lemma scan_int_consumes: "scan_int s = Some (a, r) \<Longrightarrow> length r < length s"
  using span_digits_length [of "tl s"]
  by (auto simp: scan_int_def span_digits_def split: list.splits if_splits dest: span_digits_length intro!: le_imp_less_Suc length_dropWhile_le)

lemma scan_number_consumes: "scan_number s = Some (a, r) \<Longrightarrow> length r < length s"
proof -
  assume a: "scan_number s = Some (a, r)"
  obtain sg s1 where 1: "scan_sign s = (sg, s1)" by fastforce
  with a obtain i s2 f s3 x where 2: "scan_int s1 = Some (i, s2)" "scan_frac s2 = Some (f, s3)" "scan_exp s3 = Some (x, r)"
    by (auto simp: scan_number_def split: option.splits)
  have "length s1 \<le> length s" using 1 by (auto simp: scan_sign_def split: list.splits if_splits)
  moreover have "length s3 \<le> length s2"
    using 2(2) by (auto simp: scan_frac_def split: list.splits if_splits prod.splits dest!: span_digits_length)
  moreover have "length r \<le> length s3"
    using 2(3) by (auto simp: scan_exp_def split: list.splits if_splits prod.splits dest!: span_digits_length)
  ultimately show ?thesis using scan_int_consumes [OF 2(1)] by linarith
qed

lemma parse_consumes:
  "parse_value n d s = Some (v, r) \<Longrightarrow> length r < length s"
  "parse_elements n d s = Some (vs, r) \<Longrightarrow> length r < length s"
  "parse_members n d s = Some (kvs, r) \<Longrightarrow> length r < length s"
proof (induction n d s and n d s and n d s arbitrary: v r and vs r and kvs r rule: parse_value_parse_elements_parse_members.induct)
  case (2 n d s)
  obtain c cs where s: "skip_ws s = c # cs" using "2.prems" by (cases "skip_ws s") auto
  have w: "length cs < length s" using s by (rule skip_ws_Cons)
  have "length r \<le> length cs"
  proof (cases "c = CHR ''['' \<or> c = CHR ''{''")
    case True
    then obtain x xs where x: "skip_ws cs = x # xs" using "2.prems" s by (cases "skip_ws cs") (auto split: if_splits)
    have "length (x # xs) \<le> length cs" using skip_ws_length [of cs] x by simp
    then show ?thesis
      using "2.prems" "2.IH" True s x by (fastforce split: if_splits)
  next
    case False
    have n: "scan_number (c # cs) = Some (l, r') \<Longrightarrow> length r' \<le> length cs" for l r'
      using scan_number_consumes [of "c # cs" l r'] by simp
    show ?thesis
      using "2.prems" False s
      by (auto split: if_splits dest!: parse_string_consumes strip_prefix_consumes n)
  qed
  with w show ?case by simp
next
  case (4 n d s)
  obtain v r1 where 1: "parse_value n d s = Some (v, r1)" using "4.prems" by (auto split: option.splits)
  obtain c cs where 2: "skip_ws r1 = c # cs" using "4.prems" 1 by (cases "skip_ws r1") auto
  have "length cs < length s" using "4.IH"(1) [OF 1] skip_ws_Cons [OF 2] by simp
  then show ?case using "4.prems" "4.IH"(2) [OF 1 refl 2] 1 2 by (fastforce split: if_splits)
next
  case (6 n d s)
  obtain qs where 1: "skip_ws s = CHR 0x22 # qs"
    using "6.prems" by (cases "skip_ws s") (auto split: if_splits)
  obtain k r1 where 2: "parse_string qs = Some (k, r1)" using "6.prems" 1 by (auto split: option.splits)
  obtain cs where 3: "skip_ws r1 = CHR '':'' # cs"
    using "6.prems" 1 2 by (cases "skip_ws r1") (auto split: if_splits)
  obtain v r2 where 4: "parse_value n d cs = Some (v, r2)" using "6.prems" 1 2 3 by (auto split: option.splits)
  obtain e es where 5: "skip_ws r2 = e # es" using "6.prems" 1 2 3 4 by (cases "skip_ws r2") auto
  have "length es < length s"
    using "6.IH"(1) [OF 1 _ 2 refl 3 _ 4] skip_ws_Cons [OF 1] parse_string_consumes [OF 2] skip_ws_Cons [OF 3] skip_ws_Cons [OF 5] by simp
  moreover have "length r' < length es" if "parse_members n d es = Some (kvs', r')" "e = CHR '',''" for kvs' r'
    using "6.IH"(2) [OF 1 _ 2 refl 3 _ 4 refl 5] that by simp
  ultimately show ?case using "6.prems" 1 2 3 4 5 by (fastforce split: if_splits)
qed simp_all

section \<open>More fuel changes nothing\<close>

lemma more_fuel:
  "2 * length s + 1 \<le> n \<Longrightarrow> 2 * length s + 1 \<le> m \<Longrightarrow> parse_value n d s = parse_value m d s"
  "2 * length s + 2 \<le> n \<Longrightarrow> 2 * length s + 2 \<le> m \<Longrightarrow> parse_elements n d s = parse_elements m d s"
  "2 * length s + 2 \<le> n \<Longrightarrow> 2 * length s + 2 \<le> m \<Longrightarrow> parse_members n d s = parse_members m d s"
proof (induction "length s" arbitrary: s n m d rule: less_induct)
  case less
  have val: "parse_value (Suc n) d s = parse_value (Suc m) d s" if "2 * length s \<le> n" "2 * length s \<le> m" for n m d
  proof (cases "skip_ws s")
    case (Cons c cs)
    note w = skip_ws_Cons [OF this]
    show ?thesis
    proof (cases "skip_ws cs")
      case (Cons x xs)
      have "length (x # xs) < length s" using skip_ws_length [of cs] Cons w by simp
      then have "parse_elements n d' (x # xs) = parse_elements m d' (x # xs)" "parse_members n d' (x # xs) = parse_members m d' (x # xs)" for d'
        using less(2,3) [of "x # xs" n m d'] that by simp_all
      then show ?thesis using \<open>skip_ws s = c # cs\<close> Cons by (auto split: if_splits)
    qed (simp add: Cons)
  qed simp
  {
    case 1
    then show ?case using val [of "n - 1" "m - 1" d] by (cases n; cases m) auto
  next
    case 2
    then obtain n' m' where nm: "n = Suc n'" "m = Suc m'" by (cases n; cases m) auto
    have v: "parse_value n' d s = parse_value m' d s" using val [of "n' - 1" "m' - 1" d] 2 nm by (cases n'; cases m') auto
    have "parse_elements n' d cs = parse_elements m' d cs" if "parse_value n' d s = Some (x, r)" "skip_ws r = c # cs" for x r c cs
    proof -
      have "length cs + 1 < length s" using parse_consumes(1) [OF that(1)] skip_ws_Cons [OF that(2)] by simp
      then show ?thesis using less(2) [of cs n' m' d] 2 nm by simp
    qed
    then show ?case using v nm by (auto split: option.splits list.splits)
  next
    case 3
    then obtain n' m' where nm: "n = Suc n'" "m = Suc m'" by (cases n; cases m) auto
    show ?case
    proof (cases "skip_ws s")
      case (Cons q qs)
      show ?thesis
      proof (cases "parse_string qs")
        case (Some kr)
        then obtain k r where k: "parse_string qs = Some (k, r)" by (cases kr) simp
        show ?thesis
        proof (cases "skip_ws r")
          case (Cons c cs)
          have l: "length cs + 2 < length s"
            using skip_ws_Cons [OF \<open>skip_ws s = q # qs\<close>] parse_string_consumes [OF k] skip_ws_Cons [OF Cons] by simp
          have v: "parse_value n' d cs = parse_value m' d cs" using less(1) [of cs n' m' d] 3 nm l by simp
          have "parse_members n' d es = parse_members m' d es" if "parse_value m' d cs = Some (x, r2)" "skip_ws r2 = e # es" for x r2 e es
          proof -
            have "length es < length cs" using parse_consumes(1) [OF that(1)] skip_ws_Cons [OF that(2)] by simp
            then show ?thesis using less(3) [of es n' m' d] 3 nm l by simp
          qed
          then show ?thesis
            using v nm k Cons \<open>skip_ws s = q # qs\<close> by (simp split: option.splits list.splits)
        qed (simp add: nm Cons k)
      qed (simp add: nm Cons)
    qed (simp add: nm)
  }
qed

lemma json_parse_any_fuel:
  "2 * length s + 1 \<le> n \<Longrightarrow> json_parse s = (case parse_value n max_nesting s of
     None \<Rightarrow> None | Some (v, r) \<Rightarrow> if skip_ws r = [] then Some v else None)"
  using more_fuel(1) [of s n "2 * length s + 2" max_nesting] by (simp add: json_parse_def)

end
