(* ===== verification/Play_Media.thy ===== *)
theory Play_Media
  imports Rest_Api "HOL-Library.List_Lexorder" "HOL-Library.Char_ord"
begin

text \<open>
  \<^verbatim>\<open>PlayMedia\<close> of \<^verbatim>\<open>restapi.go\<close>, the one request that posts JSON to a server of its own instead of a message to the
  API. A Go \<^verbatim>\<open>map[string]any\<close> is an association list with distinct keys whose values keep their JSON form; \<^const>\<open>None\<close> is the nil map.
\<close>

type_synonym any_map = "(string \<times> json) list option"

section \<open>Encoding and decoding maps\<close>

text \<open>\<^verbatim>\<open>json.Marshal\<close> writes the entries of a map in the order of the bytes of the keys.\<close>

definition marshal_map :: "any_map \<Rightarrow> bytes" where
  "marshal_map m = bytes_of_string (json_encode True (case m of None \<Rightarrow> JNull | Some kvs \<Rightarrow> JObject (sort_key fst kvs)))"

text \<open>A number that is out of range for a \<^verbatim>\<open>float64\<close> is an error that leaves nil in its place, and decoding goes on.\<close>

fun go_any :: "json \<Rightarrow> json" where
  "go_any (JNumber l) = (if float_range_ok l then JNumber l else JNull)"
| "go_any (JArray vs) = JArray (map go_any vs)"
| "go_any (JObject kvs) = JObject (map (\<lambda>(k, v). (k, go_any v)) kvs)"
| "go_any v = v"

text \<open>\<^verbatim>\<open>json.Unmarshal(data, &out)\<close> with its error ignored, where \<^verbatim>\<open>out\<close> is the empty map before: a text that is not JSON and
  a value that is not an object leave it empty, and \<^verbatim>\<open>null\<close> makes it nil.\<close>

definition unmarshal_map :: "bytes \<Rightarrow> any_map" where
  "unmarshal_map data = (case json_parse (string_of_bytes data) of
      Some (JObject kvs) \<Rightarrow> Some (foldl (\<lambda>m (k, v). AList.update k (go_any v) m) [] kvs)
    | Some JNull \<Rightarrow> None
    | _ \<Rightarrow> Some [])"

section \<open>restapi.go\<close>

definition media_url :: string where
  "media_url = ''https://stn.mezon.ai/api/playmedia''"

definition media_request :: "'s MezonApi \<Rightarrow> string \<Rightarrow> bytes \<Rightarrow> http_request" where
  "media_request a bearer payload = \<lparr>hq_url = media_url,
     hq_header = (''Content-Type'', ''application/json'') # (if bearer \<noteq> [] then [(''Authorization'', ''Bearer '' @ bearer)] else []),
     hq_body = payload, hq_timeout = ma_Timeout a\<rparr>"

text \<open>The error of reading the body is dropped; \<open>partial\<close> is what had been read before it. A map that cannot be
  marshalled is the error that \<^verbatim>\<open>json.Marshal\<close> gives.\<close>

definition PlayMedia :: "(http_response \<Rightarrow> bytes) \<Rightarrow> 's MezonApi \<Rightarrow> string \<Rightarrow> any_map result \<Rightarrow> ('s, any_map) call" where
  "PlayMedia partial a bearer body = (case body of
      Inl e \<Rightarrow> fail e
    | Inr m \<Rightarrow> and_then (ma_client a (media_request a bearer (marshal_map m))) (\<lambda>res.
        let data = (case hp_body res of Inr d \<Rightarrow> d | Inl _ \<Rightarrow> partial res)
        in ret (if 0 < length data then unmarshal_map data else Some [])))"

section \<open>Maps survive\<close>

lemma go_any_ok: "any_ok v \<Longrightarrow> go_any v = v"
  by (induction v rule: go_any.induct) (auto intro!: map_idI)

lemma update_new: "k \<notin> set (map fst m) \<Longrightarrow> AList.update k v m = m @ [(k, v)]"
  by (induction m) auto

lemma update_all_distinct:
  assumes "distinct (map fst (m @ kvs))" "\<forall>kv\<in>set kvs. any_ok (snd kv)"
  shows "foldl (\<lambda>m (k, v). AList.update k (go_any v) m) m kvs = m @ kvs"
  using assms
proof (induction kvs arbitrary: m)
  case (Cons kv kvs)
  obtain k v where kv: "kv = (k, v)" by fastforce
  have "AList.update k (go_any v) m = m @ [(k, v)]"
    using Cons.prems by (subst update_new) (auto simp: kv go_any_ok)
  then show ?case using Cons.IH [of "m @ [(k, v)]"] Cons.prems by (simp add: kv)
qed simp

definition map_ok :: "(string \<times> json) list \<Rightarrow> bool" where
  "map_ok kvs \<longleftrightarrow> distinct (map fst kvs) \<and> json_ok (JObject kvs) \<and> any_ok (JObject kvs) \<and>
     json_depth (JObject kvs) \<le> max_nesting"

lemma foldr_max_Max: "foldr max xs (0::nat) = Max (insert 0 (set xs))"
proof (induction xs)
  case (Cons x xs)
  have "Max (insert x (insert 0 (set xs))) = max x (Max (insert 0 (set xs)))" by (rule Max_insert) simp_all
  then show ?case using Cons by (simp add: insert_commute)
qed simp

lemma unmarshal_marshal_map:
  assumes "map_ok kvs"
  shows "unmarshal_map (marshal_map (Some kvs)) = Some (sort_key fst kvs)"
proof -
  let ?s = "sort_key fst kvs"
  have "json_depth (JObject ?s) = json_depth (JObject kvs)"
    by (simp add: foldr_max_Max)
  then have "json_parse (json_encode True (JObject ?s)) = Some (JObject ?s)"
    using assms by (intro json_parse_encode) (auto simp: map_ok_def)
  moreover have "distinct (map fst ?s)"
    using assms by (simp add: map_ok_def distinct_map)
  ultimately show ?thesis
    using assms update_all_distinct [of "[]" ?s] by (simp add: unmarshal_map_def marshal_map_def map_ok_def)
qed

lemma marshal_map_nonempty: "0 < length (marshal_map m)"
  by (simp add: marshal_map_def bytes_of_string_def split: option.splits)

text \<open>
  What is posted is the map, and what the server sends back is returned as a map: a server that answers with the
  map it got gives it back, for every map of JSON values and whatever the status is. The socket is never used. Only a
  failure to encode or to send is an error: a refusal (401, 500) is returned like a success, and an answer that is
  not JSON is the empty map.
\<close>

theorem PlayMedia_echo_and_failures:
  assumes "ma_client a (media_request a bearer (marshal_map m)) s = (r, s')"
  shows "case r of
      Inl e \<Rightarrow> PlayMedia partial (a\<lparr>ma_socket := p\<rparr>) bearer (Inr m) s = (Inl e, s')
    | Inr res \<Rightarrow> \<exists>m'. PlayMedia partial (a\<lparr>ma_socket := p\<rparr>) bearer (Inr m) s = (Inr m', s') \<and>
        (\<forall>kvs. m = Some kvs \<longrightarrow> map_ok kvs \<longrightarrow> hp_body res = Inr (marshal_map m) \<longrightarrow> map_of (the m') = map_of kvs) \<and>
        (\<forall>data. hp_body res = Inr data \<longrightarrow> json_parse (string_of_bytes data) = None \<longrightarrow> m' = Some [])"
proof (cases r)
  case (Inl e)
  then show ?thesis using assms by (simp add: PlayMedia_def media_request_def and_then_def)
next
  case (Inr res)
  have same: "map_of (sort_key fst kvs) = map_of kvs" if "map_ok kvs" for kvs
    using that by (subst map_of_inject_set) (simp_all add: map_ok_def distinct_map)
  have none: "unmarshal_map data = Some []" if "json_parse (string_of_bytes data) = None" for data
    using that by (simp add: unmarshal_map_def)
  show ?thesis
    using assms Inr marshal_map_nonempty [of m] same none
    by (auto simp: PlayMedia_def media_request_def and_then_def Let_def unmarshal_marshal_map)
qed

theorem PlayMedia_echo_and_failures_witness:
  "let m = [(''url'', JString ''a''), (''clan'', JNumber ''7'')]; echo = (\<lambda>q. ret \<lparr>hp_status = 500, hp_body = Inr (hq_body q)\<rparr>)
   in \<exists>m'. PlayMedia (\<lambda>_. []) (NewMezonApi echo ''key'' ''https://gw'' 0) ''tok'' (Inr (Some m)) () = (Inr m', ()) \<and>
     map_of (the m') = map_of m"
proof -
  define m where "m = [(''url'', JString ''a''), (''clan'', JNumber ''7'')]"
  define api :: "unit MezonApi" where "api = NewMezonApi (\<lambda>q. ret \<lparr>hp_status = 500, hp_body = Inr (hq_body q)\<rparr>) ''key'' ''https://gw'' 0"
  have "map_ok m"
    by (simp add: m_def map_ok_def utf8_valid_ascii number_ok_def scan_number_def scan_sign_def scan_int_def scan_frac_def scan_exp_def
        span_digits_def is_digit_def float_range_ok_def exponent_value_def digits_value_def digit_val_def max_nesting_def)
  moreover have "ma_client api (media_request api ''tok'' (marshal_map (Some m))) () = (Inr \<lparr>hp_status = 500, hp_body = Inr (marshal_map (Some m))\<rparr>, ())"
    by (simp add: api_def NewMezonApi_def Let_def media_request_def)
  moreover have "api\<lparr>ma_socket := None\<rparr> = api" by (simp add: api_def NewMezonApi_def Let_def)
  ultimately show ?thesis
    using PlayMedia_echo_and_failures [of api "''tok''" "Some m" "()" _ "()" "\<lambda>_. []" None] by (fastforce simp: Let_def m_def [symmetric] api_def [symmetric])
qed

end
