(* ===== verification/Message_Db_Open.thy ===== *)
theory Message_Db_Open
  imports Message_Db Go_Calls
begin

text \<open>
  Opening and closing the message database (\<^verbatim>\<open>New\<close>, \<^verbatim>\<open>init\<close> and \<^verbatim>\<open>Close\<close> of \<^verbatim>\<open>messagedb/messagedb.go\<close>). The file system and
  SQLite are parameters; what SQLite promises of its files is a locale, with an interpretation on files in memory.
\<close>

section \<open>messagedb.go\<close>

text \<open>\<open>sq_Dir\<close> is \<^verbatim>\<open>filepath.Dir\<close>; \<open>sq_create_table\<close> and \<open>sq_create_index\<close> are the two statements of \<^verbatim>\<open>init\<close>.\<close>

record ('x, 'h) sqlite =
  sq_Dir :: "string \<Rightarrow> string"
  sq_MkdirAll :: "string \<Rightarrow> ('x, unit) call"
  sq_Open :: "string \<Rightarrow> ('x, 'h) call"
  sq_create_table :: "'h \<Rightarrow> ('x, unit) call"
  sq_create_index :: "'h \<Rightarrow> ('x, unit) call"
  sq_Close :: "'h \<Rightarrow> ('x, unit) call"

definition wrap_error :: "string \<Rightarrow> ('x, 'a) call \<Rightarrow> ('x, 'a) call" where
  "wrap_error what m x = (case m x of (Inl e, x) \<Rightarrow> (Inl (ErrWrap what e []), x) | (Inr r, x) \<Rightarrow> (Inr r, x))"

definition db_init :: "('x, 'h) sqlite \<Rightarrow> 'h \<Rightarrow> ('x, unit) call" where
  "db_init sq db =
     and_then (wrap_error ''messagedb: create table: '' (sq_create_table sq db))
       (\<lambda>_. wrap_error ''messagedb: create index: '' (sq_create_index sq db))"

definition NewDatabase :: "('x, 'h) sqlite \<Rightarrow> string \<Rightarrow> ('x, 'h) call" where
  "NewDatabase sq dbPath =
     (let dbPath = (if dbPath = [] then DefaultPath else dbPath);
          dir = sq_Dir sq dbPath
      in and_then (if dir \<noteq> [] \<and> dir \<noteq> ''.'' then wrap_error ''messagedb: create dir: '' (sq_MkdirAll sq dir) else ret ())
        (\<lambda>_. and_then (wrap_error ''messagedb: open: '' (sq_Open sq dbPath))
        (\<lambda>db x. case db_init sq db x of
            (Inl e, x) \<Rightarrow> (Inl e, snd (sq_Close sq db x))
          | (Inr _, x) \<Rightarrow> (Inr db, x))))"

definition db_Close :: "('x, 'h) sqlite \<Rightarrow> 'h \<Rightarrow> ('x, unit) call" where
  "db_Close sq db = sq_Close sq db"

section \<open>What SQLite promises\<close>

text \<open>\<open>table x p\<close> is the table \<^verbatim>\<open>messages_v2\<close> in the file \<open>p\<close>, if there is one; \<^verbatim>\<open>CREATE TABLE IF NOT EXISTS\<close> makes it
  when it is missing, and nothing else in opening and closing touches it.\<close>

definition ensured :: "string \<Rightarrow> (string \<Rightarrow> message_table option) \<Rightarrow> string \<Rightarrow> message_table option" where
  "ensured p t = t(p := Some (case t p of Some r \<Rightarrow> r | None \<Rightarrow> []))"

locale sqlite_files =
  fixes sq :: "('x, 'h) sqlite"
    and table :: "'x \<Rightarrow> string \<Rightarrow> message_table option"
    and path_of :: "'h \<Rightarrow> string"
  assumes mkdir_keeps: "table (snd (sq_MkdirAll sq d x)) = table x"
    and open_keeps: "table (snd (sq_Open sq p x)) = table x"
    and open_path: "sq_Open sq p x = (Inr h, x') \<Longrightarrow> path_of h = p"
    and create_table: "sq_create_table sq h x = (r, x') \<Longrightarrow> table x' = (case r of Inr _ \<Rightarrow> ensured (path_of h) (table x) | Inl _ \<Rightarrow> table x)"
    and index_keeps: "table (snd (sq_create_index sq h x)) = table x"
    and close_keeps: "table (snd (sq_Close sq h x)) = table x"
begin

lemma keeps_tables:
  "table (snd (wrap_error w (sq_MkdirAll sq d) x)) = table x"
  "table (snd (wrap_error w (sq_Open sq p) x)) = table x"
  "table (snd (wrap_error w (sq_create_index sq h) x)) = table x"
  using mkdir_keeps [of d x] open_keeps [of p x] index_keeps [of h x]
  by (auto simp: wrap_error_def split: prod.splits sum.splits)

lemma db_init_table:
  assumes "db_init sq h x = (r, x')"
  shows "table x' = table x \<or> table x' = ensured (path_of h) (table x)"
    and "r = Inr () \<Longrightarrow> table x' = ensured (path_of h) (table x)"
proof -
  obtain r1 x1 where 1: "sq_create_table sq h x = (r1, x1)" by fastforce
  note t1 = create_table [OF 1]
  note t2 = keeps_tables(3) [of "''messagedb: create index: ''" h x1]
  show "table x' = table x \<or> table x' = ensured (path_of h) (table x)"
    "r = Inr () \<Longrightarrow> table x' = ensured (path_of h) (table x)"
    using assms t1 t2 by (auto simp: db_init_def and_then_def wrap_error_def 1 split: sum.splits prod.splits)
qed

text \<open>Opening a database never loses a table, and a database that was opened has one.\<close>

lemma NewDatabase_table:
  assumes "NewDatabase sq p x = (r, x')"
  defines "p' \<equiv> (if p = [] then DefaultPath else p)"
  shows "table x' = table x \<or> table x' = ensured p' (table x)"
    and "r = Inr h \<Longrightarrow> path_of h = p' \<and> table x' = ensured p' (table x)"
proof -
  let ?mk = "if sq_Dir sq p' \<noteq> [] \<and> sq_Dir sq p' \<noteq> ''.'' then wrap_error ''messagedb: create dir: '' (sq_MkdirAll sq (sq_Dir sq p')) else ret ()"
  obtain r1 x1 where 1: "?mk x = (r1, x1)" by fastforce
  then have t1: "table x1 = table x" using keeps_tables(1) [of "''messagedb: create dir: ''" "sq_Dir sq p'" x] by (auto split: if_splits)
  obtain r2 x2 where 2: "wrap_error ''messagedb: open: '' (sq_Open sq p') x1 = (r2, x2)" by fastforce
  then have t2: "table x2 = table x1" using keeps_tables(2) [of "''messagedb: open: ''" p' x1] by simp
  have N: "NewDatabase sq p x = (case r1 of Inl e \<Rightarrow> (Inl e, x1) | Inr _ \<Rightarrow> (case r2 of Inl e \<Rightarrow> (Inl e, x2)
      | Inr db \<Rightarrow> (case db_init sq db x2 of (Inl e, x) \<Rightarrow> (Inl e, snd (sq_Close sq db x)) | (Inr _, x) \<Rightarrow> (Inr db, x))))"
    using 1 2 unfolding NewDatabase_def p'_def [symmetric] Let_def and_then_def by (simp split: sum.splits)
  have path: "path_of db = p'" if "r2 = Inr db" for db
    using 2 that open_path [of p' x1 db] by (auto simp: wrap_error_def split: sum.splits prod.splits)
  show "table x' = table x \<or> table x' = ensured p' (table x)"
    "r = Inr h \<Longrightarrow> path_of h = p' \<and> table x' = ensured p' (table x)"
    using assms(1) unfolding N
    using t1 t2 path db_init_table [of _ x2] close_keeps by (auto split: sum.splits prod.splits) blast?
qed

end
section \<open>Files in memory\<close>

type_synonym files = "(string \<times> message_table) list"

definition mem_sqlite :: "(files, string) sqlite" where
  "mem_sqlite = \<lparr>sq_Dir = (\<lambda>_. []), sq_MkdirAll = (\<lambda>_. ret ()), sq_Open = ret,
     sq_create_table = (\<lambda>p fs. (Inr (), if map_of fs p = None then (p, []) # fs else fs)),
     sq_create_index = (\<lambda>_. ret ()), sq_Close = (\<lambda>_. ret ())\<rparr>"

interpretation files: sqlite_files mem_sqlite map_of id
  by unfold_locales (auto simp: mem_sqlite_def ensured_def fun_eq_iff split: option.splits)

section \<open>A restart\<close>

text \<open>
  Messages survive a restart: when a database is opened, messages are saved and it is closed and opened again, with
  failed attempts or without, a lookup gives the last message saved under the key, else what the file
  had before.
\<close>

theorem messages_survive_restart:
  assumes "sqlite_files sq table path_of" "NewDatabase sq p x = (Inr h, x1)"
    and "table x2 = (table x1)(path_of h := Some (fold (\<lambda>m t. snd (SaveMessage None (Some m) t)) ms (the (table x1 (path_of h)))))"
    and "list_all message_utf8 ms" "NewDatabase sq p (snd (NewDatabase sq p (snd (db_Close sq h x2)))) = (Inr h', x3)"
  shows "GetMessageByID None i ch cl (the (table x3 (path_of h'))) =
    (case filter (\<lambda>m. message_id m = i \<and> chm_ChannelID m = ch \<and> chm_ClanID m = cl) ms of
       [] \<Rightarrow> GetMessageByID None i ch cl (case table x (path_of h) of Some t \<Rightarrow> t | None \<Rightarrow> []) | kept \<Rightarrow> Inr (Some (stored_view (last kept))))"
proof -
  define P where "P = (if p = [] then DefaultPath else p)"
  note T = sqlite_files.NewDatabase_table [OF assms(1), of p, folded P_def]
  have save: "(\<lambda>m t. snd (SaveMessage None (Some m) t)) = db_save" by (simp add: fun_eq_iff db_save_def)
  have h: "path_of h = P" "table x1 = ensured P (table x)" using T(2) [OF assms(2) refl] by simp_all
  let ?x = "snd (NewDatabase sq p (snd (db_Close sq h x2)))"
  have h': "path_of h' = P" "table x3 = ensured P (table ?x)" using T(2) [OF assms(5) refl] by simp_all
  have close: "table (snd (db_Close sq h x2)) = table x2" by (simp add: db_Close_def sqlite_files.close_keeps [OF assms(1)])
  have some: "ensured P t P = t P" if "t P \<noteq> None" for t using that by (auto simp: ensured_def)
  have x2: "table x2 P = Some (fold db_save ms (the (table x1 P)))" using assms(3) h by (simp add: save)
  have "table ?x = table x2 \<or> table ?x = ensured P (table x2)"
    using T(1) [of "snd (db_Close sq h x2)" _ ?x] close by (metis prod.collapse)
  then have "table ?x P = table x2 P" using some [of "table x2"] x2 by auto
  then have "table x3 P = Some (fold db_save ms (the (table x1 P)))"
    using h'(2) some [of "table ?x"] x2 by simp
  moreover have "GetMessageByID None i ch cl t = Inr (db_get i ch cl t)" for t by (simp add: db_get_def GetMessageByID_def)
  moreover have "the (table x1 P) = (case table x P of Some t \<Rightarrow> t | None \<Rightarrow> [])" by (simp add: h ensured_def)
  ultimately show ?thesis
    using mdb.get_saves [OF assms(4), of i ch cl "the (table x1 P)"] h'(1) h(1)
    by (simp add: has_key_def [abs_def] split: list.splits)
qed

theorem messages_survive_restart_witness:
  "let m = zero_go_ChannelMessage\<lparr>chm_MessageID := ''1'', chm_ChannelID := ''2'', chm_ClanID := ''3'', chm_Content := ''{}''\<rparr>;
       fs = [(DefaultPath, db_save m [])]
   in \<exists>h fs'. NewDatabase mem_sqlite [] (snd (NewDatabase mem_sqlite [] fs)) = (Inr h, fs') \<and>
     GetMessageByID None ''1'' ''2'' ''3'' (the (map_of fs' h)) = Inr (Some (stored_view m))"
proof -
  define m where "m = zero_go_ChannelMessage\<lparr>chm_MessageID := ''1'', chm_ChannelID := ''2'', chm_ClanID := ''3'', chm_Content := ''{}''\<rparr>"
  define fs where "fs = [(DefaultPath, db_save m [])]"
  have opened: "NewDatabase mem_sqlite [] fs' = (Inr DefaultPath, if map_of fs' DefaultPath = None then (DefaultPath, []) # fs' else fs')" for fs'
    by (simp add: NewDatabase_def mem_sqlite_def db_init_def wrap_error_def and_then_def)
  have new: "NewDatabase mem_sqlite [] [] = (Inr DefaultPath, [(DefaultPath, [])])" and again: "NewDatabase mem_sqlite [] fs = (Inr DefaultPath, fs)"
    by (simp_all add: opened) (simp add: fs_def)
  have saved: "map_of fs = (map_of [(DefaultPath, [])])(id DefaultPath :=
      Some (fold (\<lambda>m t. snd (SaveMessage None (Some m) t)) [m] (the (map_of [(DefaultPath, [])] (id DefaultPath)))))"
    by (simp add: fs_def db_save_def fun_eq_iff)
  have "list_all message_utf8 [m]" by (simp add: m_def message_utf8_def zero_go_ChannelMessage_def)
  moreover have "NewDatabase mem_sqlite [] (snd (NewDatabase mem_sqlite [] (snd (db_Close mem_sqlite DefaultPath fs)))) = (Inr DefaultPath, fs)"
    by (simp add: again db_Close_def) (simp add: mem_sqlite_def again [unfolded mem_sqlite_def])
  moreover have "filter (\<lambda>m. message_id m = ''1'' \<and> chm_ChannelID m = ''2'' \<and> chm_ClanID m = ''3'') [m] = [m]"
    by (simp add: m_def message_id_def)
  ultimately have "GetMessageByID None ''1'' ''2'' ''3'' (the (map_of fs (id DefaultPath))) = Inr (Some (stored_view m))"
    using messages_survive_restart [OF files.sqlite_files_axioms new saved, of DefaultPath fs "''1''" "''2''" "''3''"] by (simp only: list.case last_ConsL [OF refl] simp_thms)
  then show ?thesis using again unfolding Let_def m_def [symmetric] fs_def [symmetric] by simp
qed

end
