(* ===== verification/Example_Bot.thy ===== *)
theory Example_Bot
  imports Client_Properties
begin

text \<open>
  The bot of \<^verbatim>\<open>example/main.go\<close> as an application of the client: it answers \<^verbatim>\<open>ping\<close> with \<^verbatim>\<open>pong\<close> and greets who says
  \<^verbatim>\<open>!hello\<close> with a mention. The theory composes the client with the content, the UTF-16 offsets and the events, and shows what
  the example is meant to demonstrate. Logging is left out; \<^verbatim>\<open>log.Fatal\<close> ends the program, an error here.
\<close>

section \<open>strings\<close>

text \<open>\<^verbatim>\<open>unicode.IsSpace\<close>, and \<^verbatim>\<open>strings.TrimSpace\<close> on the runes of a string.\<close>

definition is_space :: "rune \<Rightarrow> bool" where
  "is_space r \<longleftrightarrow> (9 \<le> r \<and> r \<le> 13) \<or> r = 0x20 \<or> r = 0x85 \<or> r = 0xA0 \<or> r = 0x1680 \<or> (0x2000 \<le> r \<and> r \<le> 0x200A) \<or>
     r = 0x2028 \<or> r = 0x2029 \<or> r = 0x202F \<or> r = 0x205F \<or> r = 0x3000"

definition TrimSpace :: "rune list \<Rightarrow> rune list" where
  "TrimSpace rs = rev (dropWhile is_space (rev (dropWhile is_space rs)))"

text \<open>\<^verbatim>\<open>strings.EqualFold\<close> for a second argument whose letters fold to nothing but their other case, as those of
  \<^verbatim>\<open>ping\<close> do (of the ASCII letters only k and s fold to other characters).\<close>

definition lower_rune :: "rune \<Rightarrow> rune" where
  "lower_rune r = (if 65 \<le> r \<and> r \<le> 90 then r + 32 else r)"

definition EqualFold :: "rune list \<Rightarrow> rune list \<Rightarrow> bool" where
  "EqualFold s t \<longleftrightarrow> map lower_rune s = map lower_rune t"

section \<open>example/main.go\<close>

definition firstNonEmptyName :: "ChannelMessage \<Rightarrow> string" where
  "firstNonEmptyName m = (case filter (\<lambda>v. v \<noteq> []) [chm_ClanNick m, chm_DisplayName m, chm_Username m] of
      v # _ \<Rightarrow> v | [] \<Rightarrow> chm_SenderID m)"

definition hello_handle :: "ChannelMessage \<Rightarrow> string" where
  "hello_handle m = ''@'' @ firstNonEmptyName m"

text \<open>The waving hand is U+1F44B.\<close>

definition hello_reply :: "ChannelMessage \<Rightarrow> string" where
  "hello_reply m = [CHR 0xF0, CHR 0x9F, CHR 0x91, CHR 0x8B] @ '' '' @ hello_handle m @ '' welcome!''"

definition hello_options :: "ChannelMessage \<Rightarrow> SendOptions option" where
  "hello_options m = (case MentionSpan (hello_reply m) (hello_handle m) of (s, e, ok) \<Rightarrow>
     if ok then Some (zero_SendOptions\<lparr>so_Mentions := Some [zero_go_Mention\<lparr>men_UserID := chm_SenderID m,
         men_Username := firstNonEmptyName m, men_S := of_nat s, men_E := of_nat e\<rparr>]\<rparr>)
     else None)"

definition is_ping :: "string \<Rightarrow> bool" where
  "is_ping text \<longleftrightarrow> EqualFold (TrimSpace (runes text)) (runes ''ping'')"

definition bot_on_message :: "'x client_env \<Rightarrow> ChannelMessage \<Rightarrow> 'x MezonClient \<Rightarrow> 'x MezonClient" where
  "bot_on_message env m w =
     (if chm_SenderID m = mc_ClientID w then w
      else (let text = ContentText (chm_Content m)
        in case Channels_Fetch env (chm_ChannelID m) w of
             (Inl _, w) \<Rightarrow> w
           | (Inr channel, w) \<Rightarrow>
               if is_ping text then snd (Send env channel (Text ''pong'') None w)
               else if prefix ''!hello'' text then snd (Send env channel (Text (hello_reply m)) (hello_options m) w)
               else w))"

definition example_app :: "'x client_env \<Rightarrow> 'x application" where
  "example_app env = \<lparr>app_on = (\<lambda>_ _ w. w), app_message = (\<lambda>_. bot_on_message env), app_ready = (\<lambda>_ w. w)\<rparr>"

definition example_config :: "string \<Rightarrow> string \<Rightarrow> ClientConfig" where
  "example_config botID token = \<lparr>cfg_BotID = botID, cfg_Token = token, cfg_Host = [], cfg_Port = [], cfg_UseSSL = None, cfg_Timeout = 0,
     cfg_Transport = TransportDefault, cfg_TLSInsecureSkipVerify = False, cfg_CacheTTL = 0, cfg_MaxUsersCache = 0, cfg_MaxChannelsCache = 0\<rparr>"

definition example_main :: "'x client_env \<Rightarrow> string \<Rightarrow> string \<Rightarrow> 'x \<Rightarrow> 'x MezonClient result" where
  "example_main env botID token x =
     (if botID = [] \<or> token = [] then Inl (ErrNew ''set MEZON_BOT_ID and MEZON_BOT_TOKEN'')
      else case NewMezonClient (example_config botID token) x of
             Inl e \<Rightarrow> Inl e
           | Inr w \<Rightarrow> (case Login env (example_app env) (OnChannelMessage 0 (OnReady 0 w)) of
               (Inl e, w) \<Rightarrow> Inl (ErrWrap ''login: '' e [])
             | (Inr _, w) \<Rightarrow> Inr w))"

section \<open>Decoding next to an ASCII character\<close>

lemma decode_rune_ascii_follows:
  assumes "s \<noteq> []" "c < 0x80"
  shows "decode_rune (s @ c # t) = decode_rune s"
proof -
  have n: "\<not> is_cont c" "\<not> second_ok b c" for b using assms(2) by (simp_all add: is_cont_def second_ok_def)
  obtain b0 bs where "s = b0 # bs" using assms(1) by (cases s) auto
  then show ?thesis
    by (cases bs; cases "tl bs"; cases "tl (tl bs)") (auto simp: decode_rune_def n split: list.splits)
qed

lemma decode_rune_length: "s \<noteq> [] \<Longrightarrow> snd (decode_rune s) \<le> length s"
  by (auto simp: decode_rune_def split: list.splits)

lemma decode_runes_ascii_follows:
  assumes "c < 0x80"
  shows "decode_runes (s @ c # t) = decode_runes s @ decode_runes (c # t)"
proof (induction s rule: decode_runes.induct)
  case (1 s)
  show ?case
  proof (cases "s = []")
    case False
    then have "decode_runes (s @ c # t) = fst (decode_rune s) # decode_runes (drop (snd (decode_rune s)) s @ c # t)"
      using decode_rune_length [of s] by (subst decode_runes.simps) (simp add: decode_rune_ascii_follows [OF _ assms])
    then show ?thesis using 1 False by (simp add: decode_runes.simps [of s])
  qed (simp add: decode_runes.simps [of "[]"])
qed

lemma runes_ascii_follows: "(of_char c :: nat) < 0x80 \<Longrightarrow> runes (s @ c # t) = runes s @ runes (c # t)"
  by (simp add: runes_def decode_runes_ascii_follows)

lemma runes_ascii: "(of_char c :: nat) < 0x80 \<Longrightarrow> runes (c # t) = of_char c # runes t"
  by (simp add: runes_def decode_runes.simps [of "of_char c # map of_char t"] decode_rune_def)

lemma runes_Nil [simp]: "runes [] = []"
  by (simp add: runes_def decode_runes.simps)

lemma runes_hello: "runes (hello_reply m) = 0x1F44B # 0x20 # runes (hello_handle m) @ runes '' welcome!''"
proof -
  have "runes (CHR 0xF0 # CHR 0x9F # CHR 0x91 # CHR 0x8B # t) = 0x1F44B # runes t" for t
    by (simp add: runes_def decode_runes.simps [of "_ # _"] decode_rune_def is_cont_def second_ok_def)
  then show ?thesis
    by (simp add: hello_reply_def runes_ascii) (simp add: runes_ascii_follows runes_ascii)
qed

section \<open>The bot does not answer itself\<close>

lemma TrimSpace_hd:
  assumes "\<not> is_space r"
  shows "\<exists>xs. TrimSpace (r # rs) = r # xs"
proof (cases "\<forall>x\<in>set rs. is_space x")
  case True
  then have "dropWhile is_space (rev rs @ [r]) = [r]" using assms by (subst dropWhile_append2) auto
  then show ?thesis using assms by (simp add: TrimSpace_def)
next
  case False
  then have "dropWhile is_space (rev rs @ [r]) = dropWhile is_space (rev rs) @ [r]" by (auto simp: dropWhile_append1)
  then show ?thesis using assms by (simp add: TrimSpace_def)
qed

lemma not_ping: "runes text = r # rs \<Longrightarrow> \<not> is_space r \<Longrightarrow> lower_rune r \<noteq> 112 \<Longrightarrow> \<not> is_ping text"
  using TrimSpace_hd [of r rs] by (auto simp: is_ping_def EqualFold_def runes_ascii) (simp add: lower_rune_def)

lemma reply_not_answered:
  "\<not> is_ping ''pong''" "\<not> prefix ''!hello'' ''pong''" "\<not> is_ping (hello_reply m)" "\<not> prefix ''!hello'' (hello_reply m)"
  "prefix ''!hello'' body \<Longrightarrow> \<not> is_ping body"
proof -
  show "\<not> is_ping ''pong''" by (simp add: is_ping_def EqualFold_def runes_ascii TrimSpace_def is_space_def lower_rune_def)
  show "\<not> prefix ''!hello'' ''pong''" "\<not> prefix ''!hello'' (hello_reply m)" by (simp_all add: hello_reply_def)
  show "\<not> is_ping (hello_reply m)" by (rule not_ping [OF runes_hello]) (simp_all add: is_space_def lower_rune_def)
  show "\<not> is_ping body" if hello: "prefix ''!hello'' body"
  proof -
    obtain t where "body = CHR ''!'' # t" using hello by (cases body) auto
    then show ?thesis by (intro not_ping [of _ 33 "runes t"]) (simp_all add: runes_ascii is_space_def lower_rune_def)
  qed
qed

lemma utf8_valid_append: "utf8_valid s \<Longrightarrow> utf8_valid t \<Longrightarrow> utf8_valid (s @ t)"
  unfolding utf8_valid_def utf8_string_def by (metis concat_append list_all_append map_append)

lemma utf8_valid_hello: "utf8_valid (firstNonEmptyName m) \<Longrightarrow> utf8_valid (hello_reply m)"
proof -
  have "[CHR 0xF0, CHR 0x9F, CHR 0x91, CHR 0x8B] = utf8_string [0x1F44B]"
    by (simp add: utf8_string_def utf8_encode_rune_def eq_commute [of _ "char_of _"] char_of_eq_iff)
  moreover have "list_all valid_rune [0x1F44B]" by (simp add: valid_rune_def)
  ultimately have "utf8_valid [CHR 0xF0, CHR 0x9F, CHR 0x91, CHR 0x8B]" unfolding utf8_valid_def by blast
  then show "utf8_valid (firstNonEmptyName m) \<Longrightarrow> utf8_valid (hello_reply m)"
    unfolding hello_reply_def hello_handle_def by (intro utf8_valid_append) (simp_all add: utf8_valid_ascii)
qed

lemma text_read_back:
  assumes "utf8_valid s"
  shows "\<exists>c. marshalContent (Text s) = Inr c \<and> ContentText c = s"
proof -
  let ?v = "JObject [(''t'', JString s)]"
  have "json_parse (json_encode False ?v) = Some ?v" by (rule json_parse_encode [OF text_value_ok [OF assms]])
  then show ?thesis by (simp add: Text_def ContentText_def string_field_def key_matches_def)
qed

section \<open>The mention of the greeting\<close>

lemma units_hello:
  "UTF16Encode (hello_reply m) = [0xD83D, 0xDC4B, 0x20] @ UTF16Encode (hello_handle m) @ UTF16Encode '' welcome!''"
  by (simp add: UTF16Encode_def runes_hello utf16_encode_rune_def)

lemma units_handle: "UTF16Encode (hello_handle m) = 0x40 # UTF16Encode (firstNonEmptyName m)"
  by (simp add: UTF16Encode_def hello_handle_def runes_ascii utf16_encode_rune_def)

lemma MentionSpan_hello: "MentionSpan (hello_reply m) (hello_handle m) = (3, 3 + UTF16Len (hello_handle m), True)"
proof -
  let ?u = "UTF16Encode (hello_reply m)" and ?s = "UTF16Encode (hello_handle m)"
  have "units_match ?u 3 ?s"
    by (simp add: units_match_iff units_hello occurs_at_def)
  then have "span_loop ?u ?s 0 = Some 3"
    by (simp add: span_loop.simps units_hello units_handle numeral_3_eq_3)
  then show ?thesis by (simp add: MentionSpan_def Let_def UTF16Len_eq units_handle)
qed

text \<open>
  C31. What the example does with a message of somebody else: \<^verbatim>\<open>ping\<close> is answered by one message \<^verbatim>\<open>pong\<close> in the channel it
  came from; \<^verbatim>\<open>!hello\<close> by one greeting with one mention, of the sender, whose offsets cut exactly the name with its at
  sign out of the UTF-16 text of the greeting, whatever characters the name has. Any other message, and any message
  in a channel that cannot be fetched, is not answered.
\<close>

theorem example_bot_answers:
  assumes "chm_SenderID m \<noteq> mc_ClientID w" "UTF16Len (hello_handle m) < 2 ^ 62"
  shows "case Channels_Fetch env (chm_ChannelID m) w of
      (Inl _, w1) \<Rightarrow> bot_on_message env m w = w1
    | (Inr ch, w1) \<Rightarrow>
        if is_ping (ContentText (chm_Content m)) \<or> prefix ''!hello'' (ContentText (chm_Content m))
        then \<exists>data. bot_on_message env m w = snd (send_job env ch data w1) \<and> rmd_ChannelID data = tc_ID (channel_at w1 ch) \<and>
          (if is_ping (ContentText (chm_Content m)) then rmd_Content data = Text ''pong'' \<and> rmd_Mentions data = None
           else rmd_Content data = Text (hello_reply m) \<and>
             (\<exists>mention. rmd_Mentions data = Some [mention] \<and> men_UserID mention = chm_SenderID m \<and>
                (let s = unat (men_S mention); e = unat (men_E mention)
                 in s = 3 \<and> take (e - s) (drop s (UTF16Encode (hello_reply m))) = UTF16Encode (hello_handle m))))
        else bot_on_message env m w = w1"
proof (cases "Channels_Fetch env (chm_ChannelID m) w")
  case (Pair r w1)
  have unat: "unat (of_nat n :: int64) = n" if "n < 2 ^ 63" for n using that by (simp add: unat_of_nat take_bit_nat_eq_self)
  have span: "unat (of_nat (3 + UTF16Len (hello_handle m)) :: int64) = 3 + UTF16Len (hello_handle m)"
    using assms(2) by (intro unat) simp
  have cut: "take (UTF16Len (hello_handle m)) (drop 3 (UTF16Encode (hello_reply m))) = UTF16Encode (hello_handle m)"
    by (simp add: units_hello UTF16Len_eq)
  show ?thesis
  proof (cases r)
    case (Inl e)
    then show ?thesis using assms(1) Pair by (simp add: bot_on_message_def Let_def)
  next
    case (Inr ch)
    have send: "Send env ch c opts w1 = send_job env ch (send_data w1 (channel_at w1 ch) c (options opts)) w1" for c opts
      by (simp add: Send_def)
    let ?t = "ContentText (chm_Content m)"
    consider "is_ping ?t" | "\<not> is_ping ?t" "prefix ''!hello'' ?t" | "\<not> is_ping ?t" "\<not> prefix ''!hello'' ?t" by blast
    then show ?thesis
    proof cases
      case 1
      then show ?thesis
        using assms(1) Pair Inr
        by (auto simp: bot_on_message_def Let_def send intro!: exI [of _ "send_data w1 (channel_at w1 ch) (Text ''pong'') (options None)"])
          (simp_all add: send_data_def options_def zero_SendOptions_def)
    next
      case 2
      then show ?thesis
        using assms(1) Pair Inr span cut
        by (auto simp: bot_on_message_def Let_def send intro!: exI [of _ "send_data w1 (channel_at w1 ch) (Text (hello_reply m)) (options (hello_options m))"])
          (simp_all add: send_data_def options_def hello_options_def MentionSpan_hello)
    next
      case 3
      then show ?thesis using assms(1) Pair Inr by (simp add: bot_on_message_def Let_def)
    qed
  qed
qed

theorem example_bot_answers_witness:
  "let d = zero_ChannelDescription\<lparr>cd_ChannelId := 5\<rparr>;
       m = zero_go_ChannelMessage\<lparr>chm_ChannelID := itoaID 5, chm_SenderID := ''2'', chm_Username := ''bob'',
             chm_Content := json_encode False (JObject [(''t'', JString '' PING '')])\<rparr>
   in \<exists>data. bot_on_message (sample_env d) m (sample_client d) = snd (send_job (sample_env d) 0 data (sample_client d)) \<and>
        rmd_Content data = Text ''pong''"
proof -
  define d where "d = zero_ChannelDescription\<lparr>cd_ChannelId := 5\<rparr>"
  define m where "m = zero_go_ChannelMessage\<lparr>chm_ChannelID := itoaID 5, chm_SenderID := ''2'', chm_Username := ''bob'',
    chm_Content := json_encode False (JObject [(''t'', JString '' PING '')])\<rparr>"
  obtain c where "marshalContent (Text '' PING '') = Inr c" "ContentText c = '' PING ''"
    using text_read_back [of "'' PING ''"] utf8_valid_ascii [of "'' PING ''"] by auto
  then have t: "ContentText (chm_Content m) = '' PING ''" by (simp add: Text_def m_def)
  have "mc_ClientID (sample_client d) = ''1''"
    by (simp add: sample_client_def client_with_simps logged_in_def new_client_def NewMezonClient_def sample_config_def initManagers_def newChannelManager_def
        bindInternalListeners_def register_def)
  then have "chm_SenderID m \<noteq> mc_ClientID (sample_client d)" by (simp add: m_def)
  moreover have "UTF16Len (hello_handle m) < 2 ^ 62"
    by (simp add: m_def zero_go_ChannelMessage_def hello_handle_def firstNonEmptyName_def UTF16Len_eq UTF16Encode_def runes_ascii utf16_encode_rune_def)
  moreover have "Channels_Fetch (sample_env d) (chm_ChannelID m) (sample_client d) = (Inr 0, sample_client d)"
    using client_with_caches(3) [of "sample_env d" "[]" d] by (simp add: Channels_Fetch_def cache_Fetch_def m_def d_def sample_client_def)
  moreover have "is_ping '' PING ''" by (simp add: is_ping_def EqualFold_def runes_ascii TrimSpace_def is_space_def lower_rune_def)
  ultimately have "\<exists>data. bot_on_message (sample_env d) m (sample_client d) = snd (send_job (sample_env d) 0 data (sample_client d)) \<and>
      rmd_Content data = Text ''pong''"
    using example_bot_answers [of m "sample_client d" "sample_env d"] t by auto
  then show ?thesis by (simp add: Let_def d_def m_def)
qed

text \<open>
  C32. The bot never answers itself. It ignores what is sent under its own id; and what any instance of the bot sends,
  a \<^verbatim>\<open>pong\<close> or a greeting of any name, is not answered by an instance that receives it under another id, so that two
  bots in one channel do not keep answering each other.
\<close>

theorem example_bot_never_answers_itself:
  assumes "utf8_valid (firstNonEmptyName m)"
  shows "(chm_SenderID e = mc_ClientID w \<longrightarrow> bot_on_message env e w = w) \<and>
    (\<forall>sent\<in>{''pong'', hello_reply m}. \<exists>c. marshalContent (Text sent) = Inr c \<and>
       (chm_Content e = c \<longrightarrow> bot_on_message env e w \<in> {w, snd (Channels_Fetch env (chm_ChannelID e) w)}))"
proof (intro conjI ballI)
  show "chm_SenderID e = mc_ClientID w \<longrightarrow> bot_on_message env e w = w" by (simp add: bot_on_message_def)
next
  fix sent
  assume s: "sent \<in> {''pong'', hello_reply m}"
  then have n: "\<not> is_ping sent" "\<not> prefix ''!hello'' sent" using reply_not_answered(1-4) by auto
  have "utf8_valid sent" using s assms by (auto simp: utf8_valid_ascii utf8_valid_hello)
  then obtain c where "marshalContent (Text sent) = Inr c" "ContentText c = sent" using text_read_back by blast
  moreover have "bot_on_message env e w \<in> {w, snd (Channels_Fetch env (chm_ChannelID e) w)}" if "ContentText (chm_Content e) = sent"
    using n that by (simp add: bot_on_message_def Let_def split: prod.splits sum.splits)
  ultimately show "\<exists>c. marshalContent (Text sent) = Inr c \<and>
      (chm_Content e = c \<longrightarrow> bot_on_message env e w \<in> {w, snd (Channels_Fetch env (chm_ChannelID e) w)})" by blast
qed

theorem example_bot_never_answers_itself_witness:
  "\<forall>env w. \<exists>c. marshalContent (Text ''pong'') = Inr c \<and>
     (let e = zero_go_ChannelMessage\<lparr>chm_Content := c, chm_SenderID := ''9''\<rparr>
      in bot_on_message env e w \<in> {w, snd (Channels_Fetch env [] w)})"
proof (intro allI)
  fix env :: "'a client_env" and w
  let ?m = "zero_go_ChannelMessage\<lparr>chm_Username := ''bob''\<rparr>"
  have "utf8_valid (firstNonEmptyName ?m)" by (simp add: firstNonEmptyName_def zero_go_ChannelMessage_def utf8_valid_ascii)
  note h = example_bot_never_answers_itself [OF this, THEN conjunct2]
  obtain c where c: "marshalContent (Text ''pong'') = Inr c" by (simp add: Text_def)
  then have "bot_on_message env (zero_go_ChannelMessage\<lparr>chm_Content := c, chm_SenderID := ''9''\<rparr>) w
      \<in> {w, snd (Channels_Fetch env (chm_ChannelID (zero_go_ChannelMessage\<lparr>chm_Content := c, chm_SenderID := ''9''\<rparr>)) w)}"
    using bspec [OF h [of "zero_go_ChannelMessage\<lparr>chm_Content := c, chm_SenderID := ''9''\<rparr>" env w], of "''pong''"] by auto
  then show "\<exists>c. marshalContent (Text ''pong'') = Inr c \<and> (let e = zero_go_ChannelMessage\<lparr>chm_Content := c, chm_SenderID := ''9''\<rparr>
      in bot_on_message env e w \<in> {w, snd (Channels_Fetch env [] w)})"
    using c by (simp add: Let_def zero_go_ChannelMessage_def)
qed

section \<open>The bot runs safely\<close>

lemma bot_on_message_grown:
  assumes "world_ok w"
  shows "grown w (bot_on_message env m w)"
proof -
  have f: "safe (Channels_Fetch env (chm_ChannelID m)) w (\<lambda>a w. a < length (h_channels w))" by (rule Channels_Fetch_safe [OF assms])
  have g: "grown w w1" if "Channels_Fetch env (chm_ChannelID m) w = (r, w1)" for r w1
    using f that by (simp add: safe_def)
  have "grown w (snd (Send env ch c opts w1))" if "Channels_Fetch env (chm_ChannelID m) w = (Inr ch, w1)" for ch w1 c opts
  proof -
    have "ch < length (h_channels w1)" using f that by (simp add: safe_def)
    then have "grown w1 (snd (Send env ch c opts w1))"
      using Send_safe(2) [OF grown_ok [OF g [OF that]]] by (blast intro: safe_grown)
    with g [OF that] show ?thesis by (rule grown_trans)
  qed
  with g assms show ?thesis by (auto simp: bot_on_message_def Let_def grown_refl split: prod.splits sum.splits)
qed

lemma example_app_safe: "app_safe (example_app env)"
  by (simp add: app_safe_def example_app_def bot_on_message_grown grown_refl)

text \<open>
  The bot does not crash: from its start on, through the login, whatever events and messages arrive and however
  often it reconnects, no nil pointer is followed and its caches keep their limits of 5000 channels and users.
\<close>

theorem example_bot_runs_safely:
  assumes "example_main env botID token x = Inr w0" "(client_step env (example_app env))\<^sup>*\<^sup>* w0 w"
  shows "world_ok w \<and> \<not> mc_panicked w \<and> cache_Size (mc_Channels w) \<le> 5000 \<and> cache_Size (mc_Users w) \<le> 5000"
proof -
  obtain w1 r where 1: "NewMezonClient (example_config botID token) x = Inr w1"
    and 2: "Login env (example_app env) (OnChannelMessage 0 (OnReady 0 w1)) = (r, w0)"
    using assms(1) by (auto simp: example_main_def split: if_splits sum.splits prod.splits)
  have "client_step env (example_app env) w1 (OnReady 0 w1)" by (rule step_OnReady)
  moreover have "client_step env (example_app env) (OnReady 0 w1) (OnChannelMessage 0 (OnReady 0 w1))" by (rule step_OnChannelMessage)
  moreover have "client_step env (example_app env) (OnChannelMessage 0 (OnReady 0 w1)) w0"
    using step_Login [of env "example_app env" "OnChannelMessage 0 (OnReady 0 w1)"] 2 by simp
  ultimately have "(client_step env (example_app env))\<^sup>*\<^sup>* w1 w"
    using assms(2) by (meson converse_rtranclp_into_rtranclp)
  from client_steps_grown [OF this example_app_safe NewMezonClient_ok [OF 1]]
  have g: "grown w1 w" .
  then have "maxSize (mc_Channels w) = 5000" "maxSize (mc_Users w) = 5000"
    using NewMezonClient_limits [OF 1] by (simp_all add: grown_def hext_def cache_limit_def example_config_def defaultMaxCache_def)
  with world_bounds [OF grown_ok [OF g]] grown_ok [OF g] show ?thesis by (simp add: ok_not_panicked)
qed

theorem example_bot_runs_safely_witness:
  "\<exists>w0. example_main (sample_env zero_ChannelDescription) ''1'' ''t'' [] = Inr w0 \<and> \<not> mc_panicked w0"
proof -
  let ?env = "sample_env zero_ChannelDescription"
  obtain w1 :: "(string \<times> bytes) list MezonClient" where "NewMezonClient (example_config ''1'' ''t'') [] = Inr w1"
    by (simp add: NewMezonClient_def example_config_def Let_def)
  then have m: "example_main ?env ''1'' ''t'' [] = Inr (snd (Login ?env (example_app ?env) (OnChannelMessage 0 (OnReady 0 w1))))"
    using sample_Login [of zero_ChannelDescription "example_app ?env" "OnChannelMessage 0 (OnReady 0 w1)"]
    by (simp add: example_main_def case_prod_unfold)
  from example_bot_runs_safely [OF m rtranclp.rtrancl_refl] m show ?thesis by blast
qed

end
