(* ===== verification/Lookup_Race.thy ===== *)
theory Lookup_Race
  imports Client_Properties
begin

text \<open>
  Lookups of one channel by several goroutines. Every cache locks its own operations, but \<^verbatim>\<open>CacheManager.Fetch\<close> (\<^verbatim>\<open>cache.go\<close>)
  and \<^verbatim>\<open>upsertChannel\<close> (\<^verbatim>\<open>sharedcache.go\<close>) are sequences of such operations on two caches, that of the clan and that of the
  client, without a lock around them: the dispatch goroutine, the goroutines of the application and a reconnection
  that reloads the clan interleave between them. One step is one operation on a cache.
\<close>

section \<open>Steps\<close>

text \<open>Where a goroutine stands; the flag says that \<^verbatim>\<open>upsertChannel\<close> was called by the fetcher of the client's cache, so that
  \<^verbatim>\<open>Fetch\<close> sets its entry once more. Then: \<^verbatim>\<open>Fetch\<close> at its \<^verbatim>\<open>Get\<close>; the description is there and \<^verbatim>\<open>clan.Channels.Get\<close> comes
  next; \<^verbatim>\<open>c.Channels.Get\<close>; \<^verbatim>\<open>newTextChannel\<close>; the two calls of \<^verbatim>\<open>Set\<close>; the \<^verbatim>\<open>Set\<close> of \<^verbatim>\<open>Fetch\<close>.\<close>

datatype lookup_pc = AtGet | AtClan bool | AtClient bool | AtMake bool | AtSetClan bool addr | AtSetClient bool addr | AtSetFetched addr

text \<open>The entries of the channel's id in the two caches, the number of objects made, the goroutines at work and the objects that
  were returned.\<close>

record lookup_state =
  lk_clan :: "addr option"
  lk_client :: "addr option"
  lk_objects :: nat
  lk_procs :: "lookup_pc list"
  lk_returned :: "addr list"

fun lookup_action :: "lookup_pc \<Rightarrow> lookup_state \<Rightarrow> lookup_pc list \<times> lookup_state" where
  "lookup_action AtGet s = (case lk_client s of
      Some a \<Rightarrow> ([], s\<lparr>lk_returned := lk_returned s @ [a]\<rparr>) | None \<Rightarrow> ([AtClan True], s))"
| "lookup_action (AtClan f) s = (case lk_clan s of Some a \<Rightarrow> ([AtSetClan f a], s) | None \<Rightarrow> ([AtClient f], s))"
| "lookup_action (AtClient f) s = (case lk_client s of Some a \<Rightarrow> ([AtSetClan f a], s) | None \<Rightarrow> ([AtMake f], s))"
| "lookup_action (AtMake f) s = ([AtSetClan f (lk_objects s)], s\<lparr>lk_objects := Suc (lk_objects s)\<rparr>)"
| "lookup_action (AtSetClan f a) s = ([AtSetClient f a], s\<lparr>lk_clan := Some a\<rparr>)"
| "lookup_action (AtSetClient f a) s =
     (if f then ([AtSetFetched a], s\<lparr>lk_client := Some a\<rparr>)
      else ([], s\<lparr>lk_client := Some a, lk_returned := lk_returned s @ [a]\<rparr>))"
| "lookup_action (AtSetFetched a) s = ([], s\<lparr>lk_client := Some a, lk_returned := lk_returned s @ [a]\<rparr>)"

text \<open>A goroutine starts a fetch or merges a listed channel, the goroutine at an index takes a step, its request for the
  description fails, and the entry is removed from the cache of the client (evicted or deleted) or of the clan.\<close>

datatype lookup_label = BeginFetch | BeginUpsert | Run nat | FetchFailed nat | DropClient | DropClan

fun lookup_exec :: "lookup_label \<Rightarrow> lookup_state \<Rightarrow> lookup_state option" where
  "lookup_exec BeginFetch s = Some (s\<lparr>lk_procs := lk_procs s @ [AtGet]\<rparr>)"
| "lookup_exec BeginUpsert s = Some (s\<lparr>lk_procs := lk_procs s @ [AtClan False]\<rparr>)"
| "lookup_exec (Run n) s =
     (if n < length (lk_procs s)
      then (case lookup_action (lk_procs s ! n) s of
          (ps, s') \<Rightarrow> Some (s'\<lparr>lk_procs := take n (lk_procs s) @ ps @ drop (Suc n) (lk_procs s)\<rparr>))
      else None)"
| "lookup_exec (FetchFailed n) s =
     (if n < length (lk_procs s) \<and> lk_procs s ! n = AtClan True
      then Some (s\<lparr>lk_procs := take n (lk_procs s) @ drop (Suc n) (lk_procs s)\<rparr>) else None)"
| "lookup_exec DropClient s = Some (s\<lparr>lk_client := None\<rparr>)"
| "lookup_exec DropClan s = Some (s\<lparr>lk_clan := None\<rparr>)"

fun lookup_run :: "lookup_label list \<Rightarrow> lookup_state \<Rightarrow> lookup_state option" where
  "lookup_run [] s = Some s"
| "lookup_run (l # ls) s = (case lookup_exec l s of None \<Rightarrow> None | Some s' \<Rightarrow> lookup_run ls s')"

section \<open>One goroutine alone\<close>

text \<open>What the caches of a client say of a channel of a clan.\<close>

definition lookup_view :: "addr \<Rightarrow> string \<Rightarrow> 'x MezonClient \<Rightarrow> lookup_state" where
  "lookup_view cl i w = \<lparr>lk_clan = cache_Get (cn_Channels (clan_at w cl)) i, lk_client = cache_Get (mc_Channels w) i,
     lk_objects = length (h_channels w), lk_procs = [], lk_returned = []\<rparr>"

text \<open>Without interference the steps are the operation of the client.\<close>

lemma upsertChannel_steps:
  assumes "upsertChannel cl desc w = (ch, w')" "cl < length (h_clans w)"
  defines "i \<equiv> itoaID (cd_ChannelId desc)"
  shows "\<exists>ls. lookup_run (BeginUpsert # ls) (lookup_view cl i w) = Some ((lookup_view cl i w')\<lparr>lk_returned := [ch]\<rparr>)"
proof -
  let ?c = "cache_Get (cn_Channels (clan_at w cl)) i" and ?m = "cache_Get (mc_Channels w) i"
  show ?thesis
  proof (cases ?c)
    case (Some a)
    then show ?thesis
      using assms(1,2) unfolding i_def
      by (intro exI [of _ "replicate 3 (Run 0)"])
        (auto simp: upsertChannel_def Let_def lookup_view_def upd_channel_def set_clan_channel_def upd_clan_def clan_at_def set_Channels_def
          numeral_3_eq_3)
  next
    case c: None
    show ?thesis
    proof (cases ?m)
      case (Some a)
      with c show ?thesis
        using assms(1,2) unfolding i_def
        by (intro exI [of _ "replicate 4 (Run 0)"])
          (auto simp: upsertChannel_def Let_def lookup_view_def upd_channel_def set_clan_channel_def upd_clan_def clan_at_def set_Channels_def
            eval_nat_numeral)
    next
      case None
      with c show ?thesis
        using assms(1,2) unfolding i_def
        by (intro exI [of _ "replicate 5 (Run 0)"])
          (auto simp: upsertChannel_def Let_def lookup_view_def newTextChannel_def alloc_channel_def set_clan_channel_def upd_clan_def clan_at_def
            set_Channels_def eval_nat_numeral)
    qed
  qed
qed

section \<open>When one object is enough\<close>

text \<open>The channel is in the cache of its clan, as after the clan was loaded; it may be evicted from the bounded cache of
  the client at any time.\<close>

definition loaded_init :: "addr \<Rightarrow> nat \<Rightarrow> lookup_state \<Rightarrow> bool" where
  "loaded_init a n s \<longleftrightarrow> lk_clan s = Some a \<and> lk_client s \<in> {None, Some a} \<and> lk_objects s = n \<and> lk_procs s = [] \<and> lk_returned s = []"

definition loaded_step :: "lookup_state \<Rightarrow> lookup_label \<Rightarrow> lookup_state \<Rightarrow> bool" where
  "loaded_step s l s' \<longleftrightarrow> lookup_exec l s = Some s' \<and> l \<noteq> DropClan"

fun pc_on :: "addr \<Rightarrow> lookup_pc \<Rightarrow> bool" where
  "pc_on a AtGet = True"
| "pc_on a (AtClan f) = True"
| "pc_on a (AtSetClan f b) = (b = a)"
| "pc_on a (AtSetClient f b) = (b = a)"
| "pc_on a (AtSetFetched b) = (b = a)"
| "pc_on a _ = False"

definition loaded_inv :: "addr \<Rightarrow> nat \<Rightarrow> lookup_state \<Rightarrow> bool" where
  "loaded_inv a n s \<longleftrightarrow> lk_clan s = Some a \<and> lk_client s \<in> {None, Some a} \<and> lk_objects s = n \<and>
     list_all (pc_on a) (lk_procs s) \<and> set (lk_returned s) \<subseteq> {a}"

lemma list_all_replace:
  "list_all P xs \<Longrightarrow> list_all P ys \<Longrightarrow> list_all P (take n xs @ ys @ drop (Suc n) xs)"
  by (auto simp: list_all_iff dest: in_set_takeD in_set_dropD)

lemma loaded_action:
  assumes "loaded_inv a n s" "pc_on a p" "lookup_action p s = (ps, s')"
  shows "loaded_inv a n s' \<and> list_all (pc_on a) ps"
  using assms by (cases p) (auto simp: loaded_inv_def split: option.splits if_splits)

lemma loaded_inv_step:
  assumes "loaded_inv a n s" "loaded_step s l s'"
  shows "loaded_inv a n s'"
proof (cases l)
  case (Run k)
  then obtain ps s1 where k: "k < length (lk_procs s)" "lookup_action (lk_procs s ! k) s = (ps, s1)"
    and s': "s' = s1\<lparr>lk_procs := take k (lk_procs s) @ ps @ drop (Suc k) (lk_procs s)\<rparr>"
    using assms(2) by (auto simp: loaded_step_def split: if_splits prod.splits)
  have "list_all (pc_on a) (lk_procs s)" using assms(1) by (simp add: loaded_inv_def)
  moreover from this have "pc_on a (lk_procs s ! k)" using k(1) by (simp add: list_all_length)
  ultimately show ?thesis
    using loaded_action [OF assms(1) _ k(2)] s' list_all_replace [of "pc_on a" "lk_procs s" ps k] by (simp add: loaded_inv_def)
next
  case (FetchFailed k)
  then show ?thesis
    using assms list_all_replace [of "pc_on a" "lk_procs s" "[]" k] by (auto simp: loaded_step_def loaded_inv_def split: if_splits)
qed (use assms in \<open>auto simp: loaded_step_def loaded_inv_def\<close>)

interpretation loaded: step_invariant "loaded_init a n" loaded_step "loaded_inv a n" for a n
  by unfold_locales (simp add: loaded_init_def loaded_inv_def, rule loaded_inv_step)

text \<open>With empty caches, but one lookup at a time, as a lock around \<^verbatim>\<open>Fetch\<close> and \<^verbatim>\<open>upsertChannel\<close> would make it.\<close>

definition no_lookups :: "lookup_state \<Rightarrow> bool" where
  "no_lookups s \<longleftrightarrow> s = \<lparr>lk_clan = None, lk_client = None, lk_objects = 0, lk_procs = [], lk_returned = []\<rparr>"

definition serial_step :: "lookup_state \<Rightarrow> lookup_label \<Rightarrow> lookup_state \<Rightarrow> bool" where
  "serial_step s l s' \<longleftrightarrow> lookup_exec l s = Some s' \<and> l \<noteq> DropClan \<and> (l = BeginFetch \<or> l = BeginUpsert \<longrightarrow> lk_procs s = [])"

fun looking :: "lookup_pc \<Rightarrow> bool" where
  "looking AtGet = True"
| "looking (AtClan f) = True"
| "looking (AtClient f) = True"
| "looking (AtMake f) = True"
| "looking _ = False"

definition serial_inv :: "lookup_state \<Rightarrow> bool" where
  "serial_inv s \<longleftrightarrow> length (lk_procs s) \<le> 1 \<and> set (lk_returned s) \<subseteq> {0} \<and>
     (lk_objects s = 0 \<and> lk_clan s = None \<and> lk_client s = None \<and> list_all looking (lk_procs s) \<and> lk_returned s = [] \<or>
      lk_objects s = 1 \<and> lk_client s \<in> {None, Some 0} \<and>
        (lk_clan s = Some 0 \<and> list_all (pc_on 0) (lk_procs s) \<or> lk_clan s = None \<and> (\<exists>f. lk_procs s = [AtSetClan f 0])))"

lemma serial_action:
  assumes "serial_inv s" "lk_procs s = [p]" "lookup_action p s = (ps, s')"
  shows "serial_inv (s'\<lparr>lk_procs := ps\<rparr>)"
  using assms by (cases p) (auto simp: serial_inv_def split: option.splits if_splits)

lemma serial_inv_step:
  assumes "serial_inv s" "serial_step s l s'"
  shows "serial_inv s'"
proof -
  have p: "lk_procs s = [] \<or> (\<exists>p. lk_procs s = [p])" using assms(1) by (cases "lk_procs s") (auto simp: serial_inv_def)
  have begun: "serial_inv (s\<lparr>lk_procs := [p]\<rparr>)" if "lk_procs s = []" "p = AtGet \<or> p = AtClan False" for p
    using assms(1) that by (elim disjE) (simp_all add: serial_inv_def)
  show ?thesis
  proof (cases l)
    case (Run k)
    then obtain q where "lk_procs s = [q]" "k = 0" using p assms(2) by (auto simp: serial_step_def split: if_splits)
    then show ?thesis using serial_action [OF assms(1)] assms(2) Run by (auto simp: serial_step_def split: prod.splits)
  next
    case (FetchFailed k)
    then have q: "lk_procs s = [AtClan True]" "s' = s\<lparr>lk_procs := []\<rparr>" using p assms(2) by (auto simp: serial_step_def split: if_splits)
    then show ?thesis using assms(1) by (simp add: serial_inv_def)
  next
    case DropClient
    then have "s' = s\<lparr>lk_client := None\<rparr>" using assms(2) by (simp add: serial_step_def)
    then show ?thesis using assms(1) by (simp add: serial_inv_def) blast
  next
    case BeginFetch
    then have n: "lk_procs s = []" "s' = s\<lparr>lk_procs := [AtGet]\<rparr>" using assms(2) by (auto simp: serial_step_def)
    show ?thesis unfolding n(2) by (rule begun [OF n(1)]) simp
  next
    case BeginUpsert
    then have n: "lk_procs s = []" "s' = s\<lparr>lk_procs := [AtClan False]\<rparr>" using assms(2) by (auto simp: serial_step_def)
    show ?thesis unfolding n(2) by (rule begun [OF n(1)]) simp
  next
    case DropClan
    then show ?thesis using assms(2) by (simp add: serial_step_def)
  qed
qed

interpretation serial: step_invariant no_lookups serial_step serial_inv
  by unfold_locales (simp add: no_lookups_def serial_inv_def, rule serial_inv_step)



section \<open>When it is not\<close>

definition lookup_step :: "lookup_state \<Rightarrow> lookup_label \<Rightarrow> lookup_state \<Rightarrow> bool" where
  "lookup_step s l s' \<longleftrightarrow> lookup_exec l s = Some s'"

lemma lookup_run_reachable:
  "reachable init lookup_step s \<Longrightarrow> lookup_run ls s = Some s' \<Longrightarrow> reachable init lookup_step s'"
proof (induction ls arbitrary: s)
  case (Cons l ls)
  then obtain s1 where s1: "lookup_exec l s = Some s1" "lookup_run ls s1 = Some s'" by (auto split: option.splits)
  from s1(1) have "lookup_step s l s1" by (simp add: lookup_step_def)
  with Cons.prems(1) have "reachable init lookup_step s1" by (rule reachable_step)
  then show ?case using Cons.IH s1(2) by blast
qed simp

text \<open>
  C34. Lookups that overlap are not safe. Two goroutines that look for a channel that nobody has cached can get two
  different objects, and end with one in the cache of the clan and the other in the cache of the client: from then on
  messages that arrive for one are not found in the other, until the clan is reloaded, which makes the object of
  the clan the one of both. And a channel that is deleted from both caches while a lookup is on its way is back in both when the lookup ends.
\<close>

theorem overlapping_lookups_diverge:
  "(\<exists>s. reachable no_lookups lookup_step s \<and> lk_procs s = [] \<and> set (lk_returned s) = {0, 1} \<and>
      lk_clan s = Some 1 \<and> lk_client s = Some 0 \<and>
      lookup_run [BeginFetch, Run 0] s = Some (s\<lparr>lk_returned := lk_returned s @ [0]\<rparr>) \<and>
      lookup_run [BeginUpsert, Run 0, Run 0, Run 0] s = Some (s\<lparr>lk_client := Some 1, lk_returned := lk_returned s @ [1]\<rparr>)) \<and>
   (\<exists>ls s. lookup_run ([BeginFetch, Run 0] @ ls @ [DropClient, DropClan] @ replicate 4 (Run 0))
        \<lparr>lk_clan = None, lk_client = None, lk_objects = 0, lk_procs = [], lk_returned = []\<rparr> = Some s \<and>
      lk_procs s = [] \<and> lk_clan s = Some 0 \<and> lk_client s = Some 0)"
proof -
  let ?empty = "\<lparr>lk_clan = None, lk_client = None, lk_objects = 0, lk_procs = [], lk_returned = []\<rparr>"
  let ?s = "\<lparr>lk_clan = Some 1, lk_client = Some 0, lk_objects = 2, lk_procs = [], lk_returned = [1, 0]\<rparr>"
  have "reachable no_lookups lookup_step ?empty" by (rule reachable_init) (simp add: no_lookups_def)
  moreover have "lookup_run [BeginFetch, BeginUpsert, Run 0, Run 0, Run 0, Run 0, Run 1, Run 1, Run 1, Run 0, Run 1, Run 1, Run 0, Run 0] ?empty = Some ?s"
    by (simp add: eval_nat_numeral)
  ultimately have r: "reachable no_lookups lookup_step ?s" by (rule lookup_run_reachable)
  have "lookup_run ([BeginFetch, Run 0] @ [Run 0, Run 0] @ [DropClient, DropClan] @ replicate 4 (Run 0)) ?empty =
      Some \<lparr>lk_clan = Some 0, lk_client = Some 0, lk_objects = 1, lk_procs = [], lk_returned = [0]\<rparr>"
    by (simp add: eval_nat_numeral)
  then have "\<exists>ls s. lookup_run ([BeginFetch, Run 0] @ ls @ [DropClient, DropClan] @ replicate 4 (Run 0)) ?empty = Some s \<and>
      lk_procs s = [] \<and> lk_clan s = Some 0 \<and> lk_client s = Some 0"
    by (intro exI conjI) (assumption | simp)+
  moreover have "\<exists>s. reachable no_lookups lookup_step s \<and> lk_procs s = [] \<and> set (lk_returned s) = {0, 1} \<and>
      lk_clan s = Some 1 \<and> lk_client s = Some 0 \<and>
      lookup_run [BeginFetch, Run 0] s = Some (s\<lparr>lk_returned := lk_returned s @ [0]\<rparr>) \<and>
      lookup_run [BeginUpsert, Run 0, Run 0, Run 0] s = Some (s\<lparr>lk_client := Some 1, lk_returned := lk_returned s @ [1]\<rparr>)"
    by (rule exI [of _ ?s], intro conjI, rule r) (simp_all add: insert_commute)
  ultimately show ?thesis by (rule conjI [rotated])
qed

end
