(* ===== verification/Clan_Loading.thy ===== *)
theory Clan_Loading
  imports Client_Properties
begin

text \<open>
  Loading the channels of a clan (\<^verbatim>\<open>clan.go\<close>) from several goroutines: the handler of an event loads the clan, a reconnection
  reloads it and the application deletes a channel. \<^verbatim>\<open>LoadChannels\<close> and \<^verbatim>\<open>ReloadChannels\<close> hold \<^verbatim>\<open>loadMu\<close>; \<^verbatim>\<open>DeleteChannel\<close> does not. One
  step is an operation on the mutex, a request, the merge of one channel or the removal from one cache; the state is
  that of a client, and the steps are made of the operations of the theory \<^verbatim>\<open>Structures\<close>. (Inside of the merge of one channel the
  theory \<^verbatim>\<open>Lookup_Race\<close> has the steps.)
\<close>

section \<open>Steps\<close>

text \<open>\<^verbatim>\<open>LoadChannels\<close> and \<^verbatim>\<open>ReloadChannels\<close> (the flag) before \<^verbatim>\<open>loadMu.Lock\<close>, at the check of \<^verbatim>\<open>channelsLoaded\<close>, at the request of
  \<^verbatim>\<open>reloadChannelsLocked\<close>, in its loop with the channels that are left, at the deferred \<^verbatim>\<open>Unlock\<close> and after the return;
  \<^verbatim>\<open>DeleteChannel\<close> at its request, before its two removals and after the return.\<close>

datatype load_pc =
    AtLock bool | AtLoadedCheck | AtListRequest | AtMerge "pb_ChannelDescription list" | AtUnlock "unit result" | LoadReturned "unit result"
  | AtDeleteRequest string | AtEvictClan string | AtEvictClient string | DeleteReturned "unit result"

text \<open>The client, \<^verbatim>\<open>loadMu\<close> of the clan, the goroutines, and the number of lists that were received.\<close>

record 'x loading =
  ld_world :: "'x MezonClient"
  ld_mu :: bool
  ld_procs :: "load_pc list"
  ld_lists :: nat

definition list_request :: "'x client_env \<Rightarrow> addr \<Rightarrow> ('x MezonClient, pb_ChannelDescList) call" where
  "list_request env cl = gets (\<lambda>w. clan_at w cl) (\<lambda>c. on_api (cn_apiClient c)
     (\<lambda>a. ListChannelDescs (ce_api env) a (cn_SessionToken c) (to_int32 ChannelTypeChannel) (cn_ID c) 0 0 [] False))"

definition delete_request :: "'x client_env \<Rightarrow> addr \<Rightarrow> string \<Rightarrow> ('x MezonClient, unit) call" where
  "delete_request env cl channelID = gets (\<lambda>w. clan_at w cl) (\<lambda>c. on_api (cn_apiClient c)
     (\<lambda>a. DeleteChannelDesc (ce_api env) a (cn_SessionToken c) (cn_ID c) channelID))"

definition merge_channel :: "addr \<Rightarrow> pb_ChannelDescription \<Rightarrow> 'x MezonClient \<Rightarrow> 'x MezonClient" where
  "merge_channel cl ch w = (if cd_ChannelId ch = 0 then w else snd (upsertChannel cl ch w))"

definition mark_loaded :: "addr \<Rightarrow> 'x MezonClient \<Rightarrow> 'x MezonClient" where
  "mark_loaded cl = upd_clan cl (\<lambda>c. c\<lparr>cn_channelsLoaded := True\<rparr>)"

fun load_action :: "'x client_env \<Rightarrow> addr \<Rightarrow> load_pc \<Rightarrow> 'x loading \<Rightarrow> (load_pc \<times> 'x loading) option" where
  "load_action env cl (AtLock reload) s =
     (if ld_mu s then None else Some (if reload then AtListRequest else AtLoadedCheck, s\<lparr>ld_mu := True\<rparr>))"
| "load_action env cl AtLoadedCheck s =
     Some (if cn_channelsLoaded (clan_at (ld_world s) cl) then AtUnlock (Inr ()) else AtListRequest, s)"
| "load_action env cl AtListRequest s = (case list_request env cl (ld_world s) of
      (Inl e, w) \<Rightarrow> Some (AtUnlock (Inl e), s\<lparr>ld_world := w\<rparr>)
    | (Inr channels, w) \<Rightarrow> Some (AtMerge (cdl_Channeldesc channels), s\<lparr>ld_world := w, ld_lists := Suc (ld_lists s)\<rparr>))"
| "load_action env cl (AtMerge (ch # chs)) s = Some (AtMerge chs, s\<lparr>ld_world := merge_channel cl ch (ld_world s)\<rparr>)"
| "load_action env cl (AtMerge []) s = Some (AtUnlock (Inr ()), s\<lparr>ld_world := mark_loaded cl (ld_world s)\<rparr>)"
| "load_action env cl (AtUnlock r) s = Some (LoadReturned r, s\<lparr>ld_mu := False\<rparr>)"
| "load_action env cl (LoadReturned r) s = None"
| "load_action env cl (AtDeleteRequest i) s = (case delete_request env cl i (ld_world s) of
      (Inl e, w) \<Rightarrow> Some (DeleteReturned (Inl e), s\<lparr>ld_world := w\<rparr>)
    | (Inr _, w) \<Rightarrow> Some (AtEvictClan i, s\<lparr>ld_world := w\<rparr>))"
| "load_action env cl (AtEvictClan i) s = Some (AtEvictClient i, s\<lparr>ld_world := delete_clan_channel cl i (ld_world s)\<rparr>)"
| "load_action env cl (AtEvictClient i) s = Some (DeleteReturned (Inr ()), s\<lparr>ld_world := delete_Channels i (ld_world s)\<rparr>)"
| "load_action env cl (DeleteReturned r) s = None"

datatype load_label = CallLoad | CallReload | CallDelete string | Sched nat

fun load_exec :: "'x client_env \<Rightarrow> addr \<Rightarrow> load_label \<Rightarrow> 'x loading \<Rightarrow> 'x loading option" where
  "load_exec env cl CallLoad s = Some (s\<lparr>ld_procs := ld_procs s @ [AtLock False]\<rparr>)"
| "load_exec env cl CallReload s = Some (s\<lparr>ld_procs := ld_procs s @ [AtLock True]\<rparr>)"
| "load_exec env cl (CallDelete i) s = Some (s\<lparr>ld_procs := ld_procs s @ [AtDeleteRequest i]\<rparr>)"
| "load_exec env cl (Sched n) s =
     (if n < length (ld_procs s)
      then (case load_action env cl (ld_procs s ! n) s of
          None \<Rightarrow> None | Some (p, s') \<Rightarrow> Some (s'\<lparr>ld_procs := (ld_procs s)[n := p]\<rparr>))
      else None)"

fun load_run :: "'x client_env \<Rightarrow> addr \<Rightarrow> load_label list \<Rightarrow> 'x loading \<Rightarrow> 'x loading option" where
  "load_run env cl [] s = Some s"
| "load_run env cl (l # ls) s = (case load_exec env cl l s of None \<Rightarrow> None | Some s' \<Rightarrow> load_run env cl ls s')"

definition load_step :: "'x client_env \<Rightarrow> addr \<Rightarrow> 'x loading \<Rightarrow> load_label \<Rightarrow> 'x loading \<Rightarrow> bool" where
  "load_step env cl s l s' \<longleftrightarrow> load_exec env cl l s = Some s'"

text \<open>No goroutine is at work on the clan.\<close>

definition idle :: "'x MezonClient \<Rightarrow> 'x loading" where
  "idle w = \<lparr>ld_world = w, ld_mu = False, ld_procs = [], ld_lists = 0\<rparr>"

definition load_init :: "addr \<Rightarrow> 'x loading \<Rightarrow> bool" where
  "load_init cl s \<longleftrightarrow> (\<exists>w. world_ok w \<and> cl < length (h_clans w) \<and> s = idle w)"

lemma load_run_trans:
  "load_run env cl ls s = Some s1 \<Longrightarrow> load_run env cl ls' s1 = r \<Longrightarrow> load_run env cl (ls @ ls') s = r"
  by (induction ls arbitrary: s) (auto split: option.splits)

section \<open>One goroutine alone\<close>

lemma merge_alone:
  "ld_procs s ! n = AtMerge chs \<Longrightarrow> n < length (ld_procs s) \<Longrightarrow>
   load_run env cl (replicate (length chs) (Sched n)) s = Some (s\<lparr>ld_world := for_each (merge_channel cl) chs (ld_world s), ld_procs := (ld_procs s)[n := AtMerge []]\<rparr>)"
proof (induction chs arbitrary: s)
  case Nil
  then have "(ld_procs s)[n := AtMerge []] = ld_procs s" by (metis list_update_id)
  then show ?case by simp
qed simp

lemma merge_channel_eq: "merge_channel cl = (\<lambda>ch w. if cd_ChannelId ch = 0 then w else snd (upsertChannel cl ch w))"
  by (intro ext) (simp add: merge_channel_def)

lemma reload_body: "reloadChannelsLocked env cl = and_then (list_request env cl)
    (\<lambda>channels. modify (\<lambda>w. mark_loaded cl (for_each (merge_channel cl) (cdl_Channeldesc channels) w)))"
  by (intro ext) (simp add: merge_channel_eq reloadChannelsLocked_def list_request_def mark_loaded_def and_then_def gets_def)

lemma DeleteChannel_body: "DeleteChannel env cl i = and_then (delete_request env cl i)
    (\<lambda>_. modify (\<lambda>w. delete_Channels i (delete_clan_channel cl i w)))"
  by (rule ext) (simp add: DeleteChannel_def delete_request_def and_then_def gets_def)

text \<open>A goroutine that is not disturbed does what the operation of the client does.\<close>

lemma locked_alone:
  assumes "ld_procs s ! n = AtListRequest" "n < length (ld_procs s)" "ld_mu s"
  shows "\<exists>k lists. load_run env cl (replicate k (Sched n)) s = (case reloadChannelsLocked env cl (ld_world s) of
     (r, w) \<Rightarrow> Some (s\<lparr>ld_world := w, ld_mu := False, ld_procs := (ld_procs s)[n := LoadReturned r], ld_lists := lists\<rparr>))"
proof (cases "list_request env cl (ld_world s)")
  case (Pair r w)
  show ?thesis
  proof (cases r)
    case (Inl e)
    then show ?thesis using Pair assms by (intro exI [of _ "2"] exI [of _ "ld_lists s"]) (simp add: reload_body and_then_def numeral_2_eq_2)
  next
    case (Inr channels)
    let ?chs = "cdl_Channeldesc channels"
    let ?s1 = "s\<lparr>ld_world := w, ld_procs := (ld_procs s)[n := AtMerge ?chs], ld_lists := Suc (ld_lists s)\<rparr>"
    let ?s2 = "?s1\<lparr>ld_world := for_each (merge_channel cl) ?chs w, ld_procs := (ld_procs s)[n := AtMerge []]\<rparr>"
    let ?s3 = "?s2\<lparr>ld_world := mark_loaded cl (for_each (merge_channel cl) ?chs w), ld_mu := False,
      ld_procs := (ld_procs s)[n := LoadReturned (Inr ())]\<rparr>"
    have "load_run env cl (replicate 1 (Sched n)) s = Some ?s1" using Pair Inr assms by simp
    moreover have "load_run env cl (replicate (length ?chs) (Sched n)) ?s1 = Some ?s2"
      using merge_alone [of ?s1 n ?chs env cl] assms(2) by simp
    moreover have "load_run env cl (replicate 2 (Sched n)) ?s2 = Some ?s3" using assms(2) by (simp add: numeral_2_eq_2)
    ultimately have "load_run env cl (replicate 1 (Sched n) @ replicate (length ?chs) (Sched n) @ replicate 2 (Sched n)) s = Some ?s3"
      by (intro load_run_trans)
    moreover have "reloadChannelsLocked env cl (ld_world s) = (Inr (), mark_loaded cl (for_each (merge_channel cl) ?chs w))"
      using Pair Inr by (simp add: reload_body and_then_def)
    ultimately show ?thesis
      by (intro exI [of _ "1 + (length ?chs + 2)"] exI [of _ "Suc (ld_lists s)"]) (simp only: replicate_add, simp)
  qed
qed

lemma delete_alone:
  assumes "ld_procs s ! n = AtDeleteRequest i" "n < length (ld_procs s)"
  shows "\<exists>k. load_run env cl (replicate k (Sched n)) s = (case DeleteChannel env cl i (ld_world s) of
     (r, w) \<Rightarrow> Some (s\<lparr>ld_world := w, ld_procs := (ld_procs s)[n := DeleteReturned r]\<rparr>))"
proof (cases "delete_request env cl i (ld_world s)")
  case (Pair r w)
  then show ?thesis
    using assms by (intro exI [of _ "case r of Inl _ \<Rightarrow> 1 | Inr _ \<Rightarrow> 3"])
      (auto simp: DeleteChannel_body and_then_def numeral_3_eq_3 split: sum.splits)
qed

lemma load_alone:
  "\<exists>ls lists. load_run env cl (CallLoad # ls) (idle w) = (case LoadChannels env cl w of
     (r, w') \<Rightarrow> Some ((idle w')\<lparr>ld_procs := [LoadReturned r], ld_lists := lists\<rparr>))"
proof (cases "cn_channelsLoaded (clan_at w cl)")
  case True
  then show ?thesis
    by (intro exI [of _ "replicate 3 (Sched 0)"] exI [of _ 0]) (simp add: LoadChannels_def gets_def ret_def idle_def numeral_3_eq_3)
next
  case False
  let ?s = "(idle w)\<lparr>ld_mu := True, ld_procs := [AtListRequest]\<rparr>"
  obtain k lists where "load_run env cl (replicate k (Sched 0)) ?s = (case reloadChannelsLocked env cl w of
     (r, w') \<Rightarrow> Some ((idle w')\<lparr>ld_procs := [LoadReturned r], ld_lists := lists\<rparr>))"
    using locked_alone [of ?s 0 env cl] by (auto simp: idle_def split: prod.splits)
  moreover have "load_run env cl [CallLoad, Sched 0, Sched 0] (idle w) = Some ?s" using False by (simp add: idle_def)
  ultimately show ?thesis
    using False load_run_trans [of env cl "[CallLoad, Sched 0, Sched 0]" "idle w" ?s "replicate k (Sched 0)"]
    by (intro exI [of _ "[Sched 0, Sched 0] @ replicate k (Sched 0)"] exI [of _ lists]) (simp add: LoadChannels_def gets_def del: load_run.simps)
qed

lemma reload_alone:
  "\<exists>ls lists. load_run env cl (CallReload # ls) (idle w) = (case ReloadChannels env cl w of
     (r, w') \<Rightarrow> Some ((idle w')\<lparr>ld_procs := [LoadReturned r], ld_lists := lists\<rparr>))"
proof -
  let ?s = "(idle w)\<lparr>ld_mu := True, ld_procs := [AtListRequest]\<rparr>"
  obtain k lists where "load_run env cl (replicate k (Sched 0)) ?s = (case reloadChannelsLocked env cl w of
     (r, w') \<Rightarrow> Some ((idle w')\<lparr>ld_procs := [LoadReturned r], ld_lists := lists\<rparr>))"
    using locked_alone [of ?s 0 env cl] by (auto simp: idle_def split: prod.splits)
  moreover have "load_run env cl [CallReload, Sched 0] (idle w) = Some ?s" by (simp add: idle_def)
  ultimately show ?thesis
    using load_run_trans [of env cl "[CallReload, Sched 0]" "idle w" ?s "replicate k (Sched 0)"]
    by (intro exI [of _ "[Sched 0] @ replicate k (Sched 0)"] exI [of _ lists]) (simp add: ReloadChannels_def del: load_run.simps)
qed

text \<open>A goroutine that loads or reloads a clan, or deletes a channel, while nobody else is at work on the clan does
  exactly what the operation of the theory \<^verbatim>\<open>Structures\<close> does, in the result and in the state: the steps are those of the operations.\<close>

lemma clan_steps_refine_operations:
  "(\<exists>ls n. load_run env cl (CallLoad # ls) (idle w) = (case LoadChannels env cl w of
      (r, w') \<Rightarrow> Some ((idle w')\<lparr>ld_procs := [LoadReturned r], ld_lists := n\<rparr>))) \<and>
   (\<exists>ls n. load_run env cl (CallReload # ls) (idle w) = (case ReloadChannels env cl w of
      (r, w') \<Rightarrow> Some ((idle w')\<lparr>ld_procs := [LoadReturned r], ld_lists := n\<rparr>))) \<and>
   (\<exists>ls. load_run env cl (CallDelete i # ls) (idle w) = (case DeleteChannel env cl i w of
      (r, w') \<Rightarrow> Some ((idle w')\<lparr>ld_procs := [DeleteReturned r]\<rparr>)))"
  using load_alone [of env cl w] reload_alone [of env cl w] delete_alone [of "(idle w)\<lparr>ld_procs := [AtDeleteRequest i]\<rparr>" 0 i env cl]
  by (intro conjI) (auto simp: idle_def split: prod.splits)

section \<open>All interleavings\<close>

text \<open>The goroutines between \<^verbatim>\<open>Lock\<close> and \<^verbatim>\<open>Unlock\<close>, and those that have found or made the clan loaded.\<close>

fun holds_mu :: "load_pc \<Rightarrow> bool" where
  "holds_mu AtLoadedCheck = True"
| "holds_mu AtListRequest = True"
| "holds_mu (AtMerge chs) = True"
| "holds_mu (AtUnlock r) = True"
| "holds_mu _ = False"

fun saw_loaded :: "load_pc \<Rightarrow> bool" where
  "saw_loaded (AtUnlock r) = (r = Inr ())"
| "saw_loaded (LoadReturned r) = (r = Inr ())"
| "saw_loaded _ = False"

definition loading_inv :: "addr \<Rightarrow> 'x loading \<Rightarrow> bool" where
  "loading_inv cl s \<longleftrightarrow> world_ok (ld_world s) \<and> cl < length (h_clans (ld_world s)) \<and>
     length (filter holds_mu (ld_procs s)) = (if ld_mu s then 1 else 0) \<and>
     (\<forall>p\<in>set (ld_procs s). saw_loaded p \<longrightarrow> cn_channelsLoaded (clan_at (ld_world s) cl))"

text \<open>What the steps do to the client.\<close>

definition load_change :: "addr \<Rightarrow> 'x MezonClient \<Rightarrow> 'x MezonClient \<Rightarrow> bool" where
  "load_change cl w w' \<longleftrightarrow> grown w w' \<and> (cn_channelsLoaded (clan_at w cl) \<longrightarrow> cn_channelsLoaded (clan_at w' cl))"

lemma load_change_refl: "world_ok w \<Longrightarrow> load_change cl w w"
  by (simp add: load_change_def grown_refl)

lemma on_api_clan [simp]: "clan_at (snd (on_api p f w)) cl = clan_at w cl"
  by (auto simp: on_api_def deref_def outside_def clan_at_def split: option.splits prod.splits)

lemma api_change:
  assumes "world_ok w" "cl < length (h_clans w)"
  shows "load_change cl w (snd (on_api (cn_apiClient (clan_at w cl)) f w))"
  using reuses_on_api [OF assms(1) clan_parts(1) [OF assms], of f] by (simp add: load_change_def reuses_def)

lemma request_changes:
  assumes "world_ok w" "cl < length (h_clans w)"
  shows "load_change cl w (snd (list_request env cl w))" "load_change cl w (snd (delete_request env cl i w))"
  by (simp_all add: list_request_def delete_request_def api_change [OF assms])

lemma loaded_upd_clan: "cn_channelsLoaded (f (clan_at w cl)) = cn_channelsLoaded (clan_at w cl) \<Longrightarrow>
    cn_channelsLoaded (clan_at (upd_clan cl f w) c) = cn_channelsLoaded (clan_at w c)"
  by (cases "cl < length (h_clans w)"; cases "c = cl") (simp_all add: upd_clan_def clan_at_def list_update_beyond)

lemma upsertChannel_loaded [simp]: "cn_channelsLoaded (clan_at (snd (upsertChannel cl ch w)) c) = cn_channelsLoaded (clan_at w c)"
proof -
  have "cn_channelsLoaded (clan_at (set_Channels i a (set_clan_channel cl i a v)) c) = cn_channelsLoaded (clan_at w c)"
    if "h_clans v = h_clans w" for i a and v :: "'a MezonClient"
    using loaded_upd_clan [of "\<lambda>c. c\<lparr>cn_Channels := cache_Set (cn_Channels c) i a\<rparr>" v cl c] that
    by (simp add: set_Channels_def set_clan_channel_def clan_at_def)
  then show ?thesis
    by (auto simp: upsertChannel_def Let_def upd_channel_def newTextChannel_def alloc_channel_def split: option.splits)
qed

lemma merge_change:
  assumes "world_ok w" "cl < length (h_clans w)"
  shows "load_change cl w (merge_channel cl ch w)"
  using upsertChannel_ok [OF assms clan_parts(3) [OF assms], of ch] assms(1)
  by (simp add: load_change_def merge_channel_def grown_refl yields_def)

lemma mark_change:
  assumes "world_ok w" "cl < length (h_clans w)"
  shows "load_change cl w (mark_loaded cl w)" "cn_channelsLoaded (clan_at (mark_loaded cl w) cl)"
  using reuses_loaded [OF assms(1) clan_parts(3) [OF assms], of cl] assms(2)
  by (simp_all add: load_change_def mark_loaded_def reuses_def upd_clan_def clan_at_def)

lemma evict_change:
  assumes "world_ok w" "cl < length (h_clans w)"
  shows "load_change cl w (delete_clan_channel cl i w)" "load_change cl w (delete_Channels i w)"
  using assms grown_delete_clan_channel [OF assms(1)] grown_delete_Channels [OF assms(1)]
  by (simp_all add: load_change_def delete_clan_channel_def delete_Channels_def loaded_upd_clan) (simp add: clan_at_def)

lemma load_action_change:
  assumes "load_action env cl p s = Some (p', s')" "world_ok (ld_world s)" "cl < length (h_clans (ld_world s))"
  shows "load_change cl (ld_world s) (ld_world s')"
proof -
  note changes = request_changes [OF assms(2,3)] merge_change [OF assms(2,3)] mark_change(1) [OF assms(2,3)] evict_change [OF assms(2,3)]
    load_change_refl [OF assms(2)]
  have request: "load_change cl (ld_world s) w"
    if "list_request env cl (ld_world s) = (r, w)" for r w using changes(1) [of env] that by simp
  have delete: "load_change cl (ld_world s) w"
    if "delete_request env cl i (ld_world s) = (r, w)" for i r w using changes(2) [of env i] that by simp
  show ?thesis
    using assms(1,2) by (cases "(env, cl, p, s)" rule: load_action.cases)
      (auto simp: changes load_change_refl dest: request delete split: prod.splits sum.splits if_splits)
qed

text \<open>A step keeps the number of goroutines that hold the mutex in line with it, and who has seen the clan loaded is right.\<close>

lemma load_action_mu:
  assumes "load_action env cl p s = Some (p', s')" "holds_mu p \<Longrightarrow> ld_mu s"
  shows "(if holds_mu p' then 1 else 0) + (if ld_mu s then 1 else 0) = (if holds_mu p then 1 else 0) + (if ld_mu s' then 1 else (0::nat))"
  using assms by (cases "(env, cl, p, s)" rule: load_action.cases) (auto split: prod.splits sum.splits if_splits)

lemma load_action_saw:
  assumes "load_action env cl p s = Some (p', s')" "world_ok (ld_world s)" "cl < length (h_clans (ld_world s))"
    and "saw_loaded p \<longrightarrow> cn_channelsLoaded (clan_at (ld_world s) cl)" "saw_loaded p'"
  shows "cn_channelsLoaded (clan_at (ld_world s') cl)"
  using assms mark_change(2) [OF assms(2,3)]
  by (cases "(env, cl, p, s)" rule: load_action.cases) (auto split: prod.splits sum.splits if_splits)

lemma filter_update:
  "n < length xs \<Longrightarrow> length (filter P (xs[n := y])) + (if P (xs ! n) then 1 else 0) = length (filter P xs) + (if P y then 1 else 0)"
proof (induction xs arbitrary: n)
  case (Cons x xs)
  then show ?case by (cases n) auto
qed simp

lemma holder_in_list: "p \<in> set ps \<Longrightarrow> P p \<Longrightarrow> length (filter P ps) \<noteq> 0"
  by (auto simp: filter_empty_conv)

lemma loading_inv_step:
  assumes "loading_inv cl s" "load_step env cl s l s'"
  shows "loading_inv cl s'"
proof (cases l)
  case (Sched n)
  then obtain p s1 where p: "n < length (ld_procs s)" "load_action env cl (ld_procs s ! n) s = Some (p, s1)"
      "s' = s1\<lparr>ld_procs := (ld_procs s)[n := p]\<rparr>"
    using assms(2) by (auto simp: load_step_def split: if_splits option.splits)
  have ok: "world_ok (ld_world s)" "cl < length (h_clans (ld_world s))" using assms(1) by (simp_all add: loading_inv_def)
  have change: "load_change cl (ld_world s) (ld_world s1)" by (rule load_action_change [OF p(2) ok])
  have member: "ld_procs s ! n \<in> set (ld_procs s)" using p(1) by simp
  have mu: "length (filter holds_mu (ld_procs s)) = (if ld_mu s then 1 else 0)" using assms(1) by (simp add: loading_inv_def)
  then have "ld_mu s" if "holds_mu (ld_procs s ! n)" using holder_in_list [where P = holds_mu, OF member that] mu by (auto split: if_splits)
  then have "length (filter holds_mu ((ld_procs s)[n := p])) = (if ld_mu s1 then 1 else 0)"
    using load_action_mu [OF p(2)] filter_update [OF p(1), of holds_mu p] mu by (auto split: if_splits)
  moreover have "cn_channelsLoaded (clan_at (ld_world s1) cl)" if "q \<in> set ((ld_procs s)[n := p])" "saw_loaded q" for q
  proof -
    have "q = p \<or> q \<in> set (ld_procs s)" using that(1) set_update_subset_insert by fast
    then show ?thesis
      using load_action_saw [OF p(2) ok] that(2) assms(1) member change by (auto simp: loading_inv_def load_change_def)
  qed
  ultimately show ?thesis using change ok by (auto simp: loading_inv_def p(3) load_change_def intro: grown_ok grown_less)
qed (use assms in \<open>auto simp: loading_inv_def load_step_def\<close>)

lemma loading_inv_init: "load_init cl s \<Longrightarrow> loading_inv cl s"
  by (auto simp: load_init_def loading_inv_def idle_def)

interpretation loading: step_invariant "load_init cl" "load_step env cl" "loading_inv cl" for cl env
  by unfold_locales (erule loading_inv_init, erule (1) loading_inv_step)

lemma sole_holder:
  assumes "length (filter P xs) \<le> 1" "n < length xs" "P (xs ! n)" "m < length xs" "P (xs ! m)"
  shows "m = n"
proof -
  have "card {i. i < length xs \<and> P (xs ! i)} \<le> 1" using assms(1) by (simp add: length_filter_conv_card)
  then show ?thesis using assms(2-) card_le_Suc0_iff_eq [of "{i. i < length xs \<and> P (xs ! i)}"] by auto
qed

text \<open>Somebody can always go on: the goroutine that holds the mutex, or when nobody does, any other.\<close>

fun load_returned :: "load_pc \<Rightarrow> bool" where
  "load_returned (LoadReturned r) = True"
| "load_returned (DeleteReturned r) = True"
| "load_returned _ = False"

lemma load_action_enabled:
  "holds_mu p \<or> (\<not> ld_mu s \<and> \<not> load_returned p) \<Longrightarrow> \<exists>p' s'. load_action env cl p s = Some (p', s')"
  by (cases "(env, cl, p, s)" rule: load_action.cases) (auto split: prod.splits sum.splits)

lemma loading_progress:
  assumes "loading_inv cl s" "p \<in> set (ld_procs s)" "\<not> load_returned p"
  shows "\<exists>n s'. load_exec env cl (Sched n) s = Some s'"
proof -
  obtain q where q: "q \<in> set (ld_procs s)" "holds_mu q \<or> (\<not> ld_mu s \<and> \<not> load_returned q)"
  proof (cases "ld_mu s")
    case True
    then have "filter holds_mu (ld_procs s) \<noteq> []" using assms(1) by (auto simp: loading_inv_def)
    then show ?thesis using that by (auto simp: filter_empty_conv)
  qed (use assms that in blast)
  then obtain n where n: "n < length (ld_procs s)" "ld_procs s ! n = q" by (auto simp: in_set_conv_nth)
  obtain p' s' where "load_action env cl q s = Some (p', s')" using load_action_enabled [OF q(2)] by blast
  then show ?thesis using n by (intro exI [of _ n]) simp
qed

section \<open>Loading once\<close>

text \<open>Goroutines that load and delete, but none that reloads.\<close>

definition once_step :: "'x client_env \<Rightarrow> addr \<Rightarrow> 'x loading \<Rightarrow> load_label \<Rightarrow> 'x loading \<Rightarrow> bool" where
  "once_step env cl s l s' \<longleftrightarrow> load_step env cl s l s' \<and> l \<noteq> CallReload"

definition once_inv :: "addr \<Rightarrow> 'x loading \<Rightarrow> bool" where
  "once_inv cl s \<longleftrightarrow> loading_inv cl s \<and> AtLock True \<notin> set (ld_procs s) \<and> ld_lists s \<le> 1 \<and>
     (AtListRequest \<in> set (ld_procs s) \<longrightarrow> ld_lists s = 0) \<and>
     (ld_lists s = 1 \<longrightarrow> cn_channelsLoaded (clan_at (ld_world s) cl) \<or> (\<exists>chs. AtMerge chs \<in> set (ld_procs s)))"

lemma load_action_lists:
  assumes "load_action env cl p s = Some (p', s')"
  shows "ld_lists s' = ld_lists s \<or> p = AtListRequest \<and> ld_lists s' = Suc (ld_lists s) \<and> (\<exists>chs. p' = AtMerge chs)"
  using assms by (cases "(env, cl, p, s)" rule: load_action.cases) (auto split: prod.splits sum.splits if_splits)

lemma load_action_pc:
  assumes "load_action env cl p s = Some (p', s')"
  shows "p' \<noteq> AtLock True" "p' = AtListRequest \<Longrightarrow> p = AtLock True \<or> p = AtLoadedCheck \<and> \<not> cn_channelsLoaded (clan_at (ld_world s) cl)"
    "p = AtMerge chs \<Longrightarrow> (\<exists>chs. p' = AtMerge chs) \<or> ld_world s' = mark_loaded cl (ld_world s)"
  using assms by (cases "(env, cl, p, s)" rule: load_action.cases; auto split: prod.splits sum.splits if_splits)+

lemma once_inv_sched:
  assumes inv: "once_inv cl s" and n: "n < length (ld_procs s)" "load_action env cl (ld_procs s ! n) s = Some (p, s1)"
    and s': "s' = s1\<lparr>ld_procs := (ld_procs s)[n := p]\<rparr>" and "loading_inv cl s'"
  shows "once_inv cl s'"
proof -
  let ?q = "ld_procs s ! n"
  have li: "loading_inv cl s" and mem: "?q \<in> set (ld_procs s)" using inv n(1) by (simp_all add: once_inv_def)
  then have ok: "world_ok (ld_world s)" "cl < length (h_clans (ld_world s))" and few: "length (filter holds_mu (ld_procs s)) \<le> 1"
    by (auto simp: loading_inv_def)
  have change: "load_change cl (ld_world s) (ld_world s1)" by (rule load_action_change [OF n(2) ok])
  have others: "q = p \<or> (\<exists>m. m < length (ld_procs s) \<and> m \<noteq> n \<and> q = ld_procs s ! m)" if q: "q \<in> set ((ld_procs s)[n := p])" for q
  proof -
    obtain i where "i < length (ld_procs s)" "q = (ld_procs s)[n := p] ! i"
      using q by (auto simp: in_set_conv_nth)
    then show ?thesis using n(1) by (cases "i = n") auto
  qed
  have alone: "q = p" if "q \<in> set ((ld_procs s)[n := p])" "holds_mu q" "holds_mu ?q" for q
    using others [OF that(1)] sole_holder [of holds_mu, OF few n(1) that(3)] that(2) by blast
  have old: "q = p \<or> q \<in> set (ld_procs s)" if "q \<in> set ((ld_procs s)[n := p])" for q
    using that set_update_subset_insert by fast
  have kept: "q \<in> set ((ld_procs s)[n := p])" if q: "q \<in> set (ld_procs s)" "q \<noteq> ?q" for q
  proof -
    obtain i where "i < length (ld_procs s)" "q = ld_procs s ! i" using q(1) by (auto simp: in_set_conv_nth)
    then have "i < length ((ld_procs s)[n := p])" "(ld_procs s)[n := p] ! i = q" using q(2) by (cases "i = n"; simp)+
    then show ?thesis by (metis nth_mem)
  qed
  have zero: "ld_lists s = 0" if "?q = AtListRequest" using inv mem that by (auto simp: once_inv_def)
  have "AtLock True \<notin> set (ld_procs s')" using old inv load_action_pc(1) [OF n(2)] by (auto simp: s' once_inv_def)
  moreover have lists: "ld_lists s' \<le> 1" using load_action_lists [OF n(2)] zero inv by (auto simp: s' once_inv_def)
  moreover have "ld_lists s' = 0" if r: "AtListRequest \<in> set (ld_procs s')"
  proof (cases "p = AtListRequest")
    case True
    then have q: "?q = AtLoadedCheck" "\<not> cn_channelsLoaded (clan_at (ld_world s) cl)"
      using load_action_pc(2) [OF n(2)] inv mem by (auto simp: once_inv_def)
    then have "AtMerge chs \<notin> set (ld_procs s)" for chs
      using kept [of "AtMerge chs"] alone [of "AtMerge chs"] True by auto
    then show ?thesis using inv q load_action_lists [OF n(2)] by (auto simp: once_inv_def s')
  next
    case False
    then have "?q \<noteq> AtListRequest" using alone [of AtListRequest] r by (auto simp: s')
    then show ?thesis using old [of AtListRequest] r False inv load_action_lists [OF n(2)] by (auto simp: s' once_inv_def)
  qed
  moreover have "cn_channelsLoaded (clan_at (ld_world s') cl) \<or> (\<exists>chs. AtMerge chs \<in> set (ld_procs s'))" if one: "ld_lists s' = 1"
  proof (cases "ld_lists s' = ld_lists s")
    case True
    then consider "cn_channelsLoaded (clan_at (ld_world s) cl)" | chs where "AtMerge chs \<in> set (ld_procs s)"
      using inv one by (auto simp: once_inv_def)
    then show ?thesis
    proof cases
      case 2
      then show ?thesis
        using kept [of "AtMerge chs"] load_action_pc(3) [OF n(2), of chs] mark_change(2) [OF ok] set_update_memI [OF n(1), of p]
        by (cases "?q = AtMerge chs") (auto simp: s')
    qed (use change in \<open>simp add: s' load_change_def\<close>)
  next
    case False
    then show ?thesis using load_action_lists [OF n(2)] set_update_memI [OF n(1), of p] by (auto simp: s')
  qed
  ultimately show ?thesis using assms(5) by (simp add: once_inv_def)
qed

lemma once_inv_step:
  assumes "once_inv cl s" "once_step env cl s l s'"
  shows "once_inv cl s'"
proof -
  have inv: "loading_inv cl s'" using assms by (auto simp: once_inv_def once_step_def intro: loading_inv_step)
  show ?thesis
  proof (cases l)
    case (Sched n)
    then obtain p s1 where "n < length (ld_procs s)" "load_action env cl (ld_procs s ! n) s = Some (p, s1)"
        "s' = s1\<lparr>ld_procs := (ld_procs s)[n := p]\<rparr>"
      using assms(2) by (auto simp: once_step_def load_step_def split: if_splits option.splits)
    then show ?thesis using inv by (rule once_inv_sched [OF assms(1)])
  qed (use assms inv in \<open>auto simp: once_inv_def once_step_def load_step_def\<close>)
qed

interpretation loading_once: step_invariant "load_init cl" "once_step env cl" "once_inv cl" for cl env
  by unfold_locales (simp add: once_inv_def loading_inv_init, simp add: load_init_def idle_def, force, erule (1) once_inv_step)

section \<open>A list that has grown old\<close>

lemma merge_reuses: "world_ok w \<Longrightarrow> cl < length (h_clans w) \<Longrightarrow> reuses w (merge_channel cl ch w)"
  using clan_parts(3) [of w cl] by (simp add: merge_channel_def reuses_refl reuses_upsert)

lemma merge_caches:
  assumes "world_ok w" "cl < length (h_clans w)" "cd_ChannelId ch \<noteq> 0"
  shows "cache_Get (cn_Channels (clan_at (merge_channel cl ch w) cl)) (itoaID (cd_ChannelId ch)) \<noteq> None"
proof -
  define r where "r = (case (case cache_Get (cn_Channels (clan_at w cl)) (itoaID (cd_ChannelId ch)) of Some a \<Rightarrow> Some a
      | None \<Rightarrow> cache_Get (mc_Channels w) (itoaID (cd_ChannelId ch))) of
      Some a \<Rightarrow> (a, upd_channel a (channel_updateFromDesc ch) w) | None \<Rightarrow> newTextChannel ch (Some cl) (mc_socket w) w)"
  have "merge_channel cl ch w = set_Channels (itoaID (cd_ChannelId ch)) (fst r) (set_clan_channel cl (itoaID (cd_ChannelId ch)) (fst r) (snd r))"
    using assms(3) by (simp add: merge_channel_def upsertChannel_def Let_def r_def [symmetric] case_prod_unfold)
  moreover have "h_clans (snd r) = h_clans w"
    by (auto simp: r_def upd_channel_def newTextChannel_def alloc_channel_def split: option.splits)
  ultimately show ?thesis
    using assms(2) ok_unbounded(2) [OF assms(1)]
    by (simp add: set_Channels_def set_clan_channel_def upd_clan_def clan_at_def cache_Get_Set_unbounded)
qed

lemma merges_cache:
  assumes "world_ok w" "cl < length (h_clans w)" "cd_ChannelId ch \<noteq> 0"
    and "ch \<in> set chs \<or> cache_Get (cn_Channels (clan_at w cl)) (itoaID (cd_ChannelId ch)) \<noteq> None"
  shows "cache_Get (cn_Channels (clan_at (for_each (merge_channel cl) chs w) cl)) (itoaID (cd_ChannelId ch)) \<noteq> None"
  using assms
proof (induction chs arbitrary: w)
  case (Cons c chs)
  have r: "reuses w (merge_channel cl c w)" by (rule merge_reuses [OF Cons.prems(1,2)])
  have "ch \<in> set chs \<or> cache_Get (cn_Channels (clan_at (merge_channel cl c w) cl)) (itoaID (cd_ChannelId ch)) \<noteq> None"
    using Cons.prems(2,4) merge_caches [OF Cons.prems(1-3)] r by (auto simp: reuses_def)
  then show ?case using Cons.IH [OF reuses_ok [OF r] reuses_less [OF r Cons.prems(2)] Cons.prems(3)] by simp
qed simp

lemma revive_core:
  assumes w: "world_ok w" "cl < length (h_clans w)" and ch: "ch \<in> set (cdl_Channeldesc chs)" "cd_ChannelId ch \<noteq> 0"
    and list: "list_request env cl w = (Inr chs, w1)"
    and del: "delete_request env cl (itoaID (cd_ChannelId ch)) w1 = (Inr (), w2)"
  shows "\<exists>ls1 s1 ls2 s2. load_run env cl ls1 (idle w) = Some s1 \<and> ld_procs s1 ! 1 = DeleteReturned (Inr ()) \<and>
      cache_Get (cn_Channels (clan_at (ld_world s1) cl)) (itoaID (cd_ChannelId ch)) = None \<and>
      cache_Get (mc_Channels (ld_world s1)) (itoaID (cd_ChannelId ch)) = None \<and>
      load_run env cl ls2 s1 = Some s2 \<and> ld_procs s2 = [LoadReturned (Inr ()), DeleteReturned (Inr ())] \<and>
      cache_Get (cn_Channels (clan_at (ld_world s2) cl)) (itoaID (cd_ChannelId ch)) \<noteq> None"
proof -
  let ?i = "itoaID (cd_ChannelId ch)" and ?chs = "cdl_Channeldesc chs"
  let ?w3 = "delete_Channels ?i (delete_clan_channel cl ?i w2)"
  let ?s1 = "\<lparr>ld_world = ?w3, ld_mu = True, ld_procs = [AtMerge ?chs, DeleteReturned (Inr ())], ld_lists = 1\<rparr>"
  let ?w4 = "for_each (merge_channel cl) ?chs ?w3"
  let ?s2 = "\<lparr>ld_world = mark_loaded cl ?w4, ld_mu = False, ld_procs = [LoadReturned (Inr ()), DeleteReturned (Inr ())], ld_lists = 1\<rparr>"
  have "load_change cl w w1" using request_changes(1) [OF w, of env] list by simp
  then have w1: "world_ok w1" "cl < length (h_clans w1)" using w(2) by (auto simp: load_change_def intro: grown_ok grown_less)
  have "load_change cl w1 w2" using request_changes(2) [OF w1, of env ?i] del by simp
  then have w2: "world_ok w2" "cl < length (h_clans w2)" using w1(2) by (auto simp: load_change_def intro: grown_ok grown_less)
  have w3: "world_ok ?w3" "cl < length (h_clans ?w3)"
    using grown_ok [OF grown_delete_Channels [OF grown_ok [OF grown_delete_clan_channel [OF w2(1)]]]] w2(2)
    by (simp_all add: delete_Channels_def delete_clan_channel_def upd_clan_def)
  have run1: "load_run env cl [CallReload, Sched 0, Sched 0, CallDelete ?i, Sched 1, Sched 1, Sched 1] (idle w) = Some ?s1"
    using list del by (simp add: idle_def)
  have gone: "cache_Get (cn_Channels (clan_at ?w3 cl)) ?i = None" "cache_Get (mc_Channels ?w3) ?i = None"
    using w2(2) by (simp_all add: delete_Channels_def delete_clan_channel_def upd_clan_def clan_at_def cache_Get_Delete_same)
  have "load_run env cl (replicate (length ?chs) (Sched 0)) ?s1 = Some (?s1\<lparr>ld_world := ?w4, ld_procs := [AtMerge [], DeleteReturned (Inr ())]\<rparr>)"
    using merge_alone [of ?s1 0 ?chs env cl] by simp
  then have run2: "load_run env cl (replicate (length ?chs) (Sched 0) @ [Sched 0, Sched 0]) ?s1 = Some ?s2"
    by (rule load_run_trans) simp
  have revived: "cache_Get (cn_Channels (clan_at (mark_loaded cl ?w4) cl)) ?i \<noteq> None"
    using merges_cache [OF w3 ch(2), of ?chs] ch(1)
    by (cases "cl < length (h_clans ?w4)") (auto simp: mark_loaded_def upd_clan_def clan_at_def list_update_beyond)
  show ?thesis
    by (rule exI, rule exI [of _ ?s1], rule exI, rule exI [of _ ?s2], intro conjI, rule run1, simp, simp add: gone, simp add: gone,
        rule run2, simp, simp add: revived)
qed

section \<open>What a list does to the caches\<close>

text \<open>A channel that is as a description says.\<close>

definition describes :: "pb_ChannelDescription \<Rightarrow> TextChannel \<Rightarrow> bool" where
  "describes d c \<longleftrightarrow> tc_ID c = itoaID (cd_ChannelId d) \<and> tc_Name c = cd_ChannelLabel d \<and> tc_ChannelType c = of_int32 (cd_Type d) \<and>
     tc_IsPrivate c = (cd_ChannelPrivate d \<noteq> 0) \<and> tc_CategoryID c = itoaID (cd_CategoryId d) \<and>
     tc_CategoryName c = cd_CategoryName d \<and> tc_ParentID c = itoaID (cd_ParentId d) \<and> tc_MeetingCode c = cd_MeetingCode d"

text \<open>The channels a list names, the last description under an id, and a client whose caches have every channel under its own id.\<close>

definition named_channels :: "pb_ChannelDescription list \<Rightarrow> pb_ChannelDescription list" where
  "named_channels chs = filter (\<lambda>d. cd_ChannelId d \<noteq> 0) chs"

definition listed_ids :: "pb_ChannelDescription list \<Rightarrow> string set" where
  "listed_ids chs = (\<lambda>d. itoaID (cd_ChannelId d)) ` set (named_channels chs)"

definition last_listed :: "string \<Rightarrow> pb_ChannelDescription list \<Rightarrow> pb_ChannelDescription" where
  "last_listed k chs = last (filter (\<lambda>d. itoaID (cd_ChannelId d) = k) (named_channels chs))"

definition clan_channel :: "'x MezonClient \<Rightarrow> addr \<Rightarrow> string \<Rightarrow> addr option" where
  "clan_channel w cl k = cache_Get (cn_Channels (clan_at w cl)) k"

definition own_keys :: "addr \<Rightarrow> 'x MezonClient \<Rightarrow> bool" where
  "own_keys cl w \<longleftrightarrow> (\<forall>k a. clan_channel w cl k = Some a \<or> cache_Get (mc_Channels w) k = Some a \<longrightarrow> tc_ID (channel_at w a) = k)"

lemma cache_Get_Set_other: "k' \<noteq> k \<Longrightarrow> cache_Get (cache_Set c k v) k' = None \<or> cache_Get (cache_Set c k v) k' = cache_Get c k'"
  by (auto simp: cache_Get_def cache_Set_def evict_oldest_def Let_def update_conv' AList.delete_conv' split: list.splits)

lemma channel_cached_less:
  assumes "world_ok w" "cl < length (h_clans w)" "clan_channel w cl k = Some a \<or> cache_Get (mc_Channels w) k = Some a"
  shows "a < length (h_channels w)"
  using assms(2,3) ok_caches(2,4) [OF assms(1)] by (auto simp: clan_channel_def)

text \<open>The merge of one description: the object it goes to, and what it becomes.\<close>

lemma merge_effect:
  assumes "world_ok w" "cl < length (h_clans w)" "cd_ChannelId d \<noteq> 0"
  defines "i \<equiv> itoaID (cd_ChannelId d)"
  shows "\<exists>a. (\<forall>k. clan_channel (merge_channel cl d w) cl k = (if k = i then Some a else clan_channel w cl k)) \<and>
     (clan_channel w cl i = Some a \<or> cache_Get (mc_Channels w) i = Some a \<or> a = length (h_channels w)) \<and>
     mc_Channels (merge_channel cl d w) = cache_Set (mc_Channels w) i a \<and>
     a < length (h_channels (merge_channel cl d w)) \<and>
     (a < length (h_channels w) \<longrightarrow> channel_at (merge_channel cl d w) a = channel_updateFromDesc d (channel_at w a)) \<and>
     (a = length (h_channels w) \<longrightarrow> describes d (channel_at (merge_channel cl d w) a)) \<and>
     (\<forall>b. b < length (h_channels w) \<longrightarrow> b \<noteq> a \<longrightarrow> channel_at (merge_channel cl d w) b = channel_at w b) \<and>
     (\<forall>c. c \<noteq> cl \<longrightarrow> clan_at (merge_channel cl d w) c = clan_at w c)"
proof -
  define cached where "cached = (case clan_channel w cl i of Some a \<Rightarrow> Some a | None \<Rightarrow> cache_Get (mc_Channels w) i)"
  define r where "r = (case cached of Some a \<Rightarrow> (a, upd_channel a (channel_updateFromDesc d) w)
    | None \<Rightarrow> newTextChannel d (Some cl) (mc_socket w) w)"
  have u: "merge_channel cl d w = set_Channels i (fst r) (set_clan_channel cl i (fst r) (snd r))"
    using assms(3) by (simp add: merge_channel_def upsertChannel_def Let_def i_def [symmetric] clan_channel_def [symmetric]
        cached_def [symmetric] r_def [symmetric] case_prod_unfold)
  have same: "h_clans (snd r) = h_clans w" "mc_Channels (snd r) = mc_Channels w"
    by (auto simp: r_def upd_channel_def newTextChannel_def alloc_channel_def split: option.splits)
  have chans: "h_channels (merge_channel cl d w) = h_channels (snd r)"
    by (simp add: u set_Channels_def set_clan_channel_def upd_clan_def)
  have clan: "clan_channel (merge_channel cl d w) cl k = (if k = i then Some (fst r) else clan_channel w cl k)" for k
    using assms(2) ok_unbounded(2) [OF assms(1,2)] same(1)
    by (simp add: u set_Channels_def set_clan_channel_def upd_clan_def clan_at_def clan_channel_def cache_Get_Set_unbounded)
  have others: "clan_at (merge_channel cl d w) c = clan_at w c" if "c \<noteq> cl" for c
    using that by (simp add: u set_Channels_def set_clan_channel_def upd_clan_def clan_at_def same)
  have mc: "mc_Channels (merge_channel cl d w) = cache_Set (mc_Channels w) i (fst r)"
    by (simp add: u set_Channels_def set_clan_channel_def upd_clan_def same)
  show ?thesis
  proof (cases cached)
    case None
    then have "r = newTextChannel d (Some cl) (mc_socket w) w" by (simp add: r_def)
    then show ?thesis
      using clan others mc chans
      by (intro exI [of _ "fst r"]) (simp add: newTextChannel_def alloc_channel_def channel_at_def nth_append describes_def channel_updateFromDesc_def)
  next
    case (Some a)
    then have "clan_channel w cl i = Some a \<or> cache_Get (mc_Channels w) i = Some a" by (auto simp: cached_def split: option.splits)
    moreover from channel_cached_less [OF assms(1,2) this] have "a < length (h_channels w)" .
    moreover have "r = (a, upd_channel a (channel_updateFromDesc d) w)" using Some by (simp add: r_def)
    ultimately show ?thesis
      using clan others mc chans by (intro exI [of _ a]) (simp add: upd_channel_def channel_at_def)
  qed
qed

text \<open>What holds after the descriptions \<open>chs\<close> were merged into the client \<open>w\<close>.\<close>

definition merged :: "addr \<Rightarrow> 'x MezonClient \<Rightarrow> pb_ChannelDescription list \<Rightarrow> 'x MezonClient \<Rightarrow> bool" where
  "merged cl w chs w' \<longleftrightarrow> reuses w w' \<and>
     (\<forall>k. clan_channel w' cl k \<noteq> None \<longleftrightarrow> clan_channel w cl k \<noteq> None \<or> k \<in> listed_ids chs) \<and>
     (\<forall>k a. cache_Get (mc_Channels w') k = Some a \<longrightarrow>
        (if k \<in> listed_ids chs then clan_channel w' cl k = Some a else cache_Get (mc_Channels w) k = Some a)) \<and>
     (\<forall>c. c \<noteq> cl \<longrightarrow> clan_at w' c = clan_at w c) \<and>
     (own_keys cl w \<longrightarrow> own_keys cl w' \<and>
        (\<forall>k\<in>listed_ids chs. \<exists>a. clan_channel w' cl k = Some a \<and> describes (last_listed k chs) (channel_at w' a)))"

lemma merged_Nil: "world_ok w \<Longrightarrow> merged cl w [] w"
  by (simp add: merged_def reuses_refl listed_ids_def named_channels_def)

lemma listed_snoc:
  "cd_ChannelId d \<noteq> 0 \<Longrightarrow> listed_ids (chs @ [d]) = insert (itoaID (cd_ChannelId d)) (listed_ids chs)"
  "cd_ChannelId d = 0 \<Longrightarrow> listed_ids (chs @ [d]) = listed_ids chs"
  "cd_ChannelId d = 0 \<Longrightarrow> last_listed k (chs @ [d]) = last_listed k chs"
  "cd_ChannelId d \<noteq> 0 \<Longrightarrow> last_listed k (chs @ [d]) = (if k = itoaID (cd_ChannelId d) then d else last_listed k chs)"
  by (auto simp: listed_ids_def named_channels_def last_listed_def)

lemma merged_snoc:
  assumes "merged cl w chs w'" "cl < length (h_clans w)"
  shows "merged cl w (chs @ [d]) (merge_channel cl d w')"
proof (cases "cd_ChannelId d = 0")
  case True
  then show ?thesis using assms(1) by (simp add: merged_def merge_channel_def listed_snoc)
next
  case False
  define i where "i = itoaID (cd_ChannelId d)"
  let ?w = "merge_channel cl d w'"
  have r: "reuses w w'" using assms(1) by (simp add: merged_def)
  have ok: "world_ok w'" "cl < length (h_clans w')" using reuses_ok [OF r] reuses_less [OF r assms(2)] by simp_all
  obtain a where a: "\<And>k. clan_channel ?w cl k = (if k = i then Some a else clan_channel w' cl k)"
      "clan_channel w' cl i = Some a \<or> cache_Get (mc_Channels w') i = Some a \<or> a = length (h_channels w')"
      "mc_Channels ?w = cache_Set (mc_Channels w') i a"
      "a < length (h_channels w') \<Longrightarrow> channel_at ?w a = channel_updateFromDesc d (channel_at w' a)"
      "a = length (h_channels w') \<Longrightarrow> describes d (channel_at ?w a)"
      "\<And>b. b < length (h_channels w') \<Longrightarrow> b \<noteq> a \<Longrightarrow> channel_at ?w b = channel_at w' b"
      "\<And>c. c \<noteq> cl \<Longrightarrow> clan_at ?w c = clan_at w' c"
    using merge_effect [OF ok False] unfolding i_def by blast
  have ids: "listed_ids (chs @ [d]) = insert i (listed_ids chs)" "last_listed k (chs @ [d]) = (if k = i then d else last_listed k chs)" for k
    using listed_snoc(1,4) [OF False] by (simp_all add: i_def)
  have mc: "cache_Get (mc_Channels ?w) k = Some b \<Longrightarrow> k \<noteq> i \<Longrightarrow> cache_Get (mc_Channels w') k = Some b" for k b
    using cache_Get_Set_other [of k i "mc_Channels w'" a] a(3) by auto
  have "reuses w ?w" using r merge_reuses [OF ok] by (rule reuses_trans)
  moreover have "clan_channel ?w cl k \<noteq> None \<longleftrightarrow> clan_channel w cl k \<noteq> None \<or> k \<in> insert i (listed_ids chs)" for k
    using assms(1) a(1) by (auto simp: merged_def)
  moreover have "if k \<in> insert i (listed_ids chs) then clan_channel ?w cl k = Some b else cache_Get (mc_Channels w) k = Some b"
    if "cache_Get (mc_Channels ?w) k = Some b" for k b
    using assms(1) mc [OF that] that a(1,3) by (cases "k = i") (auto simp: merged_def split: if_splits)
  moreover have "clan_at ?w c = clan_at w c" if "c \<noteq> cl" for c
    using assms(1) a(7) that by (simp add: merged_def)
  moreover have "own_keys cl ?w \<and> (\<forall>k\<in>insert i (listed_ids chs). \<exists>b. clan_channel ?w cl k = Some b \<and>
      describes (if k = i then d else last_listed k chs) (channel_at ?w b))" if "own_keys cl w"
  proof -
    have keys: "own_keys cl w'" and old: "\<And>k. k \<in> listed_ids chs \<Longrightarrow> \<exists>b. clan_channel w' cl k = Some b \<and>
        describes (last_listed k chs) (channel_at w' b)" using assms(1) that by (simp_all add: merged_def)
    have "tc_ID (channel_at w' a) = i" if "a < length (h_channels w')"
      using keys a(2) that by (auto simp: own_keys_def)
    then have da: "describes d (channel_at ?w a)" using a(2,4,5) channel_cached_less [OF ok, of i a]
      by (cases "a < length (h_channels w')") (auto simp: describes_def channel_updateFromDesc_def i_def)
    have apart: "b < length (h_channels w') \<and> b \<noteq> a" if "k \<noteq> i" "clan_channel w' cl k = Some b \<or> cache_Get (mc_Channels w') k = Some b" for k b
      using channel_cached_less [OF ok that(2)] that keys \<open>a < length (h_channels w') \<Longrightarrow> tc_ID (channel_at w' a) = i\<close>
      by (auto simp: own_keys_def)
    have "own_keys cl ?w" unfolding own_keys_def
    proof (intro allI impI)
      fix k b
      assume kb: "clan_channel ?w cl k = Some b \<or> cache_Get (mc_Channels ?w) k = Some b"
      show "tc_ID (channel_at ?w b) = k"
      proof (cases "k = i")
        case True
        then have "b = a" using kb a(1,3) by auto
        then show ?thesis using da True by (simp add: describes_def i_def)
      next
        case False
        then have kb': "clan_channel w' cl k = Some b \<or> cache_Get (mc_Channels w') k = Some b" using kb a(1) mc by auto
        then show ?thesis using apart [OF False kb'] a(6) keys by (auto simp: own_keys_def)
      qed
    qed
    moreover have "\<exists>b. clan_channel ?w cl k = Some b \<and> describes (last_listed k chs) (channel_at ?w b)"
      if k: "k \<in> listed_ids chs" "k \<noteq> i" for k
      using old [OF k(1)] apart [OF k(2)] a(1,6) k(2) by force
    ultimately show ?thesis using a(1) da by auto
  qed
  ultimately show ?thesis unfolding merged_def ids by blast
qed

lemma merged_for_each: "world_ok w \<Longrightarrow> cl < length (h_clans w) \<Longrightarrow> merged cl w chs (for_each (merge_channel cl) chs w)"
proof (induction chs rule: rev_induct)
  case (snoc d chs)
  then have "merged cl w (chs @ [d]) (merge_channel cl d (for_each (merge_channel cl) chs w))" by (intro merged_snoc) simp_all
  moreover have "for_each (merge_channel cl) (chs @ [d]) w = merge_channel cl d (for_each (merge_channel cl) chs w)"
    by (simp add: for_each_def)
  ultimately show ?case by simp
qed (simp add: merged_Nil for_each_def)

text \<open>A request changes nothing but the outside.\<close>

lemma on_api_out: "within p (length (h_apis w)) \<Longrightarrow> p \<noteq> None \<Longrightarrow> snd (on_api p f w) = w\<lparr>mc_out := mc_out (snd (on_api p f w))\<rparr>"
  by (auto simp: on_api_def deref_def outside_def split: prod.splits)

lemma request_out:
  assumes "world_ok w" "cl < length (h_clans w)"
  shows "snd (list_request env cl w) = w\<lparr>mc_out := mc_out (snd (list_request env cl w))\<rparr>"
    "snd (delete_request env cl i w) = w\<lparr>mc_out := mc_out (snd (delete_request env cl i w))\<rparr>"
  using on_api_out [of "cn_apiClient (clan_at w cl)" w] clan_parts(1) [OF assms] by (auto simp: list_request_def delete_request_def within_def split: option.splits)

lemma reload_effect:
  assumes "world_ok w" "cl < length (h_clans w)" "w1 = w\<lparr>mc_out := mc_out w1\<rparr>"
    and w2_def: "w2 = mark_loaded cl (for_each (merge_channel cl) chs w1)"
  shows "cn_channelsLoaded (clan_at w2 cl)"
    "clan_channel w2 cl k \<noteq> None \<longleftrightarrow> clan_channel w cl k \<noteq> None \<or> k \<in> listed_ids chs"
    "clan_channel w cl k = Some a \<Longrightarrow> clan_channel w2 cl k = Some a \<and> tc_Messages (channel_at w2 a) = tc_Messages (channel_at w a)"
    "cache_Get (mc_Channels w2) k = Some a \<Longrightarrow>
        if k \<in> listed_ids chs then clan_channel w2 cl k = Some a else cache_Get (mc_Channels w) k = Some a"
    "c \<noteq> cl \<Longrightarrow> clan_at w2 c = clan_at w c"
    "own_keys cl w \<Longrightarrow> own_keys cl w2"
    "own_keys cl w \<Longrightarrow> k \<in> listed_ids chs \<Longrightarrow> \<exists>a. clan_channel w2 cl k = Some a \<and> describes (last_listed k chs) (channel_at w2 a)"
proof -
  let ?w = "for_each (merge_channel cl) chs w1"
  have w1: "world_ok w1" "clan_at w1 = clan_at w" "channel_at w1 = channel_at w" "mc_Channels w1 = mc_Channels w" "cl < length (h_clans w1)"
    "h_channels w1 = h_channels w"
    using reuses_ok [OF reuses_out [OF assms(1), of "mc_out w1"]] assms(2) by (subst assms(3); simp add: clan_at_def channel_at_def fun_eq_iff)+
  have same: "clan_channel w1 = clan_channel w" "own_keys cl w1 = own_keys cl w"
    by (simp_all add: clan_channel_def own_keys_def w1 fun_eq_iff)
  have m: "merged cl w1 chs ?w" by (rule merged_for_each [OF w1(1,5)])
  have r: "reuses w1 ?w" using m by (simp add: merged_def)
  have cl: "cl < length (h_clans ?w)" by (rule reuses_less [OF r w1(5)])
  have w2: "clan_channel w2 c = clan_channel ?w c" "channel_at w2 = channel_at ?w" "mc_Channels w2 = mc_Channels ?w"
    "c \<noteq> cl \<Longrightarrow> clan_at w2 c = clan_at ?w c" for c
    using cl by (cases "c = cl"; auto simp: w2_def mark_loaded_def upd_clan_def clan_channel_def clan_at_def channel_at_def fun_eq_iff)+
  have keys: "own_keys cl w2 = own_keys cl ?w" by (simp add: own_keys_def w2)
  show "cn_channelsLoaded (clan_at w2 cl)" using cl by (simp add: w2_def mark_loaded_def upd_clan_def clan_at_def)
  show "clan_channel w2 cl k \<noteq> None \<longleftrightarrow> clan_channel w cl k \<noteq> None \<or> k \<in> listed_ids chs" using m by (simp add: merged_def w2 same)
  show "clan_channel w2 cl k = Some a \<and> tc_Messages (channel_at w2 a) = tc_Messages (channel_at w a)" if "clan_channel w cl k = Some a"
    using r that w1 channel_cached_less [OF assms(1,2), of k a] by (simp add: reuses_def w2 same clan_channel_def)
  show "if k \<in> listed_ids chs then clan_channel w2 cl k = Some a else cache_Get (mc_Channels w) k = Some a"
    if "cache_Get (mc_Channels w2) k = Some a" using m that by (auto simp: merged_def w2 same w1 split: if_splits)
  show "clan_at w2 c = clan_at w c" if "c \<noteq> cl" using m that by (simp add: merged_def w2 w1)
  show "own_keys cl w2" if "own_keys cl w" using m that by (simp add: merged_def keys same)
  show "\<exists>a. clan_channel w2 cl k = Some a \<and> describes (last_listed k chs) (channel_at w2 a)" if "own_keys cl w" "k \<in> listed_ids chs"
    using m that by (simp add: merged_def w2 same)
qed

lemma cache_Get_Delete: "cache_Get (snd (cache_Delete c k)) k' = (if k' = k then None else cache_Get c k')"
  by (simp add: cache_Get_def cache_Delete_def AList.delete_conv')

lemma evict_effect:
  assumes "cl < length (h_clans w)" "w1 = w\<lparr>mc_out := mc_out w1\<rparr>"
    and w2_def: "w2 = delete_Channels i (delete_clan_channel cl i w1)"
  shows "h_channels w2 = h_channels w" "clan_channel w2 cl k = (if k = i then None else clan_channel w cl k)"
    "cache_Get (mc_Channels w2) k = (if k = i then None else cache_Get (mc_Channels w) k)" "c \<noteq> cl \<Longrightarrow> clan_at w2 c = clan_at w c"
  unfolding w2_def using assms(1)
  by (subst assms(2); simp add: delete_Channels_def delete_clan_channel_def upd_clan_def clan_channel_def clan_at_def cache_Get_Delete)+

lemma sample_requests:
  "list_request (sample_env d) 0 (sample_client d) = (Inr \<lparr>cdl_Channeldesc = [d]\<rparr>, sample_client d)"
  "delete_request (sample_env d) 0 i (sample_client d) = (Inr (), sample_client d)"
  using sample_clan_api(1) [of d] sample_clan_api(2) [of d]
  by (auto simp: list_request_def delete_request_def on_api_def deref_def outside_def ListChannelDescs_def DeleteChannelDesc_def doProto_def
      doProtoSocket_def doProtoHttp_def decode_into_def sample_env_def sample_codec_def AttachSocket_def NewMezonApi_def Let_def and_then_def)

lemma sample_own_keys: "own_keys 0 (sample_client d)"
proof -
  have empty: "cache_Get (cache_Set (NewCacheManager n) i a) k = Some b \<Longrightarrow> k = i \<and> b = a" for n and i k :: string and a b :: addr
  proof (cases "k = i")
    case False
    have "cache_Get (NewCacheManager n) k = (None :: addr option)" by (simp add: NewCacheManager_def cache_Get_def)
    then show "cache_Get (cache_Set (NewCacheManager n) i a) k = Some b \<Longrightarrow> ?thesis" using cache_Get_Set_other [OF False, of "NewCacheManager n" a] by simp
  qed simp
  have "k = itoaID (cd_ChannelId d) \<and> a = 0"
    if "clan_channel (sample_client d) 0 k = Some a \<or> cache_Get (mc_Channels (sample_client d)) k = Some a" for k a
    using that by (auto simp: clan_channel_def sample_client_def client_with_simps dest: empty)
  then show ?thesis
    using client_with_caches(6) [where env = "sample_env d" and x = "[]" and d = d] unfolding own_keys_def sample_client_def by metis
qed

section \<open>Properties\<close>

text \<open>
  C38. However many goroutines load and reload a clan and delete its channels, at most one of them is in \<^verbatim>\<open>reloadChannelsLocked\<close>, whoever
  was told that the clan is loaded finds it loaded, the objects stay well-formed, and as long as not all have returned one can go on. When
  nobody reloads, the list of the channels is received once at most.
\<close>

theorem clan_loading_serialized:
  "(\<forall>env cl s. reachable (load_init cl) (load_step env cl) s \<longrightarrow> world_ok (ld_world s) \<and>
      length (filter holds_mu (ld_procs s)) \<le> 1 \<and>
      (LoadReturned (Inr ()) \<in> set (ld_procs s) \<longrightarrow> cn_channelsLoaded (clan_at (ld_world s) cl)) \<and>
      (\<forall>p\<in>set (ld_procs s). \<not> load_returned p \<longrightarrow> (\<exists>n s'. load_exec env cl (Sched n) s = Some s'))) \<and>
   (\<forall>env cl s. reachable (load_init cl) (once_step env cl) s \<longrightarrow> ld_lists s \<le> 1)"
proof (intro conjI allI impI ballI)
  fix env :: "'a client_env" and cl s
  assume "reachable (load_init cl) (load_step env cl) s"
  then have inv: "loading_inv cl s" by (rule loading.reachable_inv)
  then show "world_ok (ld_world s)" "length (filter holds_mu (ld_procs s)) \<le> 1" by (simp_all add: loading_inv_def)
  have "\<forall>p\<in>set (ld_procs s). saw_loaded p \<longrightarrow> cn_channelsLoaded (clan_at (ld_world s) cl)" using inv by (simp add: loading_inv_def)
  then show "cn_channelsLoaded (clan_at (ld_world s) cl)" if "LoadReturned (Inr ()) \<in> set (ld_procs s)" using that by force
  show "\<exists>n s'. load_exec env cl (Sched n) s = Some s'" if "p \<in> set (ld_procs s)" "\<not> load_returned p" for p
    using loading_progress [OF inv that] .
next
  fix env :: "'b client_env" and cl s
  assume "reachable (load_init cl) (once_step env cl) s"
  then show "ld_lists s \<le> 1" using loading_once.reachable_inv by (fastforce simp: once_inv_def)
qed

lemma idle_reachable:
  assumes "world_ok w" "cl < length (h_clans w)"
  shows "reachable (load_init cl) step (idle w)"
  by (rule reachable_init) (use assms in \<open>auto simp: load_init_def\<close>)

lemma sample_clan: "world_ok (sample_client d)" "0 < length (h_clans (sample_client d))"
  using sample_client_ok [of d] client_with_caches [where env = "sample_env d" and x = "[]" and d = d] by (simp_all add: sample_client_def)

theorem clan_loading_serialized_witness:
  "\<exists>s. reachable (load_init 0) (once_step (sample_env zero_ChannelDescription) 0) s \<and> ld_procs s = [AtLock False] \<and> ld_lists s \<le> 1"
proof -
  let ?s = "(idle (sample_client zero_ChannelDescription))\<lparr>ld_procs := [AtLock False]\<rparr>"
  have "once_step (sample_env zero_ChannelDescription) 0 (idle (sample_client zero_ChannelDescription)) CallLoad ?s"
    by (simp add: once_step_def load_step_def idle_def)
  with idle_reachable [OF sample_clan] have r: "reachable (load_init 0) (once_step (sample_env zero_ChannelDescription) 0) ?s"
    by (rule reachable_step)
  from clan_loading_serialized [THEN conjunct2, rule_format, OF r] r show ?thesis by (intro exI [of _ ?s]) simp
qed

text \<open>
  C40. \<^verbatim>\<open>DeleteChannel\<close> does not wait for \<^verbatim>\<open>loadMu\<close>: when a reload has received its list before the channel is deleted and merges it
  afterwards, \<^verbatim>\<open>DeleteChannel\<close> has returned without an error and the channel was gone from both caches, but after the
  reload it is in the cache of the clan again.
\<close>

theorem reload_revives_deleted_channel:
  assumes "world_ok w" "cl < length (h_clans w)"
    and "ch \<in> set (cdl_Channeldesc chs)" "cd_ChannelId ch \<noteq> 0"
    and "list_request env cl w = (Inr chs, w1)"
    and "delete_request env cl (itoaID (cd_ChannelId ch)) w1 = (Inr (), w2)"
  shows "\<exists>ls1 s1 ls2 s2. load_run env cl ls1 (idle w) = Some s1 \<and> ld_procs s1 ! 1 = DeleteReturned (Inr ()) \<and>
      cache_Get (cn_Channels (clan_at (ld_world s1) cl)) (itoaID (cd_ChannelId ch)) = None \<and>
      cache_Get (mc_Channels (ld_world s1)) (itoaID (cd_ChannelId ch)) = None \<and>
      load_run env cl ls2 s1 = Some s2 \<and> ld_procs s2 = [LoadReturned (Inr ()), DeleteReturned (Inr ())] \<and>
      cache_Get (cn_Channels (clan_at (ld_world s2) cl)) (itoaID (cd_ChannelId ch)) \<noteq> None"
  by (rule revive_core [OF assms])

theorem reload_revives_deleted_channel_witness:
  "\<exists>ls s. load_run (sample_env (zero_ChannelDescription\<lparr>cd_ChannelId := 5, cd_ClanId := 7\<rparr>)) 0 ls
      (idle (sample_client (zero_ChannelDescription\<lparr>cd_ChannelId := 5, cd_ClanId := 7\<rparr>))) = Some s \<and>
     ld_procs s = [LoadReturned (Inr ()), DeleteReturned (Inr ())] \<and>
     cache_Get (cn_Channels (clan_at (ld_world s) 0)) (itoaID 5) \<noteq> None"
proof -
  define d where "d = zero_ChannelDescription\<lparr>cd_ChannelId := 5, cd_ClanId := 7\<rparr>"
  note requests = sample_requests [of d]
  have d: "d \<in> set (cdl_Channeldesc \<lparr>cdl_Channeldesc = [d]\<rparr>)" "cd_ChannelId d \<noteq> 0" "cd_ChannelId d = 5" by (simp_all add: d_def)
  obtain ls1 s1 ls2 s2 where "load_run (sample_env d) 0 ls1 (idle (sample_client d)) = Some s1" "load_run (sample_env d) 0 ls2 s1 = Some s2"
      "ld_procs s2 = [LoadReturned (Inr ()), DeleteReturned (Inr ())]" "cache_Get (cn_Channels (clan_at (ld_world s2) 0)) (itoaID 5) \<noteq> None"
    using reload_revives_deleted_channel [OF sample_clan d(1,2) requests] unfolding d(3) by blast
  then show ?thesis
    using load_run_trans [of "sample_env d" 0 ls1 "idle (sample_client d)" s1 ls2] unfolding d_def [symmetric] by blast
qed

text \<open>
  C39. What loading a clan and deleting a channel do to the caches. A loaded clan is not listed again. When the server refuses the list, the error
  is returned and no cache, channel or flag changes, so that the next \<^verbatim>\<open>LoadChannels\<close> asks again. Otherwise the clan is loaded and has in its cache what it
  had before, with the same objects and their messages, and the channels of the list that have an id, no others; what the client's bounded cache still
  holds of the list are the same objects; the other clans are untouched. If the channels were cached under their own ids, every listed channel is as the last description under
  its id says. \<^verbatim>\<open>DeleteChannel\<close> removes exactly the channel from both caches when the server agrees, and nothing when it does not.
\<close>

theorem clan_channels_follow_the_list:
  assumes "world_ok w" "cl < length (h_clans w)"
  shows "(cn_channelsLoaded (clan_at w cl) \<longrightarrow> LoadChannels env cl w = (Inr (), w)) \<and>
    (\<not> cn_channelsLoaded (clan_at w cl) \<longrightarrow> LoadChannels env cl w = ReloadChannels env cl w) \<and>
    (case list_request env cl w of
       (Inl e, w1) \<Rightarrow> ReloadChannels env cl w = (Inl e, w1) \<and> w1 = w\<lparr>mc_out := mc_out w1\<rparr>
     | (Inr r, w1) \<Rightarrow> (\<exists>w2. ReloadChannels env cl w = (Inr (), w2) \<and> w1 = w\<lparr>mc_out := mc_out w1\<rparr> \<and> cn_channelsLoaded (clan_at w2 cl) \<and>
         (\<forall>k. clan_channel w2 cl k \<noteq> None \<longleftrightarrow> clan_channel w cl k \<noteq> None \<or> k \<in> listed_ids (cdl_Channeldesc r)) \<and>
         (\<forall>k a. clan_channel w cl k = Some a \<longrightarrow> clan_channel w2 cl k = Some a \<and>
            tc_Messages (channel_at w2 a) = tc_Messages (channel_at w a)) \<and>
         (\<forall>k a. cache_Get (mc_Channels w2) k = Some a \<longrightarrow>
            (if k \<in> listed_ids (cdl_Channeldesc r) then clan_channel w2 cl k = Some a else cache_Get (mc_Channels w) k = Some a)) \<and>
         (\<forall>c. c \<noteq> cl \<longrightarrow> clan_at w2 c = clan_at w c) \<and>
         (own_keys cl w \<longrightarrow> own_keys cl w2 \<and> (\<forall>k\<in>listed_ids (cdl_Channeldesc r). \<exists>a. clan_channel w2 cl k = Some a \<and>
            describes (last_listed k (cdl_Channeldesc r)) (channel_at w2 a))))) \<and>
    (case delete_request env cl i w of
       (Inl e, w1) \<Rightarrow> DeleteChannel env cl i w = (Inl e, w1) \<and> w1 = w\<lparr>mc_out := mc_out w1\<rparr>
     | (Inr _, w1) \<Rightarrow> (\<exists>w2. DeleteChannel env cl i w = (Inr (), w2) \<and> h_channels w2 = h_channels w \<and>
         (\<forall>k. clan_channel w2 cl k = (if k = i then None else clan_channel w cl k)) \<and>
         (\<forall>k. cache_Get (mc_Channels w2) k = (if k = i then None else cache_Get (mc_Channels w) k)) \<and>
         (\<forall>c. c \<noteq> cl \<longrightarrow> clan_at w2 c = clan_at w c)))"
proof (intro conjI impI)
  show "LoadChannels env cl w = (Inr (), w)" if "cn_channelsLoaded (clan_at w cl)" using that by (simp add: LoadChannels_def gets_def ret_def)
  show "LoadChannels env cl w = ReloadChannels env cl w" if "\<not> cn_channelsLoaded (clan_at w cl)"
    using that by (simp add: LoadChannels_def ReloadChannels_def gets_def)
  note out = request_out [OF assms]
  show "case list_request env cl w of
       (Inl e, w1) \<Rightarrow> ReloadChannels env cl w = (Inl e, w1) \<and> w1 = w\<lparr>mc_out := mc_out w1\<rparr>
     | (Inr r, w1) \<Rightarrow> (\<exists>w2. ReloadChannels env cl w = (Inr (), w2) \<and> w1 = w\<lparr>mc_out := mc_out w1\<rparr> \<and> cn_channelsLoaded (clan_at w2 cl) \<and>
         (\<forall>k. clan_channel w2 cl k \<noteq> None \<longleftrightarrow> clan_channel w cl k \<noteq> None \<or> k \<in> listed_ids (cdl_Channeldesc r)) \<and>
         (\<forall>k a. clan_channel w cl k = Some a \<longrightarrow> clan_channel w2 cl k = Some a \<and>
            tc_Messages (channel_at w2 a) = tc_Messages (channel_at w a)) \<and>
         (\<forall>k a. cache_Get (mc_Channels w2) k = Some a \<longrightarrow>
            (if k \<in> listed_ids (cdl_Channeldesc r) then clan_channel w2 cl k = Some a else cache_Get (mc_Channels w) k = Some a)) \<and>
         (\<forall>c. c \<noteq> cl \<longrightarrow> clan_at w2 c = clan_at w c) \<and>
         (own_keys cl w \<longrightarrow> own_keys cl w2 \<and> (\<forall>k\<in>listed_ids (cdl_Channeldesc r). \<exists>a. clan_channel w2 cl k = Some a \<and>
            describes (last_listed k (cdl_Channeldesc r)) (channel_at w2 a))))"
  proof (cases "list_request env cl w")
    case (Pair res w1)
    then have w1: "w1 = w\<lparr>mc_out := mc_out w1\<rparr>" using out(1) [of env] by simp
    show ?thesis
    proof (cases res)
      case (Inl e)
      then show ?thesis using Pair w1 by (simp add: ReloadChannels_def reload_body and_then_def)
    next
      case (Inr r)
      let ?w2 = "mark_loaded cl (for_each (merge_channel cl) (cdl_Channeldesc r) w1)"
      have "ReloadChannels env cl w = (Inr (), ?w2)" using Pair Inr by (simp add: ReloadChannels_def reload_body and_then_def)
      moreover note reload_effect [OF assms w1 refl, where chs = "cdl_Channeldesc r"]
      ultimately show ?thesis using Pair Inr w1 by auto
    qed
  qed
  show "case delete_request env cl i w of
       (Inl e, w1) \<Rightarrow> DeleteChannel env cl i w = (Inl e, w1) \<and> w1 = w\<lparr>mc_out := mc_out w1\<rparr>
     | (Inr _, w1) \<Rightarrow> (\<exists>w2. DeleteChannel env cl i w = (Inr (), w2) \<and> h_channels w2 = h_channels w \<and>
         (\<forall>k. clan_channel w2 cl k = (if k = i then None else clan_channel w cl k)) \<and>
         (\<forall>k. cache_Get (mc_Channels w2) k = (if k = i then None else cache_Get (mc_Channels w) k)) \<and>
         (\<forall>c. c \<noteq> cl \<longrightarrow> clan_at w2 c = clan_at w c))"
  proof (cases "delete_request env cl i w")
    case (Pair res w1)
    then have w1: "w1 = w\<lparr>mc_out := mc_out w1\<rparr>" using out(2) [of env i] by simp
    then show ?thesis
      using Pair evict_effect [OF assms(2) w1 refl, where i = i] by (cases res) (auto simp: DeleteChannel_body and_then_def)
  qed
qed

theorem clan_channels_follow_the_list_witness:
  "let d = zero_ChannelDescription\<lparr>cd_ChannelId := 5, cd_ClanId := 7, cd_ChannelLabel := ''general''\<rparr>
   in \<exists>w2 w3. ReloadChannels (sample_env d) 0 (sample_client d) = (Inr (), w2) \<and> cn_channelsLoaded (clan_at w2 0) \<and>
      clan_channel w2 0 (itoaID 5) = Some 0 \<and> tc_Name (channel_at w2 0) = ''general'' \<and>
      DeleteChannel (sample_env d) 0 (itoaID 5) (sample_client d) = (Inr (), w3) \<and> clan_channel w3 0 (itoaID 5) = None"
proof -
  define d where "d = zero_ChannelDescription\<lparr>cd_ChannelId := 5, cd_ClanId := 7, cd_ChannelLabel := ''general''\<rparr>"
  have d: "cd_ChannelId d = 5" "cd_ChannelLabel d = ''general''" by (simp_all add: d_def)
  have c: "clan_channel (sample_client d) 0 (itoaID 5) = Some 0"
    using client_with_caches(2) [where env = "sample_env d" and x = "[]" and d = d] d by (simp add: clan_channel_def sample_client_def)
  have ids: "itoaID 5 \<in> listed_ids [d]" "last_listed (itoaID 5) [d] = d" by (simp_all add: listed_ids_def last_listed_def named_channels_def d)
  note follow = clan_channels_follow_the_list [OF sample_clan, of d "sample_env d" "itoaID 5", unfolded sample_requests prod.case sum.case]
  obtain w2 where w2: "ReloadChannels (sample_env d) 0 (sample_client d) = (Inr (), w2)" "cn_channelsLoaded (clan_at w2 0)"
      "clan_channel w2 0 (itoaID 5) = Some 0" "describes d (channel_at w2 0)"
    using follow c ids sample_own_keys [of d] by fastforce
  moreover obtain w3 where "DeleteChannel (sample_env d) 0 (itoaID 5) (sample_client d) = (Inr (), w3)" "clan_channel w3 0 (itoaID 5) = None"
    using follow by auto
  ultimately show ?thesis using d unfolding Let_def d_def [symmetric] describes_def by auto
qed

end
