(* ===== verification/Event_Queue.thy ===== *)
theory Event_Queue
  imports Socket_Correlation Events
begin

text \<open>
  The two goroutines of a connection that handle what the server sends (\<^verbatim>\<open>socket.go\<close>): the read loop, which hands responses
  to the waiting senders and puts every other envelope into the channel \<^verbatim>\<open>events\<close>, and the dispatch loop, which takes them
  out and runs the handlers. A handler may send a request and wait for the response (itself, or in \<^verbatim>\<open>Enqueue\<close> for a job that sends), for
  which it needs the read loop. The channel holds \<^verbatim>\<open>eventQueueSize\<close> envelopes; when it is full the read loop waits for the dispatch loop.
  The frames are read and the requests sent by the operations of the theory \<^verbatim>\<open>Socket\<close>.
\<close>

section \<open>Steps\<close>

definition eventQueueSize :: nat where "eventQueueSize = 1024"

text \<open>What the sources get from elsewhere: the codec, the answer of the connection to a write, its kind, and the order in which
  a map is visited.\<close>

record socket_io =
  io_marshal :: "pb_Envelope \<Rightarrow> bytes result"
  io_write :: "bytes \<Rightarrow> go_error option"
  io_kind :: TransportKind
  io_unmarshal :: "bytes \<Rightarrow> pb_Envelope result"
  io_iter :: "cid_table \<Rightarrow> cid_table"

text \<open>The read loop waits in \<^verbatim>\<open>readFrame\<close>, or at the select that puts an envelope into the channel, or has returned. The dispatch
  loop waits at its select, runs the handlers of an envelope, is parked in \<^verbatim>\<open>sendResponse\<close> with a cid and a channel for
  the response, or has returned.\<close>

datatype reader_pc = Reading | Pushing pb_Envelope | ReaderGone
datatype dispatcher_pc = Selecting | Handling pb_Envelope | Parked pb_Envelope int32 chan_id | DispatcherGone

text \<open>The frames of the peer that are not read yet, the socket with the chunks of the read loop, the goroutines, the channel
  and whether \<^verbatim>\<open>done\<close> is closed. Two logs: all frames that have arrived, and the envelopes whose dispatch was begun.\<close>

record event_loop =
  el_wire :: "wireFrame list"
  el_conn :: "streams \<times> socket_state"
  el_reader :: reader_pc
  el_queue :: "pb_Envelope list"
  el_dispatcher :: dispatcher_pc
  el_done :: bool
  el_arrived :: "wireFrame list"
  el_dispatched :: "pb_Envelope list"

definition on_socket :: "(socket_state \<Rightarrow> socket_state) \<Rightarrow> event_loop \<Rightarrow> event_loop" where
  "on_socket f s = s\<lparr>el_conn := (fst (el_conn s), f (snd (el_conn s)))\<rparr>"

text \<open>A frame arrives; the read loop reads one, puts its envelope into the channel, fails to read, or leaves at its select; the
  dispatch loop takes an envelope or leaves; the handler sends, is woken, gives up after its timeout or because of \<^verbatim>\<open>done\<close>, or
  returns; another goroutine, such as the heartbeat, sends or gives up; the connection is closed.\<close>

datatype event_label =
    Arrive wireFrame | ReadFrame | PushEvent | ReadError | ReaderExit | TakeEvent | DispatcherExit
  | HandlerSend pb_Envelope | HandlerWake | HandlerTimeout | HandlerClosed | HandlerReturn
  | OtherSend pb_Envelope | OtherTimeout int32 | CloseConn

fun event_exec :: "socket_io \<Rightarrow> event_label \<Rightarrow> event_loop \<Rightarrow> event_loop option" where
  "event_exec c (Arrive f) s = Some (s\<lparr>el_wire := el_wire s @ [f], el_arrived := el_arrived s @ [f]\<rparr>)"
| "event_exec c ReadFrame s = (case (el_reader s, el_wire s) of
      (Reading, f # fs) \<Rightarrow> (case readLoop_frame (io_unmarshal c) (io_iter c) f (el_conn s) of
         (x, ev) \<Rightarrow> Some (s\<lparr>el_wire := fs, el_conn := x, el_reader := (case ev of None \<Rightarrow> Reading | Some e \<Rightarrow> Pushing e)\<rparr>))
    | _ \<Rightarrow> None)"
| "event_exec c PushEvent s = (case el_reader s of
      Pushing e \<Rightarrow> if length (el_queue s) < eventQueueSize
        then Some (s\<lparr>el_queue := el_queue s @ [e], el_reader := Reading\<rparr>) else None
    | _ \<Rightarrow> None)"
| "event_exec c ReadError s = (if el_reader s = Reading
     then Some (on_socket (\<lambda>k. k\<lparr>connected := False\<rparr>) s\<lparr>el_reader := ReaderGone, el_done := True\<rparr>) else None)"
| "event_exec c ReaderExit s = (case el_reader s of
      Pushing e \<Rightarrow> if el_done s then Some (s\<lparr>el_reader := ReaderGone\<rparr>) else None | _ \<Rightarrow> None)"
| "event_exec c TakeEvent s = (case (el_dispatcher s, el_queue s) of
      (Selecting, e # es) \<Rightarrow> Some (s\<lparr>el_queue := es, el_dispatcher := Handling e, el_dispatched := el_dispatched s @ [e]\<rparr>)
    | _ \<Rightarrow> None)"
| "event_exec c DispatcherExit s =
     (if el_dispatcher s = Selecting \<and> el_done s then Some (s\<lparr>el_dispatcher := DispatcherGone\<rparr>) else None)"
| "event_exec c (HandlerSend env) s = (case el_dispatcher s of
      Handling e \<Rightarrow> (case send_request (io_marshal c) (io_write c) (io_kind c) env (snd (el_conn s)) of
         (r, k) \<Rightarrow> Some (on_socket (\<lambda>_. k) s\<lparr>el_dispatcher := (case r of Inl _ \<Rightarrow> Handling e | Inr (cid, ch) \<Rightarrow> Parked e cid ch)\<rparr>))
    | _ \<Rightarrow> None)"
| "event_exec c HandlerWake s = (case el_dispatcher s of
      Parked e cid ch \<Rightarrow> (case map_of (delivered (snd (el_conn s))) ch of
         Some r \<Rightarrow> Some (on_socket (\<lambda>k. snd (await_response cid (GotResponse r) k)) s\<lparr>el_dispatcher := Handling e\<rparr>)
       | None \<Rightarrow> None)
    | _ \<Rightarrow> None)"
| "event_exec c HandlerTimeout s = (case el_dispatcher s of
      Parked e cid ch \<Rightarrow> Some (on_socket (\<lambda>k. snd (await_response cid TimedOut k)) s\<lparr>el_dispatcher := Handling e\<rparr>)
    | _ \<Rightarrow> None)"
| "event_exec c HandlerClosed s = (case el_dispatcher s of
      Parked e cid ch \<Rightarrow> if el_done s
        then Some (on_socket (\<lambda>k. snd (await_response cid ConnDone k)) s\<lparr>el_dispatcher := Handling e\<rparr>) else None
    | _ \<Rightarrow> None)"
| "event_exec c HandlerReturn s = (case el_dispatcher s of
      Handling e \<Rightarrow> Some (s\<lparr>el_dispatcher := Selecting\<rparr>) | _ \<Rightarrow> None)"
| "event_exec c (OtherSend env) s =
     Some (on_socket (\<lambda>k. snd (send_request (io_marshal c) (io_write c) (io_kind c) env k)) s)"
| "event_exec c (OtherTimeout cid) s = (case el_dispatcher s of
      Parked e cid' ch \<Rightarrow> if cid' = cid then None else Some (on_socket (\<lambda>k. snd (await_response cid TimedOut k)) s)
    | _ \<Rightarrow> Some (on_socket (\<lambda>k. snd (await_response cid TimedOut k)) s))"
| "event_exec c CloseConn s = Some (on_socket (\<lambda>k. k\<lparr>connected := False\<rparr>) s\<lparr>el_done := True\<rparr>)"

fun event_run :: "socket_io \<Rightarrow> event_label list \<Rightarrow> event_loop \<Rightarrow> event_loop option" where
  "event_run c [] s = Some s"
| "event_run c (l # ls) s = (case event_exec c l s of None \<Rightarrow> None | Some s' \<Rightarrow> event_run c ls s')"

definition event_step :: "socket_io \<Rightarrow> event_loop \<Rightarrow> event_label \<Rightarrow> event_loop \<Rightarrow> bool" where
  "event_step c s l s' \<longleftrightarrow> event_exec c l s = Some s'"

text \<open>The steps of the socket under it.\<close>

definition io_step :: "socket_io \<Rightarrow> streams \<times> socket_state \<Rightarrow> socket_label \<Rightarrow> streams \<times> socket_state \<Rightarrow> bool" where
  "io_step c = socket_step (io_marshal c) (io_write c) (io_kind c) (io_unmarshal c) (io_iter c)"

text \<open>\<^verbatim>\<open>Connect\<close> has just started the two loops.\<close>

definition event_init :: "socket_io \<Rightarrow> event_loop \<Rightarrow> bool" where
  "event_init c s \<longleftrightarrow> (\<exists>k. reachable socket_init (io_step c) ([], k) \<and> s = \<lparr>el_wire = [], el_conn = ([], k), el_reader = Reading,
     el_queue = [], el_dispatcher = Selecting, el_done = False, el_arrived = [], el_dispatched = []\<rparr>)"

lemma event_run_append:
  "event_run c (ls @ ls') s = (case event_run c ls s of None \<Rightarrow> None | Some s' \<Rightarrow> event_run c ls' s')"
  by (induction ls arbitrary: s) (auto split: option.splits)

lemma event_run_reachable:
  "reachable init (event_step c) s \<Longrightarrow> event_run c ls s = Some s' \<Longrightarrow> reachable init (event_step c) s'"
proof (induction ls arbitrary: s)
  case (Cons l ls)
  then obtain s1 where s1: "event_exec c l s = Some s1" "event_run c ls s1 = Some s'" by (auto split: option.splits)
  from s1(1) have "event_step c s l s1" by (simp add: event_step_def)
  with Cons.prems(1) have "reachable init (event_step c) s1" by (rule reachable_step)
  then show ?case using Cons.IH s1(2) by blast
qed simp

section \<open>Order\<close>

text \<open>The event of a frame: an envelope without a cid.\<close>

definition event_of :: "socket_io \<Rightarrow> wireFrame \<Rightarrow> pb_Envelope option" where
  "event_of c f = (if wf_kind f = frameEnvelope
     then (case unmarshalEnvelope (io_unmarshal c) f of
        Inl _ \<Rightarrow> None | Inr env \<Rightarrow> if env_Cid env = 0 then Some env else None)
     else None)"

definition events_of :: "socket_io \<Rightarrow> wireFrame list \<Rightarrow> pb_Envelope list" where
  "events_of c fs = concat (map (\<lambda>f. case event_of c f of None \<Rightarrow> [] | Some e \<Rightarrow> [e]) fs)"

lemma events_of_simps [simp]:
  "events_of c [] = []"
  "events_of c (f # fs) = (case event_of c f of None \<Rightarrow> [] | Some e \<Rightarrow> [e]) @ events_of c fs"
  "events_of c (fs @ gs) = events_of c fs @ events_of c gs"
  by (simp_all add: events_of_def)

lemma readLoop_frame_event: "snd (readLoop_frame (io_unmarshal c) (io_iter c) f x) = event_of c f"
  by (auto simp: readLoop_frame_def event_of_def Let_def split: frameKind.splits sum.splits prod.splits)

lemma readLoop_frame_first:
  "readLoop_frame unmarshal iter f x = (x', ev) \<Longrightarrow> fst (readLoop unmarshal iter (f # fs) x) = fst (readLoop unmarshal iter fs x')"
  by (cases "readLoop unmarshal iter fs x'") simp

lemma readLoop_events: "snd (readLoop (io_unmarshal c) (io_iter c) fs x) = events_of c fs"
proof (induction fs arbitrary: x)
  case (Cons f fs)
  obtain x' ev where x': "readLoop_frame (io_unmarshal c) (io_iter c) f x = (x', ev)" by fastforce
  then have "ev = event_of c f" using readLoop_frame_event [of c f x] by simp
  then show ?case using Cons.IH [of x'] x' by (auto simp: Let_def split: prod.splits option.splits)
qed simp

definition pushing :: "event_loop \<Rightarrow> pb_Envelope list" where
  "pushing s = (case el_reader s of Pushing e \<Rightarrow> [e] | _ \<Rightarrow> [])"

text \<open>What was dispatched, what is in the channel, the envelope at the select and the events that are still to be read are
  those that arrived, in order; only when the read loop has returned an envelope can be missing.\<close>

definition event_inv :: "socket_io \<Rightarrow> event_loop \<Rightarrow> bool" where
  "event_inv c s \<longleftrightarrow> length (el_queue s) \<le> eventQueueSize \<and> (iter_ok (io_iter c) \<longrightarrow> table_inv (snd (el_conn s))) \<and>
     (el_reader s = ReaderGone \<longrightarrow> el_done s) \<and>
     (\<exists>lost. events_of c (el_arrived s) = el_dispatched s @ el_queue s @ pushing s @ lost @ events_of c (el_wire s) \<and>
        (lost = [] \<or> el_reader s = ReaderGone))"

lemma on_socket_fields [simp]:
  "el_wire (on_socket f s) = el_wire s" "el_reader (on_socket f s) = el_reader s" "el_queue (on_socket f s) = el_queue s"
  "el_dispatcher (on_socket f s) = el_dispatcher s" "el_done (on_socket f s) = el_done s" "el_arrived (on_socket f s) = el_arrived s"
  "el_dispatched (on_socket f s) = el_dispatched s" "el_conn (on_socket f s) = (fst (el_conn s), f (snd (el_conn s)))"
  by (simp_all add: on_socket_def)

lemma read_table_inv:
  assumes "iter_ok (io_iter c)" "table_inv (snd x)" "readLoop_frame (io_unmarshal c) (io_iter c) f x = (x', ev)"
  shows "table_inv (snd x')"
  using assms readLoop_frame_effect [of "io_iter c" "snd x" "io_unmarshal c" f "fst x" "fst x'" "snd x'" ev]
  by (auto intro: frame_effect_inv)

lemma request_table_inv:
  "table_inv k \<Longrightarrow> table_inv (snd (send_request marshal io kind env k))"
  by (cases "send_request marshal io kind env k") (auto dest: table_inv_send_request)

lemma await_table_inv: "table_inv k \<Longrightarrow> table_inv (snd (await_response cid w k))"
  by (cases "await_response cid w k") (auto dest: table_inv_await)

text \<open>Steps that only use the socket.\<close>

lemma event_inv_socket:
  assumes "event_inv c s" "table_inv (snd (el_conn s)) \<Longrightarrow> table_inv (snd (el_conn s'))"
    and "el_wire s' = el_wire s" "el_reader s' = el_reader s" "el_queue s' = el_queue s" "el_arrived s' = el_arrived s"
    and "el_dispatched s' = el_dispatched s" "el_done s \<Longrightarrow> el_done s'"
  shows "event_inv c s'"
  using assms by (simp add: event_inv_def pushing_def)

lemma event_inv_send:
  assumes "event_inv c s" "event_exec c (HandlerSend env) s = Some s'"
  shows "event_inv c s'"
proof (rule event_inv_socket [OF assms(1)])
  obtain e r k where k: "el_dispatcher s = Handling e"
      "send_request (io_marshal c) (io_write c) (io_kind c) env (snd (el_conn s)) = (r, k)"
      "s' = on_socket (\<lambda>_. k) s\<lparr>el_dispatcher := (case r of Inl _ \<Rightarrow> Handling e | Inr (cid, ch) \<Rightarrow> Parked e cid ch)\<rparr>"
    using assms(2) by (auto split: dispatcher_pc.splits prod.splits)
  show "table_inv (snd (el_conn s'))" if "table_inv (snd (el_conn s))"
    using table_inv_send_request [OF that k(2)] k(3) by simp
qed (use assms(2) in \<open>auto split: dispatcher_pc.splits prod.splits\<close>)

lemma event_inv_wake:
  assumes "event_inv c s" "event_exec c l s = Some s'" "l \<in> {HandlerWake, HandlerTimeout, HandlerClosed, HandlerReturn, CloseConn, DispatcherExit}"
  shows "event_inv c s'"
  by (rule event_inv_socket [OF assms(1)])
    (use assms(2,3) in \<open>auto simp: await_table_inv split: dispatcher_pc.splits option.splits if_splits\<close>)

lemma event_inv_other:
  assumes "event_inv c s" "event_exec c l s = Some s'" "l = OtherSend env \<or> l = OtherTimeout cid"
  shows "event_inv c s'"
  by (rule event_inv_socket [OF assms(1)])
    (use assms(2,3) in \<open>auto simp: await_table_inv request_table_inv split: dispatcher_pc.splits if_splits\<close>)

lemma event_inv_step:
  assumes "event_inv c s" "event_step c s l s'"
  shows "event_inv c s'"
proof -
  have exec: "event_exec c l s = Some s'" using assms(2) by (simp add: event_step_def)
  have table: "iter_ok (io_iter c) \<Longrightarrow> table_inv (snd (el_conn s))" using assms(1) by (simp add: event_inv_def)
  show ?thesis
  proof (cases l)
    case ReadFrame
    then obtain f fs x ev where f: "el_reader s = Reading" "el_wire s = f # fs"
        "readLoop_frame (io_unmarshal c) (io_iter c) f (el_conn s) = (x, ev)"
        "s' = s\<lparr>el_wire := fs, el_conn := x, el_reader := (case ev of None \<Rightarrow> Reading | Some e \<Rightarrow> Pushing e)\<rparr>"
      using exec by (auto split: reader_pc.splits list.splits prod.splits)
    moreover have "ev = event_of c f" using f(3) readLoop_frame_event [of c f "el_conn s"] by simp
    ultimately show ?thesis
      using assms(1) table read_table_inv [OF _ _ f(3)] by (auto simp: event_inv_def pushing_def split: option.splits)
  next
    case TakeEvent
    then show ?thesis using assms(1) exec by (auto simp: event_inv_def pushing_def split: dispatcher_pc.splits list.splits)
  next
    case PushEvent
    then show ?thesis using assms(1) exec by (auto simp: event_inv_def pushing_def split: reader_pc.splits if_splits)
  next
    case ReaderExit
    then show ?thesis using assms(1) exec by (auto simp: event_inv_def pushing_def split: reader_pc.splits if_splits)
  next
    case ReadError
    then show ?thesis using assms(1) exec by (auto simp: event_inv_def pushing_def split: if_splits)
  next
    case (Arrive f)
    then show ?thesis using assms(1) exec by (auto simp: event_inv_def pushing_def)
  qed (use exec event_inv_send [OF assms(1)] event_inv_wake [OF assms(1)] event_inv_other [OF assms(1)] in blast)+
qed

lemma event_inv_init: "event_init c s \<Longrightarrow> event_inv c s"
  by (auto simp: event_init_def event_inv_def pushing_def io_step_def dest: reachable_table_inv)

interpretation event_loop: step_invariant "event_init c" "event_step c" "event_inv c" for c
  by unfold_locales (erule event_inv_init, erule (1) event_inv_step)

section \<open>The read loop alone\<close>

text \<open>As long as the channel has room for them, the read loop takes the frames from the wire without any help: the socket
  ends where \<open>readLoop\<close> takes it and the events are in the channel.\<close>

lemma reader_alone:
  assumes "el_reader s = Reading" "el_wire s = fs @ rest" "length (el_queue s) + length (events_of c fs) \<le> eventQueueSize"
  shows "\<exists>ls. set ls \<subseteq> {ReadFrame, PushEvent} \<and> event_run c ls s = Some (s\<lparr>el_wire := rest,
     el_conn := fst (readLoop (io_unmarshal c) (io_iter c) fs (el_conn s)), el_queue := el_queue s @ events_of c fs\<rparr>)"
  using assms
proof (induction fs arbitrary: s)
  case Nil
  then show ?case by (intro exI [of _ "[]"]) simp
next
  case (Cons f fs)
  obtain x ev where x: "readLoop_frame (io_unmarshal c) (io_iter c) f (el_conn s) = (x, ev)" by fastforce
  then have ev: "ev = event_of c f" using readLoop_frame_event [of c f "el_conn s"] by simp
  have loop: "fst (readLoop (io_unmarshal c) (io_iter c) (f # fs) (el_conn s)) = fst (readLoop (io_unmarshal c) (io_iter c) fs x)"
    by (rule readLoop_frame_first [OF x])
  let ?s1 = "s\<lparr>el_wire := fs @ rest, el_conn := x, el_queue := el_queue s @ (case ev of None \<Rightarrow> [] | Some e \<Rightarrow> [e])\<rparr>"
  let ?l1 = "ReadFrame # (case ev of None \<Rightarrow> [] | Some e \<Rightarrow> [PushEvent])"
  have "event_run c ?l1 s = Some ?s1"
    using Cons.prems x ev by (cases ev) (simp_all add: split: option.splits)
  moreover obtain ls where "set ls \<subseteq> {ReadFrame, PushEvent}" "event_run c ls ?s1 = Some (?s1\<lparr>el_wire := rest,
     el_conn := fst (readLoop (io_unmarshal c) (io_iter c) fs x), el_queue := el_queue ?s1 @ events_of c fs\<rparr>)"
    using Cons.IH [of ?s1] Cons.prems ev by (cases ev) auto
  ultimately have "event_run c (?l1 @ ls) s = Some (?s1\<lparr>el_wire := rest,
     el_conn := fst (readLoop (io_unmarshal c) (io_iter c) fs x), el_queue := el_queue ?s1 @ events_of c fs\<rparr>)"
    by (subst event_run_append) simp
  moreover have "set (?l1 @ ls) \<subseteq> {ReadFrame, PushEvent}" using \<open>set ls \<subseteq> _\<close> by (cases ev) auto
  ultimately show ?case unfolding loop using ev by (intro exI [of _ "?l1 @ ls"]) simp
qed

lemma waiting_unanswered:
  assumes "table_inv k" "map_of (cids k) cid = Some ch"
  shows "map_of (delivered k) ch = None"
proof -
  have "ch \<in> waiting (cids k)" using map_of_SomeD [OF assms(2)] by (force simp: waiting_def)
  then have "ch \<notin> fst ` set (delivered k)" using assms(1) by (auto simp: table_inv_def answered_def)
  then show ?thesis by (simp add: map_of_eq_None_iff)
qed

lemma response_passes_core:
  assumes "el_reader s = Reading" "el_wire s = fs @ f # rest"
    and room: "length (el_queue s) + length (events_of c fs) \<le> 1024"
    and io: "iter_ok (io_iter c)" "table_inv (snd (el_conn s))"
    and parked: "el_dispatcher s = Parked e cid ch" "sole_pending cid ch (snd (el_conn s))"
    and response: "wf_kind f = frameEnvelope" "unmarshalEnvelope (io_unmarshal c) f = Inr env" "env_Cid env = cid" "cid \<noteq> 0"
    and others: "\<forall>g\<in>set fs. \<not> answers (io_unmarshal c) g cid"
  shows "\<exists>ls s'. set ls \<subseteq> {ReadFrame, PushEvent} \<and> event_run c (ls @ [HandlerWake]) s = Some s' \<and> el_dispatcher s' = Handling e \<and>
    map_of (delivered (snd (el_conn s'))) ch = Some (env_response env) \<and> el_wire s' = rest \<and> el_dispatched s' = el_dispatched s"
proof -
  have kept: "sole_pending cid ch (snd (fst (readLoop (io_unmarshal c) (io_iter c) gs x))) \<and>
      table_inv (snd (fst (readLoop (io_unmarshal c) (io_iter c) gs x)))"
    if "\<forall>g\<in>set gs. \<not> answers (io_unmarshal c) g cid" "sole_pending cid ch (snd x)" "table_inv (snd x)" for gs x
    using that
  proof (induction gs arbitrary: x)
    case (Cons g gs)
    obtain st k st' k' ev where x: "x = (st, k)" "readLoop_frame (io_unmarshal c) (io_iter c) g x = ((st', k'), ev)"
      by (metis prod.exhaust)
    have eff: "frame_effect (io_unmarshal c) g k k'" using readLoop_frame_effect [OF io(1)] Cons.prems(3) x by simp
    have "sole_pending cid ch k'" using sole_pending_effect [OF _ eff] Cons.prems x(1) by simp
    moreover have "table_inv k'" using frame_effect_inv [OF _ eff] Cons.prems(3) x(1) by simp
    ultimately show ?case using Cons.IH [of "(st', k')"] Cons.prems(1) by (simp only: readLoop_frame_first [OF x(2)]) simp
  qed simp
  define y where "y = fst (readLoop (io_unmarshal c) (io_iter c) fs (el_conn s))"
  obtain st k where y: "y = (st, k)" by (cases y)
  have sole: "map_of (cids k) cid = Some ch" "table_inv k"
    using kept [OF others parked(2) io(2)] y by (simp_all add: y_def [symmetric] sole_pending_def)
  then have fresh: "map_of (delivered k) ch = None" by (rule waiting_unanswered [rotated])
  obtain ls where ls: "set ls \<subseteq> {ReadFrame, PushEvent}"
      "event_run c ls s = Some (s\<lparr>el_wire := f # rest, el_conn := y, el_queue := el_queue s @ events_of c fs\<rparr>)"
    using reader_alone [OF assms(1,2)] room unfolding y_def by (auto simp: eventQueueSize_def)
  let ?k = "k\<lparr>cids := AList.delete cid (cids k), delivered := delivered k @ [(ch, env_response env)]\<rparr>"
  have "readLoop_frame (io_unmarshal c) (io_iter c) f y = ((st, ?k), None)"
    using response sole(1) y by (simp add: readLoop_frame_def takeCid_def deliver_def)
  then have "event_run c (ls @ [ReadFrame]) s =
      Some (s\<lparr>el_wire := rest, el_conn := (st, ?k), el_queue := el_queue s @ events_of c fs\<rparr>)"
    using ls(2) assms(1) by (simp add: event_run_append)
  moreover have "snd (await_response cid (GotResponse r) k') = k'" for r k'
    by (simp add: await_response_def split: option.splits)
  ultimately show ?thesis
    using ls(1) parked(1) fresh
    by (intro exI [of _ "ls @ [ReadFrame]"], simp only: event_run_append) (simp add: map_add_def)
qed

section \<open>A small connection\<close>

text \<open>A codec whose envelopes are one byte, the cid; frames with an event and with a response.\<close>

definition tiny_io :: socket_io where
  "tiny_io = \<lparr>io_marshal = \<lambda>_. Inr [1], io_write = \<lambda>_. None, io_kind = TransportTCP,
     io_unmarshal = \<lambda>bs. case bs of [b] \<Rightarrow> Inr (zero_Envelope\<lparr>env_Cid := ucast b\<rparr>) | _ \<Rightarrow> Inl EOF, io_iter = \<lambda>m. m\<rparr>"

definition tiny_frame :: "byte \<Rightarrow> wireFrame" where
  "tiny_frame b = \<lparr>wf_kind = frameEnvelope, wf_cid = 0, wf_code = 0, wf_fin = False, wf_payload = [b], wf_padded = False\<rparr>"

text \<open>The handler of the first event has sent a request with the cid 1 and waits; then some events and the response arrive.\<close>

definition tiny_start :: event_loop where
  "tiny_start = \<lparr>el_wire = [], el_conn = ([], new_socket_state\<lparr>connected := True\<rparr>), el_reader = Reading,
     el_queue = [], el_dispatcher = Selecting, el_done = False, el_arrived = [], el_dispatched = []\<rparr>"

definition tiny_parked :: "nat \<Rightarrow> event_loop" where
  "tiny_parked n = \<lparr>el_wire = replicate n (tiny_frame 0) @ [tiny_frame 1], el_conn = ([], demo_socket), el_reader = Reading,
     el_queue = [], el_dispatcher = Parked zero_Envelope 1 0, el_done = False,
     el_arrived = replicate (Suc n) (tiny_frame 0) @ [tiny_frame 1], el_dispatched = [zero_Envelope]\<rparr>"

lemma tiny_frames [simp]:
  "wf_kind (tiny_frame b) = frameEnvelope" "unmarshalEnvelope (io_unmarshal tiny_io) (tiny_frame b) = Inr (zero_Envelope\<lparr>env_Cid := ucast b\<rparr>)"
  "iter_ok (io_iter tiny_io)"
  by (simp_all add: tiny_frame_def tiny_io_def unmarshalEnvelope_def iter_ok_def)

lemma zero_cid [simp]: "zero_Envelope\<lparr>env_Cid := 0\<rparr> = zero_Envelope" "env_Cid zero_Envelope = 0"
  by (simp_all add: zero_Envelope_def)

lemma event_of_tiny [simp]: "event_of tiny_io (tiny_frame 0) = Some zero_Envelope"
  by (simp add: event_of_def)

lemma events_of_tiny [simp]: "events_of tiny_io (replicate n (tiny_frame 0)) = replicate n zero_Envelope"
  by (induction n) simp_all

lemma read_tiny [simp]: "readLoop_frame (io_unmarshal tiny_io) (io_iter tiny_io) (tiny_frame 0) x = (x, Some zero_Envelope)"
  by (simp add: readLoop_frame_def)

lemma readLoop_tiny [simp]: "fst (readLoop (io_unmarshal tiny_io) (io_iter tiny_io) (replicate n (tiny_frame 0)) x) = x"
  by (induction n) (simp_all del: readLoop.simps(2) add: readLoop_frame_first)

lemma arrivals: "event_run c (map Arrive fs) s = Some (s\<lparr>el_wire := el_wire s @ fs, el_arrived := el_arrived s @ fs\<rparr>)"
  by (induction fs arbitrary: s) simp_all

lemma tiny_reachable: "reachable (event_init tiny_io) (event_step tiny_io) (tiny_parked n)"
proof (rule event_run_reachable)
  have "io_step tiny_io ([], new_socket_state) (Reconnect True) ([], new_socket_state\<lparr>connected := True\<rparr>)"
    unfolding io_step_def by (rule sock_reconnect)
  moreover have "reachable socket_init (io_step tiny_io) ([], new_socket_state)"
    by (rule reachable_init) (simp add: socket_init_def)
  ultimately have "reachable socket_init (io_step tiny_io) ([], new_socket_state\<lparr>connected := True\<rparr>)" by (rule reachable_step [rotated])
  then show "reachable (event_init tiny_io) (event_step tiny_io) tiny_start"
    by (intro reachable_init) (auto simp: event_init_def tiny_start_def)
  have "send_request (io_marshal tiny_io) (io_write tiny_io) (io_kind tiny_io) zero_Envelope (new_socket_state\<lparr>connected := True\<rparr>) = (Inr (1, 0), demo_socket)"
    by (simp add: send_request_def demo_socket_def new_socket_state_def generateCid_def IsOpen_def tiny_io_def
        write_request_def zero_Envelope_def Let_def)
  then have "event_run tiny_io [Arrive (tiny_frame 0), ReadFrame, PushEvent, TakeEvent, HandlerSend zero_Envelope] tiny_start =
      Some ((tiny_parked 0)\<lparr>el_wire := [], el_arrived := [tiny_frame 0]\<rparr>)"
    by (simp add: tiny_start_def tiny_parked_def on_socket_def eventQueueSize_def)
  then show "event_run tiny_io ([Arrive (tiny_frame 0), ReadFrame, PushEvent, TakeEvent, HandlerSend zero_Envelope] @
      map Arrive (replicate n (tiny_frame 0) @ [tiny_frame 1])) tiny_start = Some (tiny_parked n)"
    by (subst event_run_append) (simp only: option.case arrivals, simp add: tiny_parked_def)
qed

section \<open>A full channel\<close>

text \<open>The channel is full, the read loop is at its select with one envelope more, and the handler waits for a response.\<close>

definition stuck :: "pb_Envelope \<Rightarrow> int32 \<Rightarrow> chan_id \<Rightarrow> event_loop \<Rightarrow> bool" where
  "stuck e cid ch s \<longleftrightarrow> length (el_queue s) = 1024 \<and> pushing s \<noteq> [] \<and> \<not> el_done s \<and> el_dispatcher s = Parked e cid ch \<and>
     map_of (delivered (snd (el_conn s))) ch = None"

text \<open>What no step but the timeout of the handler and closing the connection changes.\<close>

definition stalled :: "event_loop \<Rightarrow> event_loop \<Rightarrow> bool" where
  "stalled s s' \<longleftrightarrow> delivered (snd (el_conn s')) = delivered (snd (el_conn s)) \<and> el_dispatched s' = el_dispatched s \<and>
     prefix (el_wire s) (el_wire s')"

lemma request_delivers_nothing [simp]: "delivered (snd (send_request marshal io kind env k)) = delivered k"
  by (auto simp: send_request_def generateCid_def clearCid_def Let_def split: sum.splits)

lemma await_delivers_nothing [simp]: "delivered (snd (await_response cid w k)) = delivered k"
  by (auto simp: await_response_def clearCid_def split: wait_outcome.splits option.splits)

lemma stuck_step:
  assumes "stuck e cid ch s" "event_exec c l s = Some s'" "l \<noteq> HandlerTimeout" "l \<noteq> CloseConn"
  shows "stuck e cid ch s' \<and> stalled s s'"
  using assms by (cases l) (auto simp: stuck_def stalled_def pushing_def eventQueueSize_def split: reader_pc.splits if_splits)

lemma stuck_run:
  assumes "stuck e cid ch s" "event_run c ls s = Some s'" "HandlerTimeout \<notin> set ls" "CloseConn \<notin> set ls"
  shows "stuck e cid ch s' \<and> stalled s s'"
  using assms
proof (induction ls arbitrary: s)
  case (Cons l ls)
  then obtain s1 where s1: "event_exec c l s = Some s1" "event_run c ls s1 = Some s'" by (auto split: option.splits)
  with Cons.prems have "stuck e cid ch s1 \<and> stalled s s1" by (intro stuck_step [OF _ s1(1)]) auto
  moreover from this have "stuck e cid ch s' \<and> stalled s1 s'" using Cons.IH [OF _ s1(2)] Cons.prems(3,4) by simp
  ultimately show ?case by (auto simp: stalled_def)
qed (simp add: stalled_def)

text \<open>A handler that waits while 1025 events arrive: the response to its request is the next frame on the wire.\<close>

definition tiny_stuck :: event_loop where
  "tiny_stuck = (tiny_parked 1025)\<lparr>el_wire := [tiny_frame 1], el_reader := Pushing zero_Envelope, el_queue := replicate 1024 zero_Envelope\<rparr>"

lemma tiny_stuck_reachable: "reachable (event_init tiny_io) (event_step tiny_io) tiny_stuck"
proof -
  have fits: "length (el_queue (tiny_parked 1025)) + length (events_of tiny_io (replicate 1024 (tiny_frame 0))) \<le> eventQueueSize"
    by (simp add: tiny_parked_def eventQueueSize_def)
  have wire: "el_wire (tiny_parked 1025) = replicate 1024 (tiny_frame 0) @ [tiny_frame 0, tiny_frame 1]"
    using replicate_add [of 1024 1 "tiny_frame 0"] by (simp add: tiny_parked_def)
  from reader_alone [OF _ wire fits] obtain ls where "event_run tiny_io ls (tiny_parked 1025) =
      Some ((tiny_parked 1025)\<lparr>el_wire := [tiny_frame 0, tiny_frame 1], el_queue := replicate 1024 zero_Envelope\<rparr>)"
    by (auto simp: tiny_parked_def)
  then have "event_run tiny_io (ls @ [ReadFrame]) (tiny_parked 1025) = Some tiny_stuck"
    by (subst event_run_append) (simp add: tiny_stuck_def, simp add: tiny_parked_def)
  then show ?thesis by (rule event_run_reachable [OF tiny_reachable])
qed

lemma tiny_stuck_stuck: "stuck zero_Envelope 1 0 tiny_stuck"
  by (simp add: stuck_def tiny_stuck_def tiny_parked_def pushing_def demo_socket_def)

section \<open>Properties\<close>

text \<open>
  C35. The dispatch loop handles the events of a connection in the order in which their frames arrived, each once and
  without a gap, whatever the handlers, the other senders and the read loop do in between; at most 1024 wait in the channel. While the
  connection is up nothing is lost: what was not dispatched is in the channel, at the select of the read loop or still
  unread. And the table of waiting senders keeps its invariant.
\<close>

theorem events_dispatched_in_order:
  assumes "reachable (event_init c) (event_step c) s"
  shows "prefix (el_dispatched s) (events_of c (el_arrived s)) \<and> length (el_queue s) \<le> 1024 \<and>
    (\<not> el_done s \<longrightarrow> events_of c (el_arrived s) = el_dispatched s @ el_queue s @ pushing s @ events_of c (el_wire s)) \<and>
    (iter_ok (io_iter c) \<longrightarrow> table_inv (snd (el_conn s)))"
proof -
  have inv: "event_inv c s" by (rule event_loop.reachable_inv [OF assms])
  then obtain lost where lost: "events_of c (el_arrived s) = el_dispatched s @ el_queue s @ pushing s @ lost @ events_of c (el_wire s)"
      "lost = [] \<or> el_reader s = ReaderGone"
    unfolding event_inv_def by blast
  have "prefix (el_dispatched s) (events_of c (el_arrived s))" unfolding lost(1) by simp
  then show ?thesis using inv lost by (auto simp: event_inv_def eventQueueSize_def)
qed

theorem events_dispatched_in_order_witness:
  "prefix (el_dispatched (tiny_parked 2)) (events_of tiny_io (el_arrived (tiny_parked 2))) \<and> length (el_arrived (tiny_parked 2)) = 4"
  using events_dispatched_in_order [OF tiny_reachable [of 2]] by (simp add: tiny_parked_def)

text \<open>
  C36. A handler may wait for a response: as long as the events that arrived before the response fit into the channel, the read loop alone
  gets to it, and the handler wakes with the response, while its own event is still being dispatched.
\<close>

theorem response_passes_waiting_events:
  assumes "iter_ok (io_iter c)" "reachable (event_init c) (event_step c) s"
    and "el_reader s = Reading" "el_wire s = fs @ f # rest" "length (el_queue s) + length (events_of c fs) \<le> 1024"
    and "el_dispatcher s = Parked e cid ch" "sole_pending cid ch (snd (el_conn s))"
    and "wf_kind f = frameEnvelope" "unmarshalEnvelope (io_unmarshal c) f = Inr env" "env_Cid env = cid" "cid \<noteq> 0"
    and "\<forall>g\<in>set fs. \<not> answers (io_unmarshal c) g cid"
  shows "\<exists>ls s'. set ls \<subseteq> {ReadFrame, PushEvent} \<and> event_run c (ls @ [HandlerWake]) s = Some s' \<and> el_dispatcher s' = Handling e \<and>
    map_of (delivered (snd (el_conn s'))) ch = Some (env_response env) \<and> el_wire s' = rest \<and> el_dispatched s' = el_dispatched s"
proof -
  have "table_inv (snd (el_conn s))" using event_loop.reachable_inv [OF assms(2)] assms(1) by (simp add: event_inv_def)
  then show ?thesis by (rule response_passes_core [OF assms(3-5,1) _ assms(6-)])
qed

theorem response_passes_waiting_events_witness:
  "\<exists>ls s'. event_run tiny_io (ls @ [HandlerWake]) (tiny_parked 1000) = Some s' \<and> el_dispatcher s' = Handling zero_Envelope \<and>
     map_of (delivered (snd (el_conn s'))) 0 = Some (env_response (zero_Envelope\<lparr>env_Cid := 1\<rparr>)) \<and> el_dispatched s' = [zero_Envelope]"
proof -
  have "length (el_queue (tiny_parked 1000)) + length (events_of tiny_io (replicate 1000 (tiny_frame 0))) \<le> 1024"
    by (simp add: tiny_parked_def)
  moreover have "\<forall>g\<in>set (replicate 1000 (tiny_frame 0)). \<not> answers (io_unmarshal tiny_io) g 1"
    by (auto simp: answers_def)
  ultimately show ?thesis
    using response_passes_waiting_events [where c = tiny_io and s = "tiny_parked 1000" and fs = "replicate 1000 (tiny_frame 0)" and
        f = "tiny_frame 1" and rest = "[]" and e = zero_Envelope and cid = 1 and ch = 0 and env = "zero_Envelope\<lparr>env_Cid := 1\<rparr>",
        OF _ tiny_reachable]
    by (auto simp: tiny_parked_def demo_facts zero_Envelope_def)
qed

text \<open>
  C37. When the channel is full and the read loop holds one envelope more, a handler that waits for a response cannot get it, even when it has
  arrived: until the handler times out or the connection is closed, no step reads a frame, so that no sender of the connection
  is answered, the heartbeat included, and nothing is dispatched. Such a state is reached when 1025 events arrive between the request
  of a handler and its response. After the timeout the response is read and dropped.
\<close>

theorem full_channel_withholds_responses:
  "(\<forall>c e cid ch s ls s'. stuck e cid ch s \<and> event_run c ls s = Some s' \<and> HandlerTimeout \<notin> set ls \<and> CloseConn \<notin> set ls \<longrightarrow>
      el_dispatcher s' = Parked e cid ch \<and> delivered (snd (el_conn s')) = delivered (snd (el_conn s)) \<and>
      el_dispatched s' = el_dispatched s \<and> prefix (el_wire s) (el_wire s')) \<and>
   (\<exists>s1. reachable (event_init tiny_io) (event_step tiny_io) tiny_stuck \<and> stuck zero_Envelope 1 0 tiny_stuck \<and>
      el_wire tiny_stuck = [tiny_frame 1] \<and> answers (io_unmarshal tiny_io) (tiny_frame 1) 1 \<and>
      event_run tiny_io [HandlerTimeout, HandlerReturn, TakeEvent, PushEvent, ReadFrame] tiny_stuck = Some s1 \<and>
      el_wire s1 = [] \<and> delivered (snd (el_conn s1)) = [])"
proof (intro conjI allI impI; (elim conjE)?)
  fix c e cid ch s ls s'
  assume "stuck e cid ch s" "event_run c ls s = Some s'" "HandlerTimeout \<notin> set ls" "CloseConn \<notin> set ls"
  from stuck_run [OF this] show "el_dispatcher s' = Parked e cid ch" "delivered (snd (el_conn s')) = delivered (snd (el_conn s))"
    "el_dispatched s' = el_dispatched s" "prefix (el_wire s) (el_wire s')" by (auto simp: stuck_def stalled_def)
next
  let ?k = "demo_socket\<lparr>cids := []\<rparr>"
  let ?s1 = "tiny_stuck\<lparr>el_wire := [], el_conn := ([], ?k), el_reader := Reading, el_queue := replicate 1024 zero_Envelope,
    el_dispatcher := Handling zero_Envelope, el_dispatched := [zero_Envelope, zero_Envelope]\<rparr>"
  have "snd (await_response 1 TimedOut demo_socket) = ?k" by (simp add: await_response_def clearCid_def demo_socket_def)
  moreover have "readLoop_frame (io_unmarshal tiny_io) (io_iter tiny_io) (tiny_frame 1) ([], ?k) = (([], ?k), None)"
    by (simp add: readLoop_frame_def takeCid_def zero_Envelope_def)
  moreover have "replicate 1024 zero_Envelope = zero_Envelope # replicate 1023 zero_Envelope" by (simp flip: replicate_Suc)
  moreover have "replicate 1023 zero_Envelope @ [zero_Envelope] = replicate 1024 zero_Envelope"
    using replicate_append_same [of 1023 zero_Envelope] by (simp flip: replicate_Suc)
  ultimately have run: "event_run tiny_io [HandlerTimeout, HandlerReturn, TakeEvent, PushEvent, ReadFrame] tiny_stuck = Some ?s1"
    by (simp add: tiny_stuck_def tiny_parked_def on_socket_def eventQueueSize_def)
  have "answers (io_unmarshal tiny_io) (tiny_frame 1) 1" by (simp add: answers_def zero_Envelope_def)
  then show "\<exists>s1. reachable (event_init tiny_io) (event_step tiny_io) tiny_stuck \<and> stuck zero_Envelope 1 0 tiny_stuck \<and>
      el_wire tiny_stuck = [tiny_frame 1] \<and> answers (io_unmarshal tiny_io) (tiny_frame 1) 1 \<and>
      event_run tiny_io [HandlerTimeout, HandlerReturn, TakeEvent, PushEvent, ReadFrame] tiny_stuck = Some s1 \<and>
      el_wire s1 = [] \<and> delivered (snd (el_conn s1)) = []"
    using run tiny_stuck_reachable tiny_stuck_stuck by (intro exI [of _ ?s1]) (simp add: tiny_stuck_def demo_socket_def)
qed

theorem full_channel_withholds_responses_witness:
  "\<exists>s'. event_run tiny_io [OtherSend zero_Envelope] tiny_stuck = Some s' \<and> el_dispatcher s' = Parked zero_Envelope 1 0 \<and>
     delivered (snd (el_conn s')) = [] \<and> prefix [tiny_frame 1] (el_wire s')"
proof -
  obtain s' where s': "event_run tiny_io [OtherSend zero_Envelope] tiny_stuck = Some s'" by simp
  then have "stuck zero_Envelope 1 0 tiny_stuck \<and> event_run tiny_io [OtherSend zero_Envelope] tiny_stuck = Some s' \<and>
      HandlerTimeout \<notin> set [OtherSend zero_Envelope] \<and> CloseConn \<notin> set [OtherSend zero_Envelope]"
    using tiny_stuck_stuck by auto
  from full_channel_withholds_responses [THEN conjunct1, rule_format, OF this]
  have "el_dispatcher s' = Parked zero_Envelope 1 0 \<and> delivered (snd (el_conn s')) = delivered (snd (el_conn tiny_stuck)) \<and>
      prefix (el_wire tiny_stuck) (el_wire s')" by blast
  then show ?thesis using s' by (intro exI [of _ s']) (simp add: tiny_stuck_def tiny_parked_def demo_socket_def)
qed

end
