(* ===== verification/Scan_Int.thy ===== *)
theory Scan_Int
  imports Example_Bot
begin

text \<open>
  \<^verbatim>\<open>mustID\<close> of the probes under \<^verbatim>\<open>cmd\<close>, which reads an id with \<^verbatim>\<open>fmt.Sscan\<close> where the SDK uses \<^verbatim>\<open>atoiID\<close>: the scanner
  of \<^verbatim>\<open>fmt\<close> and \<^verbatim>\<open>strconv.ParseInt\<close> with base 0. The two agree on the ids that the SDK prints, and differ on others.
\<close>

section \<open>Digits and tokens\<close>

text \<open>The value of a digit or letter; 99 for anything else.\<close>

definition rune_digit :: "rune \<Rightarrow> nat" where
  "rune_digit r = (if 48 \<le> r \<and> r \<le> 57 then r - 48
     else if 97 \<le> lower_rune r \<and> lower_rune r \<le> 122 then lower_rune r - 87 else 99)"

text \<open>What \<^verbatim>\<open>scanNumber\<close> accepts in a base: its digits and the underscore.\<close>

definition scan_accepts :: "nat \<Rightarrow> rune \<Rightarrow> bool" where
  "scan_accepts base r \<longleftrightarrow> r = 95 \<or> rune_digit r < base"

text \<open>The base of a prefix letter, for \<^verbatim>\<open>0b\<close>, \<^verbatim>\<open>0o\<close> and \<^verbatim>\<open>0x\<close>.\<close>

definition prefix_base :: "rune \<Rightarrow> nat option" where
  "prefix_base r = (if lower_rune r = 98 then Some 2 else if lower_rune r = 111 then Some 8
     else if lower_rune r = 120 then Some 16 else None)"

text \<open>\<^verbatim>\<open>scanBasePrefix\<close>: the base whose digits follow, the token so far, the rest, and whether a digit was seen.\<close>

definition scan_base_prefix :: "rune list \<Rightarrow> nat \<times> rune list \<times> rune list \<times> bool" where
  "scan_base_prefix rs = (case rs of
      [] \<Rightarrow> (10, [], [], False)
    | z # rest \<Rightarrow>
        if z \<noteq> 48 then (10, [], rs, False)
        else (case rest of
            [] \<Rightarrow> (8, [z], [], True)
          | r # rest' \<Rightarrow> (case prefix_base r of Some b \<Rightarrow> (b, [z, r], rest', True) | None \<Rightarrow> (8, [z], rest, True))))"

section \<open>strconv\<close>

text \<open>The loop of \<^verbatim>\<open>ParseUint\<close> for base 0, in which underscores are skipped, and their check, whose first argument is what came
  before: a digit, an underscore or something else.\<close>

fun parse_base_loop :: "nat \<Rightarrow> nat \<Rightarrow> rune list \<Rightarrow> num_error + nat" where
  "parse_base_loop base n [] = Inr n"
| "parse_base_loop base n (r # rs) =
     (if r = 95 then parse_base_loop base n rs
      else if base \<le> rune_digit r then Inl ErrSyntax
      else if 2 ^ 64 \<le> n * base + rune_digit r then Inl ErrRange
      else parse_base_loop base (n * base + rune_digit r) rs)"

datatype before = BeforeDigit | BeforeUnderscore | BeforeOther

fun underscore_loop :: "bool \<Rightarrow> before \<Rightarrow> rune list \<Rightarrow> bool" where
  "underscore_loop hex i [] \<longleftrightarrow> i \<noteq> BeforeUnderscore"
| "underscore_loop hex i (r # rs) \<longleftrightarrow>
     (if rune_digit r < (if hex then 16 else 10) then underscore_loop hex BeforeDigit rs
      else if r = 95 then i = BeforeDigit \<and> underscore_loop hex BeforeUnderscore rs
      else i \<noteq> BeforeUnderscore \<and> underscore_loop hex BeforeOther rs)"

definition underscoreOK :: "rune list \<Rightarrow> bool" where
  "underscoreOK s = (case s of
      z # r # rest \<Rightarrow>
        (if z = 48 \<and> prefix_base r \<noteq> None then underscore_loop (prefix_base r = Some 16) BeforeDigit rest
         else underscore_loop False BeforeOther s)
    | _ \<Rightarrow> underscore_loop False BeforeOther s)"

text \<open>The base and the digits of a number without its sign.\<close>

definition split_base :: "rune list \<Rightarrow> nat \<times> rune list" where
  "split_base s = (case s of
      z # rest \<Rightarrow>
        (if z \<noteq> 48 then (10, s)
         else case rest of
            r # d # rest' \<Rightarrow> (case prefix_base r of Some b \<Rightarrow> (b, d # rest') | None \<Rightarrow> (8, rest))
          | _ \<Rightarrow> (8, rest))
    | [] \<Rightarrow> (10, s))"

definition ParseUint0 :: "rune list \<Rightarrow> num_error + nat" where
  "ParseUint0 s =
     (if s = [] then Inl ErrSyntax
      else case split_base s of (base, ds) \<Rightarrow> (case parse_base_loop base 0 ds of
          Inl e \<Rightarrow> Inl e
        | Inr n \<Rightarrow> if 95 \<in> set ds \<and> \<not> underscoreOK s then Inl ErrSyntax else Inr n))"

definition ParseInt0 :: "bool \<Rightarrow> rune list \<Rightarrow> num_error + int64" where
  "ParseInt0 neg s = (case ParseUint0 s of
      Inl e \<Rightarrow> Inl e
    | Inr n \<Rightarrow>
        if neg then (if 2 ^ 63 < n then Inl ErrRange else Inr (word_of_int (- int n)))
        else (if 2 ^ 63 \<le> n then Inl ErrRange else Inr (of_nat n)))"

section \<open>fmt.Sscan\<close>

datatype scan_error = ScanEOF | ExpectedInteger | BadNumber num_error

text \<open>\<^verbatim>\<open>scanInt\<close>: skip the space, a sign, a base prefix, and the longest sequence of digits; what follows is not looked at.\<close>

definition scan_sign :: "rune list \<Rightarrow> bool \<times> rune list" where
  "scan_sign rs = (case rs of [] \<Rightarrow> (False, rs)
     | r # rest \<Rightarrow> if r = 43 then (False, rest) else if r = 45 then (True, rest) else (False, rs))"

definition scan_int64 :: "rune list \<Rightarrow> scan_error + int64" where
  "scan_int64 rs = (case dropWhile is_space rs of
      [] \<Rightarrow> Inl ScanEOF
    | rs \<Rightarrow> (case scan_sign rs of (neg, rs) \<Rightarrow>
        (case scan_base_prefix rs of (base, tok, rest, haveDigits) \<Rightarrow>
          (if \<not> haveDigits \<and> rest = [] then Inl ScanEOF
           else if \<not> haveDigits \<and> \<not> scan_accepts base (hd rest) then Inl ExpectedInteger
           else (case ParseInt0 neg (tok @ takeWhile (scan_accepts base) rest) of
               Inl e \<Rightarrow> Inl (BadNumber e)
             | Inr v \<Rightarrow> Inr v)))))"

definition Sscan_int64 :: "string \<Rightarrow> scan_error + int64" where
  "Sscan_int64 s = scan_int64 (runes s)"

section \<open>Ids that the SDK prints\<close>

lemma rune_of_digit:
  "is_digit c \<Longrightarrow> 48 \<le> (of_char c :: nat) \<and> (of_char c :: nat) \<le> 57 \<and> rune_digit (of_char c) = digit_val c"
  by (simp add: is_digit_def rune_digit_def digit_val_def)

lemma runes_digits: "list_all is_digit s \<Longrightarrow> runes s = map of_char s"
  by (induction s) (simp_all add: runes_ascii is_digit_def)

lemma takeWhile_digits: "list_all is_digit s \<Longrightarrow> takeWhile (scan_accepts 10) (map of_char s) = map of_char s"
  by (induction s) (simp_all add: scan_accepts_def rune_of_digit)

lemma parse_base_digits: "list_all is_digit s \<Longrightarrow> parse_base_loop 10 n (map of_char s) = parse_uint_loop n s"
proof (induction s arbitrary: n)
  case (Cons c s)
  then have "rune_digit (of_char c) = digit_val c" "(of_char c :: nat) \<noteq> 95" "digit_val c < 10" "is_digit c"
    using rune_of_digit [of c] by auto
  then have "\<not> 10 \<le> rune_digit (of_char c)" using digit_val_less [of c] by linarith
  with Cons \<open>rune_digit (of_char c) = digit_val c\<close> \<open>(of_char c :: nat) \<noteq> 95\<close> \<open>is_digit c\<close> show ?case by simp
qed simp

lemma no_underscore: "list_all is_digit s \<Longrightarrow> 95 \<notin> set (map of_char s :: nat list)"
  by (induction s) (auto dest: rune_of_digit)

lemma zero_digit: "(of_char c :: nat) = 48 \<Longrightarrow> c = CHR ''0''"
proof -
  assume "(of_char c :: nat) = 48"
  moreover have "(of_char (CHR ''0'') :: nat) = 48" by simp
  ultimately show ?thesis by (metis char_of_char)
qed

lemma nat_digits_hd: "0 < n \<Longrightarrow> \<exists>c cs. nat_digits n = c # cs \<and> c \<noteq> CHR ''0'' \<and> is_digit c"
proof (induction n rule: nat_digits.induct)
  case (1 n)
  show ?case
  proof (cases "n < 10")
    case True
    then have "nat_digits n = [digit_char n]" by (simp add: nat_digits.simps [of n])
    moreover have "(of_char (digit_char n) :: nat) \<noteq> of_char (CHR ''0'')" using 1 True by simp
    then have "digit_char n \<noteq> CHR ''0''" by fastforce
    ultimately show ?thesis using True by simp
  next
    case False
    then have "nat_digits n = nat_digits (n div 10) @ [digit_char (n mod 10)]" by (simp add: nat_digits.simps [of n])
    moreover have "0 < n div 10" using False by simp
    ultimately show ?thesis using 1(1) [OF False] by auto
  qed
qed

lemma scan_digits:
  assumes "nat_digits n = c # cs" "c \<noteq> CHR ''0''" "n < 2 ^ 64"
  shows "scan_base_prefix (map of_char (nat_digits n)) = (10, [], map of_char (nat_digits n), False)"
    and "takeWhile (scan_accepts 10) (map of_char (nat_digits n)) = map of_char (nat_digits n)"
    and "scan_accepts 10 (of_char c)" and "ParseUint0 (map of_char (nat_digits n)) = Inr n"
proof -
  have d: "list_all is_digit (nat_digits n)" by (auto simp: list_all_iff nat_digits_are_digits)
  have z: "(of_char c :: nat) \<noteq> 48" using assms(2) zero_digit [of c] by blast
  show "scan_base_prefix (map of_char (nat_digits n)) = (10, [], map of_char (nat_digits n), False)"
    using z assms(1) by (simp add: scan_base_prefix_def)
  show "takeWhile (scan_accepts 10) (map of_char (nat_digits n)) = map of_char (nat_digits n)"
    using takeWhile_digits [OF d] .
  show "scan_accepts 10 (of_char c)" using d assms(1) by (simp add: scan_accepts_def rune_of_digit)
  have "split_base (map of_char (nat_digits n)) = (10, map of_char (nat_digits n))"
    using z assms(1) by (simp add: split_base_def)
  then show "ParseUint0 (map of_char (nat_digits n)) = Inr n"
    using parse_base_digits [OF d, of 0] parse_nat_digits [OF assms(3)] no_underscore [OF d] assms(1)
    by (simp add: ParseUint0_def)
qed

lemma scan_sign_digits:
  assumes "nat_digits n = c # cs" "is_digit c"
  shows "scan_sign (map of_char (nat_digits n)) = (False, map of_char (nat_digits n))" and "\<not> is_space (of_char c)"
    and "scan_sign (45 # rs) = (True, rs)" and "\<not> is_space 45" "\<not> is_space 48"
  using assms rune_of_digit [of c] by (auto simp: scan_sign_def is_space_def)

text \<open>
  \<^verbatim>\<open>mustID\<close> reads every id that the SDK prints as \<^verbatim>\<open>atoiID\<close> does, whatever follows that is not a digit, a letter or an
  underscore. It takes a leading zero for an octal number, a base prefix, and trailing garbage, which \<^verbatim>\<open>atoiID\<close> reads otherwise.
\<close>

theorem Sscan_int64_itoaID: "Sscan_int64 (itoaID v) = Inr v"
proof -
  have b: "- (2 ^ 63) \<le> sint v" "sint v < 2 ^ 63" by (rule sint_int64_bounds)+
  consider "v = 0" | "0 < sint v" | "sint v < 0" by (metis linorder_cases signed_eq_0_iff)
  then show ?thesis
  proof cases
    case 1
    then show ?thesis
      by (simp add: itoaID_def Sscan_int64_def scan_int64_def runes_ascii is_space_def scan_sign_def scan_base_prefix_def ParseInt0_def
          ParseUint0_def split_base_def)
  next
    case 2
    then obtain c cs where c: "nat_digits (nat (sint v)) = c # cs" "c \<noteq> CHR ''0''" "is_digit c"
      using nat_digits_hd [of "nat (sint v)"] by auto
    have i: "itoaID v = nat_digits (nat (sint v))" "runes (itoaID v) = map of_char (nat_digits (nat (sint v)))"
      using 2 runes_digits [of "nat_digits (nat (sint v))"]
      by (auto simp: itoaID_def FormatInt_def list_all_iff nat_digits_are_digits)
    have n: "nat (sint v) < 2 ^ 64" "\<not> 2 ^ 63 \<le> nat (sint v)" "of_nat (nat (sint v)) = v" using b 2 by auto
    note s = scan_digits [OF c(1,2) n(1)] scan_sign_digits [OF c(1,3)]
    show ?thesis
      unfolding Sscan_int64_def scan_int64_def i(2) using s n c(1) by (simp add: ParseInt0_def takeWhile_eq_all_conv [THEN iffD2])
  next
    case 3
    then obtain c cs where c: "nat_digits (nat (- sint v)) = c # cs" "c \<noteq> CHR ''0''" "is_digit c"
      using nat_digits_hd [of "nat (- sint v)"] by auto
    have i: "runes (itoaID v) = 45 # map of_char (nat_digits (nat (- sint v)))"
      using 3 runes_digits [of "nat_digits (nat (- sint v))"]
      by (auto simp: itoaID_def FormatInt_def list_all_iff nat_digits_are_digits runes_ascii)
    have n: "nat (- sint v) < 2 ^ 64" "\<not> 2 ^ 63 < nat (- sint v)" "word_of_int (- int (nat (- sint v))) = v" using b 3 by auto
    note s = scan_digits [OF c(1,2) n(1)] scan_sign_digits [OF c(1,3)]
    show ?thesis
      unfolding Sscan_int64_def scan_int64_def i using s n c(1) by (simp add: ParseInt0_def takeWhile_eq_all_conv [THEN iffD2])
  qed
qed

lemma Sscan_int64_differs:
  "Sscan_int64 ''010'' = Inr 8" "atoiID ''010'' = 10" "Sscan_int64 ''0x1F'' = Inr 31" "atoiID ''0x1F'' = 0"
  "Sscan_int64 '' 12 34'' = Inr 12" "atoiID '' 12 34'' = 0" "Sscan_int64 ''1_000'' = Inr 1000" "Sscan_int64 ''1__0'' = Inl (BadNumber ErrSyntax)"
  by (simp_all add: Sscan_int64_def scan_int64_def runes_ascii is_space_def scan_sign_def scan_base_prefix_def ParseInt0_def ParseUint0_def
      split_base_def prefix_base_def lower_rune_def rune_digit_def scan_accepts_def underscoreOK_def
      atoiID_def ParseInt_def parse_sign_def ParseUint_def is_digit_def digit_val_def)

end
