(* ===== verification/Probes.thy ===== *)
theory Probes
  imports Scan_Int
begin

text \<open>
  The probes of a live server under \<^verbatim>\<open>cmd\<close>: \<^verbatim>\<open>logintest\<close> over the client, \<^verbatim>\<open>chantest\<close> and \<^verbatim>\<open>replytest\<close> over the socket and
  the API client. A probe is a call on a run: what was logged, and the state of the client or of the world. A log line is the format
  with its arguments. \<^verbatim>\<open>log.Fatal\<close> logs and exits without running what was deferred; a nil dereference runs it. The
  functions \<open>getenv\<close> and \<open>ParseDuration\<close> are the environment and \<^verbatim>\<open>time.ParseDuration\<close>; sleeping changes nothing.
\<close>

section \<open>Runs\<close>

datatype log_arg =
    AStr string | AInt int | AErr go_error | AScan scan_error | AId string
  | ADesc pb_ChannelDescription | AAck "pb_ChannelMessageAck option" | AChannel "pb_Channel option"

type_synonym log_line = "string \<times> log_arg list"

record 's run =
  rn_log :: "log_line list"
  rn_state :: 's

definition exit_status_1 :: go_error where
  "exit_status_1 = ErrNew ''exit status 1''"

definition Printf :: "string \<Rightarrow> log_arg list \<Rightarrow> ('s run, unit) call" where
  "Printf f as = modify (\<lambda>r. r\<lparr>rn_log := rn_log r @ [(f, as)]\<rparr>)"

definition Fatalf :: "string \<Rightarrow> log_arg list \<Rightarrow> ('s run, 'a) call" where
  "Fatalf f as = and_then (Printf f as) (\<lambda>_. fail exit_status_1)"

lemma log_apply [simp]:
  "Printf f as r = (Inr (), r\<lparr>rn_log := rn_log r @ [(f, as)]\<rparr>)"
  "Fatalf f as r = (Inl exit_status_1, r\<lparr>rn_log := rn_log r @ [(f, as)]\<rparr>)"
  by (simp_all add: Printf_def Fatalf_def and_then_def)

definition on_state :: "('s, 'a) call \<Rightarrow> ('s run, 'a) call" where
  "on_state m r = (case m (rn_state r) of (x, s) \<Rightarrow> (x, r\<lparr>rn_state := s\<rparr>))"

text \<open>\<^verbatim>\<open>if err != nil { log.Fatalf(...) }\<close>, and the same with \<^verbatim>\<open>log.Printf\<close> and the program going on.\<close>

definition or_Fatal :: "('s run, 'a) call \<Rightarrow> string \<Rightarrow> (go_error \<Rightarrow> log_arg list) \<Rightarrow> ('s run, 'a) call" where
  "or_Fatal m f as = and_then (attempt m) (\<lambda>r. case r of Inl e \<Rightarrow> Fatalf f (as e) | Inr x \<Rightarrow> ret x)"

definition or_Printf :: "('s run, 'a) call \<Rightarrow> string \<Rightarrow> (go_error \<Rightarrow> log_arg list) \<Rightarrow> ('a \<Rightarrow> ('s run, unit) call) \<Rightarrow> ('s run, unit) call" where
  "or_Printf m f as k = and_then (attempt m) (\<lambda>r. case r of Inl e \<Rightarrow> Printf f (as e) | Inr x \<Rightarrow> k x)"

definition deferred :: "('s \<Rightarrow> 's) \<Rightarrow> ('s run, 'a) call \<Rightarrow> ('s run, 'a) call" where
  "deferred close m r = (case m r of (x, r) \<Rightarrow> (x, if x = Inl exit_status_1 then r else r\<lparr>rn_state := close (rn_state r)\<rparr>))"

definition env_or :: "(string \<Rightarrow> string) \<Rightarrow> string \<Rightarrow> string \<Rightarrow> string" where
  "env_or getenv k d = (if getenv k = [] then d else getenv k)"

definition sprint :: "int64 \<Rightarrow> string" where
  "sprint v = FormatInt (sint v)"

section \<open>cmd/logintest\<close>

definition warn_if :: "bool \<Rightarrow> string \<Rightarrow> ('s run, unit) call" where
  "warn_if b f = (if b then Printf f [] else ret ())"

definition hl_label :: "int64 \<Rightarrow> string" where
  "hl_label now = ''go-sdk-hltest-'' @ sprint now"

definition logintest_channel :: "'x client_env \<Rightarrow> (string \<Rightarrow> string) \<Rightarrow> addr \<Rightarrow> ('x MezonClient run, unit) call" where
  "logintest_channel env getenv clan =
     and_then (or_Fatal (on_state (Channels_Fetch env (env_or getenv ''MEZON_TEST_CHANNEL'' ''2073273073817096192'')))
         ''fetch reference channel: %v'' (\<lambda>e. [AErr e])) (\<lambda>ref.
     gets (\<lambda>r. channel_at (rn_state r) ref) (\<lambda>ref.
     and_then (Printf ''reference channel %q category=%s'' [AStr (tc_Name ref), AStr (tc_CategoryID ref)]) (\<lambda>_.
     gets (\<lambda>r. hl_label (ce_now env (mc_out (rn_state r)))) (\<lambda>label.
     and_then (or_Fatal (on_state (CreateChannel env clan \<lparr>ccr_Label = label, ccr_Type = 0, ccr_Private = False,
           ccr_CategoryID = tc_CategoryID ref, ccr_UserIDs = [], ccr_ParentID = []\<rparr>))
         ''Clan.CreateChannel: %v'' (\<lambda>e. [AErr e])) (\<lambda>created.
     let chID = sprint (cd_ChannelId created) in
     and_then (Printf ''CREATED via Clan.CreateChannel: id=%s label=%q'' [AStr chID, AStr (cd_ChannelLabel created)]) (\<lambda>_.
     and_then (gets (\<lambda>r. cache_Get (cn_Channels (clan_at (rn_state r) clan)) chID) (\<lambda>c.
         warn_if (c = None) ''WARNING: created channel not in clan cache'')) (\<lambda>_.
     and_then (or_Fatal (on_state (DeleteChannel env clan chID))
         ''Clan.DeleteChannel: %v (channel %s LEFT BEHIND, label %q)'' (\<lambda>e. [AErr e, AStr chID, AStr label])) (\<lambda>_.
     and_then (Printf ''DELETED via Clan.DeleteChannel: id=%s'' [AStr chID]) (\<lambda>_.
     and_then (gets (\<lambda>r. cache_Get (cn_Channels (clan_at (rn_state r) clan)) chID) (\<lambda>c.
         warn_if (c \<noteq> None) ''WARNING: deleted channel still in clan cache'')) (\<lambda>_.
     Printf ''logintest OK'' []))))))))))"

text \<open>\<^verbatim>\<open>Clans.Values\<close> as the pointers that the map gives for the keys in their order.\<close>

definition clan_values :: "'x MezonClient \<Rightarrow> addr option list" where
  "clan_values w = map (cache_Get (mc_Clans w)) (order (mc_Clans w))"

fun log_clans :: "addr option list \<Rightarrow> ('x MezonClient run, unit) call" where
  "log_clans [] = ret ()"
| "log_clans (None # cs) = fail nil_dereference"
| "log_clans (Some a # cs) = gets (\<lambda>r. clan_at (rn_state r) a) (\<lambda>c.
     and_then (Printf ''  clan %s %q welcome=%s'' [AStr (cn_ID c), AStr (cn_Name c), AStr (cn_WelcomeChannelID c)])
       (\<lambda>_. log_clans cs))"

definition logintest_run :: "'x client_env \<Rightarrow> (string \<Rightarrow> string) \<Rightarrow> ('x MezonClient run, unit) call" where
  "logintest_run env getenv =
     and_then (or_Fatal (on_state (Login env idle)) ''Login: %v'' (\<lambda>e. [AErr e])) (\<lambda>_.
     deferred (client_Close env)
      (and_then (gets (\<lambda>r. cache_Size (mc_Clans (rn_state r))) (\<lambda>n. Printf ''Login OK: %d clans cached'' [AInt (int n)])) (\<lambda>_.
       and_then (gets (\<lambda>r. clan_values (rn_state r)) log_clans) (\<lambda>_.
       let clanID = env_or getenv ''MEZON_TEST_CLAN'' ''1975864750969458688''
       in gets (\<lambda>r. cache_Get (mc_Clans (rn_state r)) clanID) (\<lambda>clan. case clan of
            None \<Rightarrow> Fatalf ''clan %s not cached'' [AStr clanID]
          | Some clan \<Rightarrow> logintest_channel env getenv clan)))))"

definition logintest :: "'x client_env \<Rightarrow> (string \<Rightarrow> string) \<Rightarrow> 'x \<Rightarrow> log_line + unit result \<times> 'x MezonClient run" where
  "logintest env getenv x =
     (case NewMezonClient (example_config (getenv ''MEZON_BOT_ID'') (getenv ''MEZON_BOT_TOKEN'')) x of
        Inl e \<Rightarrow> Inl ([], [AErr e])
      | Inr w \<Rightarrow> Inr (logintest_run env getenv \<lparr>rn_log = [], rn_state = w\<rparr>))"

section \<open>logintest never warns\<close>

definition quiet :: "'s run \<Rightarrow> bool" where
  "quiet r \<longleftrightarrow> list_all (\<lambda>l. \<not> prefix ''WARNING'' (fst l)) (rn_log r)"

text \<open>The logic \<open>safe\<close> of the client's calls for runs: no warning is added, and the only failure is the exit.\<close>

definition runs :: "('x MezonClient run, 'a) call \<Rightarrow> 'x MezonClient run \<Rightarrow> ('a \<Rightarrow> 'x MezonClient \<Rightarrow> bool) \<Rightarrow> bool" where
  "runs m r Q \<longleftrightarrow> grown (rn_state r) (rn_state (snd (m r))) \<and> (quiet r \<longrightarrow> quiet (snd (m r))) \<and>
     (\<forall>e. fst (m r) = Inl e \<longrightarrow> e = exit_status_1) \<and> (\<forall>x. fst (m r) = Inr x \<longrightarrow> Q x (rn_state (snd (m r))))"

named_theorems runs_intros \<open>rules of the logic of runs\<close>

lemma runs_ret [runs_intros]: "world_ok (rn_state r) \<Longrightarrow> Q x (rn_state r) \<Longrightarrow> runs (ret x) r Q"
  by (simp add: runs_def grown_refl)

lemma runs_Printf [runs_intros]:
  "world_ok (rn_state r) \<Longrightarrow> \<not> prefix ''WARNING'' f \<Longrightarrow> Q () (rn_state r) \<Longrightarrow> runs (Printf f as) r Q"
  by (simp add: runs_def Printf_def grown_refl quiet_def)

lemma runs_Fatalf [runs_intros]: "world_ok (rn_state r) \<Longrightarrow> \<not> prefix ''WARNING'' f \<Longrightarrow> runs (Fatalf f as) r Q"
  by (simp add: runs_def Fatalf_def Printf_def and_then_def grown_refl quiet_def)

lemma runs_gets [runs_intros]: "runs (m (f r)) r Q \<Longrightarrow> runs (gets f m) r Q"
  by (simp add: runs_def)

lemma runs_and_then:
  assumes "runs m r R" "\<And>x r'. grown (rn_state r) (rn_state r') \<Longrightarrow> world_ok (rn_state r') \<Longrightarrow> R x (rn_state r') \<Longrightarrow> runs (f x) r' Q"
  shows "runs (and_then m f) r Q"
proof (cases "m r")
  case (Pair x r')
  with assms(1) have g: "grown (rn_state r) (rn_state r')" by (simp add: runs_def)
  show ?thesis
  proof (cases x)
    case (Inl e)
    then show ?thesis using assms(1) Pair by (simp add: runs_def and_then_def)
  next
    case (Inr y)
    with assms(1) Pair have "R y (rn_state r')" by (simp add: runs_def)
    then have "runs (f y) r' Q" using assms(2) [OF g] grown_ok [OF g] by blast
    with assms(1) Pair Inr g show ?thesis by (auto simp: runs_def and_then_def intro: grown_trans)
  qed
qed

lemma runs_log:
  assumes "world_ok (rn_state r)" "\<not> prefix ''WARNING'' f"
    and "\<And>r'. rn_state r' = rn_state r \<Longrightarrow> world_ok (rn_state r') \<Longrightarrow> runs (k ()) r' Q"
  shows "runs (and_then (Printf f as) k) r Q"
  using assms by (intro runs_and_then [where R = "\<lambda>_ w. w = rn_state r"] runs_Printf) auto

lemma runs_or_Fatal:
  assumes "safe m (rn_state r) Q" "\<not> prefix ''WARNING'' f"
  shows "runs (or_Fatal (on_state m) f as) r Q"
  using assms by (cases "m (rn_state r)", cases "fst (m (rn_state r))")
    (auto simp: runs_def or_Fatal_def on_state_def attempt_def and_then_def Fatalf_def Printf_def safe_def quiet_def split: prod.splits)

lemma runs_deferred:
  assumes "runs m r Q" "\<And>w. world_ok w \<Longrightarrow> grown w (close w)"
  shows "runs (deferred close m) r (\<lambda>_ _. True)"
  using assms by (auto simp: runs_def deferred_def quiet_def case_prod_unfold intro: grown_trans grown_ok split: sum.splits)

lemma safe_post:
  assumes "safe m w P" "\<And>x w'. m w = (Inr x, w') \<Longrightarrow> Q x w'"
  shows "safe m w Q"
  using assms(1) assms(2) [of "projr (fst (m w))" "snd (m w)"] by (auto simp: safe_def prod_eq_iff)

lemma sprint_itoaID: "sprint v = itoaID v"
  using zero_digit [of "digit_char 0"] by (simp add: sprint_def itoaID_def FormatInt_def nat_digits.simps [of 0])

lemma CreateChannel_cached:
  assumes "world_ok w" "cl < length (h_clans w)"
  shows "safe (CreateChannel env cl d) w (\<lambda>ch w. cl < length (h_clans w) \<and> cache_Get (cn_Channels (clan_at w cl)) (sprint (cd_ChannelId ch)) \<noteq> None)"
proof (rule safe_post [OF CreateChannel_safe [OF assms]])
  fix ch w' assume "CreateChannel env cl d w = (Inr ch, w')"
  then obtain x where "w' = (let c = newTextChannel ch (Some cl) (cn_socket (clan_at w cl)) (w\<lparr>mc_out := x\<rparr>); i = itoaID (cd_ChannelId ch)
      in set_Channels i (fst c) (set_clan_channel cl i (fst c) (snd c)))"
    by (auto simp: CreateChannel_def on_api_def deref_def outside_def Let_def newTextChannel_def alloc_channel_def channel_at_def
        channel_updateFromDesc_def split: if_splits option.splits prod.splits dest!: and_then_InrD)
  then show "cl < length (h_clans w') \<and> cache_Get (cn_Channels (clan_at w' cl)) (sprint (cd_ChannelId ch)) \<noteq> None"
    using assms(2) by (simp add: Let_def newTextChannel_def alloc_channel_def set_Channels_def set_clan_channel_def upd_clan_def clan_at_def sprint_itoaID)
qed

lemma DeleteChannel_gone:
  assumes "world_ok w" "cl < length (h_clans w)"
  shows "safe (DeleteChannel env cl i) w (\<lambda>_ w. cache_Get (cn_Channels (clan_at w cl)) i = None)"
proof (rule safe_post [OF DeleteChannel_safe [OF assms]])
  fix x w' assume "DeleteChannel env cl i w = (Inr x, w')"
  then obtain y where "w' = delete_Channels i (delete_clan_channel cl i (w\<lparr>mc_out := y\<rparr>))"
    by (auto simp: DeleteChannel_def on_api_def deref_def outside_def dest!: and_then_InrD split: option.splits prod.splits)
  then show "cache_Get (cn_Channels (clan_at w' cl)) i = None"
    using assms(2) by (simp add: delete_Channels_def delete_clan_channel_def upd_clan_def clan_at_def cache_Get_Delete_same)
qed

lemma runs_warn_if: "world_ok (rn_state r) \<Longrightarrow> \<not> b \<Longrightarrow> Q () (rn_state r) \<Longrightarrow> runs (warn_if b f) r Q"
  by (simp add: warn_if_def runs_ret)

lemma runs_log_clans: "world_ok (rn_state r) \<Longrightarrow> None \<notin> set cs \<Longrightarrow> runs (log_clans cs) r (\<lambda>_ _. True)"
  by (induction cs arbitrary: r rule: log_clans.induct) (auto intro!: runs_ret runs_gets runs_and_then [OF runs_Printf])

lemma clan_values_some: "world_ok w \<Longrightarrow> None \<notin> set (clan_values w)"
  by (auto simp: clan_values_def world_ok_def caches_ok_def pointers_def cache_inv_def cache_Get_def map_of_eq_None_iff)

lemma runs_logintest_channel:
  assumes "world_ok (rn_state r)" "clan < length (h_clans (rn_state r))"
  shows "runs (logintest_channel env getenv clan) r (\<lambda>_ _. True)"
  unfolding logintest_channel_def Let_def
  using assms
  by (auto intro!: runs_gets runs_and_then [OF runs_or_Fatal [OF Channels_Fetch_safe]] runs_log
      runs_and_then [OF runs_or_Fatal [OF CreateChannel_cached]] runs_and_then [OF runs_or_Fatal [OF DeleteChannel_gone]]
      runs_and_then [OF runs_gets [OF runs_warn_if]] runs_Printf intro: grown_less)

lemma logintest_channel_end: "logintest_channel env getenv clan r = (Inr (), r') \<Longrightarrow> last (rn_log r') = (''logintest OK'', [])"
  unfolding logintest_channel_def Let_def by (auto simp: Printf_def dest!: and_then_InrD)

text \<open>
  Whatever the server and the stores answer, \<^verbatim>\<open>logintest\<close> logs none of its two warnings and follows no nil pointer:
  right after \<^verbatim>\<open>Clan.CreateChannel\<close> the channel is in the cache of the clan under the printed id, and right after
  \<^verbatim>\<open>Clan.DeleteChannel\<close> it is not. It ends normally, with its last line, or exits with status 1. (The probe registers no handlers, and no event
  arrives while it runs.)
\<close>

theorem logintest_never_warns:
  assumes "logintest env getenv x = Inr (res, r)"
  shows "quiet r \<and> world_ok (rn_state r) \<and> (res = Inl exit_status_1 \<or> (res = Inr () \<and> last (rn_log r) = (''logintest OK'', [])))"
proof -
  obtain w where w: "NewMezonClient (example_config (getenv ''MEZON_BOT_ID'') (getenv ''MEZON_BOT_TOKEN'')) x = Inr w"
    and run: "logintest_run env getenv \<lparr>rn_log = [], rn_state = w\<rparr> = (res, r)"
    using assms by (auto simp: logintest_def split: sum.splits)
  have "runs (logintest_run env getenv) \<lparr>rn_log = [], rn_state = w\<rparr> (\<lambda>_ _. True)"
    unfolding logintest_run_def Let_def
    using NewMezonClient_ok [OF w]
    by (auto intro!: runs_and_then [OF runs_or_Fatal [OF Login_safe [OF idle_safe]]] runs_deferred [where Q = "\<lambda>_ _. True"] client_Close_grown runs_gets
        runs_and_then [OF runs_gets [OF runs_Printf]] runs_and_then [OF runs_gets [OF runs_log_clans]] clan_values_some runs_Fatalf
        runs_logintest_channel dest: ok_caches split: option.splits)
  moreover have "last (rn_log r) = (''logintest OK'', [])" if "res = Inr ()"
    using run that by (auto simp: logintest_run_def Let_def deferred_def dest!: and_then_InrD logintest_channel_end
        split: option.splits prod.splits if_splits)
  ultimately show ?thesis
    using run by (cases res) (auto simp: runs_def quiet_def intro: grown_ok)
qed

theorem logintest_never_warns_witness:
  "\<exists>res r. logintest (sample_env zero_ChannelDescription) (\<lambda>_. ''1'') [] = Inr (res, r) \<and> quiet r"
proof -
  obtain res r where "logintest (sample_env zero_ChannelDescription) (\<lambda>_. ''1'') [] = Inr (res, r)"
    by (cases "logintest_run (sample_env zero_ChannelDescription) (\<lambda>_. ''1'')
          \<lparr>rn_log = [], rn_state = projr (NewMezonClient (example_config ''1'' ''1'') [])\<rparr>")
      (simp add: logintest_def NewMezonClient_def example_config_def Let_def)
  with logintest_never_warns [OF this] show ?thesis by blast
qed

section \<open>Connecting without the client\<close>

text \<open>What \<^verbatim>\<open>chantest\<close> and \<^verbatim>\<open>replytest\<close> share: authentication, the session, the address, and a socket (number 0).\<close>

definition NewDefaultSocket :: "string \<Rightarrow> string \<Rightarrow> string \<Rightarrow> bool \<Rightarrow> socket_settings" where
  "NewDefaultSocket wsURL host port useSSL = \<lparr>sk_wsURL = wsURL, sk_host = host, sk_port = port, sk_useSSL = useSSL,
     sk_Transport = TransportDefault, sk_TLSInsecureSkipVerify = False, sk_TcpURL = []\<rparr>"

definition probe_authenticate :: "'x client_env \<Rightarrow> string \<Rightarrow> string \<Rightarrow> ('x run, pb_Session) call" where
  "probe_authenticate env botID token = or_Fatal (on_state (MezonAuthenticate (ce_api env)
     (NewMezonApi (ce_http env) token ''https://gw.mezon.ai:443'' 0) botID token)) ''authenticate: %v'' (\<lambda>e. [AErr e])"

definition probe_session :: "'x client_env \<Rightarrow> pb_Session \<Rightarrow> ('x run, Session) call" where
  "probe_session env ps = gets (\<lambda>r. ce_now env (rn_state r)) (\<lambda>now.
     case NewSession (ce_json_error env) now (ps_Token ps) (ps_RefreshToken ps) (sprint (ps_UserId ps)) (ps_ApiUrl ps) (ps_IdToken ps) (ps_WsUrl ps) of
       Inl e \<Rightarrow> Fatalf ''session: %v'' [AErr e]
     | Inr sess \<Rightarrow> ret sess)"

definition probe_host :: "'x client_env \<Rightarrow> pb_Session \<Rightarrow> ('x run, string \<times> string \<times> bool) call" where
  "probe_host env ps = (case ParseURLToHostAndSSL (ce_url_Parse env) (ps_ApiUrl ps) of
      Inl e \<Rightarrow> Fatalf ''parse api_url: %v'' [AErr e]
    | Inr h \<Rightarrow> ret h)"

definition probe_JoinClanChat :: "'x client_env \<Rightarrow> string \<Rightarrow> ('x run, unit) call" where
  "probe_JoinClanChat env clanID = or_Printf (on_state (JoinClanChat (ce_transmit env 0) clanID))
     ''JoinClanChat(%s): %v (continuing)'' (\<lambda>e. [AStr clanID, AErr e]) (\<lambda>_. ret ())"

definition mustID :: "string \<Rightarrow> ('s run, int64) call" where
  "mustID s = (case Sscan_int64 s of Inl e \<Rightarrow> Fatalf ''bad id %q: %v'' [AStr s, AScan e] | Inr v \<Rightarrow> ret v)"

section \<open>cmd/chantest\<close>

text \<open>Steps 4 to 8 of the probe; \<open>restApi\<close> is attached to the open socket.\<close>

definition chantest_create :: "'x client_env \<Rightarrow> (string \<Rightarrow> string) \<Rightarrow> string \<Rightarrow> 'x MezonApi \<Rightarrow> Session \<Rightarrow> ('x run, string \<times> pb_ChannelDescription) call" where
  "chantest_create env getenv clanID restApi sess =
     (let refChannel = env_or getenv ''MEZON_TEST_CHANNEL'' ''2073273073817096192''
      in and_then (or_Fatal (on_state (ListChannelDetail (ce_api env) restApi (ses_Token sess) refChannel))
          ''ListChannelDetail(%s) for category: %v'' (\<lambda>e. [AStr refChannel, AErr e])) (\<lambda>ref.
      and_then (Printf ''reference channel %s: label=%q category=%d'' [AStr refChannel, AStr (cd_ChannelLabel ref), AInt (sint (cd_CategoryId ref))]) (\<lambda>_.
      gets (\<lambda>r. ''go-sdk-chantest-'' @ sprint (ce_now env (rn_state r))) (\<lambda>label.
      and_then (mustID clanID) (\<lambda>clan.
      and_then (or_Fatal (on_state (CreateChannelDesc (ce_api env) restApi (ses_Token sess)
            (zero_CreateChannelDescRequest\<lparr>ccd_ClanId := clan, ccd_CategoryId := cd_CategoryId ref, ccd_Type := 1, ccd_ChannelLabel := label\<rparr>)))
          ''CreateChannelDesc: %v'' (\<lambda>e. [AErr e])) (\<lambda>created.
      if cd_ChannelId created = 0 then Fatalf ''CreateChannelDesc returned zero channel id: %+v'' [ADesc created]
      else ret (label, created)))))))"

definition chantest_delay :: "(string \<Rightarrow> int64 result) \<Rightarrow> (string \<Rightarrow> string) \<Rightarrow> ('s run, int64) call" where
  "chantest_delay ParseDuration getenv =
     (let v = getenv ''MEZON_TEST_DELAY''
      in if v = [] then ret 15000000000
         else (case ParseDuration v of Inl e \<Rightarrow> Fatalf ''bad MEZON_TEST_DELAY %q: %v'' [AStr v, AErr e] | Inr d \<Rightarrow> ret d))"

definition chantest_delete :: "'x client_env \<Rightarrow> string \<Rightarrow> string \<Rightarrow> string \<Rightarrow> 'x MezonApi \<Rightarrow> Session \<Rightarrow> ('x run, unit) call" where
  "chantest_delete env clanID chID label restApi sess =
     and_then (or_Fatal (on_state (DeleteChannelDesc (ce_api env) restApi (ses_Token sess) clanID chID))
         ''DeleteChannelDesc: %v (channel %s LEFT BEHIND, label %q)'' (\<lambda>e. [AErr e, AStr chID, AStr label])) (\<lambda>_.
     and_then (Printf ''DELETED channel id=%s'' [AStr chID]) (\<lambda>_.
     and_then (or_Printf (on_state (ListChannelDetail (ce_api env) restApi (ses_Token sess) chID))
         ''VERIFIED gone: ListChannelDetail now errors: %v'' (\<lambda>e. [AErr e])
         (\<lambda>gone. if cd_ChannelId gone = 0 then Printf ''VERIFIED gone: ListChannelDetail returns empty description'' []
            else Printf ''WARNING: channel still resolves after delete: id=%d label=%q active=%v''
              [AInt (sint (cd_ChannelId gone)), AStr (cd_ChannelLabel gone), ADesc gone])) (\<lambda>_.
     Printf ''chantest OK'' [])))"

definition chantest_probe :: "'x client_env \<Rightarrow> (string \<Rightarrow> int64 result) \<Rightarrow> (string \<Rightarrow> string) \<Rightarrow> string \<Rightarrow> 'x MezonApi \<Rightarrow> Session \<Rightarrow> ('x run, unit) call" where
  "chantest_probe env ParseDuration getenv clanID restApi sess =
     and_then (chantest_create env getenv clanID restApi sess) (\<lambda>(label, created).
     let chID = sprint (cd_ChannelId created)
     in and_then (Printf ''CREATED channel id=%s label=%q type=%d category=%d'' [AStr chID, AStr (cd_ChannelLabel created),
           AInt (sint (cd_Type created)), AInt (sint (cd_CategoryId created))]) (\<lambda>_.
     and_then (or_Printf (on_state (ListChannelDetail (ce_api env) restApi (ses_Token sess) chID))
         ''verify-after-create ListChannelDetail: %v'' (\<lambda>e. [AErr e])
         (\<lambda>detail. Printf ''VERIFIED exists: id=%d label=%q'' [AInt (sint (cd_ChannelId detail)), AStr (cd_ChannelLabel detail)])) (\<lambda>_.
     and_then (chantest_delay ParseDuration getenv) (\<lambda>delay.
     and_then (Printf ''waiting %s before delete...'' [AInt (sint delay)]) (\<lambda>_.
     chantest_delete env clanID chID label restApi sess)))))"

definition chantest :: "'x client_env \<Rightarrow> (string \<Rightarrow> int64 result) \<Rightarrow> (string \<Rightarrow> string) \<Rightarrow> ('x run, unit) call" where
  "chantest env ParseDuration getenv =
     (let botID = getenv ''MEZON_BOT_ID''; token = getenv ''MEZON_BOT_TOKEN'';
          clanID = env_or getenv ''MEZON_TEST_CLAN'' ''1975864750969458688''
      in if botID = [] \<or> token = [] then Fatalf ''set MEZON_BOT_ID and MEZON_BOT_TOKEN'' []
         else
          and_then (probe_authenticate env botID token) (\<lambda>ps.
          and_then (Printf ''authenticated: user=%d api_url=%s ws_url=%s'' [AInt (sint (ps_UserId ps)), AStr (ps_ApiUrl ps), AStr (ps_WsUrl ps)]) (\<lambda>_.
          and_then (probe_session env ps) (\<lambda>sess.
          and_then (probe_host env ps) (\<lambda>(host, port, useSSL).
          let restApi = NewMezonApi (ce_http env) token (scheme useSSL @ host @ '':'' @ port) 0;
              sock = NewDefaultSocket (ps_WsUrl ps) host port useSSL
          in and_then (or_Fatal (on_state (ce_connect env 0 sock sess True)) ''socket connect: %v'' (\<lambda>e. [AErr e])) (\<lambda>_.
          deferred (ce_close env 0)
           (let restApi = AttachSocket restApi (ce_port env 0)
            in and_then (probe_JoinClanChat env clanID) (\<lambda>_.
               chantest_probe env ParseDuration getenv clanID restApi sess)))))))) "

lemma or_apply:
  "or_Fatal (on_state m) f as r = (case m (rn_state r) of (Inl e, s) \<Rightarrow> (Inl exit_status_1, r\<lparr>rn_state := s, rn_log := rn_log r @ [(f, as e)]\<rparr>)
     | (Inr x, s) \<Rightarrow> (Inr x, r\<lparr>rn_state := s\<rparr>))"
  "or_Printf (on_state m) f as k r = (case m (rn_state r) of (Inl e, s) \<Rightarrow> (Inr (), r\<lparr>rn_state := s, rn_log := rn_log r @ [(f, as e)]\<rparr>)
     | (Inr x, s) \<Rightarrow> k x (r\<lparr>rn_state := s\<rparr>))"
  by (simp_all add: or_Fatal_def or_Printf_def on_state_def attempt_def and_then_def split: prod.splits sum.splits)

lemma or_Fatal_InrD: "or_Fatal (on_state m) f as r = (Inr x, r') \<Longrightarrow> \<exists>s. m (rn_state r) = (Inr x, s) \<and> r' = r\<lparr>rn_state := s\<rparr>"
  by (auto simp: or_apply split: prod.splits sum.splits)

text \<open>
  Once \<^verbatim>\<open>chantest\<close> has created its channel, a run that ends normally has had it deleted under its printed id. But the delay is
  read only after the channel exists: with a \<^verbatim>\<open>MEZON_TEST_DELAY\<close> that cannot be parsed the probe exits after the request that verifies
  the channel, with no request to delete it and no line that says it is left behind.
\<close>

theorem chantest_deletes_unless_delay_is_bad:
  assumes "chantest_create env getenv clanID restApi sess r0 = (Inr (label, created), r1)"
    and "chantest_probe env ParseDuration getenv clanID restApi sess r0 = (res, r)"
  shows "(res = Inr () \<longrightarrow> (\<exists>s s'. DeleteChannelDesc (ce_api env) restApi (ses_Token sess) clanID (itoaID (cd_ChannelId created)) s = (Inr (), s')))
    \<and> (\<forall>v e. getenv ''MEZON_TEST_DELAY'' = v \<and> v \<noteq> [] \<and> ParseDuration v = Inl e \<longrightarrow>
        res = Inl exit_status_1 \<and> last (rn_log r) = (''bad MEZON_TEST_DELAY %q: %v'', [AStr v, AErr e]) \<and>
        rn_state r = snd (ListChannelDetail (ce_api env) restApi (ses_Token sess) (itoaID (cd_ChannelId created)) (rn_state r1)))"
proof (intro conjI impI allI)
  assume "res = Inr ()"
  with assms show "\<exists>s s'. DeleteChannelDesc (ce_api env) restApi (ses_Token sess) clanID (itoaID (cd_ChannelId created)) s = (Inr (), s')"
    by (auto simp: chantest_probe_def chantest_delete_def Let_def sprint_itoaID dest!: and_then_InrD or_Fatal_InrD) blast
next
  fix v e assume "getenv ''MEZON_TEST_DELAY'' = v \<and> v \<noteq> [] \<and> ParseDuration v = Inl e"
  with assms show "res = Inl exit_status_1" "last (rn_log r) = (''bad MEZON_TEST_DELAY %q: %v'', [AStr v, AErr e])"
    "rn_state r = snd (ListChannelDetail (ce_api env) restApi (ses_Token sess) (itoaID (cd_ChannelId created)) (rn_state r1))"
    by (auto simp: chantest_probe_def chantest_delay_def Let_def sprint_itoaID and_then_def or_apply split: prod.splits sum.splits)
qed

section \<open>cmd/replytest\<close>

record pb_AddChannelUsersRequest =
  acu_ChannelId :: int64
  acu_UserIds :: "int64 list"

text \<open>A message to a channel of the clan, with the references of a reply.\<close>

definition probe_message :: "string \<Rightarrow> string \<Rightarrow> bool \<Rightarrow> string \<Rightarrow> MessageRef slice \<Rightarrow> ReplyMessageData" where
  "probe_message clanID channelID isPublic content refs = \<lparr>rmd_ClanID = clanID, rmd_ChannelID = channelID, rmd_ChannelType = 0,
     rmd_Mode = StreamModeChannel, rmd_IsPublic = isPublic, rmd_Content = Text content, rmd_Mentions = None, rmd_Attachments = None,
     rmd_References = refs, rmd_AnonymousMessage = False, rmd_MentionEveryone = False, rmd_Avatar = [], rmd_Code = 0, rmd_TopicID = []\<rparr>"

definition probe_ref :: "string \<Rightarrow> string \<Rightarrow> string \<Rightarrow> MessageRef slice" where
  "probe_ref refID senderID content = Some [zero_go_MessageRef\<lparr>ref_MessageRefID := refID, ref_MessageSenderID := senderID, ref_Content := content\<rparr>]"

definition em_dash :: string where
  "em_dash = [CHR 0xE2, CHR 0x80, CHR 0x94]"

text \<open>Adding the bot to the channel and joining it, unless \<^verbatim>\<open>MEZON_SKIP_JOIN\<close> is set. The codec of the request is \<open>marshal\<close>.\<close>

definition replytest_join ::
  "'x client_env \<Rightarrow> (pb_AddChannelUsersRequest \<Rightarrow> bytes result) \<Rightarrow> (string \<Rightarrow> string) \<Rightarrow> string \<Rightarrow> string \<Rightarrow> string \<Rightarrow> 'x MezonApi \<Rightarrow> Session \<Rightarrow> ('x run, unit) call" where
  "replytest_join env marshal getenv botID clanID channelID restApi sess =
     (if getenv ''MEZON_SKIP_JOIN'' = [] then
        and_then (mustID channelID) (\<lambda>channel.
        and_then (mustID botID) (\<lambda>bot.
        and_then (or_Printf (on_state (Call restApi (ses_Token sess) ''AddChannelUsers'' (Some (marshal \<lparr>acu_ChannelId = channel, acu_UserIds = [bot]\<rparr>)) ((), None)))
            ''AddChannelUsers(self): %v'' (\<lambda>e. [AErr e]) (\<lambda>_. Printf ''AddChannelUsers(self) OK'' [])) (\<lambda>_.
        or_Printf (on_state (JoinChat (ce_transmit env 0) clanID channelID 1 False))
            ''JoinChat(private) after add: %v'' (\<lambda>e. [AErr e]) (\<lambda>ch. Printf ''JoinChat(private) OK: %+v'' [AChannel ch]))))
      else Printf (''MEZON_SKIP_JOIN set '' @ em_dash @ '' relying on WriteChatMessage auto-join retry'') [])"

text \<open>The control test: send and reply in the first public channel of the list. Here \<^verbatim>\<open>ack.MessageId\<close> and \<^verbatim>\<open>rack.MessageId\<close>
  dereference pointers that nobody has compared with nil.\<close>

definition message_id_of :: "pb_ChannelMessageAck option \<Rightarrow> ('s run, int64) call" where
  "message_id_of ack = (case ack of None \<Rightarrow> fail nil_dereference | Some a \<Rightarrow> ret (ack_MessageId a))"

definition public_channel :: "pb_ChannelDescription list \<Rightarrow> pb_ChannelDescription option" where
  "public_channel ds = find (\<lambda>d. cd_ChannelId d \<noteq> 0 \<and> cd_ChannelPrivate d = 0) ds"

definition replytest_send :: "'x client_env \<Rightarrow> string \<Rightarrow> string \<Rightarrow> string \<Rightarrow> ('x run, unit) call" where
  "replytest_send env botID clanID pubID =
     or_Printf (on_state (WriteChatMessage (ce_transmit env 0)
         (probe_message clanID pubID True ''replytest: control send to public channel over TCP'' None)))
       ''control send: %v'' (\<lambda>e. [AErr e]) (\<lambda>ack.
     and_then (message_id_of ack) (\<lambda>i.
     and_then (Printf ''control SENT ok: message_id=%d'' [AInt (sint i)]) (\<lambda>_.
     or_Printf (on_state (WriteChatMessage (ce_transmit env 0) (probe_message clanID pubID True ''replytest: control reply over TCP''
           (probe_ref (sprint i) botID ''{\"t\":\"replytest: control send to public channel over TCP\"}''))))
       ''control reply: %v'' (\<lambda>e. [AErr e]) (\<lambda>rack.
         and_then (message_id_of rack) (\<lambda>j. Printf ''control REPLIED ok: message_id=%d'' [AInt (sint j)])))))"

definition replytest_control :: "'x client_env \<Rightarrow> string \<Rightarrow> string \<Rightarrow> 'x MezonApi \<Rightarrow> Session \<Rightarrow> ('x run, unit) call" where
  "replytest_control env botID clanID restApi sess =
     or_Printf (on_state (ListChannelDescs (ce_api env) restApi (ses_Token sess) 1 clanID 0 0 [] False))
       ''ListChannelDescs(clan): %v'' (\<lambda>e. [AErr e]) (\<lambda>descs.
     case public_channel (cdl_Channeldesc descs) of
       None \<Rightarrow> ret ()
     | Some d \<Rightarrow>
         and_then (Printf ''control: public channel id=%s label=%q'' [AStr (sprint (cd_ChannelId d)), AStr (cd_ChannelLabel d)])
           (\<lambda>_. replytest_send env botID clanID (sprint (cd_ChannelId d))))"

text \<open>The probe proper: send into the private channel and reply to the message. Here a missing answer is looked for.\<close>

definition sent_id :: "string \<Rightarrow> pb_ChannelMessageAck option \<Rightarrow> ('s run, pb_ChannelMessageAck) call" where
  "sent_id f ack = (case ack of
      None \<Rightarrow> Fatalf f [AAck ack]
    | Some a \<Rightarrow> if ack_MessageId a = 0 then Fatalf f [AAck ack] else ret a)"

definition replytest_private :: "'x client_env \<Rightarrow> string \<Rightarrow> string \<Rightarrow> int64 \<Rightarrow> ('x run, unit) call" where
  "replytest_private env clanID channelID userID =
     and_then (or_Fatal (on_state (WriteChatMessage (ce_transmit env 0)
         (probe_message clanID channelID False ''replytest: send over TCP into private channel'' None)))
       ''SEND FAILED (private channel over TCP): %v'' (\<lambda>e. [AErr e])) (\<lambda>ack.
     and_then (sent_id ''send returned empty ack: %+v'' ack) (\<lambda>a.
     let msgID = sprint (ack_MessageId a) in
     and_then (Printf ''SENT ok: message_id=%s channel=%d'' [AStr msgID, AInt (sint (ack_ChannelId a))]) (\<lambda>_.
     and_then (or_Fatal (on_state (WriteChatMessage (ce_transmit env 0) (probe_message clanID channelID False ''replytest: reply over TCP''
           (probe_ref msgID (sprint userID) ''{\"t\":\"replytest: send over TCP into private channel\"}''))))
       ''REPLY FAILED (private channel over TCP): %v'' (\<lambda>e. [AErr e])) (\<lambda>rack.
     and_then (sent_id ''reply returned empty ack: %+v'' rack) (\<lambda>ra.
     and_then (Printf ''REPLIED ok: message_id=%d'' [AInt (sint (ack_MessageId ra))]) (\<lambda>_.
     Printf (''replytest OK '' @ em_dash @ '' private channel send+reply works over TCP'') []))))))"

definition replytest :: "'x client_env \<Rightarrow> (pb_AddChannelUsersRequest \<Rightarrow> bytes result) \<Rightarrow> (string \<Rightarrow> string) \<Rightarrow> ('x run, unit) call" where
  "replytest env marshal getenv =
     (let botID = getenv ''MEZON_BOT_ID''; token = getenv ''MEZON_BOT_TOKEN'';
          clanID = env_or getenv ''MEZON_TEST_CLAN'' ''1975864750969458688'';
          channelID = env_or getenv ''MEZON_TEST_CHANNEL'' ''2073273073817096192''
      in if botID = [] \<or> token = [] then Fatalf ''set MEZON_BOT_ID and MEZON_BOT_TOKEN'' []
         else
          and_then (probe_authenticate env botID token) (\<lambda>ps.
          and_then (Printf ''authenticated: user=%d api_url=%s tcp_url=%s'' [AInt (sint (ps_UserId ps)), AStr (ps_ApiUrl ps), AStr (ps_TcpUrl ps)]) (\<lambda>_.
          and_then (probe_session env ps) (\<lambda>sess.
          let sess = sess\<lparr>ses_TcpURL := ps_TcpUrl ps\<rparr> in
          and_then (probe_host env ps) (\<lambda>(host, port, useSSL).
          let sock = (NewDefaultSocket (ps_WsUrl ps) host port useSSL)\<lparr>sk_TcpURL := ses_TcpURL sess\<rparr>
          in and_then (or_Fatal (on_state (ce_connect env 0 sock sess True)) ''socket connect (TCP): %v'' (\<lambda>e. [AErr e])) (\<lambda>_.
          deferred (ce_close env 0)
           (and_then (probe_JoinClanChat env clanID) (\<lambda>_.
            let restApi = AttachSocket (NewMezonApi (ce_http env) token (''https://'' @ host @ '':'' @ port) 0) (ce_port env 0)
            in and_then (or_Printf (on_state (ListChannelDetail (ce_api env) restApi (ses_Token sess) channelID))
                 ''ListChannelDetail(%s): %v'' (\<lambda>e. [AStr channelID, AErr e])
                 (\<lambda>detail. Printf ''channel detail: id=%d label=%q type=%d private=%d parent=%d'' [AInt (sint (cd_ChannelId detail)),
                    AStr (cd_ChannelLabel detail), AInt (sint (cd_Type detail)), AInt (sint (cd_ChannelPrivate detail)), AInt (sint (cd_ParentId detail))])) (\<lambda>_.
            and_then (replytest_join env marshal getenv botID clanID channelID restApi sess) (\<lambda>_.
            and_then (replytest_control env botID clanID restApi sess) (\<lambda>_.
            replytest_private env clanID channelID (ps_UserId ps)))))))))))) "

lemma exit_not_nil [simp]: "exit_status_1 \<noteq> nil_dereference" "nil_dereference \<noteq> exit_status_1"
  by (simp_all add: exit_status_1_def nil_dereference_def)

text \<open>Calls whose only failure is the exit.\<close>

definition only_exits :: "('s run, 'a) call \<Rightarrow> bool" where
  "only_exits m \<longleftrightarrow> (\<forall>r e. fst (m r) = Inl e \<longrightarrow> e = exit_status_1)"

lemma only_exits_intros:
  "only_exits (Printf f as)" "only_exits (sent_id f ack)" "only_exits (or_Fatal (on_state m) f g)"
  "only_exits m1 \<Longrightarrow> (\<And>x. only_exits (k x)) \<Longrightarrow> only_exits (and_then m1 k)"
  by (auto simp: only_exits_def sent_id_def or_apply fst_and_then split: option.splits if_splits prod.splits sum.splits)

lemma replytest_private_exits: "only_exits (replytest_private env clanID channelID userID)"
  unfolding replytest_private_def Let_def by (intro only_exits_intros)

text \<open>
  \<^verbatim>\<open>WriteChatMessage\<close> returns a nil acknowledgement without an error when the server answers with an envelope of another kind.
  The probe of the private channel looks for it and exits; the control test before it crashes, exactly when one of its two writes is
  answered so.
\<close>

theorem replytest_crashes_without_ack:
  "fst (replytest_private env clanID channelID userID r) \<noteq> Inl nil_dereference \<and>
   (fst (replytest_send env botID clanID pubID r) = Inl nil_dereference \<longleftrightarrow>
     (let transmit = ce_transmit env 0; message = probe_message clanID pubID True
      in case WriteChatMessage transmit (message ''replytest: control send to public channel over TCP'' None) (rn_state r) of
           (Inl _, _) \<Rightarrow> False
         | (Inr None, _) \<Rightarrow> True
         | (Inr (Some ack), s) \<Rightarrow>
             fst (WriteChatMessage transmit (message ''replytest: control reply over TCP'' (probe_ref (itoaID (ack_MessageId ack)) botID
               ''{\"t\":\"replytest: control send to public channel over TCP\"}'')) s) = Inr None))"
  using replytest_private_exits [of env clanID channelID userID, unfolded only_exits_def, rule_format, of r nil_dereference]
  by (auto simp: replytest_send_def or_apply and_then_def message_id_of_def sprint_itoaID Let_def split: prod.splits sum.splits option.splits)

end
