(* ===== verification/End_To_End.thy ===== *)
theory End_To_End
  imports Client_Messages Socket_Correlation
begin

text \<open>
  A write from its caller to the bytes on the wire and back: \<^verbatim>\<open>WriteChatMessage\<close> on the socket, the frame it writes, the bytes the
  gateway sends meanwhile, the read loop that takes them apart, and the sender that wakes up with its response. The theory composes
  \<^verbatim>\<open>Socket_Write\<close>, \<^verbatim>\<open>Socket\<close> and \<^verbatim>\<open>Transport\<close>; it also relates a call that waits to the interleaved steps of \<^verbatim>\<open>Socket_Correlation\<close>.
\<close>

section \<open>Waiting on the wire\<close>

text \<open>What wakes a sender: the response on its channel, if the read loop delivered one.\<close>

definition wake :: "chan_id \<Rightarrow> socket_state \<Rightarrow> wait_outcome" where
  "wake ch s = (case map_of (delivered s) ch of Some r \<Rightarrow> GotResponse r | None \<Rightarrow> TimedOut)"

text \<open>While the sender is parked, bytes arrive in which the read loop finds \<open>n\<close> frames. When the stream cannot be read the
  connection is torn down.\<close>

definition wire_park ::
  "(bytes \<Rightarrow> pb_Envelope result) \<Rightarrow> (cid_table \<Rightarrow> cid_table) \<Rightarrow> streams \<Rightarrow> (bytes list \<Rightarrow> nat \<times> bytes) \<Rightarrow>
   int32 \<Rightarrow> chan_id \<Rightarrow> socket_state \<Rightarrow> wait_outcome \<times> socket_state" where
  "wire_park unmarshal iter st arrives cid ch s =
     (case arrives (written s) of (n, input) \<Rightarrow>
        (case read_n n readFrame input of
           Inl e \<Rightarrow> (ConnDone, s\<lparr>connected := False\<rparr>)
         | Inr (frames, rest) \<Rightarrow>
             (case fst (readLoop unmarshal iter frames (st, s)) of (_, s') \<Rightarrow> (wake ch s', s'))))"

text \<open>A gateway answers what was written with items of the stream.\<close>

definition gateway_bytes :: "(bytes list \<Rightarrow> ((byte \<times> bytes) list \<times> server_frame) list) \<Rightarrow> bytes list \<Rightarrow> nat \<times> bytes" where
  "gateway_bytes gateway w = (length (gateway w), concat (map stream_item_bytes (gateway w)))"

section \<open>The read loop delivers the response\<close>

text \<open>A sender waits for \<open>k\<close>; and it has its response.\<close>

definition pending :: "int32 \<Rightarrow> chan_id \<Rightarrow> socket_state \<Rightarrow> bool" where
  "pending k ch s \<longleftrightarrow> table_inv s \<and> map_of (cids s) k = Some ch"

definition served :: "int32 \<Rightarrow> chan_id \<Rightarrow> socketResponse \<Rightarrow> socket_state \<Rightarrow> bool" where
  "served k ch r s \<longleftrightarrow> table_inv s \<and> map_of (cids s) k = None \<and> map_of (delivered s) ch = Some r"

lemma deliver_simps [simp]:
  "delivered (deliver (Some c) r s) = delivered s @ [(c, r)]" "cids (deliver x r s) = cids s"
  by (simp_all add: deliver_def split: option.splits)

lemma effect_pending:
  assumes "pending k ch s" "frame_effect unmarshal f s s'" "\<not> answers unmarshal f k"
  shows "pending k ch s'"
  using assms frame_effect_inv [of s unmarshal f s']
  by (auto simp: pending_def frame_effect_def AList.delete_conv')

lemma effect_served:
  assumes "served k ch r s" "frame_effect unmarshal f s s'"
  shows "served k ch r s'"
  using assms frame_effect_inv [of s unmarshal f s']
  by (auto simp: served_def frame_effect_def AList.delete_conv' map_add_Some_iff)

lemma servedI:
  assumes "pending k ch s" "table_inv s'" "delivered s' = delivered s @ [(ch, r)]" "cids s' = AList.delete k (cids s)"
  shows "served k ch r s'"
proof -
  have "ch \<in> waiting (cids s)" using assms(1) by (force simp: pending_def waiting_def dest: map_of_SomeD)
  then have "ch \<notin> answered s" using assms(1) by (auto simp: pending_def table_inv_def)
  then have "map_of (delivered s) ch = None" by (simp add: answered_def map_of_eq_None_iff)
  with assms(2-4) show ?thesis by (simp add: served_def AList.delete_conv' map_add_Some_iff)
qed

lemma frame_serves:
  assumes "iter_ok iter" "pending k ch s" "wf_kind f = frameEnvelope" "unmarshalEnvelope unmarshal f = Inr env" "env_Cid env = k" "k \<noteq> 0"
    and "readLoop_frame unmarshal iter f (st, s) = ((st', s'), ev)"
  shows "served k ch (env_response env) s'"
proof -
  have "s' = deliver (Some ch) (env_response env) (s\<lparr>cids := AList.delete k (cids s)\<rparr>)"
    using assms by (simp add: readLoop_frame_def takeCid_def pending_def)
  moreover have "table_inv s'"
    using assms(2) frame_effect_inv readLoop_frame_effect [OF assms(1) _ assms(7)] by (auto simp: pending_def)
  ultimately show ?thesis using servedI [OF assms(2)] by simp
qed

lemma chunk_serves:
  assumes "iter_ok iter" "table_inv s" "sole_pending k ch s" "chunk_of k f" "wf_fin f"
    and "readLoop_frame unmarshal iter f (st, s) = ((st', s'), ev)"
  shows "served k ch (api_response (wf_code f) (concat (stream_of st (wire_cid k)) @ wf_payload f)) s'"
proof -
  have "takeRawCid iter (wf_cid f) (cids s) = (Some ch, AList.delete k (cids s))"
    using takeRawCid_sole [OF assms(1) _ assms(3)] assms(2,4) by (simp add: table_inv_def chunk_of_def)
  then have "cids s' = AList.delete k (cids s)"
    using assms(4-6) by (auto simp: readLoop_frame_def deliverAPIChunk_def chunk_of_def Let_def)
  moreover have "table_inv s'"
    using frame_effect_inv [OF assms(2) readLoop_frame_effect [OF assms(1,2,6)]] .
  moreover have "pending k ch s" using assms(2,3) by (simp add: pending_def sole_pending_def)
  ultimately show ?thesis using servedI chunk_finished [OF assms] by blast
qed

lemma fst_readLoop_Cons: "fst (readLoop unmarshal iter (f # fs) x) = fst (readLoop unmarshal iter fs (fst (readLoop_frame unmarshal iter f x)))"
  by (simp add: Let_def case_prod_unfold)

lemma fst_readLoop_append: "fst (readLoop unmarshal iter (fs @ gs) x) = fst (readLoop unmarshal iter gs (fst (readLoop unmarshal iter fs x)))"
  by (simp add: readLoop_append Let_def case_prod_unfold)

lemma frame_written: "written (snd (fst (readLoop_frame unmarshal iter f x))) = written (snd x)"
  by (cases x, cases "wf_kind f")
    (auto simp: readLoop_frame_def deliverAPIChunk_def deliver_def Let_def split: sum.splits prod.splits option.splits)

lemma loop_written: "written (snd (fst (readLoop unmarshal iter fs x))) = written (snd x)"
  by (induction fs arbitrary: x) (simp_all add: fst_readLoop_Cons frame_written del: readLoop.simps(2))

lemma loop_pending:
  assumes "iter_ok iter" "pending k ch s" "\<forall>f\<in>set fs. \<not> answers unmarshal f k"
  shows "pending k ch (snd (fst (readLoop unmarshal iter fs (st, s))))"
  using assms(2,3)
proof (induction fs arbitrary: st s)
  case (Cons f fs)
  obtain st1 s1 ev where r: "readLoop_frame unmarshal iter f (st, s) = ((st1, s1), ev)" by (metis prod.exhaust)
  have "table_inv s" using Cons.prems(1) by (simp add: pending_def)
  from effect_pending [OF Cons.prems(1) readLoop_frame_effect [OF assms(1) this r]] Cons.prems(2) have "pending k ch s1" by simp
  from Cons.IH [OF this] Cons.prems(2) r show ?case by (simp add: fst_readLoop_Cons del: readLoop.simps)
qed simp

lemma loop_served:
  assumes "iter_ok iter" "served k ch r s"
  shows "served k ch r (snd (fst (readLoop unmarshal iter fs (st, s))))"
  using assms(2)
proof (induction fs arbitrary: st s)
  case (Cons f fs)
  obtain st1 s1 ev where r: "readLoop_frame unmarshal iter f (st, s) = ((st1, s1), ev)" by (metis prod.exhaust)
  have "table_inv s" using Cons.prems by (simp add: served_def)
  from effect_served [OF Cons.prems readLoop_frame_effect [OF assms(1) this r]] Cons.IH [of s1 st1] r show ?case
    by (simp add: fst_readLoop_Cons del: readLoop.simps)
qed simp

lemma loop_serves:
  assumes "iter_ok iter" "pending k ch s" "\<forall>f\<in>set pre. \<not> answers unmarshal f k"
    and "wf_kind f = frameEnvelope" "unmarshalEnvelope unmarshal f = Inr env" "env_Cid env = k" "k \<noteq> 0"
  shows "served k ch (env_response env) (snd (fst (readLoop unmarshal iter (pre @ f # post) (st, s))))"
proof -
  obtain st1 s1 where 1: "fst (readLoop unmarshal iter pre (st, s)) = (st1, s1)" by fastforce
  then have p: "pending k ch s1" using loop_pending [OF assms(1-3), of st] by simp
  obtain st2 s2 ev where 2: "readLoop_frame unmarshal iter f (st1, s1) = ((st2, s2), ev)" by (metis prod.exhaust)
  from loop_served [OF assms(1) frame_serves [OF assms(1) p assms(4-7) 2], of _ post st2] show ?thesis
    by (simp only: fst_readLoop_append fst_readLoop_Cons 1 2 fst_conv)
qed

lemma loop_serves_chunks:
  assumes "iter_ok iter" "table_inv s" "sole_pending k ch s" "stream_of st (wire_cid k) = []"
    and "\<forall>f\<in>set pre. if chunk_of k f then \<not> wf_fin f else \<not> answers unmarshal f k" "chunk_of k f" "wf_fin f"
  shows "served k ch (api_response (wf_code f) (concat (map wf_payload (filter (chunk_of k) pre)) @ wf_payload f))
    (snd (fst (readLoop unmarshal iter (pre @ f # post) (st, s))))"
proof -
  obtain st1 s1 evs where 1: "readLoop unmarshal iter pre (st, s) = ((st1, s1), evs)" by (metis prod.exhaust)
  note c = chunks_collected [OF assms(1-3,5) 1]
  obtain st2 s2 ev where 2: "readLoop_frame unmarshal iter f (st1, s1) = ((st2, s2), ev)" by (metis prod.exhaust)
  have "served k ch (api_response (wf_code f) (concat (stream_of st1 (wire_cid k)) @ wf_payload f)) s2"
    using chunk_serves [OF assms(1) _ _ assms(6,7) 2] c by blast
  moreover have "stream_of st1 (wire_cid k) = map wf_payload (filter (chunk_of k) pre)" using c assms(4) by simp
  ultimately have "served k ch (api_response (wf_code f) (concat (map wf_payload (filter (chunk_of k) pre)) @ wf_payload f)) s2" by simp
  from loop_served [OF assms(1) this, of _ post st2] show ?thesis
    by (simp only: fst_readLoop_append fst_readLoop_Cons 1 2 fst_conv)
qed

lemma pending_send_request:
  assumes "table_inv s" "send_request marshal io kind env s = (Inr (cid, ch), s')"
  shows "cid = nextCid s \<and> pending cid ch s' \<and> connected s"
  using assms table_inv_send_request [OF assms]
  by (auto simp: send_request_def generateCid_def pending_def Let_def IsOpen_def AList.update_conv' split: if_splits sum.splits)

lemma wire_park_served:
  assumes "gateway (written s) = xs" "list_all stream_item_ok xs"
    and "served k ch r (snd (fst (readLoop unmarshal iter (map (server_view \<circ> snd) xs) (st, s))))"
  shows "wire_park unmarshal iter st (gateway_bytes gateway) k ch s =
    (GotResponse r, snd (fst (readLoop unmarshal iter (map (server_view \<circ> snd) xs) (st, s))))"
  using gateway.read_stream [OF assms(2), of "[]"] assms(3)
  by (simp add: assms(1) wire_park_def gateway_bytes_def served_def wake_def case_prod_unfold)

section \<open>A waiting call is a run of interleaved steps\<close>

lemma reachable_frames:
  assumes "reachable socket_init (socket_step marshal io kind unmarshal iter) x"
  shows "reachable socket_init (socket_step marshal io kind unmarshal iter) (fst (readLoop unmarshal iter fs x))"
  using assms
proof (induction fs arbitrary: x)
  case (Cons f fs)
  have "socket_step marshal io kind unmarshal iter x (Frame f) (fst (readLoop_frame unmarshal iter f x))"
    by (rule sock_frame [OF prod.collapse [symmetric]])
  from Cons.IH [OF reachable_step [OF Cons.prems this]] show ?case by (simp add: fst_readLoop_Cons del: readLoop.simps)
qed simp

lemma reachable_park:
  assumes "reachable socket_init (socket_step marshal io kind unmarshal iter) (st, s)" "wire_park unmarshal iter st arrives cid ch s = (w, s')"
  shows "\<exists>st'. reachable socket_init (socket_step marshal io kind unmarshal iter) (st', s')"
proof -
  consider "s' = s\<lparr>connected := False\<rparr>" | frames where "s' = snd (fst (readLoop unmarshal iter frames (st, s)))"
    using assms(2) by (auto simp: wire_park_def case_prod_unfold split: sum.splits prod.splits)
  then show ?thesis
  proof cases
    case 1
    then show ?thesis using reachable_step [OF assms(1) sock_reconnect] by blast
  next
    case (2 frames)
    then show ?thesis using reachable_frames [OF assms(1), of frames] by (metis prod.collapse)
  qed
qed

text \<open>What a call does to the socket while it waits on the wire is one of the interleavings of \<^verbatim>\<open>Socket_Correlation\<close>, so that what holds
  in all of them holds for the calls of \<^verbatim>\<open>Socket_Write\<close> and \<^verbatim>\<open>Rest_Api\<close> on the socket.\<close>

lemma sendResponse_reachable:
  assumes "reachable socket_init (socket_step (se_marshal se) (se_io se) (se_kind se) unmarshal iter) (st, s)"
    and "se_park se = wire_park unmarshal iter st arrives"
    and "sendResponse (se_marshal se) (se_io se) (se_kind se) (se_park se) env s = (r, s')"
  shows "\<exists>st'. reachable socket_init (socket_step (se_marshal se) (se_io se) (se_kind se) unmarshal iter) (st', s')"
proof -
  obtain q s1 where q: "send_request (se_marshal se) (se_io se) (se_kind se) env s = (q, s1)" by fastforce
  have s1: "reachable socket_init (socket_step (se_marshal se) (se_io se) (se_kind se) unmarshal iter) (st, s1)"
    by (rule reachable_step [OF assms(1) sock_request [OF q]])
  show ?thesis
  proof (cases q)
    case (Inl e)
    then show ?thesis using s1 q assms(3) by (auto simp: sendResponse_def)
  next
    case (Inr c)
    obtain w s2 where park: "wire_park unmarshal iter st arrives (fst c) (snd c) s1 = (w, s2)" by fastforce
    from reachable_park [OF s1 park] obtain st2
      where "reachable socket_init (socket_step (se_marshal se) (se_io se) (se_kind se) unmarshal iter) (st2, s2)" by blast
    moreover have "await_response (fst c) w s2 = (r, s')"
      using assms(3) q Inr park by (cases c) (simp add: sendResponse_def assms(2))
    then have "socket_step (se_marshal se) (se_io se) (se_kind se) unmarshal iter (st2, s2) (Wake (fst c) w) (st2, s')"
      by (rule sock_wake)
    ultimately show ?thesis by (metis reachable_step)
  qed
qed

section \<open>A message and its acknowledgement\<close>

text \<open>
  A chat message over TCP, from its caller to the bytes and back. Let the socket be connected, with any other senders waiting,
  and let the gateway answer the frame it gets with any sequence of pongs, chunks of API responses, pushed envelopes and skipped control
  frames, none of which answers the cid of the message, then an envelope with this cid and no error, then anything. Then
  \<^verbatim>\<open>WriteChatMessage\<close> returns the acknowledgement of this envelope, the message was written once, as the abridged frame of its
  marshalled envelope with the cid, the cid is free again, and the whole call was one of the interleavings of senders and read loop.
\<close>

lemma chat_message_acknowledged:
  assumes "iter_ok iter" "reachable socket_init (socket_step (se_marshal se) (se_io se) (se_kind se) unmarshal iter) (st, s)"
    and "connected s" "nextCid s \<noteq> 0" "checked_content (rmd_Content d) = Inr content"
    and "se_marshal se (chat_envelope d content\<lparr>env_Cid := nextCid s\<rparr>) = Inr data" "se_io se (tcp_writeEnvelope data) = None"
    and "se_kind se \<noteq> TransportWebSocket" "se_park se = wire_park unmarshal iter st (gateway_bytes gateway)"
    and "gateway (written s @ [tcp_writeEnvelope data]) = pre @ (cs, SrvEnvelope p) # post" "list_all stream_item_ok (pre @ (cs, SrvEnvelope p) # post)"
    and "\<forall>x\<in>set pre. \<not> answers unmarshal (server_view (snd x)) (nextCid s)"
    and "unmarshal p = Inr resp" "\<forall>i\<in>{1..3}. \<exists>e. unmarshal (p @ replicate i 0) = Inl e"
    and "env_Cid resp = nextCid s" "env_Error resp = None"
  shows "\<exists>s'. WriteChatMessage (socket_transmit se) d s = (Inr (env_ChannelMessageAck resp), s') \<and>
    written s' = written s @ [tcp_writeEnvelope data] \<and> map_of (cids s') (nextCid s) = None \<and>
    (\<exists>st'. reachable socket_init (socket_step (se_marshal se) (se_io se) (se_kind se) unmarshal iter) (st', s'))"
proof -
  let ?env = "chat_envelope d content" and ?fs = "map (server_view \<circ> snd)" and ?f = "server_view (SrvEnvelope p)"
  have inv: "table_inv s" using reachable_table_inv [OF assms(1,2)] by simp
  have noping: "env_Ping ?env = None" by (simp add: chat_envelope_def zero_Envelope_def)
  obtain s1 where send: "send_request (se_marshal se) (se_io se) (se_kind se) ?env s = (Inr (nextCid s, next_chan s), s1)"
    and w: "written s1 = written s @ [tcp_writeEnvelope data]"
    using assms(3,6-8) noping by (simp add: send_request_def generateCid_def IsOpen_def write_request_def Let_def)
  have pend: "pending (nextCid s) (next_chan s) s1" using pending_send_request [OF inv send] by simp
  have f: "wf_kind ?f = frameEnvelope" "unmarshalEnvelope unmarshal ?f = Inr resp"
    using unpad_retry_pads [OF assms(13,14)] abridged_padding_less [of "length p"]
    by (simp_all add: unmarshalEnvelope_def envelope_frame_def)
  define s2 where "s2 = snd (fst (readLoop unmarshal iter (?fs (pre @ (cs, SrvEnvelope p) # post)) (st, s1)))"
  have served: "served (nextCid s) (next_chan s) (env_response resp) s2"
    using loop_serves [OF assms(1) pend _ f assms(15,4), of "?fs pre" "?fs post" st] assms(12) by (simp add: s2_def)
  have park: "se_park se (nextCid s) (next_chan s) s1 = (GotResponse (env_response resp), s2)"
    using wire_park_served [where gateway = gateway and s = s1, OF assms(10) [folded w] assms(11), of _ _ _ unmarshal iter st] served by (simp add: assms(9) s2_def)
  have "written s2 = written s1" by (simp add: s2_def loop_written)
  have q: "sendResponse (se_marshal se) (se_io se) (se_kind se) (se_park se) ?env s = (Inr (env_response resp), s2)"
    using assms(16) by (simp add: sendResponse_def send park await_response_def env_response_def)
  then have "WriteChatMessage (socket_transmit se) d s = (Inr (env_ChannelMessageAck resp), s2)"
    using assms(5) by (simp add: WriteChatMessage_def send_with_join_def socket_transmit_def send_def env_response_def and_then_def)
  then show ?thesis
    using served w \<open>written s2 = written s1\<close> sendResponse_reachable [OF assms(2,9) q] by (simp add: served_def)
qed

section \<open>An API request over the wire\<close>

text \<open>
  C2. An API request from its caller to the wire and back. Let the socket be connected over TCP, in any reachable state in which
  no pending cid shares the low 16 bits of the next one and no chunks are buffered under them, and let the gateway
  answer the frame it gets with the chunks of the response, in order and interleaved with any frames that do not answer this cid, the last
  one with the fin flag and code 0, then anything. Then the request never goes over HTTP, and its result is the decoder's on exactly
  the payloads of the chunks in order; one frame was written, the cid is free again, and the call is one of the interleavings of
  senders and read loop.
\<close>

theorem API_request_over_the_wire:
  assumes "iter_ok iter" "reachable socket_init (socket_step (se_marshal se) (se_io se) (se_kind se) unmarshal iter) (st, s)"
    and "connected s" "\<forall>k. wire_cid k = wire_cid (nextCid s) \<longrightarrow> map_of (cids s) k = None" "stream_of st (wire_cid (nextCid s)) = []"
    and "ma_socket a = Some (port_of_socket se)" "apiIndexFromName name = Some i"
    and "se_marshal se (zero_Envelope\<lparr>env_ApiRequestEvent := Some \<lparr>are_ApiIndex = i, are_ApiName = name, are_Body = body\<rparr>, env_Cid := nextCid s\<rparr>) = Inr data"
    and "se_io se (tcp_writeEnvelope data) = None" "se_kind se \<noteq> TransportWebSocket"
    and "se_park se = wire_park unmarshal iter st (gateway_bytes gateway)"
    and "gateway (written s @ [tcp_writeEnvelope data]) = pre @ (cs, SrvApi (ucast (nextCid s)) 0 True p) # post"
    and "list_all stream_item_ok (pre @ (cs, SrvApi (ucast (nextCid s)) 0 True p) # post)"
    and "\<forall>x\<in>set pre. let f = server_view (snd x) in if chunk_of (nextCid s) f then \<not> wf_fin f else \<not> answers unmarshal f (nextCid s)"
    and "chunks = filter (chunk_of (nextCid s)) (map (server_view \<circ> snd) pre)"
  shows "\<exists>s'. doProto a bearer (api_prefix @ name) (Some (Inr body)) target s =
      (decode_into target (concat (map wf_payload chunks) @ p), s') \<and>
    written s' = written s @ [tcp_writeEnvelope data] \<and> map_of (cids s') (nextCid s) = None \<and>
    (\<exists>st'. reachable socket_init (socket_step (se_marshal se) (se_io se) (se_kind se) unmarshal iter) (st', s'))"
proof -
  let ?env = "zero_Envelope\<lparr>env_ApiRequestEvent := Some \<lparr>are_ApiIndex = i, are_ApiName = name, are_Body = body\<rparr>\<rparr>"
  let ?fs = "map (server_view \<circ> snd)" and ?f = "server_view (SrvApi (ucast (nextCid s)) 0 True p)"
  let ?B = "concat (map wf_payload chunks) @ p"
  have inv: "table_inv s" using reachable_table_inv [OF assms(1,2)] by simp
  obtain s1 where send: "send_request (se_marshal se) (se_io se) (se_kind se) ?env s = (Inr (nextCid s, next_chan s), s1)"
    and w: "written s1 = written s @ [tcp_writeEnvelope data]" and c: "cids s1 = AList.update (nextCid s) (next_chan s) (cids s)"
    using assms(3,8-10) by (simp add: send_request_def generateCid_def IsOpen_def write_request_def zero_Envelope_def Let_def)
  have pend: "pending (nextCid s) (next_chan s) s1" using pending_send_request [OF inv send] by simp
  then have sole: "sole_pending (nextCid s) (next_chan s) s1" "table_inv s1"
    using assms(4) by (auto simp: sole_pending_def pending_def c AList.update_conv')
  have f: "chunk_of (nextCid s) ?f" "wf_fin ?f" by (simp_all add: chunk_of_def wire_cid_def)
  define s2 where "s2 = snd (fst (readLoop unmarshal iter (?fs (pre @ (cs, SrvApi (ucast (nextCid s)) 0 True p) # post)) (st, s1)))"
  have served: "served (nextCid s) (next_chan s) (api_response 0 ?B) s2"
    using loop_serves_chunks [OF assms(1) sole(2,1) assms(5) _ f, of "?fs pre" unmarshal "?fs post"] assms(14)
    by (simp add: s2_def assms(15) Let_def)
  have park: "se_park se (nextCid s) (next_chan s) s1 = (GotResponse (api_response 0 ?B), s2)"
    using wire_park_served [where gateway = gateway and s = s1, OF assms(12) [folded w] assms(13), of _ _ _ unmarshal iter st] served by (simp add: assms(11) s2_def)
  have wr: "written s2 = written s1" by (simp add: s2_def loop_written)
  have q: "sendResponse (se_marshal se) (se_io se) (se_kind se) (se_park se) ?env s = (Inr (api_response 0 ?B), s2)"
    by (simp add: sendResponse_def send park await_response_def api_response_def)
  then have "socket_request se name body s = (Inr ?B, s2)"
    using assms(7) by (simp add: socket_request_def sendApiRequest_def api_response_def)
  moreover have "strip_prefix api_prefix (api_prefix @ name) = Some name" by (simp add: strip_prefix_def)
  ultimately have "doProto a bearer (api_prefix @ name) (Some (Inr body)) target s = (decode_into target ?B, s2)"
    using assms(3,6,7) by (simp add: doProto_def doProtoSocket_def IsOpen_def port_of_socket_def)
  then show ?thesis using served w wr sendResponse_reachable [OF assms(2,11) q] by (simp add: served_def)
qed

definition api_gateway :: "bytes list \<Rightarrow> ((byte \<times> bytes) list \<times> server_frame) list" where
  "api_gateway w = [([], SrvApi 1 0 False [5, 6]), ([(9, [])], SrvPong 7), ([], SrvApi 1 0 True [7])]"

definition api_env :: socket_env where
  "api_env = \<lparr>se_quote = \<lambda>s. s, se_marshal = \<lambda>_. Inr [1, 2, 3, 4], se_io = \<lambda>_. None, se_kind = TransportTCP,
     se_park = wire_park (\<lambda>_. Inl EOF) (\<lambda>m. m) [] (gateway_bytes api_gateway)\<rparr>"

theorem API_request_over_the_wire_witness:
  "\<exists>s'. doProto (AttachSocket (NewMezonApi (\<lambda>_. fail EOF) [] ''https://h'' 0) (port_of_socket api_env)) ''t'' (api_prefix @ ''CreateRole'')
      (Some (Inr [9])) ([], Some Inr) (new_socket_state\<lparr>connected := True\<rparr>) = (Inr [5, 6, 7 :: byte], s')"
proof -
  let ?s = "new_socket_state\<lparr>connected := True\<rparr>" and ?a = "AttachSocket (NewMezonApi (\<lambda>_. fail EOF) [] ''https://h'' 0) (port_of_socket api_env)"
  let ?chunks = "[\<lparr>wf_kind = frameAPIChunk, wf_cid = 1, wf_code = 0, wf_fin = False, wf_payload = [5, 6], wf_padded = False\<rparr>]"
  obtain i where i: "apiIndexFromName ''CreateRole'' = Some i"
    using apiIndexFromName_known [OF endpoints_in_table(10)] by blast
  have ok: "iter_ok (\<lambda>m. m)" by (simp add: iter_ok_def)
  have r: "reachable socket_init (socket_step (se_marshal api_env) (se_io api_env) (se_kind api_env) (\<lambda>_. Inl EOF) (\<lambda>m. m)) ([], ?s)"
    by (rule reachable_step, rule reachable_init, simp add: socket_init_def, rule sock_reconnect)
  have s: "connected ?s" "nextCid ?s = 1" "written ?s = []" "cids ?s = []" by (simp_all add: new_socket_state_def)
  have "\<exists>s'. doProto ?a ''t'' (api_prefix @ ''CreateRole'') (Some (Inr [9])) ([], Some Inr) ?s =
      (decode_into ([], Some Inr) (concat (map wf_payload ?chunks) @ [7]), s') \<and>
    written s' = written ?s @ [tcp_writeEnvelope [1, 2, 3, 4]] \<and> map_of (cids s') (nextCid ?s) = None \<and>
    (\<exists>st'. reachable socket_init (socket_step (se_marshal api_env) (se_io api_env) (se_kind api_env) (\<lambda>_. Inl EOF) (\<lambda>m. m)) (st', s'))"
    by (rule API_request_over_the_wire [OF ok r s(1) _ _ _ i, where gateway = api_gateway and p = "[7]" and post = "[]" and cs = "[]"
          and data = "[1, 2, 3, 4]" and pre = "[([], SrvApi 1 0 False [5, 6]), ([(9, [])], SrvPong 7)]"])
      (auto simp: s api_env_def api_gateway_def AttachSocket_def stream_item_ok_def control_ok_def stream_of_def maxTCPFrameSize_def
        answers_def chunk_of_def wire_cid_def pong_frame_def)
  then show ?thesis by (auto simp: decode_into_def)
qed

section \<open>From the bot to the wire and back\<close>

text \<open>
  C1. \<^verbatim>\<open>Send\<close> from the bot to the bytes on the wire and back. Let the socket of a channel be connected over TCP, in any state that
  senders and read loop can reach, and let the gateway answer the frame it gets with any sequence of pongs, chunks of API
  responses, pushed envelopes and skipped control frames, none of which answers the cid of the message, then an abridged envelope with
  this cid and the acknowledgement of a message id, then anything. Then \<^verbatim>\<open>Send\<close> returns a message with this id and the content that
  was sent, which is found under the id in the channel without a request; one frame was written, the marshalled envelope of the message
  with its cid; the cid is free again, and what happened on the socket is one of the interleavings of \<^verbatim>\<open>Socket_Correlation\<close>.
\<close>

theorem Send_over_the_wire:
  assumes "s = mc_out w" "data = send_data w (channel_at w ch) content (options opts)"
    and "ch < length (h_channels w)" "tc_socket (channel_at w ch) = Some sk" "ce_transmit env sk = socket_transmit se"
    and "iter_ok iter" "reachable socket_init (socket_step (se_marshal se) (se_io se) (se_kind se) unmarshal iter) (st, s)"
    and "connected s" "nextCid s \<noteq> 0" "checked_content content = Inr raw"
    and "se_marshal se (chat_envelope data raw\<lparr>env_Cid := nextCid s\<rparr>) = Inr bytes" "se_io se (tcp_writeEnvelope bytes) = None"
    and "se_kind se \<noteq> TransportWebSocket" "se_park se = wire_park unmarshal iter st (gateway_bytes gateway)"
    and "gateway (written s @ [tcp_writeEnvelope bytes]) = pre @ (cs, SrvEnvelope p) # post" "list_all stream_item_ok (pre @ (cs, SrvEnvelope p) # post)"
    and "\<forall>x\<in>set pre. \<not> answers unmarshal (server_view (snd x)) (nextCid s)"
    and "unmarshal p = Inr resp" "\<forall>i\<in>{1..3}. \<exists>e. unmarshal (p @ replicate i 0) = Inl e"
    and "env_Cid resp = nextCid s" "env_Error resp = None" "env_ChannelMessageAck resp = Some ack" "ack_MessageId ack \<noteq> 0"
  shows "\<exists>m w'. Send env ch content opts w = (Inr m, w') \<and> ms_ID (message_at w' m) = itoaID (ack_MessageId ack) \<and>
    marshalContent content = Inr (ms_Content (message_at w' m)) \<and> Messages_Fetch env ch (itoaID (ack_MessageId ack)) w' = (Inr m, w') \<and>
    written (mc_out w') = written s @ [tcp_writeEnvelope bytes] \<and> map_of (cids (mc_out w')) (nextCid s) = None \<and>
    (\<exists>st'. reachable socket_init (socket_step (se_marshal se) (se_io se) (se_kind se) unmarshal iter) (st', mc_out w'))"
proof -
  have c: "rmd_Content data = content" by (simp add: assms(2) send_data_def)
  obtain s' where s': "WriteChatMessage (ce_transmit env sk) data (mc_out w) = (Inr (Some ack), s')"
    "written s' = written s @ [tcp_writeEnvelope bytes]" "map_of (cids s') (nextCid s) = None"
    "\<exists>st'. reachable socket_init (socket_step (se_marshal se) (se_io se) (se_kind se) unmarshal iter) (st', s')"
    using chat_message_acknowledged [OF assms(6-9) assms(10) [folded c] assms(11-21)] assms(22) by (auto simp: assms(1,5))
  from send_job_outcome [OF assms(3,4) s'(1)] obtain m w' where "send_job env ch data w = (Inr m, w')" "mc_out w' = s'"
    "marshalContent content = Inr (ms_Content (message_at w' m))" "ms_ID (message_at w' m) = itoaID (ack_MessageId ack)"
    "Messages_Fetch env ch (itoaID (ack_MessageId ack)) w' = (Inr m, w')"
    using assms(23) by (auto simp: c)
  with s' show ?thesis by (auto simp: Send_def assms(2))
qed

definition wire_gateway :: "bytes list \<Rightarrow> ((byte \<times> bytes) list \<times> server_frame) list" where
  "wire_gateway w = [([], SrvPong 7), ([(9, [1])], SrvEnvelope [9])]"

definition wire_unmarshal :: "bytes \<Rightarrow> pb_Envelope result" where
  "wire_unmarshal b = (if b = [9] then Inr (zero_Envelope\<lparr>env_Cid := 1, env_ChannelMessageAck := Some (zero_ChannelMessageAck\<lparr>ack_MessageId := 5\<rparr>)\<rparr>) else Inl EOF)"

definition wire_env :: socket_env where
  "wire_env = \<lparr>se_quote = \<lambda>s. s, se_marshal = \<lambda>_. Inr [1, 2, 3, 4], se_io = \<lambda>_. None, se_kind = TransportTCP,
     se_park = wire_park wire_unmarshal (\<lambda>m. m) [] (gateway_bytes wire_gateway)\<rparr>"

definition wire_client_env :: "socket_state client_env" where
  "wire_client_env = \<lparr>ce_connect = \<lambda>_ _ _ _. ret (), ce_transmit = \<lambda>_. socket_transmit wire_env,
     ce_port = \<lambda>_. \<lparr>sp_IsOpen = \<lambda>_. False, sp_request = \<lambda>_ _. fail ErrSocketClosed\<rparr>, ce_close = \<lambda>_ x. x,
     ce_http = \<lambda>_. ret \<lparr>hp_status = 200, hp_body = Inr [0]\<rparr>, ce_api = sample_codec zero_ChannelDescription, ce_marshal_desc = \<lambda>_. Inr [0],
     ce_update = (\<lambda>_. Inr [0], \<lambda>_. Inl EOF), ce_remove = (\<lambda>_. Inr [0], \<lambda>_. Inl EOF),
     ce_store = None, ce_messageDB = None, ce_now = \<lambda>_. 0, ce_json_error = \<lambda>_. EOF, ce_url_Parse = \<lambda>_. Inl EOF\<rparr>"

theorem Send_over_the_wire_witness:
  "let w = client_with wire_client_env (new_socket_state\<lparr>connected := True\<rparr>) zero_ChannelDescription
   in \<exists>m w'. Send wire_client_env 0 ContentNil None w = (Inr m, w') \<and> ms_ID (message_at w' m) = itoaID 5 \<and>
        Messages_Fetch wire_client_env 0 (itoaID 5) w' = (Inr m, w') \<and> length (written (mc_out w')) = 1"
proof -
  let ?s = "new_socket_state\<lparr>connected := True\<rparr>" and ?ack = "zero_ChannelMessageAck\<lparr>ack_MessageId := 5\<rparr>"
  let ?resp = "zero_Envelope\<lparr>env_Cid := 1, env_ChannelMessageAck := Some ?ack\<rparr>"
  define w where "w = client_with wire_client_env ?s zero_ChannelDescription"
  have out: "mc_out w = ?s" "0 < length (h_channels w)" "tc_socket (channel_at w 0) = Some 0"
    by (simp_all add: w_def client_with_caches)
  have t: "ce_transmit wire_client_env 0 = socket_transmit wire_env" by (simp add: wire_client_env_def)
  have ok: "iter_ok (\<lambda>m. m)" by (simp add: iter_ok_def)
  have r: "reachable socket_init (socket_step (se_marshal wire_env) (se_io wire_env) (se_kind wire_env) wire_unmarshal (\<lambda>m. m)) ([], ?s)"
    by (rule reachable_step, rule reachable_init, simp add: socket_init_def, rule sock_reconnect)
  have s: "connected ?s" "nextCid ?s = 1" "written ?s = []" by (simp_all add: new_socket_state_def)
  have no: "\<not> answers wire_unmarshal (pong_frame 7) 1"
    by (simp add: answers_def pong_frame_def wire_cid_def)
  have "\<exists>m w'. Send wire_client_env 0 ContentNil None w = (Inr m, w') \<and> ms_ID (message_at w' m) = itoaID (ack_MessageId ?ack) \<and>
    marshalContent ContentNil = Inr (ms_Content (message_at w' m)) \<and> Messages_Fetch wire_client_env 0 (itoaID (ack_MessageId ?ack)) w' = (Inr m, w') \<and>
    written (mc_out w') = written ?s @ [tcp_writeEnvelope [1, 2, 3, 4]] \<and> map_of (cids (mc_out w')) (nextCid ?s) = None \<and>
    (\<exists>st'. reachable socket_init (socket_step (se_marshal wire_env) (se_io wire_env) (se_kind wire_env) wire_unmarshal (\<lambda>m. m)) (st', mc_out w'))"
    by (rule Send_over_the_wire [OF out(1) [symmetric] refl out(2,3) t ok r s(1) _ demo_content, where gateway = wire_gateway
          and pre = "[([], SrvPong 7)]" and cs = "[(9, [1])]" and p = "[9]" and post = "[]" and bytes = "[1, 2, 3, 4]" and resp = ?resp])
      (auto simp: s(2) wire_env_def wire_gateway_def wire_unmarshal_def stream_item_ok_def control_ok_def no zero_Envelope_def maxTCPFrameSize_def)
  then show ?thesis by (auto simp: Let_def w_def [symmetric] s(3))
qed

end
