(* ===== verification/Spec2Isabelle.thy ===== *)
theory Spec2Isabelle
  imports Go_Ids Transport UTF16 Cache Queue Socket_Correlation Socket_Lifecycle Reconnect Helper Content
    Types Events Socket_Write Session Rest_Api Message_Db Client_Messages Redis_Store Socket_Dial Json_Fuel
    Play_Media Message_Db_Open Example_Bot Lookup_Race Clan_Loading Event_Queue Probes End_To_End
begin

text \<open>
  A verification of the Mezon SDK for Go, the library with which a bot logs in to the Mezon chat service, holds a
  realtime connection to its gateway and reads and writes messages.

  \<^bold>\<open>The program.\<close> A \<^verbatim>\<open>MezonClient\<close> (\<^verbatim>\<open>client.go\<close>) authenticates over HTTP (\<^verbatim>\<open>restapi.go\<close>), reads the token of the session
  (\<^verbatim>\<open>session.go\<close>) and opens a \<^verbatim>\<open>DefaultSocket\<close> (\<^verbatim>\<open>socket.go\<close>) over one of two transports (\<^verbatim>\<open>transport.go\<close>). The socket numbers
  its requests, matches the responses, reassembles chunked API responses and hands everything else to
  \<^verbatim>\<open>socket_dispatch.go\<close>, which emits an event (\<^verbatim>\<open>emitter.go\<close>). Handlers of the client (\<^verbatim>\<open>client_internal.go\<close>) and of the
  application run in that goroutine. Clans, channels, messages and users (\<^verbatim>\<open>clan.go\<close>, \<^verbatim>\<open>channel.go\<close>, \<^verbatim>\<open>message.go\<close>,
  \<^verbatim>\<open>user.go\<close>) are objects that point to each other and live in caches (\<^verbatim>\<open>cache.go\<close>); a channel or user that is not cached is
  looked up in a store that processes share (\<^verbatim>\<open>sharedcache.go\<close>, \<^verbatim>\<open>redisstore\<close>) and then at the server, a message in a
  persistent store (\<^verbatim>\<open>messagestore.go\<close>, \<^verbatim>\<open>messagedb\<close>). Writes go through a queue that limits their rate (\<^verbatim>\<open>queue.go\<close>) and
  through \<^verbatim>\<open>socket_write.go\<close>. When the connection drops the client reconnects and refreshes its state.

  \<^bold>\<open>Modelling.\<close> Machine integers keep their width: \<open>int32\<close>, \<open>int64\<close>, \<open>uint16\<close> and so on are words, Go conversions are
  \<open>of_int32\<close>, \<open>ucast\<close> and \<open>scast\<close>. A Go string and a byte slice are sequences of bytes (\<open>string\<close>, \<open>byte list\<close>), so that
  invalid UTF-8 is a value like any other. Errors are values of \<open>go_error\<close> with the chain that \<^verbatim>\<open>errors.Is\<close> follows, a result
  is \<open>Inl\<close> an error or \<open>Inr\<close> a value, and a call that changes state maps a state to a result and a state
  (\<^verbatim>\<open>Go_Calls\<close>). Maps are association lists with distinct keys; a slice that may be nil is an option.
  Concurrency is modelled where it is the point: as labelled steps between atomic actions (\<^verbatim>\<open>Socket_Correlation\<close>,
  \<^verbatim>\<open>Socket_Lifecycle\<close>, \<^verbatim>\<open>Event_Queue\<close>, \<^verbatim>\<open>Reconnect\<close>, \<^verbatim>\<open>Queue\<close>, \<^verbatim>\<open>Lookup_Race\<close>, \<^verbatim>\<open>Clan_Loading\<close>), with a step relation, inductive or
  from an executable step function, and an invariant over all interleavings. The
  objects of a client are records in heaps indexed by addresses, because the code shares and updates them in place.

  \<^bold>\<open>Theories.\<close>
  \<^item> \<^verbatim>\<open>Mezon_Prelude\<close>: machine types, errors, the stream reader, lemmas on lists and association lists, reachability and the
    locale \<open>step_invariant\<close>. \<^verbatim>\<open>Go_Calls\<close>: calls that fail and change state, and what they keep.
  \<^item> \<^verbatim>\<open>Go_Ids\<close> (\<^verbatim>\<open>types.go\<close>, \<^verbatim>\<open>errors.go\<close>): \<^verbatim>\<open>atoiID\<close>, \<^verbatim>\<open>itoaID\<close> with the semantics of \<^verbatim>\<open>strconv\<close>.
  \<^item> \<^verbatim>\<open>Transport\<close> (\<^verbatim>\<open>transport.go\<close>): all frame encoders and decoders of both transports. A stream of frames is read back frame by
    frame, an envelope survives the padding, every frame read is made of the bytes that were consumed, and no input makes the
    reader allocate more than 64 MiB.
  \<^item> \<^verbatim>\<open>UTF16\<close> (\<^verbatim>\<open>utf16.go\<close>): lengths and mention spans in UTF-16 units, for Go strings with their decoding rules.
  \<^item> \<^verbatim>\<open>Cache\<close> (\<^verbatim>\<open>cache.go\<close>): refinement of a bounded list ordered by age, and \<^verbatim>\<open>Fetch\<close> as memoization.
  \<^item> \<^verbatim>\<open>Queue\<close> (\<^verbatim>\<open>queue.go\<close>): rate and order of the starts for every timing; and the calls of \<^verbatim>\<open>Enqueue\<close>, the goroutine and
    the started jobs as executable steps with the done channels of the calls, a measure of the work left, and that every call is served.
  \<^item> \<^verbatim>\<open>Api_Names\<close>, \<^verbatim>\<open>Proto\<close> (\<^verbatim>\<open>apiname.go\<close>, \<^verbatim>\<open>api\<close>, \<^verbatim>\<open>rtapi\<close>): the table of API names and the messages as records.
  \<^item> \<^verbatim>\<open>Socket\<close>, \<^verbatim>\<open>Socket_Correlation\<close> (\<^verbatim>\<open>socket.go\<close>): correlation ids, waiting senders, reassembly, trial decoding and the read loop; a
    response reaches the sender that asked and only once, in every interleaving.
  \<^item> \<^verbatim>\<open>Socket_Lifecycle\<close>, \<^verbatim>\<open>Socket_Dial\<close> (\<^verbatim>\<open>socket.go\<close>): \<^verbatim>\<open>Connect\<close>, \<^verbatim>\<open>Close\<close> and the loops as goroutines that interleave, how often
    \<^verbatim>\<open>OnDisconnect\<close> runs, with and without overlapping connections; the address that is dialled and the call that dials it.
  \<^item> \<^verbatim>\<open>Reconnect\<close> (\<^verbatim>\<open>client.go\<close>): the retry loop, its back-off and \<^verbatim>\<open>Close\<close>.
  \<^item> \<^verbatim>\<open>Json\<close>, \<^verbatim>\<open>Json_Struct\<close>, \<^verbatim>\<open>Base64\<close>: the parts of \<^verbatim>\<open>encoding/json\<close> and \<^verbatim>\<open>encoding/base64\<close> that the SDK uses, with round
    trips; \<^verbatim>\<open>Json_Fuel\<close>: the fuel of the parser is enough for every input. \<^verbatim>\<open>Content\<close> (\<^verbatim>\<open>content.go\<close>): contents and their length. \<^verbatim>\<open>Types\<close> (\<^verbatim>\<open>types.go\<close>, \<^verbatim>\<open>channelmessage.go\<close>): messages in JSON and
    protobuf form. \<^verbatim>\<open>Session\<close> (\<^verbatim>\<open>session.go\<close>): tokens and expiry.
  \<^item> \<^verbatim>\<open>Helper\<close> (\<^verbatim>\<open>helper.go\<close>, \<^verbatim>\<open>constants.go\<close>): channel types and modes, user ids, URLs, snowflake ids.
  \<^item> \<^verbatim>\<open>Events\<close> (\<^verbatim>\<open>emitter.go\<close>, \<^verbatim>\<open>socket_dispatch.go\<close>): which event an envelope is, and the order of the handlers.
  \<^item> \<^verbatim>\<open>Socket_Write\<close> (\<^verbatim>\<open>socket_write.go\<close>): the write operations with joining and one retry. \<^verbatim>\<open>Rest_Api\<close> (\<^verbatim>\<open>restapi.go\<close>): which
    request goes over the socket and which over HTTP, and every endpoint. \<^verbatim>\<open>Play_Media\<close>: \<^verbatim>\<open>PlayMedia\<close>, which goes to a server of its own.
  \<^item> \<^verbatim>\<open>Message_Db\<close>, \<^verbatim>\<open>Message_Db_Open\<close> (\<^verbatim>\<open>messagedb\<close>, \<^verbatim>\<open>messagestore.go\<close>), \<^verbatim>\<open>Redis_Store\<close> (\<^verbatim>\<open>redisstore\<close>): the two stores;
    messages survive closing and opening the database again.
  \<^item> \<^verbatim>\<open>Client_State\<close>, \<^verbatim>\<open>Shared_Cache\<close>, \<^verbatim>\<open>Structures\<close>, \<^verbatim>\<open>Client\<close>: the state of a client and every operation of \<^verbatim>\<open>sharedcache.go\<close>,
    \<^verbatim>\<open>channelmanager.go\<close>, \<^verbatim>\<open>clan.go\<close>, \<^verbatim>\<open>channel.go\<close>, \<^verbatim>\<open>message.go\<close>, \<^verbatim>\<open>user.go\<close>, \<^verbatim>\<open>client.go\<close> and \<^verbatim>\<open>client_internal.go\<close>.
  \<^item> \<^verbatim>\<open>Client_Invariant\<close>, \<^verbatim>\<open>Client_Safety\<close>: the typing invariant \<open>world_ok\<close> of the heaps, the order \<open>grown\<close> in which a state may
    follow another, a small logic \<open>safe\<close> of calls with one rule per combinator, one lemma per operation, and the
    relation \<open>client_step\<close> of everything a program may do. \<^verbatim>\<open>Client_Properties\<close>, \<^verbatim>\<open>Client_Messages\<close>: what follows for a bot.
  \<^item> \<^verbatim>\<open>End_To_End\<close>: a message from \<^verbatim>\<open>Send\<close> to the bytes on the wire and back, over channel, socket, read loop and transport; an
    API request likewise; and the simulation of a call that waits by the interleaved steps of the socket.
  \<^item> \<^verbatim>\<open>Lookup_Race\<close> (\<^verbatim>\<open>sharedcache.go\<close>, \<^verbatim>\<open>cache.go\<close>): lookups of one channel in several goroutines; run alone, the steps are
    \<^verbatim>\<open>upsertChannel\<close> of the client.
  \<^item> \<^verbatim>\<open>Clan_Loading\<close> (\<^verbatim>\<open>clan.go\<close>): \<^verbatim>\<open>LoadChannels\<close>, \<^verbatim>\<open>ReloadChannels\<close> and \<^verbatim>\<open>DeleteChannel\<close> in several goroutines, on the state of the client;
    the mutex excludes, the list is received once, alone each goroutine is its operation, and what an operation does to the caches.
  \<^item> \<^verbatim>\<open>Event_Queue\<close> (\<^verbatim>\<open>socket.go\<close>): the read loop and the dispatch loop with the channel between them, and handlers that send and wait: order,
    and when a response passes the events that wait.
  \<^item> \<^verbatim>\<open>Example_Bot\<close> (\<^verbatim>\<open>example/main.go\<close>): the example program on top of the client, what it answers and that it runs safely.
  \<^item> \<^verbatim>\<open>Scan_Int\<close>, \<^verbatim>\<open>Probes\<close> (\<^verbatim>\<open>cmd\<close>): how the probes read ids, and the probes as calls that log; a logic of runs on top of \<open>safe\<close>.

  \<^bold>\<open>Interfaces.\<close> \<open>step_invariant\<close> (an invariant over reachable states) is interpreted on the queue, the reconnection, the
  life cycle (\<open>lifecycle\<close>, \<open>orderly\<close>) and the lookups (\<open>loaded\<close>, \<open>serial\<close>),
  the loading of clans (\<open>loading\<close>, \<open>loading_once\<close>) and the event queue (\<open>event_loop\<close>); \<open>ordered_cache\<close> on the cache; \<open>frame_codec\<close> on the gateway's frames and
  on the client's; \<open>message_store\<close> on the message database; \<open>sqlite_files\<close>, what SQLite promises, on files in memory (\<open>files\<close>);
  \<open>shared_store\<close>, the contract of the shared store with what the client concludes from it, follows by
  \<open>sublocale\<close> from \<open>redis_server\<close>, the documented behaviour of Redis, for every prefix, and that is interpreted on a server
  in memory with expiry times.

  \<^bold>\<open>Bounds and fuel.\<close> The waiting loop of the queue polls every 10 ms for a window of one second, so that 101 polls are
  enough for a monotone clock; this is part of the termination theorem. The JSON parser recurses with fuel twice
  the length of its input plus two, since a value takes at most two units per character, which is proved enough for
  every input (more fuel never changes the result), and fails at a nesting of 10000 as \<^verbatim>\<open>encoding/json\<close> does. Trial
  decoding removes up to three zero bytes, and \<^verbatim>\<open>connectSocket\<close> makes five retry rounds, as in the code. All other recursion is
  structural or has a measure.

  \<^bold>\<open>Parameters.\<close> What lies outside the repository is an argument of the model: the protobuf codec (\<open>api_codec\<close>, \<open>list_codec\<close>, the
  decoder of envelopes), the HTTP client, the WebSocket library, \<^verbatim>\<open>url.Parse\<close>, the texts of JSON errors, the stores, clocks, the
  server and the handlers of the application. A theorem names what it needs of them as a hypothesis, and its
  witness instantiates them.

  \<^bold>\<open>Not modelled, and why.\<close> Sleeping is time without effect on the state. The generated code of \<^verbatim>\<open>api.pb.go\<close> and \<^verbatim>\<open>realtime.pb.go\<close> is
  represented by the records of the messages only. \<^verbatim>\<open>tools\<close> is a JavaScript program that reconstructs the protobuf definitions. Within the client, operations run one after the other: races between the
  dispatch goroutine and the goroutines of a bot on the fields of the objects are not modelled, except where the theories
  above interleave steps. A write is followed through the queue in two parts, its call, start and result (\<^verbatim>\<open>Queue\<close>) and what the job
  sends (\<^verbatim>\<open>End_To_End\<close>); the order in which jobs that run at the same time reach the socket is left open, as the scheduler leaves it.

  \<^bold>\<open>Flaws.\<close> Some theorems show how the code fails: a correlation id that stays behind after a teardown and takes the response
  of a later request (\<^verbatim>\<open>Socket_Correlation\<close>), a stale \<^verbatim>\<open>markDisconnected\<close> that marks a new connection as closed and one that reports the same connection twice (\<^verbatim>\<open>Socket_Lifecycle\<close>), a
  \<^verbatim>\<open>Close\<close> that does not stop a retry and a drop during the initialisation that ends all retries (\<^verbatim>\<open>Reconnect\<close>), snowflake ids
  that repeat within a millisecond (\<^verbatim>\<open>Helper\<close>), a request that is repeated over HTTP after a timeout (\<^verbatim>\<open>Rest_Api\<close>), channels that
  keep their old socket after a second login and a deleted channel that comes back from the shared store
  (\<^verbatim>\<open>Client_Properties\<close>), lookups that overlap and return two objects for one channel (\<^verbatim>\<open>Lookup_Race\<close>), a reload that brings
  back a channel deleted meanwhile (\<^verbatim>\<open>Clan_Loading\<close>), a full event channel that withholds the response its handler waits for (\<^verbatim>\<open>Event_Queue\<close>), an error status that
  \<^verbatim>\<open>PlayMedia\<close> takes for an answer (\<^verbatim>\<open>Play_Media\<close>), and an IPv6 address in brackets that is dialled in two pairs of them
  (\<^verbatim>\<open>Socket_Dial\<close>); of the probes, one leaves its channel behind and one crashes without an acknowledgement (\<^verbatim>\<open>Probes\<close>).
\<close>

end
